(* ===== verification/Prelude.thy ===== *)
theory Prelude
  imports Main "HOL-Library.Word"
begin

text \<open>
  Shared vocabulary of the development.

  \<^item> Bytes, byte strings and the fixed-width integers of the code. A Rust \<open>&str\<close> or
    \<open>String\<close> is its UTF-8 byte string, so \<open>len()\<close> is the length of the list.
  \<^item> \<open>'a res\<close>: what a Rust function of type \<open>Result<T, Error>\<close> can do: return \<open>Ok\<close>,
    return \<open>Err\<close>, or panic (an index or slice out of range). \<open>rbind\<close> is the \<open>?\<close>
    operator.
  \<^item> \<open>error\<close> and \<open>server_error\<close>: \<open>src/error.rs\<close>. A message built with \<open>format!\<close> is
    its format template without quotation marks; the interpolated values are dropped.
  \<^item> \<open>ext\<close>: the third-party functions the code calls (UTF-8 validation of the simdutf8
    crate, the hash, MAC and key derivation crates, base64), as parameters.
  \<^item> Big-endian encoding of words and its round trips, and the other facts on byte lists the
    components share, collected in \<open>res_simps\<close> and \<open>be_simps\<close>.
\<close>

named_theorems res_simps \<open>case analysis of results\<close>
named_theorems be_simps \<open>big-endian encodings\<close>

type_synonym byte = "8 word"
type_synonym bytes = "8 word list"
type_synonym str = "8 word list"
type_synonym i16 = "16 word"
type_synonym u16 = "16 word"
type_synonym i32 = "32 word"
type_synonym u32 = "32 word"
type_synonym i64 = "64 word"
type_synonym u64 = "64 word"

text \<open>The bytes of an ASCII literal, as Rust's \<open>b"..."\<close>.\<close>

definition ascii :: "string \<Rightarrow> bytes" where
  "ascii s = map of_char s"

section \<open>Errors and results (src/error.rs)\<close>

datatype io_kind = UnexpectedEof | WriteFailed | OtherIo

text \<open>\<open>ServerError(HashMap<u8, String>)\<close>: field code to value.\<close>

datatype server_error = ServerError (fields: "byte \<rightharpoonup> str")

datatype error =
    Server server_error
  | LibraryBug string
  | Io io_kind
  | Auth string
  | Tls
  | ConnectionBroken
  | InvalidUsage string
  | Unsupported string
  | Decode string
  | Encode string

definition field_SEVERITY :: byte where [simp]: "field_SEVERITY = 83"
definition field_SEVERITY_V :: byte where [simp]: "field_SEVERITY_V = 86"
definition field_CODE :: byte where [simp]: "field_CODE = 67"
definition field_MESSAGE :: byte where [simp]: "field_MESSAGE = 77"

text \<open>\<open>self.0.get(&..).map(|s| s.as_str()).unwrap_or_default()\<close>\<close>

definition severity_localized :: "server_error \<Rightarrow> str" where
  "severity_localized e = (case fields e field_SEVERITY of Some s \<Rightarrow> s | None \<Rightarrow> [])"

definition severity_english :: "server_error \<Rightarrow> str" where
  "severity_english e = (case fields e field_SEVERITY_V of Some s \<Rightarrow> s | None \<Rightarrow> [])"

definition server_error_code :: "server_error \<Rightarrow> str" where
  "server_error_code e = (case fields e field_CODE of Some s \<Rightarrow> s | None \<Rightarrow> [])"

definition server_error_message :: "server_error \<Rightarrow> str" where
  "server_error_message e = (case fields e field_MESSAGE of Some s \<Rightarrow> s | None \<Rightarrow> [])"

text \<open>\<open>Error::is_connection_broken\<close>: conservative, only errors known to be safe are not broken.\<close>

fun is_connection_broken :: "error \<Rightarrow> bool" where
  "is_connection_broken (Server e) =
     (severity_english e = ascii ''FATAL'' \<or> severity_english e = ascii ''PANIC'')"
| "is_connection_broken (Decode _) = False"
| "is_connection_broken (Encode _) = False"
| "is_connection_broken (InvalidUsage _) = False"
| "is_connection_broken _ = True"

text \<open>\<open>Error::sqlstate\<close>\<close>

fun sqlstate :: "error \<Rightarrow> str option" where
  "sqlstate (Server e) = Some (server_error_code e)"
| "sqlstate _ = None"

text \<open>\<open>Error::overflow\<close> and \<open>Error::type_mismatch\<close>: both are encode errors.\<close>

definition overflow_error :: error where
  "overflow_error = Encode ''value overflow: cannot convert {} to {}''"

definition type_mismatch :: "u32 \<Rightarrow> u32 \<Rightarrow> error" where
  "type_mismatch value_oid target_oid =
     Encode ''type mismatch: value has OID {} but target expects OID {}''"

datatype 'a res = Ok 'a | Err error | Panic

fun rbind :: "'a res \<Rightarrow> ('a \<Rightarrow> 'b res) \<Rightarrow> 'b res" where
  "rbind (Ok x) f = f x"
| "rbind (Err e) f = Err e"
| "rbind Panic f = Panic"

fun rmap :: "('a \<Rightarrow> 'b) \<Rightarrow> 'a res \<Rightarrow> 'b res" where
  "rmap f (Ok x) = Ok (f x)"
| "rmap f (Err e) = Err e"
| "rmap f Panic = Panic"

text \<open>\<open>o.ok_or(e)\<close>\<close>

fun ok_or :: "'a option \<Rightarrow> error \<Rightarrow> 'a res" where
  "ok_or (Some x) e = Ok x"
| "ok_or None e = Err e"

lemma rbind_eq_Ok [res_simps]: "rbind m f = Ok y \<longleftrightarrow> (\<exists>x. m = Ok x \<and> f x = Ok y)"
  by (cases m) auto

lemma rbind_eq_Err [res_simps]:
  "rbind m f = Err e \<longleftrightarrow> m = Err e \<or> (\<exists>x. m = Ok x \<and> f x = Err e)"
  by (cases m) auto

lemma rbind_eq_Panic [res_simps]:
  "rbind m f = Panic \<longleftrightarrow> m = Panic \<or> (\<exists>x. m = Ok x \<and> f x = Panic)"
  by (cases m) auto

lemma rmap_eq_Ok [res_simps]: "rmap f m = Ok y \<longleftrightarrow> (\<exists>x. m = Ok x \<and> y = f x)"
  by (cases m) auto

lemma rmap_eq_Err [res_simps]: "rmap f m = Err e \<longleftrightarrow> m = Err e"
  by (cases m) auto

lemma rmap_eq_Panic [res_simps]: "rmap f m = Panic \<longleftrightarrow> m = Panic"
  by (cases m) auto

lemma ok_or_eq [res_simps]:
  "ok_or opt e = Ok x \<longleftrightarrow> opt = Some x"
  "ok_or opt e = Err e' \<longleftrightarrow> opt = None \<and> e' = e"
  "ok_or opt e \<noteq> Panic"
  by (cases opt; auto)+

lemma rbind_cong [fundef_cong]:
  "m = m' \<Longrightarrow> (\<And>x. m' = Ok x \<Longrightarrow> f x = g x) \<Longrightarrow> rbind m f = rbind m' g"
  by (cases m') auto

text \<open>The \<open>?\<close> operator where the state \<open>s\<close> has been changed before it.\<close>

definition rtry :: "'a res \<Rightarrow> 's \<Rightarrow> ('a \<Rightarrow> 'b res \<times> 's) \<Rightarrow> 'b res \<times> 's" where
  "rtry m s k = (case m of Ok x \<Rightarrow> k x | Err e \<Rightarrow> (Err e, s) | Panic \<Rightarrow> (Panic, s))"

lemma rtry_simps [simp]:
  "rtry (Ok x) s k = k x" "rtry (Err e) s k = (Err e, s)" "rtry Panic s k = (Panic, s)"
  by (simp_all add: rtry_def)

lemma rtry_cases [consumes 1, case_names Ok Err Panic]:
  assumes "rtry m s k = r"
  obtains (Ok) x where "m = Ok x" "k x = r"
    | (Err) e where "m = Err e" "r = (Err e, s)"
    | (Panic) "m = Panic" "r = (Panic, s)"
  using assms by (cases m) auto

lemma rtry_split:
  "P (rtry m s k) \<longleftrightarrow> (\<forall>x. m = Ok x \<longrightarrow> P (k x)) \<and> (\<forall>e. m = Err e \<longrightarrow> P (Err e, s)) \<and>
     (m = Panic \<longrightarrow> P (Panic, s))"
  by (cases m) auto

lemma rtry_split_asm:
  "P (rtry m s k) \<longleftrightarrow> \<not> ((\<exists>x. m = Ok x \<and> \<not> P (k x)) \<or> (\<exists>e. m = Err e \<and> \<not> P (Err e, s)) \<or>
     (m = Panic \<and> \<not> P (Panic, s)))"
  by (cases m) auto

lemmas rtry_splits = rtry_split rtry_split_asm

text \<open>Slicing \<open>&data[..n]\<close> and \<open>&data[n..]\<close>: a panic when \<open>n\<close> is out of range.\<close>

definition slice_to :: "bytes \<Rightarrow> nat \<Rightarrow> bytes res" where
  "slice_to data n = (if n \<le> length data then Ok (take n data) else Panic)"

definition slice_from :: "bytes \<Rightarrow> nat \<Rightarrow> bytes res" where
  "slice_from data n = (if n \<le> length data then Ok (drop n data) else Panic)"

section \<open>Third-party functions\<close>

text \<open>
  \<open>x_utf8 b\<close>: \<open>simdutf8::compat::from_utf8(b)\<close> accepts \<open>b\<close>. \<open>x_hmac key msg\<close> is \<open>None\<close>
  when the MAC rejects its key. \<open>x_b64_decode\<close> is \<open>None\<close> on invalid base64.
\<close>

record ext =
  x_utf8 :: "bytes \<Rightarrow> bool"
  x_md5 :: "bytes \<Rightarrow> bytes"
  x_sha256 :: "bytes \<Rightarrow> bytes"
  x_hmac :: "bytes \<Rightarrow> bytes \<Rightarrow> bytes option"
  x_pbkdf2 :: "bytes \<Rightarrow> bytes \<Rightarrow> u32 \<Rightarrow> bytes"
  x_b64_encode :: "bytes \<Rightarrow> str"
  x_b64_decode :: "str \<Rightarrow> bytes option"

section \<open>Big-endian encoding\<close>

definition be_nat :: "bytes \<Rightarrow> nat" where
  "be_nat bs = foldl (\<lambda>acc b. acc * 256 + unat b) 0 bs"

fun nat_be :: "nat \<Rightarrow> nat \<Rightarrow> bytes" where
  "nat_be 0 x = []"
| "nat_be (Suc n) x = nat_be n (x div 256) @ [word_of_nat x]"

definition to_be_bytes :: "'a::len word \<Rightarrow> bytes" where
  "to_be_bytes w = nat_be (LENGTH('a) div 8) (unat w)"

definition from_be_bytes :: "bytes \<Rightarrow> 'a::len word" where
  "from_be_bytes bs = word_of_nat (be_nat bs)"

lemma length_nat_be [simp]: "length (nat_be n x) = n"
  by (induction n arbitrary: x) auto

lemma be_nat_Nil [simp]: "be_nat [] = 0"
  by (simp add: be_nat_def)

lemma be_nat_snoc [simp]: "be_nat (bs @ [b]) = be_nat bs * 256 + unat b"
  by (simp add: be_nat_def)

lemma unat_byte_less: "unat (b :: byte) < 256"
proof -
  have "unat b < 2 ^ LENGTH(8)" by (rule unsigned_less)
  then show ?thesis by simp
qed

lemma unat_byte_of_nat: "unat (word_of_nat x :: byte) = x mod 256"
  by (simp add: unat_of_nat)

lemma be_nat_nat_be [be_simps]: "be_nat (nat_be n x) = x mod 256 ^ n"
proof (induction n arbitrary: x)
  case 0
  then show ?case by simp
next
  case (Suc n)
  have "x mod (256 * 256 ^ n) = 256 * (x div 256 mod 256 ^ n) + x mod 256"
    by (rule mod_mult2_eq)
  then show ?case by (simp add: Suc.IH unat_byte_of_nat)
qed

lemma nat_be_be_nat: "length bs = n \<Longrightarrow> nat_be n (be_nat bs) = bs"
proof (induction bs arbitrary: n rule: rev_induct)
  case Nil
  then show ?case by simp
next
  case (snoc b bs)
  then obtain m where m: "n = Suc m" "length bs = m" by auto
  have "unat b < 256" by (rule unat_byte_less)
  then have "(be_nat bs * 256 + unat b) div 256 = be_nat bs" by simp
  moreover have "(word_of_nat (be_nat bs * 256 + unat b) :: byte) = b"
  proof (rule unsigned_word_eqI)
    show "unat (word_of_nat (be_nat bs * 256 + unat b) :: byte) = unat b"
      using \<open>unat b < 256\<close> by (simp only: unat_byte_of_nat mod_mult_self3 mod_less)
  qed
  ultimately show ?case using m snoc.IH by simp
qed

lemma be_nat_less: "be_nat bs < 256 ^ length bs"
proof (induction bs rule: rev_induct)
  case (snoc b bs)
  have "unat b < 256" by (rule unat_byte_less)
  with snoc show ?case by simp
qed simp

lemma length_to_be_bytes [simp]: "length (to_be_bytes (w :: 'a::len word)) = LENGTH('a) div 8"
  by (simp add: to_be_bytes_def)

lemma from_to_be_bytes [be_simps]:
  assumes "8 dvd LENGTH('a::len)"
  shows "from_be_bytes (to_be_bytes (w :: 'a word)) = w"
proof -
  from assms obtain k where k: "LENGTH('a) = 8 * k" by (elim dvdE)
  have "(256::nat) ^ k = 2 ^ LENGTH('a)" using k by (simp add: power_mult)
  moreover have "unat w < 2 ^ LENGTH('a)" by (rule unsigned_less)
  ultimately have "unat w mod 256 ^ (LENGTH('a) div 8) = unat w" using k by simp
  then show ?thesis by (simp add: from_be_bytes_def to_be_bytes_def be_nat_nat_be)
qed

lemma from_to_be_u16 [simp]: "from_be_bytes (to_be_bytes (w :: 16 word)) = w"
  by (rule from_to_be_bytes) simp

lemma from_to_be_u32 [simp]: "from_be_bytes (to_be_bytes (w :: 32 word)) = w"
  by (rule from_to_be_bytes) simp

lemma from_to_be_u64 [simp]: "from_be_bytes (to_be_bytes (w :: 64 word)) = w"
  by (rule from_to_be_bytes) simp

lemma to_from_be_bytes:
  assumes "length bs = LENGTH('a::len) div 8" and "8 dvd LENGTH('a)"
  shows "to_be_bytes (from_be_bytes bs :: 'a word) = bs"
proof -
  from assms(2) obtain k where k: "LENGTH('a) = 8 * k" by (elim dvdE)
  have "be_nat bs < 256 ^ k" using be_nat_less [of bs] assms(1) k by simp
  also have "(256::nat) ^ k = 2 ^ LENGTH('a)" using k by (simp add: power_mult)
  finally have "unat (word_of_nat (be_nat bs) :: 'a word) = be_nat bs"
    by (simp add: unat_of_nat)
  then show ?thesis
    by (simp add: from_be_bytes_def to_be_bytes_def nat_be_be_nat assms(1))
qed

end
