(* ===== verification/StdStr.thy ===== *)
theory StdStr
  imports Prelude
begin

text \<open>
  The functions of Rust's standard library on \<open>str\<close> that the code uses, on UTF-8 byte
  strings: decimal display and parsing of integers, \<open>split_whitespace\<close>, \<open>split\<close> on one
  character, \<open>strip_prefix\<close> and \<open>starts_with\<close>. The main lemmas are the round trip between
  display and parsing and the injectivity of the display.
\<close>

section \<open>Decimal display and parsing\<close>

fun show_nat :: "nat \<Rightarrow> str" where
  "show_nat n = (if n < 10 then [word_of_nat (48 + n)]
                 else show_nat (n div 10) @ [word_of_nat (48 + n mod 10)])"

declare show_nat.simps [simp del]

definition is_digit :: "byte \<Rightarrow> bool" where
  "is_digit c \<longleftrightarrow> 48 \<le> c \<and> c \<le> 57"

definition dec_value :: "str \<Rightarrow> nat" where
  "dec_value ds = foldl (\<lambda>acc c. acc * 10 + (unat c - 48)) 0 ds"

text \<open>\<open>uN::from_str\<close>: an optional \<open>+\<close>, then at least one digit, below \<open>2 ^ bits\<close>.\<close>

definition parse_unsigned :: "nat \<Rightarrow> str \<Rightarrow> nat option" where
  "parse_unsigned bits s =
     (let ds = (case s of c # r \<Rightarrow> if c = 43 then r else s | [] \<Rightarrow> s)
      in if ds = [] \<or> \<not> list_all is_digit ds then None
         else if dec_value ds < 2 ^ bits then Some (dec_value ds) else None)"

text \<open>\<open>iN::from_str\<close>: an optional sign, then at least one digit, within the signed range.\<close>

definition parse_signed :: "nat \<Rightarrow> str \<Rightarrow> int option" where
  "parse_signed bits s =
     (let neg = (case s of c # r \<Rightarrow> c = 45 | [] \<Rightarrow> False);
          ds = (case s of c # r \<Rightarrow> if c = 43 \<or> c = 45 then r else s | [] \<Rightarrow> s);
          v = (if neg then - int (dec_value ds) else int (dec_value ds))
      in if ds = [] \<or> \<not> list_all is_digit ds then None
         else if - (2 ^ (bits - 1)) \<le> v \<and> v < 2 ^ (bits - 1) then Some v else None)"

lemma dec_value_Nil [simp]: "dec_value [] = 0"
  by (simp add: dec_value_def)

lemma dec_value_snoc [simp]: "dec_value (ds @ [c]) = dec_value ds * 10 + (unat c - 48)"
  by (simp add: dec_value_def)

lemma unat_digit: "d < 10 \<Longrightarrow> unat (word_of_nat (48 + d) :: byte) = 48 + d"
  by (simp add: unat_byte_of_nat del: of_nat_add)

lemma is_digit_digit: "d < 10 \<Longrightarrow> is_digit (word_of_nat (48 + d))"
  unfolding is_digit_def word_le_nat_alt by (simp add: unat_digit del: of_nat_add)

lemma show_nat_digits: "list_all is_digit (show_nat n)"
proof (induction n rule: show_nat.induct)
  case (1 n)
  then show ?case
    by (subst show_nat.simps) (auto simp: is_digit_digit simp del: of_nat_add)
qed

lemma show_nat_neq_Nil [simp]: "show_nat n \<noteq> []"
  by (subst show_nat.simps) simp

lemma dec_value_show_nat [simp]: "dec_value (show_nat n) = n"
proof (induction n rule: show_nat.induct)
  case (1 n)
  then show ?case
    by (subst show_nat.simps) (auto simp: unat_digit dec_value_def simp del: of_nat_add)
qed

lemma show_nat_inject [simp]: "show_nat m = show_nat n \<longleftrightarrow> m = n"
  by (metis dec_value_show_nat)

lemma digit_not_sign: "is_digit c \<Longrightarrow> c \<noteq> 43 \<and> c \<noteq> 45 \<and> c \<noteq> 0"
  by (auto simp: is_digit_def word_le_nat_alt)

lemma show_nat_hd: "show_nat n = c # r \<Longrightarrow> c \<noteq> 43 \<and> c \<noteq> 45"
  using show_nat_digits [of n] digit_not_sign [of c] by auto

lemma show_nat_value: "show_nat n = c # r \<Longrightarrow> dec_value (c # r) = n"
  by (metis dec_value_show_nat)

lemma show_nat_no_zero [simp]: "0 \<notin> set (show_nat n)"
  using show_nat_digits [of n] digit_not_sign by (auto simp: list_all_iff)

lemma parse_unsigned_show_nat: "n < 2 ^ bits \<Longrightarrow> parse_unsigned bits (show_nat n) = Some n"
  using show_nat_hd [of n] show_nat_digits [of n]
  by (auto simp: parse_unsigned_def Let_def dest: show_nat_value split: list.splits)

text \<open>\<open>i.to_string()\<close>\<close>

definition show_int :: "int \<Rightarrow> str" where
  "show_int i = (if i < 0 then 45 # show_nat (nat (- i)) else show_nat (nat i))"

lemma parse_signed_show_int:
  "- (2 ^ (bits - 1)) \<le> i \<Longrightarrow> i < 2 ^ (bits - 1) \<Longrightarrow> parse_signed bits (show_int i) = Some i"
  using show_nat_hd [of "nat i"] show_nat_digits [of "nat i"] show_nat_digits [of "nat (- i)"]
  by (auto simp: parse_signed_def show_int_def Let_def dest: show_nat_value split: list.splits)

section \<open>Splitting and prefixes\<close>

text \<open>The byte length of the white space character at the head, 0 when there is none.\<close>

definition ws_len :: "str \<Rightarrow> nat" where
  "ws_len s = (case s of
     [] \<Rightarrow> 0
   | b # _ \<Rightarrow>
       (if (9 \<le> b \<and> b \<le> 13) \<or> b = 32 then 1
        else if take 2 s = [0xC2, 0x85] \<or> take 2 s = [0xC2, 0xA0] then 2
        else if take 3 s = [0xE1, 0x9A, 0x80] \<or> take 3 s = [0xE3, 0x80, 0x80]
             \<or> take 3 s = [0xE2, 0x81, 0x9F] \<or> take 3 s = [0xE2, 0x80, 0xA8]
             \<or> take 3 s = [0xE2, 0x80, 0xA9] \<or> take 3 s = [0xE2, 0x80, 0xAF]
             \<or> (take 2 s = [0xE2, 0x80] \<and> 3 \<le> length s \<and> 0x80 \<le> s ! 2 \<and> s ! 2 \<le> 0x8A)
        then 3 else 0))"

text \<open>\<open>s.split_whitespace()\<close>, with the word read so far.\<close>

function split_ws :: "str \<Rightarrow> str \<Rightarrow> str list" where
  "split_ws cur [] = (if cur = [] then [] else [cur])"
| "split_ws cur (b # s) =
     (if ws_len (b # s) = 0 then split_ws (cur @ [b]) s
      else if cur = [] then split_ws [] (drop (ws_len (b # s)) (b # s))
      else cur # split_ws [] (drop (ws_len (b # s)) (b # s)))"
  by pat_completeness auto
termination by (relation "measure (\<lambda>(cur, s). length s)") auto

definition split_whitespace :: "str \<Rightarrow> str list" where
  "split_whitespace s = split_ws [] s"

text \<open>\<open>s.split(c)\<close> for an ASCII character.\<close>

fun split_on :: "byte \<Rightarrow> str \<Rightarrow> str list" where
  "split_on c [] = [[]]"
| "split_on c (b # s) =
     (if b = c then [] # split_on c s
      else case split_on c s of w # ws \<Rightarrow> (b # w) # ws | [] \<Rightarrow> [[b]])"

fun strip_prefix :: "str \<Rightarrow> str \<Rightarrow> str option" where
  "strip_prefix [] s = Some s"
| "strip_prefix (p # ps) [] = None"
| "strip_prefix (p # ps) (c # s) = (if p = c then strip_prefix ps s else None)"

definition starts_with :: "str \<Rightarrow> str \<Rightarrow> bool" where
  "starts_with s p \<longleftrightarrow> strip_prefix p s \<noteq> None"

lemma strip_prefix_Some: "strip_prefix p s = Some r \<longleftrightarrow> s = p @ r"
  by (induction p s rule: strip_prefix.induct) auto

lemma starts_with_iff: "starts_with s p \<longleftrightarrow> (\<exists>r. s = p @ r)"
  by (auto simp: starts_with_def strip_prefix_Some)

lemma split_on_neq_Nil [simp]: "split_on c s \<noteq> []"
  by (induction s) (auto split: list.splits)

lemma split_on_no_sep: "c \<notin> set s \<Longrightarrow> split_on c s = [s]"
  by (induction s) auto

lemma split_on_append: "c \<notin> set s \<Longrightarrow> split_on c (s @ c # r) = s # split_on c r"
  by (induction s) auto

lemma split_ws_word:
  "\<forall>i \<le> length w. ws_len (drop i w @ r) = 0 \<or> i = length w \<Longrightarrow>
     split_ws cur (w @ r) = split_ws (cur @ w) r"
proof (induction w arbitrary: cur)
  case Nil
  then show ?case by simp
next
  case (Cons b w)
  have "ws_len (b # w @ r) = 0" using Cons.prems by (auto dest: spec [of _ 0])
  moreover have "split_ws (cur @ [b]) (w @ r) = split_ws ((cur @ [b]) @ w) r"
  proof (rule Cons.IH)
    show "\<forall>i \<le> length w. ws_len (drop i w @ r) = 0 \<or> i = length w"
      using Cons.prems by (auto dest: spec [of _ "Suc i" for i])
  qed
  ultimately show ?case by simp
qed

end
