(* ===== verification/Opts.thy ===== *)
theory Opts
  imports StdStr
begin

text \<open>
  \<open>src/opts.rs\<close>: the connection options and how a connection URL sets them. The URL itself is
  parsed by the \<open>url\<close> crate; \<open>url\<close> holds the answers of its accessors. The shared buffer pool
  is not part of the record.
\<close>

datatype ssl_mode = SslDisable | SslPrefer | SslRequire

record opts =
  o_host :: str
  o_port :: u16
  o_socket :: "str option"
  o_user :: str
  o_database :: "str option"
  o_password :: "str option"
  o_application_name :: "str option"
  o_ssl_mode :: ssl_mode
  o_params :: "(str \<times> str) list"
  o_upgrade_to_unix_socket :: bool
  o_pool_max_idle_conn :: nat
  o_pool_max_concurrency :: "nat option"

definition opts_default :: opts where
  "opts_default =
     \<lparr>o_host = [], o_port = 5432, o_socket = None, o_user = [], o_database = None,
      o_password = None, o_application_name = None, o_ssl_mode = SslPrefer, o_params = [],
      o_upgrade_to_unix_socket = True, o_pool_max_idle_conn = 100,
      o_pool_max_concurrency = None\<rparr>"

record url =
  u_scheme :: str
  u_host_str :: "str option"
  u_port :: "u16 option"
  u_username :: str
  u_password :: "str option"
  u_path :: str
  u_query_pairs :: "(str \<times> str) list"

text \<open>One round of the loop over the query pairs: the \<open>match key\<close>.\<close>

definition opts_set_pair :: "opts \<Rightarrow> str \<Rightarrow> str \<Rightarrow> opts res" where
  "opts_set_pair opts key val =
     (if key = ascii ''sslmode'' \<or> key = ascii ''ssl_mode'' then
        (if val = ascii ''disable'' then Ok (opts\<lparr>o_ssl_mode := SslDisable\<rparr>)
         else if val = ascii ''prefer'' then Ok (opts\<lparr>o_ssl_mode := SslPrefer\<rparr>)
         else if val = ascii ''require'' then Ok (opts\<lparr>o_ssl_mode := SslRequire\<rparr>)
         else Err (InvalidUsage ''Invalid sslmode: expected one of [disable, prefer, require], got {}''))
      else if key = ascii ''application_name'' then
        Ok (opts\<lparr>o_application_name := Some val\<rparr>)
      else if key = ascii ''upgrade_to_unix_socket'' then
        (if val \<in> {ascii ''true'', ascii ''True'', ascii ''1'', ascii ''yes'', ascii ''on''}
         then Ok (opts\<lparr>o_upgrade_to_unix_socket := True\<rparr>)
         else if val \<in> {ascii ''false'', ascii ''False'', ascii ''0'', ascii ''no'', ascii ''off''}
         then Ok (opts\<lparr>o_upgrade_to_unix_socket := False\<rparr>)
         else Err (InvalidUsage ''Invalid upgrade_to_unix_socket parameter: {}''))
      else if key = ascii ''pool_max_idle_conn'' then
        rbind (ok_or (parse_unsigned 64 val) (InvalidUsage ''Invalid pool_max_idle_conn: {}''))
          (\<lambda>n. Ok (opts\<lparr>o_pool_max_idle_conn := n\<rparr>))
      else if key = ascii ''pool_max_concurrency'' then
        rbind (ok_or (parse_unsigned 64 val) (InvalidUsage ''Invalid pool_max_concurrency: {}''))
          (\<lambda>n. Ok (opts\<lparr>o_pool_max_concurrency := Some n\<rparr>))
      else Ok (opts\<lparr>o_params := o_params opts @ [(key, val)]\<rparr>))"

fun opts_set_pairs :: "opts \<Rightarrow> (str \<times> str) list \<Rightarrow> opts res" where
  "opts_set_pairs opts [] = Ok opts"
| "opts_set_pairs opts ((key, val) # pairs) =
     rbind (opts_set_pair opts key val) (\<lambda>opts'. opts_set_pairs opts' pairs)"

definition opts_try_from :: "url \<Rightarrow> opts res" where
  "opts_try_from url =
     (if u_scheme url \<notin> {ascii ''pg'', ascii ''postgres'', ascii ''postgresql''} then
        Err (InvalidUsage ''Invalid scheme: expected pg://, postgres://, or postgresql://, got {}://'')
      else
        opts_set_pairs
          (opts_default\<lparr>
             o_host := (case u_host_str url of Some h \<Rightarrow> h | None \<Rightarrow> ascii ''localhost''),
             o_port := (case u_port url of Some p \<Rightarrow> p | None \<Rightarrow> 5432),
             o_user := u_username url,
             o_password := u_password url,
             o_database := (case strip_prefix (ascii ''/'') (u_path url) of
                 None \<Rightarrow> None
               | Some s \<Rightarrow> if s = [] then None else Some s)\<rparr>)
          (u_query_pairs url))"

section \<open>What the pairs set\<close>

lemma if_eq_cases: "(if b then x else y) = z \<longleftrightarrow> b \<and> x = z \<or> \<not> b \<and> y = z"
  by simp

lemma opts_set_pairs_append:
  "opts_set_pairs opts (ps @ qs) = rbind (opts_set_pairs opts ps) (\<lambda>o1. opts_set_pairs o1 qs)"
proof (induction ps arbitrary: opts)
  case (Cons p ps)
  then show ?case by (cases p; cases "opts_set_pair opts (fst p) (snd p)") auto
qed simp

lemma opts_set_pair_no_panic [simp]: "opts_set_pair opts k v \<noteq> Panic"
  by (simp only: opts_set_pair_def if_eq_cases rbind_eq_Panic ok_or_eq res.distinct simp_thms)

lemma opts_set_pairs_no_panic [simp]: "opts_set_pairs opts ps \<noteq> Panic"
  by (induction ps arbitrary: opts) (auto simp: res_simps)

lemma opts_set_pair_connection:
  "opts_set_pair opts k v = Ok opts' \<Longrightarrow>
     o_host opts' = o_host opts \<and> o_port opts' = o_port opts \<and> o_user opts' = o_user opts \<and>
     o_password opts' = o_password opts \<and> o_database opts' = o_database opts"
  unfolding opts_set_pair_def
  by (simp only: if_eq_cases rbind_eq_Ok ok_or_eq res.distinct res.inject simp_thms)
    (elim disjE conjE exE; clarify; simp)

lemma opts_set_pairs_connection:
  "opts_set_pairs opts ps = Ok opts' \<Longrightarrow>
     o_host opts' = o_host opts \<and> o_port opts' = o_port opts \<and> o_user opts' = o_user opts \<and>
     o_password opts' = o_password opts \<and> o_database opts' = o_database opts"
proof (induction ps arbitrary: opts)
  case (Cons p ps)
  obtain k v where "p = (k, v)" by (cases p)
  with Cons.prems obtain o1 where "opts_set_pair opts k v = Ok o1" "opts_set_pairs o1 ps = Ok opts'"
    by (auto simp: res_simps)
  with Cons.IH [of o1] opts_set_pair_connection [of opts k v o1] show ?case by simp
qed simp

end
