(* ===== verification/Codec.thy ===== *)
theory Codec
  imports Prelude
begin

text \<open>
  \<open>src/protocol/codec.rs\<close>: the read and write primitives of the wire protocol and the
  message builder that fills in the length field.

  A reader takes the input and returns the value with the unread rest. A writer appends to
  its buffer. The builder is a record of the buffer and of the position of the length field,
  as the struct \<open>MessageBuilder\<close> is. The lemmas give, for each reader, what it returns on
  the output of the matching writer (round trip), how much input it consumes, and for the
  builder that a finished message carries its own length and leaves what was in the buffer
  before it untouched. The locale \<open>wire_codec\<close> states the contract of a reader and writer
  pair once, with the decoding of a counted run of values as its client.
\<close>

section \<open>Readers\<close>

definition read_u8 :: "bytes \<Rightarrow> (byte \<times> bytes) res" where
  "read_u8 data = (case data of
     [] \<Rightarrow> Err (LibraryBug ''read_u8: empty buffer'')
   | b # rest \<Rightarrow> Ok (b, rest))"

definition read_i16 :: "bytes \<Rightarrow> (i16 \<times> bytes) res" where
  "read_i16 data =
     (if length data < 2 then Err (LibraryBug ''read_i16: buffer too short: {} < 2'')
      else Ok (from_be_bytes (take 2 data), drop 2 data))"

definition read_u16 :: "bytes \<Rightarrow> (u16 \<times> bytes) res" where
  "read_u16 data =
     (if length data < 2 then Err (LibraryBug ''read_u16: buffer too short: {} < 2'')
      else Ok (from_be_bytes (take 2 data), drop 2 data))"

definition read_i32 :: "bytes \<Rightarrow> (i32 \<times> bytes) res" where
  "read_i32 data =
     (if length data < 4 then Err (LibraryBug ''read_i32: buffer too short: {} < 4'')
      else Ok (from_be_bytes (take 4 data), drop 4 data))"

definition read_u32 :: "bytes \<Rightarrow> (u32 \<times> bytes) res" where
  "read_u32 data =
     (if length data < 4 then Err (LibraryBug ''read_u32: buffer too short: {} < 4'')
      else Ok (from_be_bytes (take 4 data), drop 4 data))"

definition read_bytes :: "bytes \<Rightarrow> nat \<Rightarrow> (bytes \<times> bytes) res" where
  "read_bytes data len =
     (if length data < len then Err (LibraryBug ''read_bytes: buffer too short: {} < {}'')
      else Ok (take len data, drop len data))"

text \<open>\<open>memchr(0, data)\<close>: the position of the first zero byte.\<close>

fun find_zero :: "bytes \<Rightarrow> nat option" where
  "find_zero [] = None"
| "find_zero (b # bs) = (if b = 0 then Some 0 else map_option Suc (find_zero bs))"

definition read_cstring :: "bytes \<Rightarrow> (bytes \<times> bytes) res" where
  "read_cstring data = (case find_zero data of
     Some pos \<Rightarrow> Ok (take pos data, drop (pos + 1) data)
   | None \<Rightarrow> Err (LibraryBug ''read_cstring: no null terminator found''))"

definition read_cstr :: "ext \<Rightarrow> bytes \<Rightarrow> (str \<times> bytes) res" where
  "read_cstr X data =
     rbind (read_cstring data) (\<lambda>(s, rest).
       if x_utf8 X s then Ok (s, rest)
       else Err (LibraryBug ''read_cstr: invalid UTF-8: {e}''))"

section \<open>Writers\<close>

definition write_u8 :: "bytes \<Rightarrow> byte \<Rightarrow> bytes" where
  "write_u8 out v = out @ [v]"

definition write_i16 :: "bytes \<Rightarrow> i16 \<Rightarrow> bytes" where
  "write_i16 out v = out @ to_be_bytes v"

definition write_u16 :: "bytes \<Rightarrow> u16 \<Rightarrow> bytes" where
  "write_u16 out v = out @ to_be_bytes v"

definition write_i32 :: "bytes \<Rightarrow> i32 \<Rightarrow> bytes" where
  "write_i32 out v = out @ to_be_bytes v"

definition write_u32 :: "bytes \<Rightarrow> u32 \<Rightarrow> bytes" where
  "write_u32 out v = out @ to_be_bytes v"

definition write_bytes :: "bytes \<Rightarrow> bytes \<Rightarrow> bytes" where
  "write_bytes out data = out @ data"

definition write_cstring :: "bytes \<Rightarrow> bytes \<Rightarrow> bytes" where
  "write_cstring out s = (out @ s) @ [0]"

definition write_cstr :: "bytes \<Rightarrow> str \<Rightarrow> bytes" where
  "write_cstr out s = write_cstring out s"

section \<open>The message builder\<close>

record builder =
  buf :: bytes
  start :: nat

definition builder_new :: "bytes \<Rightarrow> byte \<Rightarrow> builder" where
  "builder_new b type_byte =
     (let b1 = b @ [type_byte] in \<lparr>buf = b1 @ [0, 0, 0, 0], start = length b1\<rparr>)"

definition builder_new_startup :: "bytes \<Rightarrow> builder" where
  "builder_new_startup b = \<lparr>buf = b @ [0, 0, 0, 0], start = length b\<rparr>"

definition b_write_u8 :: "byte \<Rightarrow> builder \<Rightarrow> builder" where
  "b_write_u8 v m = m\<lparr>buf := write_u8 (buf m) v\<rparr>"

definition b_write_i16 :: "i16 \<Rightarrow> builder \<Rightarrow> builder" where
  "b_write_i16 v m = m\<lparr>buf := write_i16 (buf m) v\<rparr>"

definition b_write_u16 :: "u16 \<Rightarrow> builder \<Rightarrow> builder" where
  "b_write_u16 v m = m\<lparr>buf := write_u16 (buf m) v\<rparr>"

definition b_write_i32 :: "i32 \<Rightarrow> builder \<Rightarrow> builder" where
  "b_write_i32 v m = m\<lparr>buf := write_i32 (buf m) v\<rparr>"

definition b_write_u32 :: "u32 \<Rightarrow> builder \<Rightarrow> builder" where
  "b_write_u32 v m = m\<lparr>buf := write_u32 (buf m) v\<rparr>"

definition b_write_bytes :: "bytes \<Rightarrow> builder \<Rightarrow> builder" where
  "b_write_bytes data m = m\<lparr>buf := write_bytes (buf m) data\<rparr>"

definition b_write_cstr :: "str \<Rightarrow> builder \<Rightarrow> builder" where
  "b_write_cstr s m = m\<lparr>buf := write_cstr (buf m) s\<rparr>"

text \<open>
  \<open>self.buf[self.start..self.start + 4].copy_from_slice(&len.to_be_bytes())\<close> with
  \<open>len = (buf.len() - start) as u32\<close>. The slice is in range for every builder made by the
  two constructors, whose buffer only grows.
\<close>

definition finish :: "builder \<Rightarrow> bytes" where
  "finish m =
     (let len = (word_of_nat (length (buf m) - start m) :: u32)
      in take (start m) (buf m) @ to_be_bytes len @ drop (start m + 4) (buf m))"

section \<open>Consumption and round trips\<close>

named_theorems codec_defs \<open>definitions of the readers and writers\<close>

lemmas reader_defs [codec_defs] =
  read_u8_def read_i16_def read_u16_def read_i32_def read_u32_def read_bytes_def
  read_cstring_def read_cstr_def

lemmas writer_defs [codec_defs] =
  write_u8_def write_i16_def write_u16_def write_i32_def write_u32_def write_bytes_def
  write_cstring_def write_cstr_def

lemmas b_write_defs [codec_defs] =
  b_write_u8_def b_write_i16_def b_write_u16_def b_write_i32_def b_write_u32_def
  b_write_bytes_def b_write_cstr_def

lemma find_zero_append: "0 \<notin> set s \<Longrightarrow> find_zero (s @ 0 # rest) = Some (length s)"
  by (induction s) auto

lemma find_zero_None: "find_zero bs = None \<longleftrightarrow> 0 \<notin> set bs"
  by (induction bs) auto

lemma find_zero_Some:
  "find_zero bs = Some n \<Longrightarrow> n < length bs \<and> bs ! n = 0 \<and> 0 \<notin> set (take n bs)"
  by (induction bs arbitrary: n) (auto split: if_splits)

lemma read_cstring_write [simp]:
  "0 \<notin> set s \<Longrightarrow> read_cstring (s @ 0 # rest) = Ok (s, rest)"
  by (simp add: read_cstring_def find_zero_append)

lemma read_cstr_write [simp]:
  "0 \<notin> set s \<Longrightarrow> x_utf8 X s \<Longrightarrow> read_cstr X (s @ 0 # rest) = Ok (s, rest)"
  by (simp add: read_cstr_def)

lemma read_cstring_split:
  "read_cstring data = Ok (s, rest) \<longleftrightarrow> data = s @ 0 # rest \<and> 0 \<notin> set s"
proof
  assume "read_cstring data = Ok (s, rest)"
  then obtain n where n: "find_zero data = Some n" "s = take n data" "rest = drop (n + 1) data"
    by (auto simp: read_cstring_def split: option.splits)
  with find_zero_Some [OF n(1)] show "data = s @ 0 # rest \<and> 0 \<notin> set s"
    by (auto simp: id_take_nth_drop [symmetric]) (metis id_take_nth_drop)
next
  assume "data = s @ 0 # rest \<and> 0 \<notin> set s"
  then show "read_cstring data = Ok (s, rest)" by simp
qed

lemma read_cstr_split:
  "read_cstr X data = Ok (s, rest) \<longleftrightarrow> data = s @ 0 # rest \<and> 0 \<notin> set s \<and> x_utf8 X s"
  by (auto simp: read_cstr_def res_simps read_cstring_split split: if_splits)

lemma read_cstr_no_panic [simp]: "read_cstr X data \<noteq> Panic"
  by (auto simp: read_cstr_def res_simps read_cstring_def split: option.splits if_splits)

lemma readers_no_panic [simp]:
  "read_u8 data \<noteq> Panic" "read_i16 data \<noteq> Panic" "read_u16 data \<noteq> Panic"
  "read_i32 data \<noteq> Panic" "read_u32 data \<noteq> Panic"
  by (auto simp: reader_defs split: list.splits)

section \<open>Counted runs of values\<close>

text \<open>
  The loop \<open>for _ in 0..n { let (x, rest) = read(data)?; xs.push(x); data = rest; }\<close> that the
  message parsers share.
\<close>

fun read_many :: "(bytes \<Rightarrow> ('a \<times> bytes) res) \<Rightarrow> nat \<Rightarrow> bytes \<Rightarrow> ('a list \<times> bytes) res" where
  "read_many rd 0 data = Ok ([], data)"
| "read_many rd (Suc n) data =
     rbind (rd data) (\<lambda>(x, rest). rmap (\<lambda>(xs, rest'). (x # xs, rest')) (read_many rd n rest))"

text \<open>
  The contract between a writer \<open>enc\<close> and a reader \<open>dec\<close>. \<open>wire_decoder\<close>: on the values
  \<open>good\<close> accepts, the reader returns what was written and leaves the rest. \<open>wire_reader\<close> adds
  that whatever it returns was written, \<open>wire_codec\<close> that it never panics.
\<close>

locale wire_decoder =
  fixes enc :: "'a \<Rightarrow> bytes"
    and dec :: "bytes \<Rightarrow> ('a \<times> bytes) res"
    and good :: "'a \<Rightarrow> bool"
  assumes dec_enc: "good v \<Longrightarrow> dec (enc v @ rest) = Ok (v, rest)"
begin

lemma read_many_enc:
  "\<forall>v \<in> set vs. good v \<Longrightarrow> read_many dec (length vs) (concat (map enc vs) @ rest) = Ok (vs, rest)"
  by (induction vs) (auto simp: dec_enc)

end

locale wire_reader = wire_decoder +
  assumes dec_sound: "dec data = Ok (v, rest) \<Longrightarrow> data = enc v @ rest \<and> good v"
begin

lemma read_many_sound:
  "read_many dec n data = Ok (vs, rest) \<Longrightarrow>
     length vs = n \<and> data = concat (map enc vs) @ rest \<and> (\<forall>v \<in> set vs. good v)"
proof (induction n arbitrary: data vs)
  case 0
  then show ?case by simp
next
  case (Suc n)
  then obtain x mid xs where "dec data = Ok (x, mid)" "read_many dec n mid = Ok (xs, rest)"
      "vs = x # xs"
    by (auto simp: res_simps)
  with Suc.IH [of mid xs] dec_sound [of data x mid] show ?case by auto
qed

lemma read_many_iff:
  "read_many dec n data = Ok (vs, rest) \<longleftrightarrow>
     length vs = n \<and> data = concat (map enc vs) @ rest \<and> (\<forall>v \<in> set vs. good v)"
  using read_many_enc [of vs rest] read_many_sound [of n data vs rest] by auto

end

locale wire_codec = wire_reader +
  assumes dec_no_panic: "dec data \<noteq> Panic"
begin

lemma read_many_no_panic: "read_many dec n data \<noteq> Panic"
  by (induction n arbitrary: data) (auto simp: res_simps dec_no_panic)

end

lemma from_be_take_to_be [simp]:
  "from_be_bytes (take 2 (to_be_bytes (v :: 16 word) @ rest)) = v"
  "from_be_bytes (take 4 (to_be_bytes (w :: 32 word) @ rest)) = w"
  by simp_all

lemma to_from_be_take [simp]:
  "2 \<le> length data \<Longrightarrow> to_be_bytes (from_be_bytes (take 2 data) :: 16 word) = take 2 data"
  "4 \<le> length data \<Longrightarrow> to_be_bytes (from_be_bytes (take 4 data) :: 32 word) = take 4 data"
  by (simp_all add: to_from_be_bytes)

interpretation u8_codec: wire_codec "\<lambda>b. [b]" read_u8 "\<lambda>_. True"
  by unfold_locales (auto simp: read_u8_def split: list.splits)

interpretation i16_codec: wire_codec to_be_bytes read_i16 "\<lambda>_. True"
  by unfold_locales (auto simp: read_i16_def split: if_splits)

interpretation u16_codec: wire_codec to_be_bytes read_u16 "\<lambda>_. True"
  by unfold_locales (auto simp: read_u16_def split: if_splits)

interpretation i32_codec: wire_codec to_be_bytes read_i32 "\<lambda>_. True"
  by unfold_locales (auto simp: read_i32_def split: if_splits)

interpretation u32_codec: wire_codec to_be_bytes read_u32 "\<lambda>_. True"
  by unfold_locales (auto simp: read_u32_def split: if_splits)

interpretation cstr_codec: wire_codec "\<lambda>s. s @ [0]" "read_cstr X" "\<lambda>s. 0 \<notin> set s \<and> x_utf8 X s" for X
  by unfold_locales (auto simp: read_cstr_split)

lemmas read_iff =
  u8_codec.read_many_iff u16_codec.read_many_iff u32_codec.read_many_iff cstr_codec.read_many_iff

text \<open>
  A length-prefixed value, as in DataRow and Bind: a signed 32-bit length, \<open>-1\<close> for NULL.
\<close>

definition enc_value :: "bytes option \<Rightarrow> bytes" where
  "enc_value v = (case v of None \<Rightarrow> to_be_bytes (-1 :: i32)
     | Some d \<Rightarrow> to_be_bytes (word_of_nat (length d) :: i32) @ d)"

definition read_value :: "bytes \<Rightarrow> (bytes option \<times> bytes) res" where
  "read_value data = rbind (read_i32 data) (\<lambda>(len, rest).
     if len = -1 then Ok (None, rest)
     else rmap (\<lambda>(d, rest'). (Some d, rest')) (read_bytes rest (unat len)))"

definition good_value :: "bytes option \<Rightarrow> bool" where
  "good_value v = (case v of None \<Rightarrow> True | Some d \<Rightarrow> length d < 2 ^ 31)"

lemma unat_length_i32: "n < 2 ^ 31 \<Longrightarrow> unat (word_of_nat n :: i32) = n"
  by (simp add: unat_of_nat)

lemma length_i32_neq [simp]: "n < 2 ^ 31 \<Longrightarrow> (word_of_nat n :: i32) \<noteq> -1"
proof
  assume n: "n < 2 ^ 31" and "(word_of_nat n :: i32) = -1"
  then have "unat (word_of_nat n :: i32) = unat (-1 :: i32)" by simp
  also have "unat (-1 :: i32) = 2 ^ 32 - 1" by (simp add: unsigned_minus_1_eq_mask mask_eq_exp_minus_1)
  finally show False using n unat_length_i32 [OF n] by simp
qed

interpretation value_codec: wire_decoder enc_value read_value good_value
proof
  fix v rest
  assume "good_value v"
  then show "read_value (enc_value v @ rest) = Ok (v, rest)"
    by (cases v) (simp_all add: enc_value_def read_value_def good_value_def i32_codec.dec_enc
        read_bytes_def unat_length_i32)
qed

section \<open>What the builder builds\<close>

text \<open>A length field followed by its payload: the length counts itself.\<close>

definition framed :: "bytes \<Rightarrow> bytes" where
  "framed p = to_be_bytes (word_of_nat (4 + length p) :: u32) @ p"

text \<open>A builder whose buffer held \<open>b\<close> before the length field and \<open>p\<close> was written since.\<close>

definition building :: "bytes \<Rightarrow> bytes \<Rightarrow> builder" where
  "building b p = \<lparr>buf = b @ [0, 0, 0, 0] @ p, start = length b\<rparr>"

lemma building_simps [simp]:
  "builder_new b ty = building (b @ [ty]) []"
  "builder_new_startup b = building b []"
  "b_write_u8 v (building b p) = building b (p @ [v])"
  "b_write_i16 h (building b p) = building b (p @ to_be_bytes h)"
  "b_write_u16 h (building b p) = building b (p @ to_be_bytes h)"
  "b_write_i32 w (building b p) = building b (p @ to_be_bytes w)"
  "b_write_u32 w (building b p) = building b (p @ to_be_bytes w)"
  "b_write_bytes d (building b p) = building b (p @ d)"
  "b_write_cstr s (building b p) = building b (p @ s @ [0])"
  by (simp_all add: building_def builder_new_def builder_new_startup_def b_write_defs writer_defs)

lemma finish_building [simp]: "finish (building b p) = b @ framed p"
  by (simp add: finish_def building_def framed_def)

lemma length_framed [simp]: "length (framed p) = 4 + length p"
  by (simp add: framed_def)

lemma framed_append_neq_Nil [simp]: "framed p \<noteq> []" "framed p @ xs \<noteq> []"
  using length_framed [of p] by (auto simp del: length_framed)

lemma framed_length_field:
  "4 + length p < 2 ^ 32 \<Longrightarrow> read_u32 (framed p @ rest) = Ok (word_of_nat (4 + length p), p @ rest)"
  by (simp add: framed_def u32_codec.dec_enc)

section \<open>The receiving side\<close>

text \<open>
  The message format the comment on \<open>MessageBuilder\<close> states, as a reader of a stream of
  messages: a type byte, a length that counts itself but not the type byte, and
  \<open>length - 4\<close> bytes of payload. \<open>None\<close> is a stream that is not a sequence of whole messages.
\<close>

definition deframe1 :: "bytes \<Rightarrow> ((byte \<times> bytes) \<times> bytes) option" where
  "deframe1 data = (case data of [] \<Rightarrow> None
   | ty # rest \<Rightarrow> (case read_u32 rest of
        Ok (len, body) \<Rightarrow>
          (if unat len < 4 \<or> length body < unat len - 4 then None
           else Some ((ty, take (unat len - 4) body), drop (unat len - 4) body))
      | _ \<Rightarrow> None))"

lemma deframe1_shorter: "deframe1 data = Some (m, rest) \<Longrightarrow> length rest < length data"
  by (auto simp: deframe1_def read_u32_def split: list.splits if_splits)

function deframe :: "bytes \<Rightarrow> (byte \<times> bytes) list option" where
  "deframe data =
     (if data = [] then Some []
      else case deframe1 data of None \<Rightarrow> None
        | Some (m, rest) \<Rightarrow> map_option (Cons m) (deframe rest))"
  by pat_completeness auto
termination by (relation "measure length") (auto dest: deframe1_shorter)

declare deframe.simps [simp del]

lemma deframe_Nil [simp]: "deframe [] = Some []"
  by (simp add: deframe.simps)

lemma unat_length_field:
  assumes "4 + n < (2::nat) ^ 32"
  shows "unat (4 + word_of_nat n :: u32) = 4 + n"
proof -
  have "unat (word_of_nat (4 + n) :: u32) = (4 + n) mod 2 ^ 32"
    by (simp only: unat_of_nat len_num0 len_bit0 len_num1 mult_1_right) simp
  with assms show ?thesis by simp
qed

lemma deframe1_framed:
  "4 + length p < 2 ^ 32 \<Longrightarrow> deframe1 (ty # framed p @ rest) = Some ((ty, p), rest)"
  by (simp add: deframe1_def framed_length_field unat_length_field)

lemma deframe_framed [simp]:
  "4 + length p < 2 ^ 32 \<Longrightarrow>
     deframe (ty # framed p @ rest) = map_option (Cons (ty, p)) (deframe rest)"
  by (subst deframe.simps) (simp add: deframe1_framed)

lemma deframe_framed_last [simp]:
  "4 + length p < 2 ^ 32 \<Longrightarrow> deframe (ty # framed p) = Some [(ty, p)]"
  using deframe_framed [of p ty "[]"] by simp

end
