(* ===== verification/ProtoTypes.thy ===== *)
theory ProtoTypes
  imports Prelude
begin

text \<open>
  \<open>src/protocol/types.rs\<close>: format codes, the transaction status byte of ReadyForQuery and the
  object identifiers of the built-in types. \<open>oid_table\<close> lists the constants of the module
  \<open>oid\<close> in the source's order; the ones the conversions match on also have a name of their own.
\<close>

type_synonym oid = u32

datatype format_code = Text | Binary

definition format_from_u16 :: "u16 \<Rightarrow> format_code" where
  "format_from_u16 v = (if v = 0 then Text else if v = 1 then Binary else Text)"

text \<open>\<open>code as i16\<close>\<close>

fun format_value :: "format_code \<Rightarrow> i16" where
  "format_value Text = 0"
| "format_value Binary = 1"

definition oid_BOOL :: oid where [simp]: "oid_BOOL = 16"
definition oid_BYTEA :: oid where [simp]: "oid_BYTEA = 17"
definition oid_CHAR :: oid where [simp]: "oid_CHAR = 18"
definition oid_NAME :: oid where [simp]: "oid_NAME = 19"
definition oid_INT8 :: oid where [simp]: "oid_INT8 = 20"
definition oid_INT2 :: oid where [simp]: "oid_INT2 = 21"
definition oid_INT4 :: oid where [simp]: "oid_INT4 = 23"
definition oid_TEXT :: oid where [simp]: "oid_TEXT = 25"
definition oid_OID :: oid where [simp]: "oid_OID = 26"
definition oid_JSON :: oid where [simp]: "oid_JSON = 114"
definition oid_FLOAT4 :: oid where [simp]: "oid_FLOAT4 = 700"
definition oid_FLOAT8 :: oid where [simp]: "oid_FLOAT8 = 701"
definition oid_BPCHAR :: oid where [simp]: "oid_BPCHAR = 1042"
definition oid_VARCHAR :: oid where [simp]: "oid_VARCHAR = 1043"
definition oid_DATE :: oid where [simp]: "oid_DATE = 1082"
definition oid_TIME :: oid where [simp]: "oid_TIME = 1083"
definition oid_TIMESTAMP :: oid where [simp]: "oid_TIMESTAMP = 1114"
definition oid_TIMESTAMPTZ :: oid where [simp]: "oid_TIMESTAMPTZ = 1184"
definition oid_NUMERIC :: oid where [simp]: "oid_NUMERIC = 1700"
definition oid_UUID :: oid where [simp]: "oid_UUID = 2950"
definition oid_JSONB :: oid where [simp]: "oid_JSONB = 3802"

definition oid_table :: "(string \<times> oid) list" where
  "oid_table = [
    (''BOOL'', 16),
    (''BYTEA'', 17),
    (''CHAR'', 18),
    (''NAME'', 19),
    (''INT8'', 20),
    (''INT2'', 21),
    (''INT2VECTOR'', 22),
    (''INT4'', 23),
    (''REGPROC'', 24),
    (''TEXT'', 25),
    (''OID'', 26),
    (''TID'', 27),
    (''XID'', 28),
    (''CID'', 29),
    (''OIDVECTOR'', 30),
    (''PG_DDL_COMMAND'', 32),
    (''PG_TYPE'', 71),
    (''PG_ATTRIBUTE'', 75),
    (''PG_PROC'', 81),
    (''PG_CLASS'', 83),
    (''JSON'', 114),
    (''XML'', 142),
    (''PG_NODE_TREE'', 194),
    (''TABLE_AM_HANDLER'', 269),
    (''INDEX_AM_HANDLER'', 325),
    (''POINT'', 600),
    (''LSEG'', 601),
    (''PATH'', 602),
    (''BOX'', 603),
    (''POLYGON'', 604),
    (''LINE'', 628),
    (''CIDR'', 650),
    (''FLOAT4'', 700),
    (''FLOAT8'', 701),
    (''UNKNOWN'', 705),
    (''CIRCLE'', 718),
    (''MACADDR8'', 774),
    (''MONEY'', 790),
    (''MACADDR'', 829),
    (''INET'', 869),
    (''ACLITEM'', 1033),
    (''BPCHAR'', 1042),
    (''VARCHAR'', 1043),
    (''DATE'', 1082),
    (''TIME'', 1083),
    (''TIMESTAMP'', 1114),
    (''TIMESTAMPTZ'', 1184),
    (''INTERVAL'', 1186),
    (''TIMETZ'', 1266),
    (''BIT'', 1560),
    (''VARBIT'', 1562),
    (''NUMERIC'', 1700),
    (''REFCURSOR'', 1790),
    (''REGPROCEDURE'', 2202),
    (''REGOPER'', 2203),
    (''REGOPERATOR'', 2204),
    (''REGCLASS'', 2205),
    (''REGTYPE'', 2206),
    (''RECORD'', 2249),
    (''RECORD_ARRAY'', 2287),
    (''CSTRING'', 2275),
    (''ANY'', 2276),
    (''ANYARRAY'', 2277),
    (''VOID'', 2278),
    (''TRIGGER'', 2279),
    (''LANGUAGE_HANDLER'', 2280),
    (''INTERNAL'', 2281),
    (''ANYELEMENT'', 2283),
    (''ANYNONARRAY'', 2776),
    (''UUID'', 2950),
    (''TXID_SNAPSHOT'', 2970),
    (''FDW_HANDLER'', 3115),
    (''PG_LSN'', 3220),
    (''TSM_HANDLER'', 3310),
    (''PG_NDISTINCT'', 3361),
    (''PG_DEPENDENCIES'', 3402),
    (''ANYENUM'', 3500),
    (''TSVECTOR'', 3614),
    (''TSQUERY'', 3615),
    (''GTSVECTOR'', 3642),
    (''REGCONFIG'', 3734),
    (''REGDICTIONARY'', 3769),
    (''JSONB'', 3802),
    (''ANYRANGE'', 3831),
    (''EVENT_TRIGGER'', 3838),
    (''INT4RANGE'', 3904),
    (''NUMRANGE'', 3906),
    (''TSRANGE'', 3908),
    (''TSTZRANGE'', 3910),
    (''DATERANGE'', 3912),
    (''INT8RANGE'', 3926),
    (''JSONPATH'', 4072),
    (''REGNAMESPACE'', 4089),
    (''REGROLE'', 4096),
    (''REGCOLLATION'', 4191),
    (''INT4MULTIRANGE'', 4451),
    (''NUMMULTIRANGE'', 4532),
    (''TSMULTIRANGE'', 4533),
    (''TSTZMULTIRANGE'', 4534),
    (''DATEMULTIRANGE'', 4535),
    (''INT8MULTIRANGE'', 4536),
    (''ANYMULTIRANGE'', 4537),
    (''ANYCOMPATIBLEMULTIRANGE'', 4538),
    (''PG_BRIN_BLOOM_SUMMARY'', 4600),
    (''PG_BRIN_MINMAX_MULTI_SUMMARY'', 4601),
    (''PG_MCV_LIST'', 5017),
    (''PG_SNAPSHOT'', 5038),
    (''XID8'', 5069),
    (''ANYCOMPATIBLE'', 5077),
    (''ANYCOMPATIBLEARRAY'', 5078),
    (''ANYCOMPATIBLENONARRAY'', 5079),
    (''ANYCOMPATIBLERANGE'', 5080),
    (''REGDATABASE'', 8326)]"

text \<open>Most types travel in binary format, NUMERIC in text format.\<close>

definition preferred_format :: "oid \<Rightarrow> format_code" where
  "preferred_format o1 = (if o1 = oid_NUMERIC then Text else Binary)"

section \<open>Transaction status\<close>

datatype tx_status = Idle | InTransaction | Failed

definition tx_from_byte :: "byte \<Rightarrow> tx_status option" where
  "tx_from_byte v =
     (if v = 73 then Some Idle else if v = 84 then Some InTransaction
      else if v = 69 then Some Failed else None)"

fun in_transaction :: "tx_status \<Rightarrow> bool" where
  "in_transaction InTransaction = True"
| "in_transaction Failed = True"
| "in_transaction Idle = False"

fun is_failed :: "tx_status \<Rightarrow> bool" where
  "is_failed Failed = True"
| "is_failed _ = False"

text \<open>\<open>ready.transaction_status().unwrap_or_default()\<close>\<close>

definition tx_or_default :: "byte \<Rightarrow> tx_status" where
  "tx_or_default v = (case tx_from_byte v of Some s \<Rightarrow> s | None \<Rightarrow> Idle)"

lemma format_roundtrip [simp]: "format_from_u16 (format_value c) = c"
  by (cases c) (simp_all add: format_from_u16_def)

end
