(* ===== verification/Frontend.thy ===== *)
theory Frontend
  imports Codec ProtoTypes
begin

text \<open>
  \<open>src/protocol/frontend/\<close>: the messages the client sends. Each function appends one message
  to the write buffer, through the builder of Codec. Statement parameters come from the trait
  \<open>ToParams\<close>: a record of its three functions. Its \<open>encode\<close> appends to the buffer it is given
  and may fail halfway or panic, so it returns the buffer with the outcome.

  The lemmas \<open>write_*_framed\<close> say what a call appends: the type byte and the framed payload.
  \<open>frontend_wf\<close> is the contract of the server: the buffer is a sequence of whole messages.
\<close>

section \<open>Message types (frontend/mod.rs)\<close>

definition F_PASSWORD :: byte where [simp]: "F_PASSWORD = 112"
definition F_QUERY :: byte where [simp]: "F_QUERY = 81"
definition F_PARSE :: byte where [simp]: "F_PARSE = 80"
definition F_BIND :: byte where [simp]: "F_BIND = 66"
definition F_EXECUTE :: byte where [simp]: "F_EXECUTE = 69"
definition F_DESCRIBE :: byte where [simp]: "F_DESCRIBE = 68"
definition F_CLOSE :: byte where [simp]: "F_CLOSE = 67"
definition F_SYNC :: byte where [simp]: "F_SYNC = 83"
definition F_FLUSH :: byte where [simp]: "F_FLUSH = 72"
definition F_COPY_DATA :: byte where [simp]: "F_COPY_DATA = 100"
definition F_COPY_DONE :: byte where [simp]: "F_COPY_DONE = 99"
definition F_COPY_FAIL :: byte where [simp]: "F_COPY_FAIL = 102"
definition F_TERMINATE :: byte where [simp]: "F_TERMINATE = 88"

section \<open>Simple query, COPY and authentication messages\<close>

definition write_query :: "bytes \<Rightarrow> str \<Rightarrow> bytes" where
  "write_query b query = finish (b_write_cstr query (builder_new b F_QUERY))"

definition write_copy_data :: "bytes \<Rightarrow> bytes \<Rightarrow> bytes" where
  "write_copy_data b data = finish (b_write_bytes data (builder_new b F_COPY_DATA))"

definition write_copy_done :: "bytes \<Rightarrow> bytes" where
  "write_copy_done b = finish (builder_new b F_COPY_DONE)"

definition write_copy_fail :: "bytes \<Rightarrow> str \<Rightarrow> bytes" where
  "write_copy_fail b error_message =
     finish (b_write_cstr error_message (builder_new b F_COPY_FAIL))"

definition write_password :: "bytes \<Rightarrow> str \<Rightarrow> bytes" where
  "write_password b password = finish (b_write_cstr password (builder_new b F_PASSWORD))"

definition write_sasl_initial_response :: "bytes \<Rightarrow> str \<Rightarrow> bytes \<Rightarrow> bytes" where
  "write_sasl_initial_response b mechanism initial_response =
     finish (b_write_bytes initial_response
       (b_write_i32 (word_of_nat (length initial_response))
         (b_write_cstr mechanism (builder_new b F_PASSWORD))))"

definition write_sasl_response :: "bytes \<Rightarrow> bytes \<Rightarrow> bytes" where
  "write_sasl_response b response = finish (b_write_bytes response (builder_new b F_PASSWORD))"

section \<open>Startup messages (frontend/startup.rs)\<close>

definition PROTOCOL_VERSION_3_0 :: i32 where [simp]: "PROTOCOL_VERSION_3_0 = 196608"
definition PROTOCOL_VERSION_3_2 :: i32 where [simp]: "PROTOCOL_VERSION_3_2 = 196610"
definition SSL_REQUEST_CODE :: i32 where [simp]: "SSL_REQUEST_CODE = 80877103"
definition GSSENC_REQUEST_CODE :: i32 where [simp]: "GSSENC_REQUEST_CODE = 80877104"
definition CANCEL_REQUEST_CODE :: i32 where [simp]: "CANCEL_REQUEST_CODE = 80877102"

definition write_ssl_request :: "bytes \<Rightarrow> bytes" where
  "write_ssl_request b = finish (b_write_i32 SSL_REQUEST_CODE (builder_new_startup b))"

definition write_gssenc_request :: "bytes \<Rightarrow> bytes" where
  "write_gssenc_request b = finish (b_write_i32 GSSENC_REQUEST_CODE (builder_new_startup b))"

definition write_startup_with_version :: "bytes \<Rightarrow> i32 \<Rightarrow> (str \<times> str) list \<Rightarrow> bytes" where
  "write_startup_with_version b version params =
     finish (b_write_u8 0
       (fold (\<lambda>(name, value) m. b_write_cstr value (b_write_cstr name m)) params
         (b_write_i32 version (builder_new_startup b))))"

definition write_startup :: "bytes \<Rightarrow> (str \<times> str) list \<Rightarrow> bytes" where
  "write_startup b params = write_startup_with_version b PROTOCOL_VERSION_3_2 params"

definition write_cancel_request :: "bytes \<Rightarrow> u32 \<Rightarrow> bytes \<Rightarrow> bytes" where
  "write_cancel_request b pid secret_key =
     finish (b_write_bytes secret_key
       (b_write_i32 pid (b_write_i32 CANCEL_REQUEST_CODE (builder_new_startup b))))"

definition write_terminate :: "bytes \<Rightarrow> bytes" where
  "write_terminate b = finish (builder_new b F_TERMINATE)"

section \<open>Extended query messages (frontend/extended.rs)\<close>

text \<open>The trait \<open>ToParams\<close> of \<open>src/conversion/mod.rs\<close>.\<close>

record to_params =
  param_count :: nat
  natural_oids :: "oid list"
  encode_params :: "oid list \<Rightarrow> bytes \<Rightarrow> unit res \<times> bytes"

definition write_parse :: "bytes \<Rightarrow> str \<Rightarrow> str \<Rightarrow> oid list \<Rightarrow> bytes" where
  "write_parse b name query param_oids =
     finish (fold b_write_i32 param_oids
       (b_write_i16 (word_of_nat (length param_oids))
         (b_write_cstr query (b_write_cstr name (builder_new b F_PARSE)))))"

text \<open>
  The builder writes into the caller's buffer, so when \<open>encode\<close> fails the \<open>?\<close> leaves the
  unfinished message, its length field still zero, in that buffer.
\<close>

definition write_bind ::
    "bytes \<Rightarrow> str \<Rightarrow> str \<Rightarrow> to_params \<Rightarrow> oid list \<Rightarrow> unit res \<times> bytes" where
  "write_bind b portal statement_name params target_oids =
     (let m1 = b_write_cstr statement_name (b_write_cstr portal (builder_new b F_BIND));
          count = (word_of_nat (param_count params) :: i16);
          m2 = b_write_i16 count m1;
          m3 = fold (\<lambda>o1. b_write_i16 (format_value (preferred_format o1))) target_oids m2;
          m4 = b_write_i16 count m3;
          (r, out) = encode_params params target_oids (buf m4);
          m5 = m4\<lparr>buf := out\<rparr>
      in case r of
           Ok _ \<Rightarrow> (Ok (), finish (b_write_i16 (format_value Binary) (b_write_i16 1 m5)))
         | Err e \<Rightarrow> (Err e, buf m5)
         | Panic \<Rightarrow> (Panic, buf m5))"

definition write_execute :: "bytes \<Rightarrow> str \<Rightarrow> u32 \<Rightarrow> bytes" where
  "write_execute b portal max_rows =
     finish (b_write_i32 max_rows (b_write_cstr portal (builder_new b F_EXECUTE)))"

definition write_describe :: "bytes \<Rightarrow> byte \<Rightarrow> str \<Rightarrow> bytes" where
  "write_describe b describe_type name =
     finish (b_write_cstr name (b_write_u8 describe_type (builder_new b F_DESCRIBE)))"

definition write_describe_statement :: "bytes \<Rightarrow> str \<Rightarrow> bytes" where
  "write_describe_statement b name = write_describe b 83 name"

definition write_describe_portal :: "bytes \<Rightarrow> str \<Rightarrow> bytes" where
  "write_describe_portal b name = write_describe b 80 name"

definition write_close :: "bytes \<Rightarrow> byte \<Rightarrow> str \<Rightarrow> bytes" where
  "write_close b close_type name =
     finish (b_write_cstr name (b_write_u8 close_type (builder_new b F_CLOSE)))"

definition write_close_statement :: "bytes \<Rightarrow> str \<Rightarrow> bytes" where
  "write_close_statement b name = write_close b 83 name"

definition write_close_portal :: "bytes \<Rightarrow> str \<Rightarrow> bytes" where
  "write_close_portal b name = write_close b 80 name"

definition write_sync :: "bytes \<Rightarrow> bytes" where
  "write_sync b = finish (builder_new b F_SYNC)"

definition write_flush :: "bytes \<Rightarrow> bytes" where
  "write_flush b = finish (builder_new b F_FLUSH)"

section \<open>What a call appends\<close>

named_theorems frontend_framed \<open>each writer appends one framed message\<close>

lemma simple_framed [frontend_framed]:
  "write_query b q = b @ F_QUERY # framed (q @ [0])"
  "write_copy_data b d = b @ F_COPY_DATA # framed d"
  "write_copy_done b = b @ F_COPY_DONE # framed []"
  "write_copy_fail b e = b @ F_COPY_FAIL # framed (e @ [0])"
  "write_password b pw = b @ F_PASSWORD # framed (pw @ [0])"
  "write_sasl_initial_response b mech ir =
     b @ F_PASSWORD # framed (mech @ 0 # to_be_bytes (word_of_nat (length ir) :: i32) @ ir)"
  "write_sasl_response b ir = b @ F_PASSWORD # framed ir"
  "write_terminate b = b @ F_TERMINATE # framed []"
  "write_sync b = b @ F_SYNC # framed []"
  "write_flush b = b @ F_FLUSH # framed []"
  by (simp_all add: write_query_def write_copy_data_def write_copy_done_def write_copy_fail_def
      write_password_def write_sasl_initial_response_def write_sasl_response_def
      write_terminate_def write_sync_def write_flush_def)

lemma portal_framed [frontend_framed]:
  "write_execute b p n = b @ F_EXECUTE # framed (p @ 0 # to_be_bytes n)"
  "write_describe_statement b s = b @ F_DESCRIBE # framed (83 # s @ [0])"
  "write_describe_portal b s = b @ F_DESCRIBE # framed (80 # s @ [0])"
  "write_close_statement b s = b @ F_CLOSE # framed (83 # s @ [0])"
  "write_close_portal b s = b @ F_CLOSE # framed (80 # s @ [0])"
  by (simp_all add: write_execute_def write_describe_def write_describe_statement_def
      write_describe_portal_def write_close_def write_close_statement_def write_close_portal_def)

lemma fold_write_i32 [simp]:
  "fold b_write_i32 ws (building b p) = building b (p @ concat (map to_be_bytes ws))"
  by (induction ws arbitrary: p) simp_all

lemma write_parse_framed [frontend_framed]:
  "write_parse b name query oids =
     b @ F_PARSE # framed (name @ 0 # query @ 0 #
       to_be_bytes (word_of_nat (length oids) :: i16) @ concat (map to_be_bytes oids))"
  by (simp add: write_parse_def)

lemma fold_write_format [simp]:
  "fold (\<lambda>o1. b_write_i16 (format_value (preferred_format o1))) os (building b p) =
     building b (p @ concat (map (\<lambda>o1. to_be_bytes (format_value (preferred_format o1))) os))"
  by (induction os arbitrary: p) simp_all

lemma fold_write_params [simp]:
  "fold (\<lambda>(name, value) m. b_write_cstr value (b_write_cstr name m)) ps (building b p) =
     building b (p @ concat (map (\<lambda>(n, v). n @ 0 # v @ [0]) ps))"
  by (induction ps arbitrary: p) auto

lemma startup_framed [frontend_framed]:
  "write_startup b ps = b @ framed (to_be_bytes PROTOCOL_VERSION_3_2 @
     concat (map (\<lambda>(n, v). n @ 0 # v @ [0]) ps) @ [0])"
  "write_ssl_request b = b @ framed (to_be_bytes SSL_REQUEST_CODE)"
  "write_cancel_request b pid key =
     b @ framed (to_be_bytes CANCEL_REQUEST_CODE @ to_be_bytes pid @ key)"
  by (simp_all add: write_startup_def write_startup_with_version_def write_ssl_request_def
      write_cancel_request_def)

end
