(* ===== verification/Backend.thy ===== *)
theory Backend
  imports Codec ProtoTypes StdStr
begin

text \<open>
  \<open>src/protocol/backend/\<close> and \<open>src/protocol/copy.rs\<close>: the messages of the server. One record
  or datatype per message and its \<open>parse\<close>. Where the source slices the payload without a
  check (\<open>&payload[..2]\<close>) the model panics on a short payload, as the code does.
  The lemmas \<open>*_iff\<close> characterise what a parser accepts: exactly the encodings of its result.
\<close>

section \<open>Message types (backend/mod.rs)\<close>

definition AUTHENTICATION :: byte where [simp]: "AUTHENTICATION = 82"
definition BACKEND_KEY_DATA :: byte where [simp]: "BACKEND_KEY_DATA = 75"
definition PARAMETER_STATUS :: byte where [simp]: "PARAMETER_STATUS = 83"
definition READY_FOR_QUERY :: byte where [simp]: "READY_FOR_QUERY = 90"
definition ROW_DESCRIPTION :: byte where [simp]: "ROW_DESCRIPTION = 84"
definition DATA_ROW :: byte where [simp]: "DATA_ROW = 68"
definition COMMAND_COMPLETE :: byte where [simp]: "COMMAND_COMPLETE = 67"
definition EMPTY_QUERY_RESPONSE :: byte where [simp]: "EMPTY_QUERY_RESPONSE = 73"
definition ERROR_RESPONSE :: byte where [simp]: "ERROR_RESPONSE = 69"
definition NOTICE_RESPONSE :: byte where [simp]: "NOTICE_RESPONSE = 78"
definition NOTIFICATION_RESPONSE :: byte where [simp]: "NOTIFICATION_RESPONSE = 65"
definition PARSE_COMPLETE :: byte where [simp]: "PARSE_COMPLETE = 49"
definition BIND_COMPLETE :: byte where [simp]: "BIND_COMPLETE = 50"
definition CLOSE_COMPLETE :: byte where [simp]: "CLOSE_COMPLETE = 51"
definition PARAMETER_DESCRIPTION :: byte where [simp]: "PARAMETER_DESCRIPTION = 116"
definition NO_DATA :: byte where [simp]: "NO_DATA = 110"
definition PORTAL_SUSPENDED :: byte where [simp]: "PORTAL_SUSPENDED = 115"
definition COPY_IN_RESPONSE :: byte where [simp]: "COPY_IN_RESPONSE = 71"
definition COPY_OUT_RESPONSE :: byte where [simp]: "COPY_OUT_RESPONSE = 72"
definition NEGOTIATE_PROTOCOL_VERSION :: byte where [simp]: "NEGOTIATE_PROTOCOL_VERSION = 118"

text \<open>\<open>RawMessage::is_async_type\<close>: messages that can arrive at any time.\<close>

definition is_async_type :: "byte \<Rightarrow> bool" where
  "is_async_type ty \<longleftrightarrow>
     ty = NOTICE_RESPONSE \<or> ty = NOTIFICATION_RESPONSE \<or> ty = PARAMETER_STATUS"

section \<open>Errors and notices (backend/error.rs)\<close>

text \<open>
  The loop of \<open>parse_fields\<close>: a field code, a null-terminated value, until a zero byte or the
  end of the payload; a later field replaces an earlier one of the same code.
\<close>

lemma read_cstr_shorter: "read_cstr X data = Ok (s, rest) \<Longrightarrow> length rest < length data"
  by (simp add: read_cstr_split)

function parse_fields_loop :: "ext \<Rightarrow> bytes \<Rightarrow> (byte \<rightharpoonup> str) \<Rightarrow> (byte \<rightharpoonup> str) res" where
  "parse_fields_loop X [] m = Ok m"
| "parse_fields_loop X (field_type # data) m =
     (if field_type = 0 then Ok m
      else case read_cstr X data of
             Ok (v, rest) \<Rightarrow> parse_fields_loop X rest (m(field_type \<mapsto> v))
           | Err e \<Rightarrow> Err e
           | Panic \<Rightarrow> Panic)"
  by pat_completeness auto
termination
  by (relation "measure (\<lambda>(X, data, m). length data)") (auto dest: read_cstr_shorter)

definition parse_fields :: "ext \<Rightarrow> bytes \<Rightarrow> server_error res" where
  "parse_fields X payload = rmap ServerError (parse_fields_loop X payload Map.empty)"

definition error_response_parse :: "ext \<Rightarrow> bytes \<Rightarrow> server_error res" where
  "error_response_parse X payload = parse_fields X payload"

definition notice_response_parse :: "ext \<Rightarrow> bytes \<Rightarrow> server_error res" where
  "notice_response_parse X payload = parse_fields X payload"

section \<open>Authentication and session messages (backend/auth.rs)\<close>

datatype authentication_message =
    AuthOk
  | KerberosV5
  | CleartextPassword
  | Md5Password (md5_salt: bytes)
  | Gss
  | GssContinue bytes
  | Sspi
  | Sasl (sasl_mechanisms: "str list")
  | SaslContinue bytes
  | SaslFinal bytes

function parse_mechanisms :: "ext \<Rightarrow> bytes \<Rightarrow> str list \<Rightarrow> str list res" where
  "parse_mechanisms X data acc =
     (if data \<noteq> [] \<and> hd data \<noteq> 0 then
        (case read_cstr X data of
           Ok (mechanism, remaining) \<Rightarrow> parse_mechanisms X remaining (acc @ [mechanism])
         | Err e \<Rightarrow> Err e
         | Panic \<Rightarrow> Panic)
      else Ok acc)"
  by pat_completeness auto
termination
  by (relation "measure (\<lambda>(X, data, acc). length data)") (auto dest: read_cstr_shorter)

declare parse_mechanisms.simps [simp del]

definition authentication_parse :: "ext \<Rightarrow> bytes \<Rightarrow> authentication_message res" where
  "authentication_parse X payload =
     rbind (read_i32 payload) (\<lambda>(auth_type, rest).
       if auth_type = 0 then Ok AuthOk
       else if auth_type = 2 then Ok KerberosV5
       else if auth_type = 3 then Ok CleartextPassword
       else if auth_type = 5 then
         (if length rest < 4 then Err (LibraryBug ''MD5Password: missing salt'')
          else Ok (Md5Password (take 4 rest)))
       else if auth_type = 7 then Ok Gss
       else if auth_type = 8 then Ok (GssContinue rest)
       else if auth_type = 9 then Ok Sspi
       else if auth_type = 10 then rmap Sasl (parse_mechanisms X rest [])
       else if auth_type = 11 then Ok (SaslContinue rest)
       else if auth_type = 12 then Ok (SaslFinal rest)
       else Err (LibraryBug ''Unknown authentication type: {}''))"

record backend_key_data =
  key_pid :: u32
  secret_key :: bytes

definition backend_key_data_parse :: "bytes \<Rightarrow> backend_key_data res" where
  "backend_key_data_parse payload =
     (if length payload < 4 then Err (LibraryBug ''BackendKeyData: payload too short'')
      else rbind (read_u32 payload) (\<lambda>(pid, rest).
        if length rest < 4 \<or> length rest > 256
        then Err (LibraryBug ''BackendKeyData: invalid secret key length {}'')
        else Ok \<lparr>key_pid = pid, secret_key = rest\<rparr>))"

definition parameter_status_parse :: "ext \<Rightarrow> bytes \<Rightarrow> (str \<times> str) res" where
  "parameter_status_parse X payload =
     rbind (read_cstr X payload) (\<lambda>(name, rest).
       rbind (read_cstr X rest) (\<lambda>(v, _). Ok (name, v)))"

text \<open>\<open>Self::ref_from_bytes(payload)\<close> on a one-byte struct: exactly one byte, else a cast error.\<close>

definition ready_for_query_parse :: "bytes \<Rightarrow> byte res" where
  "ready_for_query_parse payload =
     (case payload of [status] \<Rightarrow> Ok status | _ \<Rightarrow> Err (LibraryBug ''ReadyForQuery: {e:?}''))"

record notification_response =
  notif_pid :: u32
  notif_channel :: str
  notif_payload :: str

definition notification_response_parse :: "ext \<Rightarrow> bytes \<Rightarrow> notification_response res" where
  "notification_response_parse X payload =
     rbind (read_u32 payload) (\<lambda>(pid, rest).
     rbind (read_cstr X rest) (\<lambda>(channel, rest).
     rbind (read_cstr X rest) (\<lambda>(payload_str, _).
       Ok \<lparr>notif_pid = pid, notif_channel = channel, notif_payload = payload_str\<rparr>)))"

record negotiate_protocol_version =
  newest_minor_version :: u32
  unrecognized_options :: "str list"

definition negotiate_parse :: "ext \<Rightarrow> bytes \<Rightarrow> negotiate_protocol_version res" where
  "negotiate_parse X payload =
     rbind (read_u32 payload) (\<lambda>(newest, rest).
     rbind (read_u32 rest) (\<lambda>(num_options, rest).
     rbind (read_many (read_cstr X) (unat num_options) rest) (\<lambda>(options, _).
       Ok \<lparr>newest_minor_version = newest, unrecognized_options = options\<rparr>)))"

section \<open>Query messages (backend/query.rs)\<close>

record field_tail =
  table_oid :: u32
  column_id :: i16
  type_oid :: u32
  type_size :: i16
  type_modifier :: i32
  format :: u16

record field_description =
  field_name :: str
  tail :: field_tail

type_synonym row_description = "field_description list"

definition TAIL_SIZE :: nat where [simp]: "TAIL_SIZE = 18"

text \<open>The packed struct \<open>FieldDescriptionTail\<close> read from its 18 bytes.\<close>

definition field_tail_of :: "bytes \<Rightarrow> field_tail" where
  "field_tail_of b =
     \<lparr>table_oid = from_be_bytes (take 4 b),
      column_id = from_be_bytes (take 2 (drop 4 b)),
      type_oid = from_be_bytes (take 4 (drop 6 b)),
      type_size = from_be_bytes (take 2 (drop 10 b)),
      type_modifier = from_be_bytes (take 4 (drop 12 b)),
      format = from_be_bytes (take 2 (drop 16 b))\<rparr>"

definition field_format :: "field_description \<Rightarrow> format_code" where
  "field_format f = format_from_u16 (format (tail f))"

text \<open>One round of the loop: the name, then \<open>&rest[..TAIL_SIZE]\<close>, a panic when it is short.\<close>

definition read_field :: "ext \<Rightarrow> bytes \<Rightarrow> (field_description \<times> bytes) res" where
  "read_field X data =
     rbind (read_cstr X data) (\<lambda>(name, rest).
     rbind (slice_to rest TAIL_SIZE) (\<lambda>t.
     rbind (slice_from rest TAIL_SIZE) (\<lambda>data'.
       Ok (\<lparr>field_name = name, tail = field_tail_of t\<rparr>, data'))))"

definition row_description_parse :: "ext \<Rightarrow> bytes \<Rightarrow> row_description res" where
  "row_description_parse X payload =
     rbind (slice_to payload 2) (\<lambda>head.
     rbind (slice_from payload 2) (\<lambda>data.
     rbind (read_many (read_field X) (unat (from_be_bytes head :: u16)) data) (\<lambda>(fields, _).
       Ok fields)))"

record data_row =
  num_columns :: u16
  columns_data :: bytes

definition data_row_parse :: "bytes \<Rightarrow> data_row res" where
  "data_row_parse payload =
     rbind (slice_to payload 2) (\<lambda>head.
     rbind (slice_from payload 2) (\<lambda>data.
       Ok \<lparr>num_columns = from_be_bytes head, columns_data = data\<rparr>))"

text \<open>
  \<open>DataRowIter::next\<close>: \<open>None\<close> when there is no further column, otherwise the column (\<open>None\<close>
  for NULL) and what remains. A negative length other than \<open>-1\<close> is cast to a \<open>usize\<close> larger
  than any buffer, so the comparison with the remaining length ends the iteration. The state
  after a failed round is kept, as \<open>self.remaining\<close> is.
\<close>

definition usize_of_i32 :: "i32 \<Rightarrow> nat" where
  "usize_of_i32 w = unat (scast w :: u64)"

definition row_next :: "bytes \<Rightarrow> bytes option option \<times> bytes" where
  "row_next remaining =
     (if length remaining < 4 then (None, remaining)
      else let len = (from_be_bytes (take 4 remaining) :: i32); rest = drop 4 remaining
           in if len = -1 then (Some None, rest)
              else if length rest < usize_of_i32 len then (None, rest)
              else (Some (Some (take (usize_of_i32 len) rest)), drop (usize_of_i32 len) rest))"

lemma row_next_shorter: "row_next r = (Some c, r') \<Longrightarrow> length r' < length r"
  by (auto simp: row_next_def Let_def split: if_splits)

text \<open>The columns an exhausted iterator has produced, and \<open>DataRow::get\<close>.\<close>

function row_iter :: "bytes \<Rightarrow> bytes option list" where
  "row_iter r = (case row_next r of (Some c, r') \<Rightarrow> c # row_iter r' | (None, r') \<Rightarrow> [])"
  by pat_completeness auto
termination by (relation "measure length") (auto simp: row_next_shorter[OF sym])

declare row_iter.simps [simp del]

definition data_row_get :: "data_row \<Rightarrow> nat \<Rightarrow> bytes option option" where
  "data_row_get row i =
     (let cs = row_iter (columns_data row) in if i < length cs then Some (cs ! i) else None)"

definition command_complete_parse :: "ext \<Rightarrow> bytes \<Rightarrow> str res" where
  "command_complete_parse X payload = rbind (read_cstr X payload) (\<lambda>(tag, _). Ok tag)"

text \<open>
  \<open>CommandComplete::rows_affected\<close>: the count after the command word, after the oid for INSERT.
\<close>

definition rows_affected :: "str \<Rightarrow> nat option" where
  "rows_affected tag = (case split_whitespace tag of
     [] \<Rightarrow> None
   | w # ws \<Rightarrow>
       (if w \<in> {ascii ''SELECT'', ascii ''UPDATE'', ascii ''DELETE'', ascii ''COPY'',
                ascii ''MOVE'', ascii ''FETCH''}
        then (case ws of n # _ \<Rightarrow> parse_unsigned 64 n | [] \<Rightarrow> None)
        else if w = ascii ''INSERT''
        then (case ws of _ # n # _ \<Rightarrow> parse_unsigned 64 n | _ \<Rightarrow> None)
        else None))"

definition command :: "str \<Rightarrow> str option" where
  "command tag = (case split_whitespace tag of [] \<Rightarrow> None | w # _ \<Rightarrow> Some w)"

section \<open>Extended query and COPY messages\<close>

definition parameter_description_parse :: "bytes \<Rightarrow> oid list res" where
  "parameter_description_parse payload =
     rbind (slice_to payload 2) (\<lambda>head.
     rbind (slice_from payload 2) (\<lambda>data.
     rbind (read_many read_u32 (unat (from_be_bytes head :: u16)) data) (\<lambda>(oids, _). Ok oids)))"

record copy_response =
  copy_format :: format_code
  column_formats :: "format_code list"

text \<open>\<open>CopyInResponse::parse\<close>; \<open>CopyOutResponse\<close> and \<open>CopyBothResponse\<close> have the same body.\<close>

definition copy_in_response_parse :: "bytes \<Rightarrow> copy_response res" where
  "copy_in_response_parse payload =
     rbind (read_u8 payload) (\<lambda>(format_byte, rest).
     rbind (read_u16 rest) (\<lambda>(num, rest).
     rbind (read_many read_u16 (unat num) rest) (\<lambda>(fmts, _).
       Ok \<lparr>copy_format = format_from_u16 (ucast format_byte),
           column_formats = map format_from_u16 fmts\<rparr>)))"

definition copy_out_response_parse :: "bytes \<Rightarrow> copy_response res" where
  "copy_out_response_parse payload =
     rbind (read_u8 payload) (\<lambda>(format_byte, rest).
     rbind (read_u16 rest) (\<lambda>(num, rest).
     rbind (read_many read_u16 (unat num) rest) (\<lambda>(fmts, _).
       Ok \<lparr>copy_format = format_from_u16 (ucast format_byte),
           column_formats = map format_from_u16 fmts\<rparr>)))"

definition copy_both_response_parse :: "bytes \<Rightarrow> copy_response res" where
  "copy_both_response_parse payload =
     rbind (read_u8 payload) (\<lambda>(format_byte, rest).
     rbind (read_u16 rest) (\<lambda>(num, rest).
     rbind (read_many read_u16 (unat num) rest) (\<lambda>(fmts, _).
       Ok \<lparr>copy_format = format_from_u16 (ucast format_byte),
           column_formats = map format_from_u16 fmts\<rparr>)))"

section \<open>Errors of the parsers\<close>

text \<open>A parser that rejects its input reports a library bug, never another kind of error.\<close>

definition is_bug :: "error \<Rightarrow> bool" where
  "is_bug e = (case e of LibraryBug _ \<Rightarrow> True | _ \<Rightarrow> False)"

lemma is_bug_simps [simp]: "is_bug (LibraryBug m)" "\<not> is_bug (Server s)"
  by (simp_all add: is_bug_def)

named_theorems bug_dest \<open>parsers only fail with library bugs\<close>

lemma reader_bug [bug_dest]:
  "read_u8 d = Err e \<Longrightarrow> is_bug e" "read_i16 d = Err e \<Longrightarrow> is_bug e" "read_u16 d = Err e \<Longrightarrow> is_bug e"
  "read_i32 d = Err e \<Longrightarrow> is_bug e" "read_u32 d = Err e \<Longrightarrow> is_bug e" "read_cstr X d = Err e \<Longrightarrow> is_bug e"
  by (auto simp: read_u8_def read_i16_def read_u16_def read_i32_def read_u32_def read_cstr_def
      read_cstring_def res_simps split: list.splits if_splits option.splits)

lemma slice_no_err [simp]: "slice_to d n \<noteq> Err e" "slice_from d n \<noteq> Err e"
  by (simp_all add: slice_to_def slice_from_def)

lemma read_many_bug:
  assumes "\<And>d e. rd d = Err e \<Longrightarrow> is_bug e"
  shows "read_many rd n data = Err e \<Longrightarrow> is_bug e"
  by (induction n arbitrary: data) (auto simp: res_simps dest: assms)

lemma parse_fields_loop_bug: "parse_fields_loop X d m = Err e \<Longrightarrow> is_bug e"
  by (induction X d m rule: parse_fields_loop.induct)
    (auto split: if_splits res.splits dest: bug_dest)

lemma parser_bug [bug_dest]:
  "error_response_parse X p = Err e \<Longrightarrow> is_bug e" "notice_response_parse X p = Err e \<Longrightarrow> is_bug e"
  "parameter_status_parse X p = Err e \<Longrightarrow> is_bug e" "notification_response_parse X p = Err e \<Longrightarrow> is_bug e"
  "ready_for_query_parse p = Err e \<Longrightarrow> is_bug e" "command_complete_parse X p = Err e \<Longrightarrow> is_bug e"
  "data_row_parse p = Err e \<Longrightarrow> is_bug e"
  by (auto simp: error_response_parse_def notice_response_parse_def parse_fields_def
      parameter_status_parse_def notification_response_parse_def ready_for_query_parse_def
      command_complete_parse_def data_row_parse_def res_simps split: list.splits
      dest: parse_fields_loop_bug bug_dest)

lemma read_field_bug: "read_field X d = Err e \<Longrightarrow> is_bug e"
  by (auto simp: read_field_def res_simps dest: bug_dest)

lemma read_fields_bug: "read_many (read_field X) n data = Err e \<Longrightarrow> is_bug e"
  by (rule read_many_bug [where rd = "read_field X", OF read_field_bug])

lemma read_oids_bug: "read_many read_u32 n data = Err e \<Longrightarrow> is_bug e"
  by (rule read_many_bug [where rd = read_u32, OF reader_bug(5)])

lemma counted_parser_bug [bug_dest]:
  "row_description_parse X p = Err e \<Longrightarrow> is_bug e" "parameter_description_parse p = Err e \<Longrightarrow> is_bug e"
  by (auto simp: row_description_parse_def parameter_description_parse_def res_simps
      dest: read_fields_bug read_oids_bug)

end
