(* ===== verification/WireFacts.thy ===== *)
theory WireFacts
  imports Frontend Backend
begin

text \<open>
  The messages against their wire format. For the client's messages, what a server reads out
  of them (\<open>decode_bind\<close>, \<open>deframe\<close>); for the server's messages, an encoder of the format and
  the round trip through the client's parser.
\<close>

section \<open>Bind\<close>

text \<open>A reader of the Bind message, by the protocol's description of it.\<close>

record bind_message =
  bm_portal :: str
  bm_statement :: str
  bm_formats :: "u16 list"
  bm_values :: "bytes option list"
  bm_result_formats :: "u16 list"

definition decode_bind :: "bytes \<Rightarrow> bind_message res" where
  "decode_bind p =
     rbind (read_cstring p) (\<lambda>(portal, p).
     rbind (read_cstring p) (\<lambda>(statement, p).
     rbind (read_u16 p) (\<lambda>(n, p).
     rbind (read_many read_u16 (unat n) p) (\<lambda>(formats, p).
     rbind (read_u16 p) (\<lambda>(k, p).
     rbind (read_many read_value (unat k) p) (\<lambda>(vals, p).
     rbind (read_u16 p) (\<lambda>(r, p).
     rbind (read_many read_u16 (unat r) p) (\<lambda>(results, p).
       if p = [] then Ok \<lparr>bm_portal = portal, bm_statement = statement, bm_formats = formats,
         bm_values = vals, bm_result_formats = results\<rparr>
       else Err (LibraryBug ''trailing bytes'')))))))))"

text \<open>Parameters that encode, for these target types, to the values \<open>vs\<close>.\<close>

definition encodes :: "to_params \<Rightarrow> oid list \<Rightarrow> bytes option list \<Rightarrow> bool" where
  "encodes params oids vs \<longleftrightarrow> param_count params = length vs \<and> length vs < 2 ^ 16 \<and>
     (\<forall>v \<in> set vs. good_value v) \<and>
     (\<forall>b. encode_params params oids b = (Ok (), b @ concat (map enc_value vs)))"

definition format_word :: "format_code \<Rightarrow> u16" where
  "format_word f = (case f of Text \<Rightarrow> 0 | Binary \<Rightarrow> 1)"

lemma to_be_format_word: "to_be_bytes (format_value f) = to_be_bytes (format_word f)"
  by (cases f) (simp_all add: format_word_def)

definition bind_payload :: "str \<Rightarrow> str \<Rightarrow> oid list \<Rightarrow> bytes option list \<Rightarrow> bytes" where
  "bind_payload portal stmt oids vs = portal @ 0 # stmt @ 0 #
     to_be_bytes (word_of_nat (length vs) :: i16) @
     concat (map (\<lambda>o1. to_be_bytes (format_value (preferred_format o1))) oids) @
     to_be_bytes (word_of_nat (length vs) :: i16) @ concat (map enc_value vs) @
     to_be_bytes (1 :: i16) @ to_be_bytes (format_value Binary)"

lemma building_encode:
  "(building b p)\<lparr>buf := buf (building b p) @ xs\<rparr> = building b (p @ xs)"
  by (simp add: building_def)

lemma write_bind_framed:
  assumes "encodes params oids vs"
  shows "write_bind b portal stmt params oids = (Ok (), b @ F_BIND # framed (bind_payload portal stmt oids vs))"
  using assms
  by (simp add: write_bind_def encodes_def building_encode bind_payload_def Let_def)

lemma read_many_formats:
  "read_many read_u16 (length oids)
     (concat (map (\<lambda>o1. to_be_bytes (format_value (preferred_format o1))) oids) @ rest) =
   Ok (map (\<lambda>o1. format_word (preferred_format o1)) oids, rest)"
  using u16_codec.read_many_enc [of "map (\<lambda>o1. format_word (preferred_format o1)) oids" rest]
  by (simp add: to_be_format_word comp_def)

lemma unat_count: "n < 2 ^ 16 \<Longrightarrow> unat (word_of_nat n :: u16) = n"
  by (simp add: unat_of_nat)

lemma decode_bind_payload:
  assumes "0 \<notin> set portal" and "0 \<notin> set stmt" and "length oids = length vs" and "length vs < 2 ^ 16"
    and "\<forall>v \<in> set vs. good_value v"
  shows "decode_bind (bind_payload portal stmt oids vs) =
    Ok \<lparr>bm_portal = portal, bm_statement = stmt,
        bm_formats = map (\<lambda>o1. format_word (preferred_format o1)) oids, bm_values = vs,
        bm_result_formats = [1]\<rparr>"
  using assms u16_codec.dec_enc [where rest = "_ :: bytes"]
    read_many_formats [of oids] value_codec.read_many_enc [of vs]
    u16_codec.read_many_enc [of "[1]" "[]"]
  by (simp add: decode_bind_def bind_payload_def u16_codec.dec_enc unat_count)

section \<open>Messages of the server\<close>

text \<open>RowDescription: the fields' names and their 18-byte tails.\<close>

definition enc_tail :: "field_tail \<Rightarrow> bytes" where
  "enc_tail t = to_be_bytes (table_oid t) @ to_be_bytes (column_id t) @ to_be_bytes (type_oid t) @
     to_be_bytes (type_size t) @ to_be_bytes (type_modifier t) @ to_be_bytes (format t)"

definition enc_field :: "field_description \<Rightarrow> bytes" where
  "enc_field f = field_name f @ 0 # enc_tail (tail f)"

definition good_field :: "ext \<Rightarrow> field_description \<Rightarrow> bool" where
  "good_field X f \<longleftrightarrow> 0 \<notin> set (field_name f) \<and> x_utf8 X (field_name f)"

definition enc_row_description :: "row_description \<Rightarrow> bytes" where
  "enc_row_description fs = to_be_bytes (word_of_nat (length fs) :: u16) @ concat (map enc_field fs)"

lemma length_enc_tail [simp]: "length (enc_tail t) = 18"
  by (simp add: enc_tail_def)

lemma field_tail_of_enc [simp]: "field_tail_of (enc_tail t) = t"
  by (cases t) (simp add: field_tail_of_def enc_tail_def)

lemma take_pieces:
  "length b = 18 \<Longrightarrow> take 4 b @ take 2 (drop 4 b) @ take 4 (drop 6 b) @ take 2 (drop 10 b) @
     take 4 (drop 12 b) @ take 2 (drop 16 b) = b"
  using take_add [of 4 2 b] take_add [of 6 4 b] take_add [of 10 2 b] take_add [of 12 4 b]
    take_add [of 16 2 b] by simp

lemma enc_tail_of: "length b = 18 \<Longrightarrow> enc_tail (field_tail_of b) = b"
  using take_pieces [of b] by (simp add: field_tail_of_def enc_tail_def to_from_be_bytes)

interpretation field_codec: wire_reader enc_field "read_field X" "good_field X" for X
proof
  fix f rest
  assume "good_field X f"
  then show "read_field X (enc_field f @ rest) = Ok (f, rest)"
    by (simp add: read_field_def enc_field_def good_field_def slice_to_def slice_from_def)
next
  fix data f rest
  assume "read_field X data = Ok (f, rest)"
  then obtain name r where "read_cstr X data = Ok (name, r)" "18 \<le> length r"
      "f = \<lparr>field_name = name, tail = field_tail_of (take 18 r)\<rparr>" "rest = drop 18 r"
    by (auto simp: read_field_def res_simps slice_to_def slice_from_def split: if_splits)
  then show "data = enc_field f @ rest \<and> good_field X f"
    by (auto simp: read_cstr_split enc_field_def good_field_def enc_tail_of)
qed

definition enc_data_row :: "bytes option list \<Rightarrow> bytes" where
  "enc_data_row vs = to_be_bytes (word_of_nat (length vs) :: u16) @ concat (map enc_value vs)"

lemma usize_of_length: "n < 2 ^ 31 \<Longrightarrow> usize_of_i32 (word_of_nat n) = n"
proof -
  assume n: "n < 2 ^ 31"
  then have "sint (word_of_nat n :: i32) = int n"
    by (simp add: signed_of_nat signed_take_bit_int_eq_self)
  then have "(scast (word_of_nat n :: i32) :: u64) = word_of_int (int n)"
    by (simp add: scast_eq)
  then have "unat (scast (word_of_nat n :: i32) :: u64) = unat (word_of_nat n :: u64)"
    by simp
  also have "\<dots> = n" using n by (simp add: unat_of_nat)
  finally show ?thesis by (simp add: usize_of_i32_def)
qed

lemma row_next_enc: "good_value v \<Longrightarrow> row_next (enc_value v @ rest) = (Some v, rest)"
  by (cases v) (simp_all add: row_next_def enc_value_def good_value_def Let_def usize_of_length)

lemma row_iter_enc: "\<forall>v \<in> set vs. good_value v \<Longrightarrow> row_iter (concat (map enc_value vs)) = vs"
proof (induction vs)
  case Nil
  then show ?case by (simp add: row_iter.simps row_next_def)
next
  case (Cons v vs)
  then show ?case by (subst row_iter.simps) (simp add: row_next_enc)
qed

text \<open>ErrorResponse and NoticeResponse: codes and values, then a zero byte.\<close>

definition enc_fields :: "(byte \<times> str) list \<Rightarrow> bytes" where
  "enc_fields fs = concat (map (\<lambda>(c, v). c # v @ [0]) fs) @ [0]"

lemma parse_fields_loop_enc:
  "\<forall>(c, v) \<in> set fs. c \<noteq> 0 \<and> 0 \<notin> set v \<and> x_utf8 X v \<Longrightarrow>
     parse_fields_loop X (enc_fields fs) m = Ok (m ++ map_of (rev fs))"
proof (induction fs arbitrary: m)
  case Nil
  then show ?case by (simp add: enc_fields_def)
next
  case (Cons f fs)
  obtain c v where "f = (c, v)" by (cases f)
  with Cons show ?case
    by (simp add: enc_fields_def map_add_assoc map_add_upd_left del: map_add_upd)
      (auto simp: map_add_def fun_eq_iff split: option.splits)
qed

end
