(* ===== verification/StateMachine.thy ===== *)
theory StateMachine
  imports Backend Frontend
begin

text \<open>
  What the state machines of \<open>src/state/\<close> share: the buffer set (\<open>src/buffer_set.rs\<close>), the
  actions they request (\<open>src/state/action.rs\<close>), the handler of rows (\<open>src/handler.rs\<close>), and the
  handling of messages that can arrive at any time.

  A step takes the machine and the buffer set by mutable reference, so its model returns the
  result with both of them.
\<close>

section \<open>Buffers and actions\<close>

record buffer_set =
  read_buffer :: bytes
  write_buffer :: bytes
  column_buffer :: bytes
  type_byte :: byte

definition buffer_set_new :: buffer_set where
  "buffer_set_new =
     \<lparr>read_buffer = [], write_buffer = [], column_buffer = [], type_byte = 0\<rparr>"

definition save_column_buffer :: "buffer_set \<Rightarrow> buffer_set" where
  "save_column_buffer bs = bs\<lparr>column_buffer := read_buffer bs\<rparr>"

datatype async_message =
    Notification u32 str str
  | Notice server_error
  | ParameterChanged str str

datatype action =
    WriteAndReadByte
  | ReadMessage
  | Write
  | WriteAndReadMessage
  | TlsHandshake
  | HandleAsyncMessageAndReadMessage async_message
  | ActionError server_error
  | Finished

section \<open>Asynchronous messages\<close>

text \<open>The three machines have the same \<open>handle_async_message\<close>.\<close>

definition handle_async_message :: "ext \<Rightarrow> byte \<Rightarrow> bytes \<Rightarrow> action res" where
  "handle_async_message X ty payload =
     (if ty = NOTICE_RESPONSE then
        rmap (\<lambda>notice. HandleAsyncMessageAndReadMessage (Notice notice))
          (notice_response_parse X payload)
      else if ty = PARAMETER_STATUS then
        rmap (\<lambda>(n, v). HandleAsyncMessageAndReadMessage (ParameterChanged n v))
          (parameter_status_parse X payload)
      else if ty = NOTIFICATION_RESPONSE then
        rmap (\<lambda>n. HandleAsyncMessageAndReadMessage
               (Notification (notif_pid n) (notif_channel n) (notif_payload n)))
          (notification_response_parse X payload)
      else Err (LibraryBug ''Unknown async message type: {}''))"

definition ext_handle_async_message :: "ext \<Rightarrow> byte \<Rightarrow> bytes \<Rightarrow> action res" where
  [simp]: "ext_handle_async_message X ty payload = handle_async_message X ty payload"

definition startup_handle_async_message :: "ext \<Rightarrow> byte \<Rightarrow> bytes \<Rightarrow> action res" where
  [simp]: "startup_handle_async_message X ty payload = handle_async_message X ty payload"

lemma handle_async_message_Ok:
  "handle_async_message X ty p = Ok a \<Longrightarrow> \<exists>m. a = HandleAsyncMessageAndReadMessage m"
  by (auto simp: handle_async_message_def res_simps split: if_splits)

section \<open>Handlers (src/handler.rs)\<close>

text \<open>
  The traits \<open>SimpleHandler\<close> and \<open>ExtendedHandler\<close>: three callbacks on the state of the handler,
  each of which may fail.
\<close>

record 'h handler =
  h_result_start :: "'h \<Rightarrow> row_description \<Rightarrow> unit res \<times> 'h"
  h_row :: "'h \<Rightarrow> row_description \<Rightarrow> data_row \<Rightarrow> unit res \<times> 'h"
  h_result_end :: "'h \<Rightarrow> str \<Rightarrow> unit res \<times> 'h"

text \<open>The state of \<open>DropHandler\<close> is \<open>rows_affected\<close>.\<close>

definition drop_handler :: "(nat option) handler" where
  "drop_handler =
     \<lparr>h_result_start = (\<lambda>h cols. (Ok (), h)),
      h_row = (\<lambda>h cols row. (Ok (), h)),
      h_result_end = (\<lambda>h tag. (Ok (), rows_affected tag))\<rparr>"

text \<open>
  \<open>CollectHandler<T>\<close>, \<open>FirstRowHandler<T>\<close> and \<open>ForEachHandler<T, F>\<close>, with \<open>T::from_row_text\<close>
  (simple protocol) or \<open>T::from_row_binary\<close> (extended protocol) as \<open>from_row\<close>.
\<close>

definition collect_handler ::
    "(row_description \<Rightarrow> data_row \<Rightarrow> 'a res) \<Rightarrow> ('a list) handler" where
  "collect_handler from_row =
     \<lparr>h_result_start = (\<lambda>h cols. (Ok (), h)),
      h_row = (\<lambda>rows cols row. rtry (from_row cols row) rows (\<lambda>t. (Ok (), rows @ [t]))),
      h_result_end = (\<lambda>h tag. (Ok (), h))\<rparr>"

definition first_row_handler ::
    "(row_description \<Rightarrow> data_row \<Rightarrow> 'a res) \<Rightarrow> ('a option) handler" where
  "first_row_handler from_row =
     \<lparr>h_result_start = (\<lambda>h cols. (Ok (), h)),
      h_row = (\<lambda>h cols row. case h of
          None \<Rightarrow> rtry (from_row cols row) h (\<lambda>t. (Ok (), Some t))
        | Some _ \<Rightarrow> (Ok (), h)),
      h_result_end = (\<lambda>h tag. (Ok (), h))\<rparr>"

definition for_each_handler ::
    "(row_description \<Rightarrow> data_row \<Rightarrow> 'a res) \<Rightarrow> ('s \<Rightarrow> 'a \<Rightarrow> unit res \<times> 's) \<Rightarrow> 's handler" where
  "for_each_handler from_row f =
     \<lparr>h_result_start = (\<lambda>h cols. (Ok (), h)),
      h_row = (\<lambda>h cols row. rtry (from_row cols row) h (\<lambda>t. f h t)),
      h_result_end = (\<lambda>h tag. (Ok (), h))\<rparr>"

lemma handle_async_bug [bug_dest]: "handle_async_message X ty p = Err e \<Longrightarrow> is_bug e"
  by (auto simp: handle_async_message_def res_simps split: if_splits dest: bug_dest)

lemma drop_handler_simps [simp]:
  "h_result_start drop_handler h cols = (Ok (), h)" "h_row drop_handler h cols row = (Ok (), h)"
  "h_result_end drop_handler h tag = (Ok (), rows_affected tag)"
  by (simp_all add: drop_handler_def)

end
