(* ===== verification/SyncStream.thy ===== *)
theory SyncStream
  imports StateMachine
begin

text \<open>
  \<open>src/sync/stream.rs\<close> and the connection record of \<open>src/sync/conn.rs\<close>.

  A stream is what the peer will still send (\<open>inp\<close>), what has been written (\<open>out\<close>), and
  whether writes succeed. A read past the end of \<open>inp\<close> is the peer closing the stream: an
  \<open>UnexpectedEof\<close> error. The user's asynchronous message handler only observes messages, so
  it is the list of messages it was given; \<open>None\<close> is no handler. Sockets and TLS
  sessions are not modelled.

  \<open>'a io\<close> is a method on \<open>&mut Conn\<close>: \<open>None\<close> is a call that does not return, and the new
  connection is returned on every path. \<open>io_bind\<close> is the \<open>?\<close> operator.
\<close>

section \<open>Streams\<close>

record stream =
  inp :: bytes
  out :: bytes
  writable :: bool

definition stream_read_u8 :: "stream \<Rightarrow> byte res \<times> stream" where
  "stream_read_u8 s = (case inp s of
     [] \<Rightarrow> (Err (Io UnexpectedEof), s)
   | b # r \<Rightarrow> (Ok b, s\<lparr>inp := r\<rparr>))"

definition stream_read_exact :: "nat \<Rightarrow> stream \<Rightarrow> bytes res \<times> stream" where
  "stream_read_exact n s =
     (if n \<le> length (inp s) then (Ok (take n (inp s)), s\<lparr>inp := drop n (inp s)\<rparr>)
      else (Err (Io UnexpectedEof), s\<lparr>inp := []\<rparr>))"

text \<open>A length below 4 saturates to an empty payload.\<close>

definition stream_read_message :: "stream \<Rightarrow> buffer_set \<Rightarrow> unit res \<times> buffer_set \<times> stream" where
  "stream_read_message s bs =
     (let (r, s1) = stream_read_u8 s in
      rtry r (bs, s1) (\<lambda>ty.
        let bs1 = bs\<lparr>type_byte := ty\<rparr>; (r, s2) = stream_read_exact 4 s1 in
        rtry r (bs1, s2) (\<lambda>length_bytes.
          let payload_len = unat (from_be_bytes length_bytes :: u32) - 4;
              bs2 = bs1\<lparr>read_buffer := replicate payload_len 0\<rparr>;
              (r, s3) = stream_read_exact payload_len s2
          in rtry r (bs2, s3) (\<lambda>payload. (Ok (), bs2\<lparr>read_buffer := payload\<rparr>, s3)))))"

definition stream_write_all :: "bytes \<Rightarrow> stream \<Rightarrow> unit res \<times> stream" where
  "stream_write_all data s =
     (if writable s then (Ok (), s\<lparr>out := out s @ data\<rparr>) else (Err (Io WriteFailed), s))"

definition stream_flush :: "stream \<Rightarrow> unit res \<times> stream" where
  "stream_flush s = (if writable s then (Ok (), s) else (Err (Io WriteFailed), s))"

section \<open>The connection\<close>

record conn =
  c_stream :: stream
  c_bufs :: buffer_set
  c_key :: "backend_key_data option"
  c_params :: "(str \<times> str) list"
  c_tx :: tx_status
  c_broken :: bool
  c_counter :: u64
  c_async :: "async_message list option"

definition conn_read_message :: "conn \<Rightarrow> unit res \<times> conn" where
  "conn_read_message c =
     (let (r, bs, s) = stream_read_message (c_stream c) (c_bufs c)
      in (r, c\<lparr>c_stream := s, c_bufs := bs\<rparr>))"

text \<open>\<open>stream.write_all(&write_buffer)?; stream.flush()?\<close>\<close>

definition conn_write_flush :: "conn \<Rightarrow> unit res \<times> conn" where
  "conn_write_flush c =
     (let (r, s) = stream_write_all (write_buffer (c_bufs c)) (c_stream c); c1 = c\<lparr>c_stream := s\<rparr>
      in rtry r c1 (\<lambda>_. let (r, s) = stream_flush s in (r, c1\<lparr>c_stream := s\<rparr>)))"

definition conn_handle_async :: "async_message \<Rightarrow> conn \<Rightarrow> conn" where
  "conn_handle_async m c = c\<lparr>c_async := map_option (\<lambda>ms. ms @ [m]) (c_async c)\<rparr>"

definition conn_id :: "conn \<Rightarrow> u32" where
  "conn_id c = (case c_key c of None \<Rightarrow> 0 | Some k \<Rightarrow> key_pid k)"

definition conn_in_transaction :: "conn \<Rightarrow> bool" where
  "conn_in_transaction c = in_transaction (c_tx c)"

text \<open>\<open>if let Err(e) = &result && e.is_connection_broken() { self.is_broken = true; }\<close>\<close>

definition mark_broken :: "'a res \<Rightarrow> conn \<Rightarrow> conn" where
  "mark_broken r c = (case r of
     Err e \<Rightarrow> if is_connection_broken e then c\<lparr>c_broken := True\<rparr> else c
   | _ \<Rightarrow> c)"

type_synonym 'a io = "conn \<Rightarrow> ('a res \<times> conn) option"

definition io_pure :: "(conn \<Rightarrow> 'a res \<times> conn) \<Rightarrow> 'a io" where
  "io_pure f c = Some (f c)"

definition io_bind :: "'a io \<Rightarrow> ('a \<Rightarrow> 'b io) \<Rightarrow> 'b io" where
  "io_bind m f c = (case m c of
     None \<Rightarrow> None
   | Some (Ok x, c') \<Rightarrow> f x c'
   | Some (Err e, c') \<Rightarrow> Some (Err e, c')
   | Some (Panic, c') \<Rightarrow> Some (Panic, c'))"

definition io_mark :: "'a io \<Rightarrow> 'a io" where
  "io_mark m c = map_option (\<lambda>(r, c'). (r, mark_broken r c')) (m c)"

section \<open>Messages on the stream\<close>

definition wire :: "byte \<times> bytes \<Rightarrow> bytes" where
  "wire m = fst m # framed (snd m)"

definition small :: "byte \<times> bytes \<Rightarrow> bool" where
  "small m \<longleftrightarrow> 4 + length (snd m) < 2 ^ 32"

lemma wire_Cons [simp]: "wire (ty, p) = ty # framed p"
  by (simp add: wire_def)

text \<open>A connection that is at a message, and the same one after the message has been read.\<close>

definition got :: "byte \<times> bytes \<Rightarrow> bytes \<Rightarrow> conn \<Rightarrow> conn" where
  "got m rest c = c\<lparr>c_stream := (c_stream c)\<lparr>inp := rest\<rparr>,
     c_bufs := (c_bufs c)\<lparr>type_byte := fst m, read_buffer := snd m\<rparr>\<rparr>"

lemma got_simps [simp]:
  "inp (c_stream (got m rest c)) = rest" "out (c_stream (got m rest c)) = out (c_stream c)"
  "writable (c_stream (got m rest c)) = writable (c_stream c)"
  "type_byte (c_bufs (got m rest c)) = fst m" "read_buffer (c_bufs (got m rest c)) = snd m"
  "write_buffer (c_bufs (got m rest c)) = write_buffer (c_bufs c)"
  "column_buffer (c_bufs (got m rest c)) = column_buffer (c_bufs c)"
  "c_key (got m rest c) = c_key c" "c_params (got m rest c) = c_params c"
  "c_tx (got m rest c) = c_tx c" "c_broken (got m rest c) = c_broken c"
  "c_counter (got m rest c) = c_counter c" "c_async (got m rest c) = c_async c"
  by (simp_all add: got_def)

lemma stream_read_exact_append:
  "inp s = xs @ rest \<Longrightarrow> length xs = n \<Longrightarrow> stream_read_exact n s = (Ok xs, s\<lparr>inp := rest\<rparr>)"
  by (simp add: stream_read_exact_def)

lemma stream_read_wire [simp]:
  assumes "inp s = wire m @ rest" and "small m"
  shows "stream_read_message s bs =
    (Ok (), bs\<lparr>type_byte := fst m, read_buffer := snd m\<rparr>, s\<lparr>inp := rest\<rparr>)"
proof -
  obtain ty p where m: "m = (ty, p)" by (cases m)
  let ?len = "word_of_nat (4 + length p) :: u32"
  have len: "unat ?len = 4 + length p"
    using assms(2) m unat_length_field [of "length p"] by (simp add: small_def)
  have 1: "inp s = ty # to_be_bytes ?len @ p @ rest"
    using assms(1) m by (simp add: framed_def del: of_nat_add)
  show ?thesis
    using len
    by (simp add: stream_read_message_def stream_read_u8_def 1 stream_read_exact_append m
        del: of_nat_add)
qed

lemma conn_read_wire [simp]:
  assumes "inp (c_stream c) = wire m @ rest" and "small m"
  shows "conn_read_message c = (Ok (), got m rest c)"
  using stream_read_wire [OF assms] by (simp add: conn_read_message_def got_def)

lemma stream_read_shorter:
  "stream_read_message s bs = (Ok u, bs', s') \<Longrightarrow> length (inp s') < length (inp s)"
  by (auto simp: stream_read_message_def stream_read_u8_def Let_def
      stream_read_exact_def split: rtry_splits if_splits list.splits prod.splits)

lemma stream_write_inp:
  "stream_write_all d s = (r, s') \<Longrightarrow> inp s' = inp s" "stream_flush s = (q, s') \<Longrightarrow> inp s' = inp s"
  by (auto simp: stream_write_all_def stream_flush_def split: if_splits)

lemma stream_read_exact_inp:
  "length (inp (snd (stream_read_exact n s))) \<le> length (inp s)"
  by (simp add: stream_read_exact_def)

lemma conn_read_shorter:
  "conn_read_message c = (Ok u, c') \<Longrightarrow> length (inp (c_stream c')) < length (inp (c_stream c))"
  by (auto simp: conn_read_message_def stream_read_message_def stream_read_u8_def Let_def
      stream_read_exact_def split: rtry_splits if_splits list.splits prod.splits)

lemma conn_read_no_panic [simp]: "conn_read_message c \<noteq> (Panic, c')"
  by (auto simp: conn_read_message_def stream_read_message_def stream_read_u8_def Let_def
      stream_read_exact_def split: rtry_splits if_splits list.splits prod.splits)

lemma conn_read_Err: "conn_read_message c = (Err e, c') \<Longrightarrow> e = Io UnexpectedEof"
  by (auto simp: conn_read_message_def stream_read_message_def stream_read_u8_def Let_def
      stream_read_exact_def split: rtry_splits if_splits list.splits prod.splits)

lemma conn_write_flush_ok [simp]:
  "writable (c_stream c) \<Longrightarrow> conn_write_flush c =
     (Ok (), c\<lparr>c_stream := (c_stream c)\<lparr>out := out (c_stream c) @ write_buffer (c_bufs c)\<rparr>\<rparr>)"
  by (simp add: conn_write_flush_def stream_write_all_def stream_flush_def)

lemma conn_write_flush_fail:
  "\<not> writable (c_stream c) \<Longrightarrow> conn_write_flush c = (Err (Io WriteFailed), c)"
  by (simp add: conn_write_flush_def stream_write_all_def)

lemma conn_write_flush_cases:
  "conn_write_flush c = (r, c') \<Longrightarrow>
     (r = Ok () \<or> r = Err (Io WriteFailed)) \<and> inp (c_stream c') = inp (c_stream c) \<and>
     c_tx c' = c_tx c \<and> c_broken c' = c_broken c"
  by (cases "writable (c_stream c)") (auto simp: conn_write_flush_fail)

end
