(* ===== verification/Samples.thy ===== *)
theory Samples
  imports SyncStream Opts
begin

text \<open>
  Concrete values the witnesses evaluate the properties at: stand-ins for the third-party
  functions, a connection whose server has said \<open>data\<close>, and messages of a server.
\<close>

definition pad32 :: "bytes \<Rightarrow> bytes" where
  "pad32 b = take 32 (b @ replicate 32 0)"

definition ext0 :: ext where
  "ext0 = \<lparr>x_utf8 = (\<lambda>_. True), x_md5 = (\<lambda>b. take 16 (b @ replicate 16 0)), x_sha256 = pad32,
     x_hmac = (\<lambda>k m. Some (pad32 (m @ k))), x_pbkdf2 = (\<lambda>pw salt i. pad32 (pw @ salt)),
     x_b64_encode = (\<lambda>b. b), x_b64_decode = Some\<rparr>"

definition conn0 :: "bytes \<Rightarrow> conn" where
  "conn0 data = \<lparr>c_stream = \<lparr>inp = data, out = [], writable = True\<rparr>, c_bufs = buffer_set_new,
     c_key = Some \<lparr>key_pid = 7, secret_key = [1, 2, 3, 4]\<rparr>, c_params = [], c_tx = Idle,
     c_broken = False, c_counter = 0, c_async = Some []\<rparr>"

text \<open>A row description of one int4 column \<open>a\<close>, a row of it and a notice.\<close>

definition cols0 :: bytes where
  "cols0 = [0, 1, 97, 0, 0, 0, 0, 0, 0, 0, 0, 0, 0, 23, 0, 4, 255, 255, 255, 255, 0, 1]"

definition row0 :: bytes where
  "row0 = [0, 1, 0, 0, 0, 4, 0, 0, 0, 5]"

definition tag0 :: str where
  "tag0 = [83, 69, 76, 69, 67, 84, 32, 49]"

definition notice0 :: bytes where
  "notice0 = [77, 104, 105, 0, 0]"

definition error0 :: bytes where
  "error0 = [86, 69, 82, 82, 79, 82, 0, 67, 48, 49, 0, 0]"

definition params0 :: to_params where
  "params0 = \<lparr>param_count = 1, natural_oids = [oid_INT4],
     encode_params = (\<lambda>oids b. (Ok (), b @ enc_value (Some [0, 0, 0, 5])))\<rparr>"

definition opts0 :: opts where
  "opts0 = opts_default\<lparr>o_user := [117], o_password := Some [112], o_ssl_mode := SslRequire\<rparr>"

lemma ext0_simps [simp]:
  "x_utf8 ext0 b" "x_b64_encode ext0 b = b" "x_b64_decode ext0 b = Some b"
  "x_hmac ext0 k m = Some (pad32 (m @ k))" "x_sha256 ext0 b = pad32 b"
  "x_pbkdf2 ext0 pw salt i = pad32 (pw @ salt)"
  by (simp_all add: ext0_def)

lemma conn0_simps [simp]:
  "inp (c_stream (conn0 d)) = d" "out (c_stream (conn0 d)) = []" "writable (c_stream (conn0 d))"
  "c_tx (conn0 d) = Idle" "\<not> c_broken (conn0 d)" "c_counter (conn0 d) = 0"
  "c_bufs (conn0 d) = buffer_set_new" "c_async (conn0 d) = Some []"
  by (simp_all add: conn0_def)

lemma length_pad32 [simp]: "length (pad32 b) = 32"
  by (simp add: pad32_def)

end
