(* ===== verification/MessageFacts.thy ===== *)
theory MessageFacts
  imports WireFacts Samples
begin

text \<open>
  The round trips between the messages and their wire format, as the properties of the
  encoders and parsers: what a server reads out of a Bind message, and exactly which payloads
  the parsers of RowDescription, DataRow, ParameterDescription and ErrorResponse accept, with
  what result.
\<close>

section \<open>What the client writes\<close>

text \<open>
  C8: A Bind message reads back, by the protocol's description of it, as the portal, the
  statement, one format code per parameter type, the parameters' values (NULL or bytes) in
  order and one binary result format; and \<open>write_bind\<close> appends exactly that message, framed with
  its own length, to what is in the buffer.
\<close>

theorem write_bind_reads_back:
  assumes "encodes params oids vs" and "length oids = length vs"
    and "0 \<notin> set portal" and "0 \<notin> set stmt"
  shows "\<exists>p. write_bind b portal stmt params oids = (Ok (), b @ F_BIND # framed p) \<and>
    decode_bind p = Ok \<lparr>bm_portal = portal, bm_statement = stmt,
      bm_formats = map (\<lambda>o1. format_word (preferred_format o1)) oids, bm_values = vs,
      bm_result_formats = [1]\<rparr>"
  using assms write_bind_framed [OF assms(1)] decode_bind_payload [of portal stmt oids vs]
  by (auto simp: encodes_def)

lemma encodes_params0: "encodes params0 [oid_INT4] [Some [0, 0, 0, 5]]"
  by (simp add: encodes_def params0_def good_value_def)

theorem write_bind_reads_back_witness:
  "\<exists>p. write_bind [] [] [97] params0 [oid_INT4] = (Ok (), F_BIND # framed p) \<and>
    rmap bm_values (decode_bind p) = Ok [Some [0, 0, 0, 5]]"
  using write_bind_reads_back [OF encodes_params0, of "[]" "[97]" "[]"] by force

section \<open>What the client reads\<close>

text \<open>
  \<open>RowDescription::parse\<close> accepts exactly the payloads that start with the encoding of a
  list of at most 65535 fields with UTF-8 names, and returns those fields.
\<close>

theorem row_description_parse_exact:
  "row_description_parse X p = Ok fs \<longleftrightarrow>
     length fs < 2 ^ 16 \<and> (\<forall>f \<in> set fs. good_field X f) \<and> (\<exists>rest. p = enc_row_description fs @ rest)"
proof
  assume "row_description_parse X p = Ok fs"
  then obtain rest where r: "2 \<le> length p"
      "read_many (read_field X) (unat (from_be_bytes (take 2 p) :: u16)) (drop 2 p) = Ok (fs, rest)"
    by (auto simp: row_description_parse_def res_simps slice_to_def slice_from_def split: if_splits)
  note m = field_codec.read_many_sound [OF r(2)]
  then have "take 2 p = to_be_bytes (word_of_nat (length fs) :: u16)"
    using r(1) by simp
  with m have "p = enc_row_description fs @ rest"
    by (metis append.assoc append_take_drop_id enc_row_description_def)
  moreover have "length fs < 2 ^ 16" using m unsigned_less [of "from_be_bytes (take 2 p) :: u16"] by simp
  ultimately show "length fs < 2 ^ 16 \<and> (\<forall>f \<in> set fs. good_field X f) \<and>
      (\<exists>rest. p = enc_row_description fs @ rest)"
    using m by blast
next
  assume "length fs < 2 ^ 16 \<and> (\<forall>f \<in> set fs. good_field X f) \<and> (\<exists>rest. p = enc_row_description fs @ rest)"
  then show "row_description_parse X p = Ok fs"
    by (auto simp: row_description_parse_def enc_row_description_def slice_to_def slice_from_def
        unat_count field_codec.read_many_enc)
qed

definition field0 :: field_description where
  "field0 = \<lparr>field_name = [97], tail = \<lparr>table_oid = 0, column_id = 0, type_oid = 23, type_size = 4,
     type_modifier = -1, format = 1\<rparr>\<rparr>"

theorem row_description_parse_exact_witness:
  "row_description_parse ext0 (enc_row_description [field0, field0] @ [7]) = Ok [field0, field0]"
  using row_description_parse_exact [of ext0 "enc_row_description [field0, field0] @ [7]" "[field0, field0]"]
  by (simp add: good_field_def field0_def)

text \<open>
  \<open>ParameterDescription::parse\<close> accepts exactly the payloads that start with a count and
  that many type OIDs, and returns them.
\<close>

lemma parameter_description_parse_exact:
  "parameter_description_parse p = Ok oids \<longleftrightarrow> length oids < 2 ^ 16 \<and>
     (\<exists>rest. p = to_be_bytes (word_of_nat (length oids) :: u16) @ concat (map to_be_bytes oids) @ rest)"
proof
  assume "parameter_description_parse p = Ok oids"
  then obtain rest where r: "2 \<le> length p"
      "read_many read_u32 (unat (from_be_bytes (take 2 p) :: u16)) (drop 2 p) = Ok (oids, rest)"
    by (auto simp: parameter_description_parse_def res_simps slice_to_def slice_from_def split: if_splits)
  note m = u32_codec.read_many_sound [OF r(2)]
  then have "take 2 p = to_be_bytes (word_of_nat (length oids) :: u16)" using r(1) by simp
  with m have "p = to_be_bytes (word_of_nat (length oids) :: u16) @ concat (map to_be_bytes oids) @ rest"
    by (metis append_take_drop_id)
  moreover have "length oids < 2 ^ 16" using m unsigned_less [of "from_be_bytes (take 2 p) :: u16"] by simp
  ultimately show "length oids < 2 ^ 16 \<and>
     (\<exists>rest. p = to_be_bytes (word_of_nat (length oids) :: u16) @ concat (map to_be_bytes oids) @ rest)"
    by blast
qed (auto simp: parameter_description_parse_def slice_to_def slice_from_def unat_count
    u32_codec.read_many_enc)

text \<open>
  A data row reads back as the values it was sent with, NULLs included: the iterator
  produces exactly the columns, in order, and \<open>get\<close> finds each by its index and nothing past
  the last.
\<close>

theorem data_row_reads_back:
  assumes "\<forall>v \<in> set vs. good_value v" and "length vs < 2 ^ 16"
  shows "\<exists>row. data_row_parse (enc_data_row vs) = Ok row \<and> unat (num_columns row) = length vs \<and>
    row_iter (columns_data row) = vs \<and>
    (\<forall>i. data_row_get row i = (if i < length vs then Some (vs ! i) else None))"
  using assms
  by (simp add: data_row_parse_def enc_data_row_def slice_to_def slice_from_def row_iter_enc
      data_row_get_def unat_count)

theorem data_row_reads_back_witness:
  "\<exists>row. data_row_parse (enc_data_row [Some [0, 5], None]) = Ok row \<and>
     data_row_get row 1 = Some None \<and> data_row_get row 2 = None"
  using data_row_reads_back [of "[Some [0, 5], None]"] by (force simp: good_value_def)

text \<open>
  An error or notice reads back as its fields: each field code is mapped to the value sent
  with it, the last one when a code is repeated, and a code that was not sent is absent.
\<close>

theorem error_response_reads_back:
  assumes "\<forall>(c, v) \<in> set fs. c \<noteq> 0 \<and> 0 \<notin> set v \<and> x_utf8 X v"
  shows "error_response_parse X (enc_fields fs) = Ok (ServerError (map_of (rev fs))) \<and>
    notice_response_parse X (enc_fields fs) = Ok (ServerError (map_of (rev fs)))"
  using parse_fields_loop_enc [OF assms]
  by (simp add: error_response_parse_def notice_response_parse_def parse_fields_def)

theorem error_response_reads_back_witness:
  "\<exists>m. error_response_parse ext0 (enc_fields [(86, [70, 65]), (67, [48]), (67, [49])]) =
     Ok (ServerError m) \<and> m 67 = Some [49] \<and> m 77 = None"
  using error_response_reads_back [of "[(86, [70, 65]), (67, [48]), (67, [49])]" ext0] by simp

section \<open>Command tags\<close>

definition plain_word :: "str \<Rightarrow> bool" where
  "plain_word w \<longleftrightarrow> w \<noteq> [] \<and> (\<forall>b \<in> set w. 33 \<le> b \<and> b < 127)"

lemma ws_len_plain: "33 \<le> b \<Longrightarrow> b < 127 \<Longrightarrow> ws_len (b # r) = 0"
proof -
  assume "33 \<le> b" "b < 127"
  then have "\<not> (9 \<le> b \<and> b \<le> 13)" "b \<noteq> 32" "b \<noteq> 0xC2" "b \<noteq> 0xE1" "b \<noteq> 0xE3" "b \<noteq> 0xE2"
    by (auto simp: word_le_nat_alt word_less_nat_alt)
  then show ?thesis by (simp add: ws_len_def)
qed

lemma split_ws_plain:
  "plain_word w \<Longrightarrow> split_ws [] (w @ 32 # r) = w # split_ws [] r"
  "plain_word w \<Longrightarrow> split_ws [] w = [w]"
proof -
  assume w: "plain_word w"
  have "ws_len (drop i w @ r) = 0 \<or> i = length w" if "i \<le> length w" for i r
  proof (cases "drop i w")
    case (Cons b bs)
    then have "b \<in> set w" by (metis in_set_dropD list.set_intros(1))
    with w Cons show ?thesis by (simp add: plain_word_def ws_len_plain)
  qed (use that in simp)
  then have s: "split_ws [] (w @ r) = split_ws w r" for r
    using split_ws_word [of w r "[]"] by simp
  show "split_ws [] (w @ 32 # r) = w # split_ws [] r"
    using s [of "32 # r"] w by (simp add: plain_word_def ws_len_def)
  show "split_ws [] w = [w]" using s [of "[]"] w by (simp add: plain_word_def)
qed

lemma plain_show_nat: "plain_word (show_nat n)"
  using show_nat_digits [of n]
  by (auto simp: plain_word_def list_all_iff is_digit_def word_le_nat_alt word_less_nat_alt)

lemma plain_keywords:
  "plain_word (ascii ''SELECT'')" "plain_word (ascii ''UPDATE'')" "plain_word (ascii ''DELETE'')"
  "plain_word (ascii ''COPY'')" "plain_word (ascii ''MOVE'')" "plain_word (ascii ''FETCH'')"
  "plain_word (ascii ''INSERT'')"
  by (simp_all add: plain_word_def ascii_def)

text \<open>
  The number of rows of a command tag: for SELECT, UPDATE, DELETE, COPY, MOVE and FETCH the
  count after the word, for INSERT the count after the object id, and none for a tag without
  one of these words.
\<close>

lemma rows_affected_count:
  assumes "n < 2 ^ 64" and "kw \<in> {ascii ''SELECT'', ascii ''UPDATE'', ascii ''DELETE'', ascii ''COPY'',
    ascii ''MOVE'', ascii ''FETCH''}" and "plain_word other"
    and "other \<notin> {ascii ''SELECT'', ascii ''UPDATE'', ascii ''DELETE'', ascii ''COPY'',
      ascii ''MOVE'', ascii ''FETCH'', ascii ''INSERT''}"
  shows "rows_affected (kw @ 32 # show_nat n) = Some n \<and>
    rows_affected (ascii ''INSERT'' @ 32 # show_nat object_id @ 32 # show_nat n) = Some n \<and>
    rows_affected other = None \<and> rows_affected (other @ 32 # r) = None"
proof -
  have kw: "plain_word kw" using assms(2) plain_keywords by auto
  have "ascii ''INSERT'' \<notin> {ascii ''SELECT'', ascii ''UPDATE'', ascii ''DELETE'', ascii ''COPY'',
    ascii ''MOVE'', ascii ''FETCH''}" by (simp add: ascii_def)
  with assms kw plain_keywords(7) plain_show_nat [of n] plain_show_nat [of object_id] show ?thesis
    by (simp only: rows_affected_def split_whitespace_def split_ws_plain list.case if_True if_False
        parse_unsigned_show_nat simp_thms insert_iff empty_iff de_Morgan_disj if_cancel)
qed

lemma rows_affected_count_witness:
  "rows_affected (ascii ''SELECT'' @ 32 # show_nat 12) = Some 12 \<and>
   rows_affected (ascii ''CREATE'' @ 32 # ascii ''TABLE'') = None"
  using rows_affected_count [of 12 "ascii ''SELECT''" "ascii ''CREATE''" 0 "ascii ''TABLE''"]
  by (simp add: plain_word_def) (simp add: ascii_def)

end
