(* ===== verification/ExtendedQuery.thy ===== *)
theory ExtendedQuery
  imports StateMachine
begin

text \<open>
  \<open>src/state/extended.rs\<close>: prepared statements, the extended query state machine with its four
  operations (prepare, execute, execute raw SQL, close), the bind machine of portals and the
  batch execution machine.
\<close>

section \<open>Prepared statements\<close>

record prepared_statement =
  ps_idx :: u64
  ps_param_oids :: "oid list"
  ps_row_desc :: "bytes option"

definition stmt_name :: "u64 \<Rightarrow> str" where
  "stmt_name idx = ascii ''_zero_s_'' @ show_nat (unat idx)"

definition wire_name :: "prepared_statement \<Rightarrow> str" where
  "wire_name stmt = stmt_name (ps_idx stmt)"

definition parse_columns :: "ext \<Rightarrow> prepared_statement \<Rightarrow> row_description res option" where
  "parse_columns X stmt = map_option (row_description_parse X) (ps_row_desc stmt)"

lemma stmt_name_inject [simp]: "stmt_name i = stmt_name j \<longleftrightarrow> i = j"
  by (auto simp: stmt_name_def intro: unsigned_word_eqI)

section \<open>The extended query machine\<close>

datatype eq_state =
    EQ_Initial | EQ_WaitingParse | EQ_WaitingBind | EQ_WaitingDescribe | EQ_WaitingRowDesc
  | EQ_ProcessingRows | EQ_WaitingReady | EQ_Finished

datatype operation = OpPrepare | OpExecute | OpExecuteSql | OpCloseStatement

record 'h extended_query =
  eq_state :: eq_state
  eq_handler :: 'h
  eq_operation :: operation
  eq_tx :: tx_status
  eq_prepared :: "prepared_statement option"
  eq_pending :: "server_error option"

definition eq_prepare ::
    "'h \<Rightarrow> buffer_set \<Rightarrow> u64 \<Rightarrow> str \<Rightarrow> oid list \<Rightarrow> 'h extended_query \<times> buffer_set" where
  "eq_prepare h bs idx query param_oids =
     (let name = stmt_name idx;
          w1 = write_parse [] name query param_oids;
          w2 = write_describe_statement w1 name;
          w3 = write_sync w2
      in (\<lparr>eq_state = EQ_Initial, eq_handler = h, eq_operation = OpPrepare, eq_tx = Idle,
           eq_prepared = Some \<lparr>ps_idx = idx, ps_param_oids = [], ps_row_desc = None\<rparr>,
           eq_pending = None\<rparr>, bs\<lparr>write_buffer := w3\<rparr>))"

definition eq_execute ::
    "'h \<Rightarrow> buffer_set \<Rightarrow> str \<Rightarrow> oid list \<Rightarrow> to_params \<Rightarrow> 'h extended_query res \<times> buffer_set" where
  "eq_execute h bs statement_name param_oids params =
     (let (r, w1) = write_bind [] [] statement_name params param_oids in
      rtry r (bs\<lparr>write_buffer := w1\<rparr>) (\<lambda>_.
        (Ok \<lparr>eq_state = EQ_Initial, eq_handler = h, eq_operation = OpExecute, eq_tx = Idle,
             eq_prepared = None, eq_pending = None\<rparr>,
         bs\<lparr>write_buffer := write_sync (write_execute (write_describe_portal w1 []) [] 0)\<rparr>)))"

definition eq_execute_sql ::
    "'h \<Rightarrow> buffer_set \<Rightarrow> str \<Rightarrow> to_params \<Rightarrow> 'h extended_query res \<times> buffer_set" where
  "eq_execute_sql h bs sql params =
     (let param_oids = natural_oids params;
          w0 = write_parse [] [] sql param_oids;
          (r, w1) = write_bind w0 [] [] params param_oids in
      rtry r (bs\<lparr>write_buffer := w1\<rparr>) (\<lambda>_.
        (Ok \<lparr>eq_state = EQ_Initial, eq_handler = h, eq_operation = OpExecuteSql, eq_tx = Idle,
             eq_prepared = None, eq_pending = None\<rparr>,
         bs\<lparr>write_buffer := write_sync (write_execute (write_describe_portal w1 []) [] 0)\<rparr>)))"

definition eq_close_statement ::
    "'h \<Rightarrow> buffer_set \<Rightarrow> str \<Rightarrow> 'h extended_query \<times> buffer_set" where
  "eq_close_statement h bs stmt =
     (\<lparr>eq_state = EQ_Initial, eq_handler = h, eq_operation = OpCloseStatement, eq_tx = Idle,
       eq_prepared = None, eq_pending = None\<rparr>,
      bs\<lparr>write_buffer := write_sync (write_close_statement [] stmt)\<rparr>)"

definition eq_handle_parse ::
    "'h extended_query \<Rightarrow> buffer_set \<Rightarrow> action res \<times> 'h extended_query \<times> buffer_set" where
  "eq_handle_parse sm bs =
     (if type_byte bs \<noteq> PARSE_COMPLETE then
        (Err (LibraryBug ''Expected ParseComplete, got {}''), sm, bs)
      else (case eq_operation sm of
          OpExecuteSql \<Rightarrow> (Ok ReadMessage, sm\<lparr>eq_state := EQ_WaitingBind\<rparr>, bs)
        | OpPrepare \<Rightarrow> (Ok ReadMessage, sm\<lparr>eq_state := EQ_WaitingDescribe\<rparr>, bs)
        | _ \<Rightarrow> (Err (LibraryBug ''handle_parse called for non-parse operation''), sm, bs)))"

definition eq_handle_describe ::
    "'h extended_query \<Rightarrow> buffer_set \<Rightarrow> action res \<times> 'h extended_query \<times> buffer_set" where
  "eq_handle_describe sm bs =
     (if type_byte bs \<noteq> PARAMETER_DESCRIPTION then
        (Err (LibraryBug ''Expected ParameterDescription, got {}''), sm, bs)
      else rtry (parameter_description_parse (read_buffer bs)) (sm, bs) (\<lambda>oids.
        (Ok ReadMessage,
         sm\<lparr>eq_prepared := map_option (\<lambda>s. s\<lparr>ps_param_oids := oids\<rparr>) (eq_prepared sm),
            eq_state := EQ_WaitingRowDesc\<rparr>, bs)))"

definition eq_handle_row_desc ::
    "'h extended_query \<Rightarrow> buffer_set \<Rightarrow> action res \<times> 'h extended_query \<times> buffer_set" where
  "eq_handle_row_desc sm bs =
     (if type_byte bs = ROW_DESCRIPTION then
        (Ok ReadMessage,
         sm\<lparr>eq_prepared :=
              map_option (\<lambda>s. s\<lparr>ps_row_desc := Some (read_buffer bs)\<rparr>) (eq_prepared sm),
            eq_state := EQ_WaitingReady\<rparr>, bs)
      else if type_byte bs = NO_DATA then
        (Ok ReadMessage, sm\<lparr>eq_state := EQ_WaitingReady\<rparr>, bs)
      else (Err (LibraryBug ''Expected RowDescription or NoData, got {}''), sm, bs))"

text \<open>Store the row description in the column buffer and start a result, in two handlers.\<close>

definition eq_start_result ::
    "ext \<Rightarrow> 'h handler \<Rightarrow> ('h extended_query \<Rightarrow> 'h extended_query) \<Rightarrow>
       'h extended_query \<Rightarrow> buffer_set \<Rightarrow> action res \<times> 'h extended_query \<times> buffer_set" where
  "eq_start_result X H next_state sm bs =
     (let bs1 = bs\<lparr>column_buffer := read_buffer bs\<rparr> in
      rtry (row_description_parse X (column_buffer bs1)) (sm, bs1) (\<lambda>cols.
        let (r, h) = h_result_start H (eq_handler sm) cols; sm1 = sm\<lparr>eq_handler := h\<rparr> in
        rtry r (sm1, bs1) (\<lambda>_. (Ok ReadMessage, next_state sm1, bs1))))"

definition eq_handle_bind ::
    "ext \<Rightarrow> 'h handler \<Rightarrow> 'h extended_query \<Rightarrow> buffer_set \<Rightarrow>
       action res \<times> 'h extended_query \<times> buffer_set" where
  "eq_handle_bind X H sm bs =
     (if type_byte bs = BIND_COMPLETE then
        (Ok ReadMessage, sm\<lparr>eq_state := EQ_ProcessingRows\<rparr>, bs)
      else if type_byte bs = ROW_DESCRIPTION then
        eq_start_result X H (\<lambda>s. s\<lparr>eq_state := EQ_ProcessingRows\<rparr>) sm bs
      else (Err (LibraryBug ''Expected BindComplete, got {}''), sm, bs))"

definition eq_handle_rows ::
    "ext \<Rightarrow> 'h handler \<Rightarrow> 'h extended_query \<Rightarrow> buffer_set \<Rightarrow>
       action res \<times> 'h extended_query \<times> buffer_set" where
  "eq_handle_rows X H sm bs =
     (let ty = type_byte bs; payload = read_buffer bs in
      if ty = ROW_DESCRIPTION then eq_start_result X H (\<lambda>s. s) sm bs
      else if ty = NO_DATA then (Ok ReadMessage, sm, bs)
      else if ty = DATA_ROW then
        rtry (row_description_parse X (column_buffer bs)) (sm, bs) (\<lambda>cols.
        rtry (data_row_parse payload) (sm, bs) (\<lambda>row.
          let (r, h) = h_row H (eq_handler sm) cols row; sm1 = sm\<lparr>eq_handler := h\<rparr> in
          rtry r (sm1, bs) (\<lambda>_. (Ok ReadMessage, sm1, bs))))
      else if ty = COMMAND_COMPLETE then
        rtry (command_complete_parse X payload) (sm, bs) (\<lambda>complete.
          let (r, h) = h_result_end H (eq_handler sm) complete; sm1 = sm\<lparr>eq_handler := h\<rparr> in
          rtry r (sm1, bs) (\<lambda>_. (Ok ReadMessage, sm1\<lparr>eq_state := EQ_WaitingReady\<rparr>, bs)))
      else if ty = EMPTY_QUERY_RESPONSE then
        (Ok ReadMessage, sm\<lparr>eq_state := EQ_WaitingReady\<rparr>, bs)
      else if ty = PORTAL_SUSPENDED then
        (Ok ReadMessage, sm\<lparr>eq_state := EQ_WaitingReady\<rparr>, bs)
      else if ty = READY_FOR_QUERY then
        rtry (ready_for_query_parse payload) (sm, bs) (\<lambda>ready.
          (Ok Finished, sm\<lparr>eq_tx := tx_or_default ready, eq_state := EQ_Finished\<rparr>, bs))
      else (Err (LibraryBug ''Unexpected message in rows: {}''), sm, bs))"

definition eq_handle_ready ::
    "'h extended_query \<Rightarrow> buffer_set \<Rightarrow> action res \<times> 'h extended_query \<times> buffer_set" where
  "eq_handle_ready sm bs =
     (if type_byte bs = READY_FOR_QUERY then
        rtry (ready_for_query_parse (read_buffer bs)) (sm, bs) (\<lambda>ready.
          let sm1 = sm\<lparr>eq_tx := tx_or_default ready, eq_state := EQ_Finished\<rparr> in
          case eq_pending sm1 of
            Some err \<Rightarrow> (Ok (ActionError err), sm1\<lparr>eq_pending := None\<rparr>, bs)
          | None \<Rightarrow> (Ok Finished, sm1, bs))
      else if type_byte bs = CLOSE_COMPLETE then (Ok ReadMessage, sm, bs)
      else (Err (LibraryBug ''Expected ReadyForQuery, got {}''), sm, bs))"

definition eq_step ::
    "ext \<Rightarrow> 'h handler \<Rightarrow> 'h extended_query \<Rightarrow> buffer_set \<Rightarrow>
       action res \<times> 'h extended_query \<times> buffer_set" where
  "eq_step X H sm bs =
     (if eq_state sm = EQ_Initial then
        (Ok WriteAndReadMessage,
         sm\<lparr>eq_state := (case eq_operation sm of
              OpPrepare \<Rightarrow> EQ_WaitingParse
            | OpExecute \<Rightarrow> EQ_WaitingBind
            | OpExecuteSql \<Rightarrow> EQ_WaitingParse
            | OpCloseStatement \<Rightarrow> EQ_WaitingReady)\<rparr>, bs)
      else if is_async_type (type_byte bs) then
        (ext_handle_async_message X (type_byte bs) (read_buffer bs), sm, bs)
      else if type_byte bs = ERROR_RESPONSE then
        rtry (error_response_parse X (read_buffer bs)) (sm, bs) (\<lambda>err.
          (Ok ReadMessage, sm\<lparr>eq_pending := Some err, eq_state := EQ_WaitingReady\<rparr>, bs))
      else (case eq_state sm of
          EQ_WaitingParse \<Rightarrow> eq_handle_parse sm bs
        | EQ_WaitingDescribe \<Rightarrow> eq_handle_describe sm bs
        | EQ_WaitingRowDesc \<Rightarrow> eq_handle_row_desc sm bs
        | EQ_WaitingBind \<Rightarrow> eq_handle_bind X H sm bs
        | EQ_ProcessingRows \<Rightarrow> eq_handle_rows X H sm bs
        | EQ_WaitingReady \<Rightarrow> eq_handle_ready sm bs
        | _ \<Rightarrow> (Err (LibraryBug ''Unexpected state {:?}''), sm, bs)))"

lemmas eq_defs = eq_step_def eq_handle_parse_def eq_handle_describe_def eq_handle_row_desc_def
  eq_handle_bind_def eq_handle_rows_def eq_handle_ready_def eq_start_result_def

lemma eq_drop_bug: "eq_step X drop_handler m bs = (Err e, m', bs') \<Longrightarrow> is_bug e"
  by (auto simp: eq_defs Let_def split: eq_state.splits if_splits rtry_splits prod.splits
      option.splits operation.splits dest: bug_dest)

section \<open>The bind machine\<close>

datatype bind_state = BD_Initial | BD_WaitingParse | BD_WaitingBind | BD_Finished

record bind_machine =
  bd_state :: bind_state
  bd_needs_parse :: bool

definition bind_prepared ::
    "buffer_set \<Rightarrow> str \<Rightarrow> str \<Rightarrow> oid list \<Rightarrow> to_params \<Rightarrow> bind_machine res \<times> buffer_set" where
  "bind_prepared bs portal_name statement_name param_oids params =
     (let (r, w1) = write_bind [] portal_name statement_name params param_oids in
      rtry r (bs\<lparr>write_buffer := w1\<rparr>) (\<lambda>_.
        (Ok \<lparr>bd_state = BD_Initial, bd_needs_parse = False\<rparr>, bs\<lparr>write_buffer := write_flush w1\<rparr>)))"

definition bind_sql ::
    "buffer_set \<Rightarrow> str \<Rightarrow> str \<Rightarrow> to_params \<Rightarrow> bind_machine res \<times> buffer_set" where
  "bind_sql bs portal_name sql params =
     (let param_oids = natural_oids params;
          w0 = write_parse [] [] sql param_oids;
          (r, w1) = write_bind w0 portal_name [] params param_oids in
      rtry r (bs\<lparr>write_buffer := w1\<rparr>) (\<lambda>_.
        (Ok \<lparr>bd_state = BD_Initial, bd_needs_parse = True\<rparr>, bs\<lparr>write_buffer := write_flush w1\<rparr>)))"

definition bind_step ::
    "ext \<Rightarrow> bind_machine \<Rightarrow> buffer_set \<Rightarrow> action res \<times> bind_machine \<times> buffer_set" where
  "bind_step X sm bs =
     (if bd_state sm = BD_Initial then
        (Ok WriteAndReadMessage,
         sm\<lparr>bd_state := if bd_needs_parse sm then BD_WaitingParse else BD_WaitingBind\<rparr>, bs)
      else if is_async_type (type_byte bs) then (Ok ReadMessage, sm, bs)
      else if type_byte bs = ERROR_RESPONSE then
        rtry (error_response_parse X (read_buffer bs)) (sm, bs) (\<lambda>err. (Err (Server err), sm, bs))
      else (case bd_state sm of
          BD_WaitingParse \<Rightarrow>
            (if type_byte bs \<noteq> PARSE_COMPLETE then
               (Err (LibraryBug ''Expected ParseComplete, got {}''), sm, bs)
             else (Ok ReadMessage, sm\<lparr>bd_state := BD_WaitingBind\<rparr>, bs))
        | BD_WaitingBind \<Rightarrow>
            (if type_byte bs \<noteq> BIND_COMPLETE then
               (Err (LibraryBug ''Expected BindComplete, got {}''), sm, bs)
             else (Ok Finished, sm\<lparr>bd_state := BD_Finished\<rparr>, bs))
        | _ \<Rightarrow> (Err (LibraryBug ''Unexpected state {:?}''), sm, bs)))"

section \<open>The batch execution machine\<close>

datatype batch_state = BT_Initial | BT_WaitingParse | BT_Processing | BT_Finished

record batch_machine =
  bt_state :: batch_state
  bt_needs_parse :: bool
  bt_tx :: tx_status
  bt_pending :: "server_error option"

definition batch_new :: "bool \<Rightarrow> batch_machine" where
  "batch_new needs_parse =
     \<lparr>bt_state = BT_Initial, bt_needs_parse = needs_parse, bt_tx = Idle, bt_pending = None\<rparr>"

definition batch_step ::
    "ext \<Rightarrow> batch_machine \<Rightarrow> buffer_set \<Rightarrow> action res \<times> batch_machine \<times> buffer_set" where
  "batch_step X sm bs =
     (let ty = type_byte bs; payload = read_buffer bs in
      if bt_state sm = BT_Initial then
        (Ok WriteAndReadMessage,
         sm\<lparr>bt_state := if bt_needs_parse sm then BT_WaitingParse else BT_Processing\<rparr>, bs)
      else if is_async_type ty then (Ok ReadMessage, sm, bs)
      else if ty = ERROR_RESPONSE then
        rtry (error_response_parse X payload) (sm, bs) (\<lambda>err.
          (Ok ReadMessage, sm\<lparr>bt_pending := Some err, bt_state := BT_Processing\<rparr>, bs))
      else (case bt_state sm of
          BT_WaitingParse \<Rightarrow>
            (if ty \<noteq> PARSE_COMPLETE then
               (Err (LibraryBug ''Expected ParseComplete, got {}''), sm, bs)
             else (Ok ReadMessage, sm\<lparr>bt_state := BT_Processing\<rparr>, bs))
        | BT_Processing \<Rightarrow>
            (if ty = BIND_COMPLETE \<or> ty = NO_DATA then (Ok ReadMessage, sm, bs)
             else if ty = ROW_DESCRIPTION then
               rtry (row_description_parse X payload) (sm, bs) (\<lambda>_. (Ok ReadMessage, sm, bs))
             else if ty = DATA_ROW then (Ok ReadMessage, sm, bs)
             else if ty = COMMAND_COMPLETE then
               rtry (command_complete_parse X payload) (sm, bs) (\<lambda>_. (Ok ReadMessage, sm, bs))
             else if ty = EMPTY_QUERY_RESPONSE then (Ok ReadMessage, sm, bs)
             else if ty = READY_FOR_QUERY then
               rtry (ready_for_query_parse payload) (sm, bs) (\<lambda>ready.
                 let sm1 = sm\<lparr>bt_tx := tx_or_default ready, bt_state := BT_Finished\<rparr> in
                 case bt_pending sm1 of
                   Some err \<Rightarrow> (Ok (ActionError err), sm1\<lparr>bt_pending := None\<rparr>, bs)
                 | None \<Rightarrow> (Ok Finished, sm1, bs))
             else (Err (LibraryBug ''Unexpected message in batch: {}''), sm, bs))
        | _ \<Rightarrow> (Err (LibraryBug ''Unexpected state {:?}''), sm, bs)))"

end
