(* ===== verification/BatchPrepare.thy ===== *)
theory BatchPrepare
  imports ExtendedQuery
begin

text \<open>
  \<open>src/state/batch_prepare.rs\<close>: preparing several statements in one round trip. The machine
  fills in the statements in order, moving on at each RowDescription or NoData.
\<close>

datatype bp_state = BP_Initial | BP_Processing | BP_Finished

record batch_prepare =
  bp_state :: bp_state
  bp_statements :: "prepared_statement list"
  bp_current :: nat
  bp_tx :: tx_status

text \<open>The loop over the queries, with the statement index of the next one (\<open>start_idx + i\<close>).\<close>

fun bp_write_queries :: "bytes \<Rightarrow> str list \<Rightarrow> u64 \<Rightarrow> bytes \<times> prepared_statement list" where
  "bp_write_queries w [] idx = (w, [])"
| "bp_write_queries w (query # queries) idx =
     (let name = stmt_name idx;
          w1 = write_parse w name query [];
          w2 = write_describe_statement w1 name;
          (w3, stmts) = bp_write_queries w2 queries (idx + 1)
      in (w3, \<lparr>ps_idx = idx, ps_param_oids = [], ps_row_desc = None\<rparr> # stmts))"

definition bp_new :: "buffer_set \<Rightarrow> str list \<Rightarrow> u64 \<Rightarrow> batch_prepare \<times> buffer_set" where
  "bp_new bs queries start_idx =
     (let (w, stmts) = bp_write_queries [] queries start_idx
      in (\<lparr>bp_state = BP_Initial, bp_statements = stmts, bp_current = 0, bp_tx = Idle\<rparr>,
          bs\<lparr>write_buffer := write_sync w\<rparr>))"

text \<open>\<open>if self.current_stmt < self.statements.len() { self.statements[current] = .. }\<close>\<close>

definition bp_update ::
    "(prepared_statement \<Rightarrow> prepared_statement) \<Rightarrow> batch_prepare \<Rightarrow> batch_prepare" where
  "bp_update f sm =
     (if bp_current sm < length (bp_statements sm)
      then sm\<lparr>bp_statements := (bp_statements sm)
                [bp_current sm := f (bp_statements sm ! bp_current sm)]\<rparr>
      else sm)"

definition bp_step ::
    "ext \<Rightarrow> batch_prepare \<Rightarrow> buffer_set \<Rightarrow> action res \<times> batch_prepare \<times> buffer_set" where
  "bp_step X sm bs =
     (let ty = type_byte bs; payload = read_buffer bs in
      if bp_state sm = BP_Initial then
        (Ok WriteAndReadMessage, sm\<lparr>bp_state := BP_Processing\<rparr>, bs)
      else if is_async_type ty then (Ok ReadMessage, sm, bs)
      else if ty = ERROR_RESPONSE then
        rtry (error_response_parse X payload) (sm, bs) (\<lambda>err. (Err (Server err), sm, bs))
      else (case bp_state sm of
          BP_Processing \<Rightarrow>
            (if ty = PARSE_COMPLETE then (Ok ReadMessage, sm, bs)
             else if ty = PARAMETER_DESCRIPTION then
               rtry (parameter_description_parse payload) (sm, bs) (\<lambda>oids.
                 (Ok ReadMessage, bp_update (\<lambda>s. s\<lparr>ps_param_oids := oids\<rparr>) sm, bs))
             else if ty = ROW_DESCRIPTION then
               (let sm1 = bp_update (\<lambda>s. s\<lparr>ps_row_desc := Some payload\<rparr>) sm
                in (Ok ReadMessage, sm1\<lparr>bp_current := bp_current sm1 + 1\<rparr>, bs))
             else if ty = NO_DATA then
               (Ok ReadMessage, sm\<lparr>bp_current := bp_current sm + 1\<rparr>, bs)
             else if ty = READY_FOR_QUERY then
               rtry (ready_for_query_parse payload) (sm, bs) (\<lambda>ready.
                 (Ok Finished, sm\<lparr>bp_tx := tx_or_default ready, bp_state := BP_Finished\<rparr>, bs))
             else (Err (LibraryBug ''Unexpected message in batch prepare: {}''), sm, bs))
        | _ \<Rightarrow> (Err (LibraryBug ''Unexpected state {:?}''), sm, bs)))"

end
