(* ===== verification/SimpleQuery.thy ===== *)
theory SimpleQuery
  imports StateMachine
begin

text \<open>
  \<open>src/state/simple_query.rs\<close>: the simple query state machine, one definition per method.
  The handler's three callbacks are the parameter \<open>H\<close>, its state a field of the machine.
\<close>

datatype sq_state = SQ_Initial | SQ_WaitingResponse | SQ_ProcessingRows | SQ_WaitingReady | SQ_Finished

record 'h simple_query =
  sq_state :: sq_state
  sq_handler :: 'h
  sq_query :: str
  sq_tx :: tx_status
  sq_pending :: "server_error option"

definition sq_new :: "'h \<Rightarrow> str \<Rightarrow> 'h simple_query" where
  "sq_new h query =
     \<lparr>sq_state = SQ_Initial, sq_handler = h, sq_query = query, sq_tx = Idle, sq_pending = None\<rparr>"

definition sq_handle_response ::
    "ext \<Rightarrow> 'h handler \<Rightarrow> 'h simple_query \<Rightarrow> buffer_set \<Rightarrow>
       action res \<times> 'h simple_query \<times> buffer_set" where
  "sq_handle_response X H sm bs =
     (let ty = type_byte bs; payload = read_buffer bs in
      if ty = ROW_DESCRIPTION then
        (let bs1 = bs\<lparr>column_buffer := payload\<rparr> in
         rtry (row_description_parse X (column_buffer bs1)) (sm, bs1) (\<lambda>cols.
           let (r, h) = h_result_start H (sq_handler sm) cols; sm1 = sm\<lparr>sq_handler := h\<rparr> in
           rtry r (sm1, bs1) (\<lambda>_. (Ok ReadMessage, sm1\<lparr>sq_state := SQ_ProcessingRows\<rparr>, bs1))))
      else if ty = COMMAND_COMPLETE then
        rtry (command_complete_parse X payload) (sm, bs) (\<lambda>complete.
          let (r, h) = h_result_end H (sq_handler sm) complete; sm1 = sm\<lparr>sq_handler := h\<rparr> in
          rtry r (sm1, bs) (\<lambda>_. (Ok ReadMessage, sm1\<lparr>sq_state := SQ_WaitingResponse\<rparr>, bs)))
      else if ty = EMPTY_QUERY_RESPONSE then
        (Ok ReadMessage, sm\<lparr>sq_state := SQ_WaitingReady\<rparr>, bs)
      else if ty = READY_FOR_QUERY then
        rtry (ready_for_query_parse payload) (sm, bs) (\<lambda>ready.
          (Ok Finished, sm\<lparr>sq_tx := tx_or_default ready, sq_state := SQ_Finished\<rparr>, bs))
      else (Err (LibraryBug ''Unexpected message in query response: {}''), sm, bs))"

definition sq_handle_rows ::
    "ext \<Rightarrow> 'h handler \<Rightarrow> 'h simple_query \<Rightarrow> buffer_set \<Rightarrow>
       action res \<times> 'h simple_query \<times> buffer_set" where
  "sq_handle_rows X H sm bs =
     (let ty = type_byte bs; payload = read_buffer bs in
      if ty = DATA_ROW then
        rtry (row_description_parse X (column_buffer bs)) (sm, bs) (\<lambda>cols.
        rtry (data_row_parse payload) (sm, bs) (\<lambda>row.
          let (r, h) = h_row H (sq_handler sm) cols row; sm1 = sm\<lparr>sq_handler := h\<rparr> in
          rtry r (sm1, bs) (\<lambda>_. (Ok ReadMessage, sm1, bs))))
      else if ty = COMMAND_COMPLETE then
        rtry (command_complete_parse X payload) (sm, bs) (\<lambda>complete.
          let (r, h) = h_result_end H (sq_handler sm) complete; sm1 = sm\<lparr>sq_handler := h\<rparr> in
          rtry r (sm1, bs) (\<lambda>_. (Ok ReadMessage, sm1\<lparr>sq_state := SQ_WaitingResponse\<rparr>, bs)))
      else if ty = READY_FOR_QUERY then
        rtry (ready_for_query_parse payload) (sm, bs) (\<lambda>ready.
          (Ok Finished, sm\<lparr>sq_tx := tx_or_default ready, sq_state := SQ_Finished\<rparr>, bs))
      else (Err (LibraryBug ''Unexpected message in row processing: {}''), sm, bs))"

definition sq_handle_ready ::
    "'h simple_query \<Rightarrow> buffer_set \<Rightarrow> action res \<times> 'h simple_query \<times> buffer_set" where
  "sq_handle_ready sm bs =
     (if type_byte bs \<noteq> READY_FOR_QUERY then
        (Err (LibraryBug ''Expected ReadyForQuery, got {}''), sm, bs)
      else rtry (ready_for_query_parse (read_buffer bs)) (sm, bs) (\<lambda>ready.
        let sm1 = sm\<lparr>sq_tx := tx_or_default ready, sq_state := SQ_Finished\<rparr> in
        case sq_pending sm1 of
          Some err \<Rightarrow> (Ok (ActionError err), sm1\<lparr>sq_pending := None\<rparr>, bs)
        | None \<Rightarrow> (Ok Finished, sm1, bs)))"

definition sq_step ::
    "ext \<Rightarrow> 'h handler \<Rightarrow> 'h simple_query \<Rightarrow> buffer_set \<Rightarrow>
       action res \<times> 'h simple_query \<times> buffer_set" where
  "sq_step X H sm bs =
     (if sq_state sm = SQ_Initial then
        (Ok WriteAndReadMessage, sm\<lparr>sq_state := SQ_WaitingResponse\<rparr>,
         bs\<lparr>write_buffer := write_query [] (sq_query sm)\<rparr>)
      else if is_async_type (type_byte bs) then
        (handle_async_message X (type_byte bs) (read_buffer bs), sm, bs)
      else if type_byte bs = ERROR_RESPONSE then
        rtry (error_response_parse X (read_buffer bs)) (sm, bs) (\<lambda>err.
          (Ok ReadMessage, sm\<lparr>sq_pending := Some err, sq_state := SQ_WaitingReady\<rparr>, bs))
      else (case sq_state sm of
          SQ_WaitingResponse \<Rightarrow> sq_handle_response X H sm bs
        | SQ_ProcessingRows \<Rightarrow> sq_handle_rows X H sm bs
        | SQ_WaitingReady \<Rightarrow> sq_handle_ready sm bs
        | _ \<Rightarrow> (Err (LibraryBug ''Unexpected state {:?}''), sm, bs)))"

lemmas sq_defs = sq_step_def sq_handle_response_def sq_handle_rows_def sq_handle_ready_def

lemma sq_drop_bug: "sq_step X drop_handler m bs = (Err e, m', bs') \<Longrightarrow> is_bug e"
  by (auto simp: sq_defs Let_def split: sq_state.splits if_splits rtry_splits prod.splits
      option.splits dest: bug_dest)

end
