(* ===== verification/Driver.thy ===== *)
theory Driver
  imports SyncStream BatchPrepare SimpleQuery
begin

text \<open>
  \<open>Conn::drive\<close> and \<open>Conn::drive_batch\<close> of \<open>src/sync/conn.rs\<close>: the loops that perform the
  actions a state machine asks for. A loop is a \<open>partial_function\<close>, so not returning is \<open>None\<close>;
  the locale \<open>query_machine\<close> states what a machine must promise for the loop to return and to
  stop exactly after the ReadyForQuery that ends its exchange, and is interpreted on the
  machines of the code.
\<close>

section \<open>The loops\<close>

text \<open>One round: step, then the requested I/O. \<open>Inl\<close> leaves the loop.\<close>

definition drive_iter ::
    "('m \<Rightarrow> buffer_set \<Rightarrow> action res \<times> 'm \<times> buffer_set) \<Rightarrow> ('m \<Rightarrow> tx_status) \<Rightarrow> 'm \<Rightarrow> conn \<Rightarrow>
       (unit res \<times> 'm \<times> conn) + ('m \<times> conn)" where
  "drive_iter step tx m c =
     (let (r, m1, bs) = step m (c_bufs c); c1 = c\<lparr>c_bufs := bs\<rparr>;
          go_on = (\<lambda>(r, c). case r of
              Ok _ \<Rightarrow> Inr (m1, c) | Err e \<Rightarrow> Inl (Err e, m1, c) | Panic \<Rightarrow> Inl (Panic, m1, c))
      in case r of
           Err e \<Rightarrow> Inl (Err e, m1, c1)
         | Panic \<Rightarrow> Inl (Panic, m1, c1)
         | Ok WriteAndReadByte \<Rightarrow>
             Inl (Err (LibraryBug ''Unexpected WriteAndReadByte in query state machine''), m1, c1)
         | Ok ReadMessage \<Rightarrow> go_on (conn_read_message c1)
         | Ok Write \<Rightarrow> go_on (conn_write_flush c1)
         | Ok WriteAndReadMessage \<Rightarrow>
             go_on (let (w, c2) = conn_write_flush c1 in rtry w c2 (\<lambda>_. conn_read_message c2))
         | Ok TlsHandshake \<Rightarrow>
             Inl (Err (LibraryBug ''Unexpected TlsHandshake in query state machine''), m1, c1)
         | Ok (HandleAsyncMessageAndReadMessage am) \<Rightarrow>
             go_on (conn_read_message (conn_handle_async am c1))
         | Ok (ActionError server_error) \<Rightarrow> Inl (Err (Server server_error), m1, c1\<lparr>c_tx := tx m1\<rparr>)
         | Ok Finished \<Rightarrow> Inl (Ok (), m1, c1\<lparr>c_tx := tx m1\<rparr>))"

partial_function (option) drive ::
    "('m \<Rightarrow> buffer_set \<Rightarrow> action res \<times> 'm \<times> buffer_set) \<Rightarrow> ('m \<Rightarrow> tx_status) \<Rightarrow> 'm \<Rightarrow> conn \<Rightarrow>
       (unit res \<times> 'm \<times> conn) option" where
  "drive step tx m c = (case drive_iter step tx m c of
     Inl r \<Rightarrow> Some r | Inr (m', c') \<Rightarrow> drive step tx m' c')"

text \<open>\<open>drive_batch\<close>, where the caller records the transaction status of a batch that finished.\<close>

definition drive_batch_iter ::
    "ext \<Rightarrow> batch_machine \<Rightarrow> conn \<Rightarrow> (unit res \<times> batch_machine \<times> conn) + (batch_machine \<times> conn)"
where
  "drive_batch_iter X m c =
     (let (r, m1, bs) = batch_step X m (c_bufs c); c1 = c\<lparr>c_bufs := bs\<rparr>;
          go_on = (\<lambda>(r, c). case r of
              Ok _ \<Rightarrow> Inr (m1, c) | Err e \<Rightarrow> Inl (Err e, m1, c) | Panic \<Rightarrow> Inl (Panic, m1, c))
      in case r of
           Err e \<Rightarrow> Inl (Err e, m1, c1)
         | Panic \<Rightarrow> Inl (Panic, m1, c1)
         | Ok ReadMessage \<Rightarrow> go_on (conn_read_message c1)
         | Ok WriteAndReadMessage \<Rightarrow>
             go_on (let (w, c2) = conn_write_flush c1 in rtry w c2 (\<lambda>_. conn_read_message c2))
         | Ok Finished \<Rightarrow> Inl (Ok (), m1, c1)
         | Ok (ActionError server_error) \<Rightarrow>
             Inl (Err (Server server_error), m1, c1\<lparr>c_tx := bt_tx m1\<rparr>)
         | Ok _ \<Rightarrow> Inl (Err (LibraryBug ''Unexpected action in batch''), m1, c1))"

partial_function (option) drive_batch ::
    "ext \<Rightarrow> batch_machine \<Rightarrow> conn \<Rightarrow> (unit res \<times> batch_machine \<times> conn) option" where
  "drive_batch X m c = (case drive_batch_iter X m c of
     Inl r \<Rightarrow> Some r | Inr (m', c') \<Rightarrow> drive_batch X m' c')"

section \<open>Message boundaries\<close>

text \<open>The message at the head of a byte stream, as \<open>read_message\<close> delimits it.\<close>

definition parse_msg :: "bytes \<Rightarrow> ((byte \<times> bytes) \<times> bytes) option" where
  "parse_msg data = (case data of [] \<Rightarrow> None
   | ty # r \<Rightarrow>
       (let n = unat (from_be_bytes (take 4 r) :: u32) - 4
        in if length r < 4 \<or> length r - 4 < n then None
           else Some ((ty, take n (drop 4 r)), drop n (drop 4 r))))"

lemma conn_read_iff:
  "conn_read_message c = (Ok u, c') \<longleftrightarrow>
     (\<exists>m rest. parse_msg (inp (c_stream c)) = Some (m, rest) \<and> c' = got m rest c)"
  by (auto simp: conn_read_message_def stream_read_message_def stream_read_u8_def parse_msg_def
      stream_read_exact_def got_def Let_def split: rtry_splits if_splits list.splits prod.splits)

text \<open>\<open>reads data ms rest\<close>: reading \<open>data\<close> message by message gives \<open>ms\<close> and leaves \<open>rest\<close>.\<close>

fun reads :: "bytes \<Rightarrow> (byte \<times> bytes) list \<Rightarrow> bytes \<Rightarrow> bool" where
  "reads data [] rest \<longleftrightarrow> data = rest"
| "reads data (m # ms) rest \<longleftrightarrow>
     (case parse_msg data of None \<Rightarrow> False | Some (m', data') \<Rightarrow> m' = m \<and> reads data' ms rest)"

lemma parse_msg_wire [simp]:
  assumes "small m"
  shows "parse_msg (wire m @ rest) = Some (m, rest)"
proof -
  have "unat (word_of_nat (4 + length (snd m)) :: u32) = 4 + length (snd m)"
    using assms unat_length_field [of "length (snd m)"] by (simp add: small_def)
  then show ?thesis by (cases m) (simp add: parse_msg_def framed_def Let_def del: of_nat_add)
qed

lemma parse_msg_shorter: "parse_msg data = Some (m, rest) \<Longrightarrow> length rest < length data"
  by (auto simp: parse_msg_def Let_def split: list.splits if_splits)

text \<open>
  The input has been read up to and including the first ReadyForQuery, whose status \<open>t\<close> is.
\<close>

definition at_boundary :: "bytes \<Rightarrow> bytes \<Rightarrow> tx_status \<Rightarrow> bool" where
  "at_boundary data rest t \<longleftrightarrow> (\<exists>ms st. reads data (ms @ [(READY_FOR_QUERY, [st])]) rest \<and>
     READY_FOR_QUERY \<notin> fst ` set ms \<and> t = tx_or_default st)"

lemma at_boundary_last:
  "parse_msg data = Some ((READY_FOR_QUERY, [st]), rest) \<Longrightarrow> at_boundary data rest (tx_or_default st)"
  unfolding at_boundary_def by (rule exI [of _ "[]"]) auto

lemma at_boundary_Cons:
  assumes "parse_msg data = Some (m, data')" and "fst m \<noteq> READY_FOR_QUERY"
    and "at_boundary data' rest t"
  shows "at_boundary data rest t"
proof -
  from assms(3) obtain ms st where "reads data' (ms @ [(READY_FOR_QUERY, [st])]) rest"
      "READY_FOR_QUERY \<notin> fst ` set ms" "t = tx_or_default st"
    by (auto simp: at_boundary_def)
  with assms(1,2) show ?thesis unfolding at_boundary_def by (intro exI [of _ "m # ms"]) auto
qed

text \<open>The boundary is unique: a stream has one first ReadyForQuery.\<close>

lemma reads_unique:
  "\<lbrakk>reads data (ms @ [m]) rest; reads data (ms' @ [m']) rest'; fst m = z; fst m' = z;
    z \<notin> fst ` set ms; z \<notin> fst ` set ms'\<rbrakk> \<Longrightarrow> m = m' \<and> rest = rest'"
proof (induction ms arbitrary: data ms')
  case Nil
  then show ?case by (cases ms') (auto split: option.splits prod.splits)
next
  case (Cons a ms)
  then show ?case by (cases ms') (auto split: option.splits prod.splits)
qed

lemma at_boundary_unique:
  "at_boundary data rest t \<Longrightarrow> at_boundary data rest' t' \<Longrightarrow> rest = rest' \<and> t = t'"
  unfolding at_boundary_def using reads_unique by fastforce

text \<open>Where an error comes from: the machine, the stream, the server, or the loop itself.\<close>

definition err_source :: "('m \<Rightarrow> buffer_set \<Rightarrow> action res \<times> 'm \<times> buffer_set) \<Rightarrow> error \<Rightarrow> bool" where
  "err_source step e \<longleftrightarrow> (\<exists>m bs m1 bs1. step m bs = (Err e, m1, bs1)) \<or> is_bug e \<or>
     (\<exists>k. e = Io k) \<or> (\<exists>s. e = Server s)"

lemma drive_iter_err:
  assumes "drive_iter step tx m c = Inl (Err e, m', c')"
  shows "err_source step e"
proof -
  obtain r1 m1 bs where s: "step m (c_bufs c) = (r1, m1, bs)" by (metis prod_cases3)
  with assms show ?thesis
    by (auto simp: drive_iter_def Let_def err_source_def split: res.splits action.splits
        prod.splits rtry_splits dest!: conn_read_Err conn_write_flush_cases)
qed

section \<open>Query machines\<close>

text \<open>
  What \<open>drive\<close> needs from a machine. Its first step writes and reads; every later step reads
  on, delivers an asynchronous message, or ends. It ends only on a ReadyForQuery, whose status
  becomes its transaction status, and it does not read past one.
\<close>

locale query_machine =
  fixes step :: "'m \<Rightarrow> buffer_set \<Rightarrow> action res \<times> 'm \<times> buffer_set"
    and tx :: "'m \<Rightarrow> tx_status"
    and initial :: "'m \<Rightarrow> bool"
  assumes first: "initial m \<Longrightarrow> step m bs = (r, m', bs') \<Longrightarrow>
      r = Ok WriteAndReadMessage \<and> \<not> initial m'"
    and later: "\<not> initial m \<Longrightarrow> step m bs = (Ok a, m', bs') \<Longrightarrow> \<not> initial m' \<and>
      ((a = ReadMessage \<or> (\<exists>am. a = HandleAsyncMessageAndReadMessage am)) \<and>
         type_byte bs \<noteq> READY_FOR_QUERY \<or>
       (a = Finished \<or> (\<exists>e. a = ActionError e)) \<and> type_byte bs = READY_FOR_QUERY \<and>
         (\<exists>st. read_buffer bs = [st] \<and> tx m' = tx_or_default st))"
begin

text \<open>The outcomes of a round of a machine that has started.\<close>

lemma iter_continue:
  assumes "\<not> initial m" and "drive_iter step tx m c = Inr (m', c')"
  shows "\<not> initial m' \<and> type_byte (c_bufs c) \<noteq> READY_FOR_QUERY \<and> c_broken c' = c_broken c \<and>
    out (c_stream c') = out (c_stream c) \<and> parse_msg (inp (c_stream c)) =
      Some ((type_byte (c_bufs c'), read_buffer (c_bufs c')), inp (c_stream c'))"
proof -
  obtain r m1 bs where s: "step m (c_bufs c) = (r, m1, bs)" by (metis prod_cases3)
  with assms(2) obtain a where r: "r = Ok a" by (cases r) (auto simp: drive_iter_def Let_def)
  from later [OF assms(1) s [unfolded r]] assms(2) s r show ?thesis
    by (auto simp: drive_iter_def Let_def conn_handle_async_def conn_read_iff
        split: res.splits prod.splits)
qed

lemma iter_stop:
  assumes "\<not> initial m" and "drive_iter step tx m c = Inl (r, m', c')"
    and "r = Ok () \<or> (\<exists>e. r = Err (Server e) \<and> (\<forall>m1 bs. step m (c_bufs c) \<noteq> (Err (Server e), m1, bs)))"
  shows "type_byte (c_bufs c) = READY_FOR_QUERY \<and> inp (c_stream c') = inp (c_stream c) \<and>
    out (c_stream c') = out (c_stream c) \<and> c_broken c' = c_broken c \<and>
    (\<exists>st. read_buffer (c_bufs c) = [st] \<and> c_tx c' = tx_or_default st)"
proof -
  obtain r1 m1 bs where s: "step m (c_bufs c) = (r1, m1, bs)" by (metis prod_cases3)
  with assms(2,3) obtain a where r: "r1 = Ok a" by (cases r1) (auto simp: drive_iter_def Let_def)
  from later [OF assms(1) s [unfolded r]] consider
      (go) "a = ReadMessage \<or> (\<exists>am. a = HandleAsyncMessageAndReadMessage am)"
    | (fin) st where "a = Finished \<or> (\<exists>e. a = ActionError e)"
        "type_byte (c_bufs c) = READY_FOR_QUERY" "read_buffer (c_bufs c) = [st]"
        "tx m1 = tx_or_default st"
    by blast
  then show ?thesis
  proof cases
    case go
    then obtain c1 where "drive_iter step tx m c = (case conn_read_message c1 of
        (Ok _, c2) \<Rightarrow> Inr (m1, c2) | (Err e, c2) \<Rightarrow> Inl (Err e, m1, c2)
      | (Panic, c2) \<Rightarrow> Inl (Panic, m1, c2))"
      by (auto simp: drive_iter_def Let_def s r)
    with assms(2,3) show ?thesis by (auto split: res.splits prod.splits dest: conn_read_Err)
  next
    case fin
    with assms(2) show ?thesis by (auto simp: drive_iter_def Let_def s r)
  qed
qed

text \<open>A machine that has started returns: each further round consumes a message.\<close>

lemma drive_started_total: "\<not> initial m \<Longrightarrow> \<exists>r. drive step tx m c = Some r"
proof (induction "length (inp (c_stream c))" arbitrary: m c rule: less_induct)
  case less
  show ?case
  proof (cases "drive_iter step tx m c")
    case (Inl r)
    then show ?thesis by (cases r) (subst drive.simps, simp)
  next
    case (Inr mc)
    obtain m' c' where mc: "mc = (m', c')" by (cases mc)
    from iter_continue [OF less.prems Inr [unfolded mc]]
    have "\<not> initial m'" "length (inp (c_stream c')) < length (inp (c_stream c))"
      by (auto dest: parse_msg_shorter)
    from less.hyps [OF this(2,1)] show ?thesis by (subst drive.simps) (simp add: Inr mc)
  qed
qed

text \<open>
  Where a started machine stops when it reports success, or the server's error: at the current
  message if that is the ReadyForQuery, else after the next one.
\<close>

lemma drive_started_boundary:
  assumes "\<not> initial m" and "drive step tx m c = Some (r, m', c')"
    and clean: "r = Ok () \<or> (\<exists>e. r = Err (Server e) \<and> (\<forall>m bs m1 bs1. step m bs \<noteq> (Err (Server e), m1, bs1)))"
  shows "out (c_stream c') = out (c_stream c) \<and> c_broken c' = c_broken c \<and>
    (if type_byte (c_bufs c) = READY_FOR_QUERY
     then inp (c_stream c') = inp (c_stream c) \<and>
       (\<exists>st. read_buffer (c_bufs c) = [st] \<and> c_tx c' = tx_or_default st)
     else at_boundary (inp (c_stream c)) (inp (c_stream c')) (c_tx c'))"
  using assms(1,2)
proof (induction "length (inp (c_stream c))" arbitrary: m c rule: less_induct)
  case less
  show ?case
  proof (cases "drive_iter step tx m c")
    case (Inl x)
    with less.prems(2) have x: "x = (r, m', c')" by (subst (asm) drive.simps) simp
    from iter_stop [OF less.prems(1) Inl [unfolded x]] clean show ?thesis by auto
  next
    case (Inr mc)
    obtain m1 c1 where mc: "mc = (m1, c1)" by (cases mc)
    note nxt = iter_continue [OF less.prems(1) Inr [unfolded mc]]
    then have "length (inp (c_stream c1)) < length (inp (c_stream c))"
      by (auto dest: parse_msg_shorter)
    moreover have "drive step tx m1 c1 = Some (r, m', c')"
      using less.prems(2) by (subst (asm) drive.simps) (simp add: Inr mc)
    ultimately show ?thesis
      using less.hyps [of c1 m1] nxt at_boundary_last at_boundary_Cons
      by (force split: if_splits)
  qed
qed

text \<open>A fresh machine: it writes its request, then runs to the boundary.\<close>

lemma iter_first:
  assumes "initial m" and "step m (c_bufs c) = (r, m1, bs)"
  shows "drive_iter step tx m c =
    (case conn_write_flush (c\<lparr>c_bufs := bs\<rparr>) of
       (Ok _, c2) \<Rightarrow> (case conn_read_message c2 of
           (Ok _, c3) \<Rightarrow> Inr (m1, c3) | (Err e, c3) \<Rightarrow> Inl (Err e, m1, c3)
         | (Panic, c3) \<Rightarrow> Inl (Panic, m1, c3))
     | (Err e, c2) \<Rightarrow> Inl (Err e, m1, c2)
     | (Panic, c2) \<Rightarrow> Inl (Panic, m1, c2))"
  using first [OF assms] assms(2) by (auto simp: drive_iter_def Let_def split: res.splits prod.splits)

lemma drive_total: "\<exists>r. drive step tx m c = Some r"
proof (cases "initial m")
  case True
  obtain r m1 bs where s: "step m (c_bufs c) = (r, m1, bs)" by (metis prod_cases3)
  show ?thesis
  proof (cases "drive_iter step tx m c")
    case (Inl x)
    then show ?thesis by (cases x) (subst drive.simps, simp)
  next
    case (Inr mc)
    then have "\<not> initial (fst mc)"
      using first [OF True s] iter_first [OF True s] by (auto split: prod.splits res.splits)
    then show ?thesis
      using drive_started_total [of "fst mc" "snd mc"]
      by (cases mc) (subst drive.simps, simp add: Inr)
  qed
qed (rule drive_started_total)

lemma drive_boundary:
  assumes init: "initial m" and run: "drive step tx m c = Some (r, m', c')"
    and clean: "r = Ok () \<or> (\<exists>e. r = Err (Server e) \<and> (\<forall>m bs m1 bs1. step m bs \<noteq> (Err (Server e), m1, bs1)))"
    and s: "step m (c_bufs c) = (r1, m1, bs)"
  shows "at_boundary (inp (c_stream c)) (inp (c_stream c')) (c_tx c') \<and>
    out (c_stream c') = out (c_stream c) @ write_buffer bs \<and> c_broken c' = c_broken c"
proof -
  have w: "writable (c_stream c)"
  proof (rule ccontr)
    assume "\<not> writable (c_stream c)"
    then have "drive_iter step tx m c = Inl (Err (Io WriteFailed), m1, c\<lparr>c_bufs := bs\<rparr>)"
      by (simp add: iter_first [OF init s] conn_write_flush_fail)
    with run clean show False by (subst (asm) drive.simps) auto
  qed
  let ?c = "c\<lparr>c_bufs := bs, c_stream := (c_stream c)\<lparr>out := out (c_stream c) @ write_buffer bs\<rparr>\<rparr>"
  obtain r3 c3 where rd: "conn_read_message ?c = (r3, c3)" by fastforce
  with run clean have "r3 = Ok ()"
    by (subst (asm) drive.simps) (auto simp: iter_first [OF init s] w dest: conn_read_Err
        split: res.splits)
  with rd obtain msg rest where p: "parse_msg (inp (c_stream c)) = Some (msg, rest)"
      "c3 = got msg rest ?c"
    by (auto simp: conn_read_iff)
  have "drive step tx m1 c3 = Some (r, m', c')"
    using run \<open>r3 = Ok ()\<close> rd by (subst (asm) drive.simps) (simp add: iter_first [OF init s] w)
  with first [OF init s] drive_started_boundary [of m1 c3 r m' c'] clean p show ?thesis
    by (cases "fst msg = READY_FOR_QUERY"; cases msg)
      (auto simp del: READY_FOR_QUERY_def intro: at_boundary_last at_boundary_Cons)
qed

end

context query_machine
begin

lemma drive_started_err:
  "\<not> initial m \<Longrightarrow> drive step tx m c = Some (Err e, m', c') \<Longrightarrow> err_source step e"
proof (induction "length (inp (c_stream c))" arbitrary: m c rule: less_induct)
  case less
  show ?case
  proof (cases "drive_iter step tx m c")
    case (Inl x)
    with less.prems(2) show ?thesis
      by (subst (asm) drive.simps) (auto intro: drive_iter_err)
  next
    case (Inr mc)
    obtain m1 c1 where mc: "mc = (m1, c1)" by (cases mc)
    note nxt = iter_continue [OF less.prems(1) Inr [unfolded mc]]
    then have "length (inp (c_stream c1)) < length (inp (c_stream c))"
      by (auto dest: parse_msg_shorter)
    moreover have "drive step tx m1 c1 = Some (Err e, m', c')"
      using less.prems(2) by (subst (asm) drive.simps) (simp add: Inr mc)
    ultimately show ?thesis using less.hyps [of c1 m1] nxt by simp
  qed
qed

lemma drive_err:
  assumes "drive step tx m c = Some (Err e, m', c')"
  shows "err_source step e"
proof (cases "initial m")
  case True
  obtain r m1 bs where s: "step m (c_bufs c) = (r, m1, bs)" by (metis prod_cases3)
  show ?thesis
  proof (cases "drive_iter step tx m c")
    case (Inl x)
    with assms show ?thesis by (subst (asm) drive.simps) (auto intro: drive_iter_err)
  next
    case (Inr mc)
    then have "\<not> initial (fst mc)"
      using first [OF True s] iter_first [OF True s] by (auto split: prod.splits res.splits)
    with assms show ?thesis
      using drive_started_err [of "fst mc" "snd mc" e m' c']
      by (cases mc) (subst (asm) drive.simps, simp add: Inr)
  qed
qed (use assms drive_started_err in blast)

text \<open>
  A machine whose own errors are all library bugs: when the connection is not to be marked
  broken, the exchange has ended at its boundary.
\<close>

lemma drive_usable:
  assumes init: "initial m" and run: "drive step tx m c = Some (r, m', c')" and "r \<noteq> Panic"
    and bug: "\<And>m bs e m1 bs1. step m bs = (Err e, m1, bs1) \<Longrightarrow> is_bug e"
    and usable: "\<not> c_broken (mark_broken r c')"
    and s: "step m (c_bufs c) = (r1, m1, bs)"
  shows "at_boundary (inp (c_stream c)) (inp (c_stream c')) (c_tx c') \<and>
    out (c_stream c') = out (c_stream c) @ write_buffer bs \<and>
    (r = Ok () \<or> (\<exists>e. r = Err (Server e)))"
proof -
  have "r = Ok () \<or> (\<exists>e. r = Err (Server e))"
  proof (cases r)
    case (Err e)
    with run drive_err have "err_source step e" by blast
    with bug have "is_bug e \<or> (\<exists>k. e = Io k) \<or> (\<exists>s. e = Server s)" by (auto simp: err_source_def)
    with Err usable show ?thesis by (auto simp: mark_broken_def is_bug_def split: error.splits)
  qed (use \<open>r \<noteq> Panic\<close> in auto)
  moreover have "step m bs \<noteq> (Err (Server e), m1, bs1)" for m bs e m1 bs1
    using bug by fastforce
  ultimately show ?thesis using drive_boundary [OF init run _ s] by blast
qed

end

section \<open>The machines of the code\<close>

lemma ready_for_query_parse_iff:
  "ready_for_query_parse p = Ok st \<longleftrightarrow> p = [st]"
  by (auto simp: ready_for_query_parse_def split: list.splits)

lemma handle_async_Ready [simp]: "\<not> is_async_type READY_FOR_QUERY"
  by (simp add: is_async_type_def)

interpretation sq: query_machine "sq_step X H" sq_tx "\<lambda>m. sq_state m = SQ_Initial" for X H
proof (unfold_locales, goal_cases)
  case (1 m bs r m' bs')
  then show ?case by (auto simp: sq_step_def)
next
  case (2 m bs a m' bs')
  then show ?case
    by (auto simp: sq_defs Let_def ready_for_query_parse_iff is_async_type_def
        dest!: handle_async_message_Ok split: sq_state.splits if_splits rtry_splits prod.splits
        option.splits)
qed

interpretation eq: query_machine "eq_step X H" eq_tx "\<lambda>m. eq_state m = EQ_Initial" for X H
proof (unfold_locales, goal_cases)
  case (1 m bs r m' bs')
  then show ?case by (auto simp: eq_step_def split: operation.splits)
next
  case (2 m bs a m' bs')
  then show ?case
    by (auto simp: eq_defs Let_def ready_for_query_parse_iff is_async_type_def
        dest!: handle_async_message_Ok split: eq_state.splits if_splits rtry_splits prod.splits
        option.splits operation.splits)
qed

interpretation bp: query_machine "bp_step X" bp_tx "\<lambda>m. bp_state m = BP_Initial" for X
proof (unfold_locales, goal_cases)
  case (1 m bs r m' bs')
  then show ?case by (auto simp: bp_step_def)
next
  case (2 m bs a m' bs')
  then show ?case
    by (auto simp: bp_step_def bp_update_def Let_def ready_for_query_parse_iff is_async_type_def
        split: bp_state.splits if_splits rtry_splits prod.splits)
qed

interpretation bt: query_machine "batch_step X" bt_tx "\<lambda>m. bt_state m = BT_Initial" for X
proof (unfold_locales, goal_cases)
  case (1 m bs r m' bs')
  then show ?case by (auto simp: batch_step_def split: if_splits)
next
  case (2 m bs a m' bs')
  then show ?case
    by (auto simp: batch_step_def Let_def ready_for_query_parse_iff is_async_type_def
        split: batch_state.splits if_splits rtry_splits prod.splits option.splits)
qed

end
