(* ===== verification/Scram.thy ===== *)
theory Scram
  imports Frontend StdStr
begin

text \<open>
  \<open>src/protocol/frontend/auth.rs\<close>: the MD5 password hash and the SCRAM-SHA-256 client. The
  hash, MAC, key derivation and base64 functions are parameters (\<open>ext\<close>); the 24 random bytes of
  the nonce are an argument of \<open>scram_new\<close>. The errors of the client are strings that its only
  callers wrap with \<open>map_err(Error::Auth)\<close>; the model wraps them where they arise.
\<close>

section \<open>MD5\<close>

definition hex_digit :: "byte \<Rightarrow> byte" where
  "hex_digit d = ascii ''0123456789abcdef'' ! unat d"

definition lowercase_hex :: "bytes \<Rightarrow> str" where
  "lowercase_hex bs = concat (map (\<lambda>b. [hex_digit (drop_bit 4 b), hex_digit (and b 15)]) bs)"

definition md5_password :: "ext \<Rightarrow> str \<Rightarrow> str \<Rightarrow> bytes \<Rightarrow> str" where
  "md5_password X username password salt =
     (let first_hash = x_md5 X (password @ username);
          first_hash_hex = lowercase_hex first_hash;
          second_hash = x_md5 X (first_hash_hex @ salt)
      in ascii ''md5'' @ lowercase_hex second_hash)"

section \<open>The SCRAM client\<close>

record scram_client =
  sc_nonce :: str
  sc_channel_binding :: str
  sc_password :: str
  sc_server_first :: "str option"
  sc_auth_message :: "str option"
  sc_salted_password :: "bytes option"

definition scram_new :: "ext \<Rightarrow> bytes \<Rightarrow> str \<Rightarrow> scram_client" where
  "scram_new X nonce_bytes password =
     \<lparr>sc_nonce = x_b64_encode X nonce_bytes, sc_channel_binding = ascii ''n,,'',
      sc_password = password, sc_server_first = None, sc_auth_message = None,
      sc_salted_password = None\<rparr>"

definition scram_new_with_channel_binding ::
    "ext \<Rightarrow> bytes \<Rightarrow> str \<Rightarrow> bytes \<Rightarrow> scram_client" where
  "scram_new_with_channel_binding X nonce_bytes password channel_binding_data =
     \<lparr>sc_nonce = x_b64_encode X nonce_bytes,
      sc_channel_binding =
        ascii ''p=tls-server-end-point,,'' @ x_b64_encode X channel_binding_data,
      sc_password = password, sc_server_first = None, sc_auth_message = None,
      sc_salted_password = None\<rparr>"

definition client_first_message :: "scram_client \<Rightarrow> str" where
  "client_first_message s = sc_channel_binding s @ ascii ''n=,r='' @ sc_nonce s"

definition client_first_message_bare :: "scram_client \<Rightarrow> str" where
  "client_first_message_bare s = ascii ''n=,r='' @ sc_nonce s"

text \<open>The loop over the comma-separated parts of server-first-message.\<close>

fun scram_attrs ::
    "str list \<Rightarrow> str option \<times> str option \<times> nat option \<Rightarrow> str option \<times> str option \<times> nat option"
where
  "scram_attrs [] acc = acc"
| "scram_attrs (part # parts) (combined_nonce, salt_b64, iterations) =
     scram_attrs parts
       (case strip_prefix (ascii ''r='') part of
          Some v \<Rightarrow> (Some v, salt_b64, iterations)
        | None \<Rightarrow> (case strip_prefix (ascii ''s='') part of
            Some v \<Rightarrow> (combined_nonce, Some v, iterations)
          | None \<Rightarrow> (case strip_prefix (ascii ''i='') part of
              Some v \<Rightarrow> (combined_nonce, salt_b64, parse_unsigned 32 v)
            | None \<Rightarrow> (combined_nonce, salt_b64, iterations))))"

definition xor_bytes :: "bytes \<Rightarrow> bytes \<Rightarrow> bytes" where
  "xor_bytes a b = map (\<lambda>(x, y). xor x y) (zip a b)"

definition hmac :: "ext \<Rightarrow> bytes \<Rightarrow> bytes \<Rightarrow> bytes res" where
  "hmac X key msg = ok_or (x_hmac X key msg) (Auth ''HMAC error: {}'')"

definition process_server_first ::
    "ext \<Rightarrow> scram_client \<Rightarrow> str \<Rightarrow> str res \<times> scram_client" where
  "process_server_first X s server_first =
     (let s1 = s\<lparr>sc_server_first := Some server_first\<rparr>;
          (nonce_attr, salt_attr, iter_attr) = scram_attrs (split_on 44 server_first) (None, None, None)
      in rtry (ok_or nonce_attr (Auth ''Missing nonce in server-first-message'')) s1 (\<lambda>combined_nonce.
         rtry (ok_or salt_attr (Auth ''Missing salt in server-first-message'')) s1 (\<lambda>salt_b64.
         rtry (ok_or iter_attr (Auth ''Missing iterations in server-first-message'')) s1 (\<lambda>iterations.
         if \<not> starts_with combined_nonce (sc_nonce s1)
         then (Err (Auth ''Server nonce does not start with client nonce''), s1)
         else rtry (ok_or (x_b64_decode X salt_b64) (Auth ''Invalid salt: {}'')) s1 (\<lambda>salt.
           let salted_password = x_pbkdf2 X (sc_password s1) salt (word_of_nat iterations);
               s2 = s1\<lparr>sc_salted_password := Some salted_password\<rparr>
           in rtry (hmac X salted_password (ascii ''Client Key'')) s2 (\<lambda>client_key.
             let stored_key = x_sha256 X client_key;
                 channel_binding_b64 = x_b64_encode X (sc_channel_binding s2);
                 client_final_without_proof =
                   ascii ''c='' @ channel_binding_b64 @ ascii '',r='' @ combined_nonce;
                 auth_message = client_first_message_bare s2 @ ascii '','' @ server_first @
                   ascii '','' @ client_final_without_proof;
                 s3 = s2\<lparr>sc_auth_message := Some auth_message\<rparr>
             in rtry (hmac X stored_key auth_message) s3 (\<lambda>client_signature.
               let client_proof = xor_bytes client_key client_signature;
                   proof_b64 = x_b64_encode X client_proof
               in (Ok (client_final_without_proof @ ascii '',p='' @ proof_b64), s3))))))))"

definition verify_server_final :: "ext \<Rightarrow> scram_client \<Rightarrow> str \<Rightarrow> unit res" where
  "verify_server_final X s server_final =
     rbind (ok_or (strip_prefix (ascii ''v='') server_final)
       (Auth ''Invalid server-final-message format'')) (\<lambda>server_signature_b64.
     rbind (ok_or (x_b64_decode X server_signature_b64)
       (Auth ''Invalid server signature: {}'')) (\<lambda>server_signature.
     rbind (ok_or (sc_salted_password s) (Auth ''Missing salted password'')) (\<lambda>salted_password.
     rbind (ok_or (sc_auth_message s) (Auth ''Missing auth message'')) (\<lambda>auth_message.
     rbind (hmac X salted_password (ascii ''Server Key'')) (\<lambda>server_key.
     rbind (hmac X server_key auth_message) (\<lambda>expected_signature.
       if server_signature \<noteq> expected_signature
       then Err (Auth ''Server signature verification failed'')
       else Ok ()))))))"

section \<open>What the exchange establishes (RFC 5802)\<close>

text \<open>
  The AuthMessage of an exchange without channel binding: the client's bare first message, the
  server's first message and the client's final message without its proof.
\<close>

definition scram_auth_message :: "ext \<Rightarrow> str \<Rightarrow> str \<Rightarrow> str \<Rightarrow> str" where
  "scram_auth_message X nonce server_first combined_nonce =
     ascii ''n=,r='' @ nonce @ ascii '','' @ server_first @ ascii '','' @
     ascii ''c='' @ x_b64_encode X (ascii ''n,,'') @ ascii '',r='' @ combined_nonce"

text \<open>
  The client was started with a password and a nonce and has answered \<open>server_first\<close>: its
  salted password and AuthMessage are the ones the server's attributes determine.
\<close>

definition scram_fresh :: "ext \<Rightarrow> str \<Rightarrow> str \<Rightarrow> scram_client \<Rightarrow> bool" where
  "scram_fresh X pw nonce s \<longleftrightarrow>
     sc_nonce s = nonce \<and> sc_password s = pw \<and> sc_channel_binding s = ascii ''n,,''"

definition scram_answered :: "ext \<Rightarrow> str \<Rightarrow> str \<Rightarrow> str \<Rightarrow> scram_client \<Rightarrow> bool" where
  "scram_answered X pw nonce server_first s \<longleftrightarrow>
     (\<exists>n s64 salt i. scram_attrs (split_on 44 server_first) (None, None, None) = (Some n, Some s64, Some i) \<and>
        starts_with n nonce \<and> x_b64_decode X s64 = Some salt \<and>
        sc_salted_password s = Some (x_pbkdf2 X pw salt (word_of_nat i)) \<and>
        sc_auth_message s = Some (scram_auth_message X nonce server_first n))"

text \<open>
  The server's final message carries the signature that only a holder of the salted password
  (or of the server key derived from it) can compute for this exchange.
\<close>

definition scram_server_proves :: "ext \<Rightarrow> str \<Rightarrow> str \<Rightarrow> str \<Rightarrow> str \<Rightarrow> bool" where
  "scram_server_proves X pw nonce server_first server_final \<longleftrightarrow>
     (\<exists>n s64 salt i server_key sig64 signature.
        scram_attrs (split_on 44 server_first) (None, None, None) = (Some n, Some s64, Some i) \<and>
        starts_with n nonce \<and> x_b64_decode X s64 = Some salt \<and>
        x_hmac X (x_pbkdf2 X pw salt (word_of_nat i)) (ascii ''Server Key'') = Some server_key \<and>
        x_hmac X server_key (scram_auth_message X nonce server_first n) = Some signature \<and>
        server_final = ascii ''v='' @ sig64 \<and> x_b64_decode X sig64 = Some signature)"

lemma scram_new_fresh [simp]: "scram_fresh X pw (x_b64_encode X rnd) (scram_new X rnd pw)"
  by (simp add: scram_fresh_def scram_new_def)

lemma hmac_Ok [simp]: "hmac X k m = Ok h \<longleftrightarrow> x_hmac X k m = Some h"
  by (simp add: hmac_def res_simps)

lemma hmac_no_panic [simp]: "hmac X k m \<noteq> Panic"
  by (simp add: hmac_def res_simps)

lemma process_server_first_answered:
  assumes "process_server_first X s sf = (Ok msg, s')" and "scram_fresh X pw nonce s"
  shows "scram_fresh X pw nonce s' \<and> scram_answered X pw nonce sf s'"
  using assms
  by (auto simp: process_server_first_def scram_fresh_def scram_answered_def scram_auth_message_def
      client_first_message_bare_def Let_def res_simps
      split: rtry_splits prod.splits if_splits)

lemma verify_server_final_iff:
  assumes "scram_answered X pw nonce sf s"
  shows "verify_server_final X s fin = Ok () \<longleftrightarrow> scram_server_proves X pw nonce sf fin"
  using assms
  by (auto simp: verify_server_final_def scram_answered_def scram_server_proves_def res_simps
      strip_prefix_Some split: if_splits)

text \<open>
  The server's side of the check: the client's proof is the client key masked with the
  signature under the stored key, and the server keeps only the stored key, the hash of the
  client key.
\<close>

definition scram_server_accepts :: "ext \<Rightarrow> bytes \<Rightarrow> str \<Rightarrow> bytes \<Rightarrow> bool" where
  "scram_server_accepts X stored_key auth_message proof \<longleftrightarrow>
     (case x_hmac X stored_key auth_message of None \<Rightarrow> False
      | Some signature \<Rightarrow> x_sha256 X (xor_bytes proof signature) = stored_key)"

lemma xor_bytes_cancel: "length a = length b \<Longrightarrow> xor_bytes (xor_bytes a b) b = a"
  by (induction a b rule: list_induct2) (simp_all add: xor_bytes_def xor.assoc)

end
