(* ===== verification/Startup.thy ===== *)
theory Startup
  imports StateMachine Scram Opts
begin

text \<open>
  \<open>src/state/connection.rs\<close>: the connection startup machine, one definition per method. \<open>tls\<close>
  is the compile-time flag \<open>cfg!(any(feature = "sync-tls", feature = "tokio-tls"))\<close> and \<open>rnd\<close>
  the random bytes of the SCRAM nonce.
\<close>

datatype conn_state =
    CS_Initial | CS_WaitingSslResponse | CS_WaitingTlsHandshake | CS_WaitingAuthRead
  | CS_WaitingAuth | CS_SaslInProgressRead | CS_SaslInProgress | CS_WaitingAuthResultRead
  | CS_WaitingAuthResult | CS_WaitingReady | CS_Finished

record connection_machine =
  cm_state :: conn_state
  cm_options :: opts
  cm_backend_key :: "backend_key_data option"
  cm_server_params :: "(str \<times> str) list"
  cm_tx :: tx_status
  cm_scram :: "scram_client option"
  cm_ssl_response :: byte

type_synonym startup_result = "action res \<times> connection_machine \<times> buffer_set"

definition connection_new :: "opts \<Rightarrow> connection_machine" where
  "connection_new options =
     \<lparr>cm_state = CS_Initial, cm_options = options, cm_backend_key = None,
      cm_server_params = [], cm_tx = Idle, cm_scram = None, cm_ssl_response = 0\<rparr>"

definition set_ssl_response :: "byte \<Rightarrow> connection_machine \<Rightarrow> connection_machine" where
  "set_ssl_response response cm = cm\<lparr>cm_ssl_response := response\<rparr>"

definition startup_params :: "opts \<Rightarrow> (str \<times> str) list" where
  "startup_params options =
     [(ascii ''user'', o_user options), (ascii ''client_encoding'', ascii ''UTF8'')] @
     (case o_database options of Some db \<Rightarrow> [(ascii ''database'', db)] | None \<Rightarrow> []) @
     (case o_application_name options of
        Some app \<Rightarrow> [(ascii ''application_name'', app)] | None \<Rightarrow> []) @
     o_params options"

definition write_startup_message :: "connection_machine \<Rightarrow> bytes \<Rightarrow> bytes" where
  "write_startup_message cm b = write_startup b (startup_params (cm_options cm))"

definition cm_handle_initial ::
    "bool \<Rightarrow> connection_machine \<Rightarrow> buffer_set \<Rightarrow> startup_result" where
  "cm_handle_initial tls cm bs =
     (let bs0 = bs\<lparr>write_buffer := []\<rparr>;
          plain = (Ok Write, cm\<lparr>cm_state := CS_WaitingAuthRead\<rparr>,
                   bs0\<lparr>write_buffer := write_startup_message cm []\<rparr>);
          ssl = (Ok WriteAndReadByte, cm\<lparr>cm_state := CS_WaitingSslResponse\<rparr>,
                 bs0\<lparr>write_buffer := write_ssl_request []\<rparr>)
      in case o_ssl_mode (cm_options cm) of
           SslDisable \<Rightarrow> plain
         | SslPrefer \<Rightarrow> (if tls then ssl else plain)
         | SslRequire \<Rightarrow>
             (if \<not> tls
              then (Err (Unsupported ''SSL required but TLS feature not enabled''), cm, bs0)
              else ssl))"

definition cm_handle_ssl_response :: "connection_machine \<Rightarrow> buffer_set \<Rightarrow> startup_result" where
  "cm_handle_ssl_response cm bs =
     (if cm_ssl_response cm = 83 then
        (Ok TlsHandshake, cm\<lparr>cm_state := CS_WaitingTlsHandshake\<rparr>, bs)
      else if cm_ssl_response cm = 78 then
        (if o_ssl_mode (cm_options cm) = SslRequire
         then (Err (Auth ''SSL required but not supported by server''), cm, bs)
         else (Ok Write, cm\<lparr>cm_state := CS_WaitingAuthRead\<rparr>,
               bs\<lparr>write_buffer := write_startup_message cm []\<rparr>))
      else (Err (LibraryBug ''Unexpected SSL response: {}''), cm, bs))"

definition cm_handle_tls_handshake_complete ::
    "connection_machine \<Rightarrow> buffer_set \<Rightarrow> startup_result" where
  "cm_handle_tls_handshake_complete cm bs =
     (Ok Write, cm\<lparr>cm_state := CS_WaitingAuthRead\<rparr>,
      bs\<lparr>write_buffer := write_startup_message cm []\<rparr>)"

text \<open>\<open>options.password.as_ref().ok_or_else(..)\<close>\<close>

definition cm_password :: "connection_machine \<Rightarrow> str res" where
  "cm_password cm =
     ok_or (o_password (cm_options cm)) (Auth ''Password required but not provided'')"

definition cm_handle_auth_message ::
    "ext \<Rightarrow> bytes \<Rightarrow> connection_machine \<Rightarrow> buffer_set \<Rightarrow> startup_result" where
  "cm_handle_auth_message X rnd cm bs =
     (if type_byte bs = NEGOTIATE_PROTOCOL_VERSION then
        rtry (negotiate_parse X (read_buffer bs)) (cm, bs) (\<lambda>negotiate.
          (Err (LibraryBug ''Server does not support protocol 3.2 (requires PostgreSQL 17+). Server supports protocol 3.{}. Unrecognized options: {:?}''),
           cm, bs))
      else if type_byte bs \<noteq> AUTHENTICATION then
        (Err (LibraryBug ''Expected Authentication message, got {}''), cm, bs)
      else rtry (authentication_parse X (read_buffer bs)) (cm, bs) (\<lambda>auth. case auth of
          AuthOk \<Rightarrow> (Ok ReadMessage, cm\<lparr>cm_state := CS_WaitingReady\<rparr>, bs)
        | CleartextPassword \<Rightarrow>
            rtry (cm_password cm) (cm, bs) (\<lambda>password.
              (Ok Write, cm\<lparr>cm_state := CS_WaitingAuthResultRead\<rparr>,
               bs\<lparr>write_buffer := write_password [] password\<rparr>))
        | Md5Password salt \<Rightarrow>
            rtry (cm_password cm) (cm, bs) (\<lambda>password.
              (Ok Write, cm\<lparr>cm_state := CS_WaitingAuthResultRead\<rparr>,
               bs\<lparr>write_buffer :=
                 write_password [] (md5_password X (o_user (cm_options cm)) password salt)\<rparr>))
        | Sasl mechs \<Rightarrow>
            (if ascii ''SCRAM-SHA-256'' \<notin> set mechs then
               (Err (Auth ''No supported SASL mechanism. Server offers: {:?}''), cm, bs)
             else rtry (cm_password cm) (cm, bs) (\<lambda>password.
               let scram = scram_new X rnd password;
                   client_first = client_first_message scram
               in (Ok Write, cm\<lparr>cm_scram := Some scram, cm_state := CS_SaslInProgressRead\<rparr>,
                   bs\<lparr>write_buffer :=
                     write_sasl_initial_response [] (ascii ''SCRAM-SHA-256'') client_first\<rparr>)))
        | _ \<Rightarrow> (Err (Unsupported ''Unsupported authentication method: {:?}''), cm, bs)))"

definition cm_handle_sasl_message ::
    "ext \<Rightarrow> connection_machine \<Rightarrow> buffer_set \<Rightarrow> startup_result" where
  "cm_handle_sasl_message X cm bs =
     (if type_byte bs \<noteq> AUTHENTICATION then
        (Err (LibraryBug ''Expected Authentication message, got {}''), cm, bs)
      else rtry (authentication_parse X (read_buffer bs)) (cm, bs) (\<lambda>auth. case auth of
          SaslContinue data \<Rightarrow>
            rtry (ok_or (cm_scram cm) (LibraryBug ''SCRAM client not initialized'')) (cm, bs)
              (\<lambda>scram.
            if \<not> x_utf8 X data
            then (Err (Auth ''Invalid server-first-message: {}''), cm, bs)
            else let (r, scram') = process_server_first X scram data;
                     cm1 = cm\<lparr>cm_scram := Some scram'\<rparr>
                 in rtry r (cm1, bs) (\<lambda>client_final.
                      (Ok Write, cm1\<lparr>cm_state := CS_SaslInProgressRead\<rparr>,
                       bs\<lparr>write_buffer := write_sasl_response [] client_final\<rparr>)))
        | SaslFinal data \<Rightarrow>
            rtry (ok_or (cm_scram cm) (LibraryBug ''SCRAM client not initialized'')) (cm, bs)
              (\<lambda>scram.
            if \<not> x_utf8 X data
            then (Err (Auth ''Invalid server-final-message: {}''), cm, bs)
            else rtry (verify_server_final X scram data) (cm, bs) (\<lambda>_.
                   (Ok ReadMessage, cm\<lparr>cm_state := CS_WaitingAuthResult\<rparr>, bs)))
        | _ \<Rightarrow> (Err (LibraryBug ''Unexpected SASL message: {:?}''), cm, bs)))"

definition cm_handle_auth_result ::
    "ext \<Rightarrow> connection_machine \<Rightarrow> buffer_set \<Rightarrow> startup_result" where
  "cm_handle_auth_result X cm bs =
     (if type_byte bs \<noteq> AUTHENTICATION then
        (Err (LibraryBug ''Expected AuthenticationOk, got {}''), cm, bs)
      else rtry (authentication_parse X (read_buffer bs)) (cm, bs) (\<lambda>auth. case auth of
          AuthOk \<Rightarrow> (Ok ReadMessage, cm\<lparr>cm_state := CS_WaitingReady\<rparr>, bs)
        | _ \<Rightarrow> (Err (Auth ''Unexpected auth result: {:?}''), cm, bs)))"

definition cm_handle_ready_message ::
    "ext \<Rightarrow> connection_machine \<Rightarrow> buffer_set \<Rightarrow> startup_result" where
  "cm_handle_ready_message X cm bs =
     (let payload = read_buffer bs in
      if type_byte bs = BACKEND_KEY_DATA then
        rtry (backend_key_data_parse payload) (cm, bs) (\<lambda>key.
          (Ok ReadMessage, cm\<lparr>cm_backend_key := Some key\<rparr>, bs))
      else if type_byte bs = PARAMETER_STATUS then
        rtry (parameter_status_parse X payload) (cm, bs) (\<lambda>param.
          (Ok ReadMessage, cm\<lparr>cm_server_params := cm_server_params cm @ [param]\<rparr>, bs))
      else if type_byte bs = READY_FOR_QUERY then
        rtry (ready_for_query_parse payload) (cm, bs) (\<lambda>ready.
          (Ok Finished, cm\<lparr>cm_tx := tx_or_default ready, cm_state := CS_Finished\<rparr>, bs))
      else (Err (LibraryBug ''Unexpected message during startup: {}''), cm, bs))"

definition cm_step ::
    "ext \<Rightarrow> bool \<Rightarrow> bytes \<Rightarrow> connection_machine \<Rightarrow> buffer_set \<Rightarrow> startup_result" where
  "cm_step X tls rnd cm bs =
     (case cm_state cm of
        CS_Initial \<Rightarrow> cm_handle_initial tls cm bs
      | CS_WaitingSslResponse \<Rightarrow> cm_handle_ssl_response cm bs
      | CS_WaitingTlsHandshake \<Rightarrow> cm_handle_tls_handshake_complete cm bs
      | CS_WaitingAuthRead \<Rightarrow> (Ok ReadMessage, cm\<lparr>cm_state := CS_WaitingAuth\<rparr>, bs)
      | CS_SaslInProgressRead \<Rightarrow> (Ok ReadMessage, cm\<lparr>cm_state := CS_SaslInProgress\<rparr>, bs)
      | CS_WaitingAuthResultRead \<Rightarrow> (Ok ReadMessage, cm\<lparr>cm_state := CS_WaitingAuthResult\<rparr>, bs)
      | _ \<Rightarrow>
        (if is_async_type (type_byte bs) \<and>
            \<not> (cm_state cm = CS_WaitingReady \<and> type_byte bs = PARAMETER_STATUS)
         then (startup_handle_async_message X (type_byte bs) (read_buffer bs), cm, bs)
         else if type_byte bs = ERROR_RESPONSE then
           rtry (error_response_parse X (read_buffer bs)) (cm, bs) (\<lambda>error.
             (Err (Server error), cm, bs))
         else (case cm_state cm of
             CS_WaitingAuth \<Rightarrow> cm_handle_auth_message X rnd cm bs
           | CS_SaslInProgress \<Rightarrow> cm_handle_sasl_message X cm bs
           | CS_WaitingAuthResult \<Rightarrow> cm_handle_auth_result X cm bs
           | CS_WaitingReady \<Rightarrow> cm_handle_ready_message X cm bs
           | _ \<Rightarrow> (Err (LibraryBug ''Unexpected state {:?}''), cm, bs))))"

lemmas cm_defs = cm_step_def cm_handle_initial_def cm_handle_ssl_response_def
  cm_handle_tls_handshake_complete_def cm_handle_auth_message_def cm_handle_sasl_message_def
  cm_handle_auth_result_def cm_handle_ready_message_def

section \<open>The startup protocol as a transition relation\<close>

text \<open>
  The protocol the machine is meant to follow, as rules over the state, the message that has
  arrived and the action. \<open>cm_step_iff\<close>: the successful steps of the code are its transitions.
\<close>

definition cm_late :: "conn_state \<Rightarrow> bool" where
  "cm_late s \<longleftrightarrow> s \<in> {CS_WaitingAuth, CS_SaslInProgress, CS_WaitingAuthResult, CS_WaitingReady,
     CS_Finished}"

inductive cm_trans ::
    "ext \<Rightarrow> bool \<Rightarrow> bytes \<Rightarrow> connection_machine \<Rightarrow> buffer_set \<Rightarrow> action \<Rightarrow>
       connection_machine \<Rightarrow> buffer_set \<Rightarrow> bool"
  for X tls rnd
where
  request_ssl: "\<lbrakk>cm_state cm = CS_Initial; o_ssl_mode (cm_options cm) \<noteq> SslDisable; tls\<rbrakk> \<Longrightarrow>
    cm_trans X tls rnd cm bs WriteAndReadByte (cm\<lparr>cm_state := CS_WaitingSslResponse\<rparr>)
      (bs\<lparr>write_buffer := write_ssl_request []\<rparr>)"
| plain: "\<lbrakk>cm_state cm = CS_Initial; o_ssl_mode (cm_options cm) = SslDisable \<or>
      o_ssl_mode (cm_options cm) = SslPrefer \<and> \<not> tls\<rbrakk> \<Longrightarrow>
    cm_trans X tls rnd cm bs Write (cm\<lparr>cm_state := CS_WaitingAuthRead\<rparr>)
      (bs\<lparr>write_buffer := write_startup_message cm []\<rparr>)"
| ssl_yes: "\<lbrakk>cm_state cm = CS_WaitingSslResponse; cm_ssl_response cm = 83\<rbrakk> \<Longrightarrow>
    cm_trans X tls rnd cm bs TlsHandshake (cm\<lparr>cm_state := CS_WaitingTlsHandshake\<rparr>) bs"
| ssl_no: "\<lbrakk>cm_state cm = CS_WaitingSslResponse; cm_ssl_response cm = 78;
      o_ssl_mode (cm_options cm) \<noteq> SslRequire\<rbrakk> \<Longrightarrow>
    cm_trans X tls rnd cm bs Write (cm\<lparr>cm_state := CS_WaitingAuthRead\<rparr>)
      (bs\<lparr>write_buffer := write_startup_message cm []\<rparr>)"
| tls_done: "cm_state cm = CS_WaitingTlsHandshake \<Longrightarrow>
    cm_trans X tls rnd cm bs Write (cm\<lparr>cm_state := CS_WaitingAuthRead\<rparr>)
      (bs\<lparr>write_buffer := write_startup_message cm []\<rparr>)"
| read: "(cm_state cm, next) \<in> {(CS_WaitingAuthRead, CS_WaitingAuth),
      (CS_SaslInProgressRead, CS_SaslInProgress), (CS_WaitingAuthResultRead, CS_WaitingAuthResult)}
    \<Longrightarrow> cm_trans X tls rnd cm bs ReadMessage (cm\<lparr>cm_state := next\<rparr>) bs"
| async: "\<lbrakk>cm_late (cm_state cm); is_async_type (type_byte bs);
      \<not> (cm_state cm = CS_WaitingReady \<and> type_byte bs = PARAMETER_STATUS);
      handle_async_message X (type_byte bs) (read_buffer bs) = Ok a\<rbrakk> \<Longrightarrow>
    cm_trans X tls rnd cm bs a cm bs"
| auth_ok: "\<lbrakk>cm_state cm = CS_WaitingAuth \<or> cm_state cm = CS_WaitingAuthResult;
      type_byte bs = AUTHENTICATION; authentication_parse X (read_buffer bs) = Ok AuthOk\<rbrakk> \<Longrightarrow>
    cm_trans X tls rnd cm bs ReadMessage (cm\<lparr>cm_state := CS_WaitingReady\<rparr>) bs"
| cleartext: "\<lbrakk>cm_state cm = CS_WaitingAuth; type_byte bs = AUTHENTICATION;
      authentication_parse X (read_buffer bs) = Ok CleartextPassword;
      o_password (cm_options cm) = Some pw\<rbrakk> \<Longrightarrow>
    cm_trans X tls rnd cm bs Write (cm\<lparr>cm_state := CS_WaitingAuthResultRead\<rparr>)
      (bs\<lparr>write_buffer := write_password [] pw\<rparr>)"
| md5: "\<lbrakk>cm_state cm = CS_WaitingAuth; type_byte bs = AUTHENTICATION;
      authentication_parse X (read_buffer bs) = Ok (Md5Password salt);
      o_password (cm_options cm) = Some pw\<rbrakk> \<Longrightarrow>
    cm_trans X tls rnd cm bs Write (cm\<lparr>cm_state := CS_WaitingAuthResultRead\<rparr>)
      (bs\<lparr>write_buffer := write_password [] (md5_password X (o_user (cm_options cm)) pw salt)\<rparr>)"
| sasl_first: "\<lbrakk>cm_state cm = CS_WaitingAuth; type_byte bs = AUTHENTICATION;
      authentication_parse X (read_buffer bs) = Ok (Sasl mechs);
      ascii ''SCRAM-SHA-256'' \<in> set mechs; o_password (cm_options cm) = Some pw\<rbrakk> \<Longrightarrow>
    cm_trans X tls rnd cm bs Write
      (cm\<lparr>cm_scram := Some (scram_new X rnd pw), cm_state := CS_SaslInProgressRead\<rparr>)
      (bs\<lparr>write_buffer := write_sasl_initial_response [] (ascii ''SCRAM-SHA-256'')
        (client_first_message (scram_new X rnd pw))\<rparr>)"
| sasl_continue: "\<lbrakk>cm_state cm = CS_SaslInProgress; type_byte bs = AUTHENTICATION;
      authentication_parse X (read_buffer bs) = Ok (SaslContinue data);
      cm_scram cm = Some scram; x_utf8 X data;
      process_server_first X scram data = (Ok client_final, scram')\<rbrakk> \<Longrightarrow>
    cm_trans X tls rnd cm bs Write
      (cm\<lparr>cm_scram := Some scram', cm_state := CS_SaslInProgressRead\<rparr>)
      (bs\<lparr>write_buffer := write_sasl_response [] client_final\<rparr>)"
| sasl_final: "\<lbrakk>cm_state cm = CS_SaslInProgress; type_byte bs = AUTHENTICATION;
      authentication_parse X (read_buffer bs) = Ok (SaslFinal data);
      cm_scram cm = Some scram; x_utf8 X data; verify_server_final X scram data = Ok ()\<rbrakk> \<Longrightarrow>
    cm_trans X tls rnd cm bs ReadMessage (cm\<lparr>cm_state := CS_WaitingAuthResult\<rparr>) bs"
| key: "\<lbrakk>cm_state cm = CS_WaitingReady; type_byte bs = BACKEND_KEY_DATA;
      backend_key_data_parse (read_buffer bs) = Ok k\<rbrakk> \<Longrightarrow>
    cm_trans X tls rnd cm bs ReadMessage (cm\<lparr>cm_backend_key := Some k\<rparr>) bs"
| param: "\<lbrakk>cm_state cm = CS_WaitingReady; type_byte bs = PARAMETER_STATUS;
      parameter_status_parse X (read_buffer bs) = Ok p\<rbrakk> \<Longrightarrow>
    cm_trans X tls rnd cm bs ReadMessage (cm\<lparr>cm_server_params := cm_server_params cm @ [p]\<rparr>) bs"
| ready: "\<lbrakk>cm_state cm = CS_WaitingReady; type_byte bs = READY_FOR_QUERY;
      ready_for_query_parse (read_buffer bs) = Ok st\<rbrakk> \<Longrightarrow>
    cm_trans X tls rnd cm bs Finished
      (cm\<lparr>cm_tx := tx_or_default st, cm_state := CS_Finished\<rparr>) bs"

lemma cm_trans_step: "cm_trans X tls rnd cm bs a cm' bs' \<Longrightarrow> cm_step X tls rnd cm bs = (Ok a, cm', bs')"
proof (induction rule: cm_trans.induct)
  case (request_ssl cm bs)
  then show ?case by (cases "o_ssl_mode (cm_options cm)") (simp_all add: cm_defs)
qed (auto simp: cm_defs cm_password_def cm_late_def is_async_type_def Let_def)

lemma cm_handle_initial_trans:
  "cm_handle_initial tls cm bs = (Ok a, cm', bs') \<Longrightarrow> cm_state cm = CS_Initial \<Longrightarrow>
     cm_trans X tls rnd cm bs a cm' bs'"
  by (auto simp: cm_handle_initial_def Let_def split: ssl_mode.splits if_splits
      intro: cm_trans.intros)

lemma cm_handle_ssl_response_trans:
  "cm_handle_ssl_response cm bs = (Ok a, cm', bs') \<Longrightarrow> cm_state cm = CS_WaitingSslResponse \<Longrightarrow>
     cm_trans X tls rnd cm bs a cm' bs'"
  by (auto simp: cm_handle_ssl_response_def split: if_splits intro: cm_trans.intros)

lemma cm_handle_auth_message_trans:
  "cm_handle_auth_message X rnd cm bs = (Ok a, cm', bs') \<Longrightarrow> cm_state cm = CS_WaitingAuth \<Longrightarrow>
     cm_trans X tls rnd cm bs a cm' bs'"
  by (auto simp: cm_handle_auth_message_def cm_password_def res_simps Let_def
      split: if_splits rtry_splits authentication_message.splits
      intro: cm_trans.intros [simplified])

lemma cm_handle_sasl_message_trans:
  "cm_handle_sasl_message X cm bs = (Ok a, cm', bs') \<Longrightarrow> cm_state cm = CS_SaslInProgress \<Longrightarrow>
     cm_trans X tls rnd cm bs a cm' bs'"
  by (auto simp: cm_handle_sasl_message_def res_simps Let_def
      split: if_splits rtry_splits authentication_message.splits prod.splits
      intro: cm_trans.intros [simplified])

lemma cm_handle_auth_result_trans:
  "cm_handle_auth_result X cm bs = (Ok a, cm', bs') \<Longrightarrow> cm_state cm = CS_WaitingAuthResult \<Longrightarrow>
     cm_trans X tls rnd cm bs a cm' bs'"
  by (auto simp: cm_handle_auth_result_def
      split: if_splits rtry_splits authentication_message.splits
      intro: cm_trans.intros [simplified])

lemma cm_handle_ready_message_trans:
  "cm_handle_ready_message X cm bs = (Ok a, cm', bs') \<Longrightarrow> cm_state cm = CS_WaitingReady \<Longrightarrow>
     cm_trans X tls rnd cm bs a cm' bs'"
  by (auto simp: cm_handle_ready_message_def Let_def split: if_splits rtry_splits
      intro: cm_trans.intros [simplified])

lemmas cm_handlers_trans = cm_handle_initial_trans cm_handle_ssl_response_trans
  cm_handle_auth_message_trans cm_handle_sasl_message_trans cm_handle_auth_result_trans
  cm_handle_ready_message_trans

lemma cm_step_trans:
  assumes "cm_step X tls rnd cm bs = (Ok a, cm', bs')"
  shows "cm_trans X tls rnd cm bs a cm' bs'"
  using assms
  by (auto simp: cm_step_def cm_handle_tls_handshake_complete_def cm_late_def
      split: conn_state.splits if_splits rtry_splits
      intro: cm_handlers_trans cm_trans.intros simp del: AUTHENTICATION_def)

lemma cm_step_iff:
  "cm_step X tls rnd cm bs = (Ok a, cm', bs') \<longleftrightarrow> cm_trans X tls rnd cm bs a cm' bs'"
  using cm_step_trans cm_trans_step by blast

section \<open>Runs\<close>

text \<open>
  A run of the machine against any server: each step sees an arbitrary buffer set (the last
  message) and an arbitrary SSL response byte. The trace keeps the buffers before and after
  each step and the action. A step that fails ends the run, as it ends \<open>new_with_stream\<close>.
\<close>

type_synonym startup_trace = "(buffer_set \<times> action \<times> buffer_set) list"

inductive cm_run ::
    "ext \<Rightarrow> bool \<Rightarrow> bytes \<Rightarrow> opts \<Rightarrow> startup_trace \<Rightarrow> connection_machine \<Rightarrow> bool"
  for X tls rnd options
where
  start: "cm_run X tls rnd options [] (connection_new options)"
| step: "cm_run X tls rnd options tr cm \<Longrightarrow>
    cm_step X tls rnd (set_ssl_response r cm) bs = (Ok a, cm', bs') \<Longrightarrow>
    cm_run X tls rnd options (tr @ [(bs, a, bs')]) cm'"

text \<open>The message of an event, when it is an authentication message.\<close>

definition auth_event :: "ext \<Rightarrow> authentication_message \<Rightarrow> startup_trace \<Rightarrow> bool" where
  "auth_event X m tr \<longleftrightarrow> (\<exists>(bs, a, bs') \<in> set tr.
     type_byte bs = AUTHENTICATION \<and> authentication_parse X (read_buffer bs) = Ok m)"

lemma auth_event_append [simp]:
  "auth_event X m (tr @ tr') \<longleftrightarrow> auth_event X m tr \<or> auth_event X m tr'"
  by (auto simp: auth_event_def)

lemma auth_event_Nil [simp]: "\<not> auth_event X m []"
  by (simp add: auth_event_def)

lemma auth_event_single [simp]:
  "auth_event X m [(bs, a, bs')] \<longleftrightarrow>
     type_byte bs = AUTHENTICATION \<and> authentication_parse X (read_buffer bs) = Ok m"
  by (simp add: auth_event_def)

lemma handle_async_not:
  "handle_async_message X ty p = Ok a \<Longrightarrow> a \<noteq> TlsHandshake \<and> a \<noteq> Write \<and> a \<noteq> WriteAndReadByte
     \<and> a \<noteq> WriteAndReadMessage \<and> a \<noteq> Finished"
  using handle_async_message_Ok [of X ty p a] by auto

definition actions :: "startup_trace \<Rightarrow> action list" where
  "actions tr = map (\<lambda>(bs, a, bs'). a) tr"

lemma actions_simps [simp]:
  "actions [] = []" "actions (tr @ tr') = actions tr @ actions tr'"
  "actions ((bs, a, bs') # tr) = a # actions tr"
  by (simp_all add: actions_def)

lemma cm_run_options: "cm_run X tls rnd options tr cm \<Longrightarrow> cm_options cm = options"
  by (induction rule: cm_run.induct)
    (auto simp: connection_new_def set_ssl_response_def cm_step_iff elim!: cm_trans.cases)

text \<open>
  With \<open>SslMode::Require\<close>, before the handshake the machine is still waiting for the answer to
  its SSLRequest, and it has asked for nothing but that.
\<close>

lemma cm_run_require:
  assumes "cm_run X tls rnd options tr cm" and "o_ssl_mode options = SslRequire"
  shows "(TlsHandshake \<in> set (actions tr) \<or> cm_state cm \<in> {CS_Initial, CS_WaitingSslResponse}) \<and>
    (\<forall>tr1 bs a bs' tr2. tr = tr1 @ (bs, a, bs') # tr2 \<longrightarrow> TlsHandshake \<notin> set (actions tr1) \<longrightarrow>
       a = WriteAndReadByte \<and> write_buffer bs' = write_ssl_request [] \<or> a = TlsHandshake)"
  using assms
proof (induction rule: cm_run.induct)
  case start
  then show ?case by (simp add: connection_new_def)
next
  case (step tr cm r bs a cm' bs')
  have opt: "o_ssl_mode (cm_options (set_ssl_response r cm)) = SslRequire"
    using cm_run_options [OF step.hyps(1)] step.prems by (simp add: set_ssl_response_def)
  have IH: "TlsHandshake \<in> set (actions tr) \<or> cm_state cm \<in> {CS_Initial, CS_WaitingSslResponse}"
    using step by blast
  have new: "TlsHandshake \<in> set (actions tr) \<or>
      cm_state cm' = CS_WaitingSslResponse \<and> a = WriteAndReadByte \<and>
        write_buffer bs' = write_ssl_request [] \<or> a = TlsHandshake"
    using IH step.hyps(2) [unfolded cm_step_iff] opt
    by (elim cm_trans.cases) (auto simp: set_ssl_response_def cm_late_def)
  moreover have "\<forall>tr1 bs a bs' tr2. tr = tr1 @ (bs, a, bs') # tr2 \<longrightarrow>
      TlsHandshake \<notin> set (actions tr1) \<longrightarrow>
      a = WriteAndReadByte \<and> write_buffer bs' = write_ssl_request [] \<or> a = TlsHandshake"
    using step by blast
  ultimately show ?case
    by (fastforce simp: append_eq_append_conv2 append_eq_Cons_conv Cons_eq_append_conv)
qed

section \<open>Authentication\<close>

text \<open>
  What a run has established about SCRAM: the client is the one started with the password of
  the options and the nonce, and past the exchange the server has proved that it knows the
  salted password.
\<close>

definition sasl_over :: "conn_state set" where
  "sasl_over = {CS_WaitingAuthResult, CS_WaitingReady, CS_Finished}"

definition scram_inv :: "ext \<Rightarrow> bytes \<Rightarrow> opts \<Rightarrow> startup_trace \<Rightarrow> connection_machine \<Rightarrow> bool" where
  "scram_inv X rnd options tr cm \<longleftrightarrow>
     (case cm_scram cm of
        None \<Rightarrow> cm_state cm \<notin> {CS_SaslInProgressRead, CS_SaslInProgress}
      | Some s \<Rightarrow> \<exists>pw. o_password options = Some pw \<and> scram_fresh X pw (x_b64_encode X rnd) s \<and>
          (sc_salted_password s = None \<or>
           (\<exists>sf. auth_event X (SaslContinue sf) tr \<and>
             scram_answered X pw (x_b64_encode X rnd) sf s)) \<and>
          (cm_state cm \<in> {CS_SaslInProgressRead, CS_SaslInProgress} \<or>
           cm_state cm \<in> sasl_over \<and>
           (\<exists>sf fin. auth_event X (SaslContinue sf) tr \<and> auth_event X (SaslFinal fin) tr \<and>
             scram_server_proves X pw (x_b64_encode X rnd) sf fin)))"

lemma verify_needs_salted:
  "verify_server_final X s fin = Ok () \<Longrightarrow> sc_salted_password s \<noteq> None"
  by (auto simp: verify_server_final_def res_simps)

lemma scram_inv_step:
  assumes inv: "scram_inv X rnd options tr cm" and opt: "cm_options cm = options"
    and step: "cm_trans X tls rnd (set_ssl_response r cm) bs a cm' bs'"
  shows "scram_inv X rnd options (tr @ [(bs, a, bs')]) cm'"
  using step
proof cases
  case (sasl_continue data scram client_final scram')
  with inv opt obtain pw where "o_password options = Some pw"
      "scram_fresh X pw (x_b64_encode X rnd) scram"
    by (auto simp: scram_inv_def set_ssl_response_def)
  with sasl_continue process_server_first_answered [of X scram data client_final scram' pw]
  show ?thesis by (auto simp: scram_inv_def set_ssl_response_def)
next
  case (sasl_final data scram)
  with inv verify_needs_salted [of X scram data] obtain pw sf where
      "o_password options = Some pw" "scram_fresh X pw (x_b64_encode X rnd) scram"
      "auth_event X (SaslContinue sf) tr" "scram_answered X pw (x_b64_encode X rnd) sf scram"
    by (auto simp: scram_inv_def set_ssl_response_def)
  with sasl_final verify_server_final_iff [of X pw "x_b64_encode X rnd" sf scram data]
  show ?thesis by (auto simp: scram_inv_def sasl_over_def set_ssl_response_def)
next
  case (sasl_first mechs pw)
  with opt show ?thesis
    by (auto simp: scram_inv_def set_ssl_response_def) (simp add: scram_new_def)
qed (use inv opt in \<open>auto simp: scram_inv_def set_ssl_response_def sasl_over_def cm_late_def
    split: option.splits; blast\<close>)+

lemma cm_run_scram: "cm_run X tls rnd options tr cm \<Longrightarrow> scram_inv X rnd options tr cm"
proof (induction rule: cm_run.induct)
  case start
  then show ?case by (simp add: scram_inv_def connection_new_def)
next
  case (step tr cm r bs a cm' bs')
  show ?case
    by (rule scram_inv_step [OF step.IH cm_run_options [OF step.hyps(1)]
          step.hyps(2) [unfolded cm_step_iff]])
qed

lemma cm_run_auth_ok:
  "cm_run X tls rnd options tr cm \<Longrightarrow> cm_state cm \<in> {CS_WaitingReady, CS_Finished} \<Longrightarrow>
     auth_event X AuthOk tr"
proof (induction rule: cm_run.induct)
  case start
  then show ?case by (simp add: connection_new_def)
next
  case (step tr cm r bs a cm' bs')
  from step.hyps(2) [unfolded cm_step_iff] step.IH step.prems show ?case
    by (elim cm_trans.cases) (auto simp: set_ssl_response_def)
qed

end
