(* ===== verification/SyncConn.thy ===== *)
theory SyncConn
  imports Driver Startup
begin

text \<open>
  \<open>src/sync/conn.rs\<close>, \<open>src/sync/transaction.rs\<close> and the portals of \<open>src/sync/\<close>: the methods
  of the synchronous connection, as \<open>io\<close> functions. Calls that take the handler by mutable
  reference return it. User closures are function arguments.
\<close>

section \<open>Connecting\<close>

text \<open>
  \<open>upgrade\<close> is \<open>Stream::upgrade_to_tls\<close> (the TLS library), \<open>sync_tls\<close> the cfg flag
  \<open>feature = "sync-tls"\<close>. Each round of the loop in \<open>new_with_stream\<close>.
\<close>

type_synonym startup_loop_state = "connection_machine \<times> buffer_set \<times> stream"

definition startup_iter ::
    "ext \<Rightarrow> bool \<Rightarrow> bool \<Rightarrow> (stream \<Rightarrow> stream res) \<Rightarrow> bytes \<Rightarrow> startup_loop_state \<Rightarrow>
       (unit res \<times> startup_loop_state) + startup_loop_state" where
  "startup_iter X tls sync_tls upgrade rnd = (\<lambda>(cm, bs, s).
     let (r, cm1, bs1) = cm_step X tls rnd cm bs;
         write = (\<lambda>s. let (r, s1) = stream_write_all (write_buffer bs1) s in
                      rtry r s1 (\<lambda>_. stream_flush s1));
         read = (\<lambda>s. let (r, bs2, s1) = stream_read_message s bs1 in (r, (cm1, bs2, s1)));
         go_on = (\<lambda>(r, st). case r of
             Ok _ \<Rightarrow> Inr st | Err e \<Rightarrow> Inl (Err e, st) | Panic \<Rightarrow> Inl (Panic, st))
     in case r of
          Err e \<Rightarrow> Inl (Err e, (cm1, bs1, s))
        | Panic \<Rightarrow> Inl (Panic, (cm1, bs1, s))
        | Ok WriteAndReadByte \<Rightarrow>
            go_on (let (w, s1) = write s in rtry w (cm1, bs1, s1) (\<lambda>_.
              let (b, s2) = stream_read_u8 s1 in
              rtry b (cm1, bs1, s2) (\<lambda>byte. (Ok (), (set_ssl_response byte cm1, bs1, s2)))))
        | Ok ReadMessage \<Rightarrow> go_on (read s)
        | Ok Write \<Rightarrow> go_on (let (w, s1) = write s in (w, (cm1, bs1, s1)))
        | Ok WriteAndReadMessage \<Rightarrow>
            go_on (let (w, s1) = write s in rtry w (cm1, bs1, s1) (\<lambda>_. read s1))
        | Ok TlsHandshake \<Rightarrow>
            (if sync_tls
             then go_on (rtry (upgrade s) (cm1, bs1, s) (\<lambda>s1. (Ok (), (cm1, bs1, s1))))
             else Inl (Err (Unsupported ''TLS requested but sync-tls feature not enabled''),
                       (cm1, bs1, s)))
        | Ok (HandleAsyncMessageAndReadMessage _) \<Rightarrow> go_on (read s)
        | Ok (ActionError _) \<Rightarrow>
            Inl (Err (LibraryBug ''unexpected server error during connection startup''),
                 (cm1, bs1, s))
        | Ok Finished \<Rightarrow> Inl (Ok (), (cm1, bs1, s)))"

partial_function (option) startup_loop ::
    "ext \<Rightarrow> bool \<Rightarrow> bool \<Rightarrow> (stream \<Rightarrow> stream res) \<Rightarrow> bytes \<Rightarrow> startup_loop_state \<Rightarrow>
       (unit res \<times> startup_loop_state) option" where
  "startup_loop X tls sync_tls upgrade rnd st =
     (case startup_iter X tls sync_tls upgrade rnd st of
        Inl r \<Rightarrow> Some r | Inr st' \<Rightarrow> startup_loop X tls sync_tls upgrade rnd st')"

definition new_with_stream ::
    "ext \<Rightarrow> bool \<Rightarrow> bool \<Rightarrow> (stream \<Rightarrow> stream res) \<Rightarrow> bytes \<Rightarrow> stream \<Rightarrow> opts \<Rightarrow> conn res option" where
  "new_with_stream X tls sync_tls upgrade rnd s options =
     map_option (\<lambda>(r, cm, bs, s').
       rmap (\<lambda>_. \<lparr>c_stream = s', c_bufs = bs, c_key = cm_backend_key cm,
                  c_params = cm_server_params cm, c_tx = cm_tx cm, c_broken = False,
                  c_counter = 0, c_async = None\<rparr>) r)
       (startup_loop X tls sync_tls upgrade rnd (connection_new options, buffer_set_new, s))"

section \<open>Simple queries\<close>

definition conn_query ::
    "ext \<Rightarrow> 'h handler \<Rightarrow> 'h \<Rightarrow> str \<Rightarrow> conn \<Rightarrow> (unit res \<times> 'h \<times> conn) option" where
  "conn_query X H h sql c =
     map_option (\<lambda>(r, sm, c'). (r, sq_handler sm, mark_broken r c'))
       (drive (sq_step X H) sq_tx (sq_new h sql) c)"

definition query_drop :: "ext \<Rightarrow> str \<Rightarrow> nat option io" where
  "query_drop X sql c =
     map_option (\<lambda>(r, h, c'). (rmap (\<lambda>_. h) r, c')) (conn_query X drop_handler None sql c)"

definition query_collect ::
    "ext \<Rightarrow> (row_description \<Rightarrow> data_row \<Rightarrow> 'a res) \<Rightarrow> str \<Rightarrow> 'a list io" where
  "query_collect X from_row sql c =
     map_option (\<lambda>(r, h, c'). (rmap (\<lambda>_. h) r, c'))
       (conn_query X (collect_handler from_row) [] sql c)"

definition query_first ::
    "ext \<Rightarrow> (row_description \<Rightarrow> data_row \<Rightarrow> 'a res) \<Rightarrow> str \<Rightarrow> 'a option io" where
  "query_first X from_row sql c =
     map_option (\<lambda>(r, h, c'). (rmap (\<lambda>_. h) r, c'))
       (conn_query X (first_row_handler from_row) None sql c)"

definition query_foreach ::
    "ext \<Rightarrow> (row_description \<Rightarrow> data_row \<Rightarrow> 'a res) \<Rightarrow> ('s \<Rightarrow> 'a \<Rightarrow> unit res \<times> 's) \<Rightarrow> 's \<Rightarrow> str \<Rightarrow>
       conn \<Rightarrow> (unit res \<times> 's \<times> conn) option" where
  "query_foreach X from_row f st sql c = conn_query X (for_each_handler from_row f) st sql c"

definition conn_ping :: "ext \<Rightarrow> unit io" where
  "conn_ping X c = map_option (\<lambda>(r, c'). (rmap (\<lambda>_. ()) r, c')) (query_drop X [] c)"

definition conn_close :: "unit io" where
  "conn_close = io_pure (\<lambda>c. conn_write_flush
     (c\<lparr>c_bufs := (c_bufs c)\<lparr>write_buffer := write_terminate []\<rparr>\<rparr>))"

section \<open>Prepared statements\<close>

definition prepare_inner :: "ext \<Rightarrow> u64 \<Rightarrow> str \<Rightarrow> oid list \<Rightarrow> prepared_statement io" where
  "prepare_inner X idx query param_oids c =
     (let (sm, bs) = eq_prepare None (c_bufs c) idx query param_oids in
      map_option (\<lambda>(r, sm', c').
          (rbind r (\<lambda>_. ok_or (eq_prepared sm') (LibraryBug ''No prepared statement'')), c'))
        (drive (eq_step X drop_handler) eq_tx sm (c\<lparr>c_bufs := bs\<rparr>)))"

definition prepare_typed :: "ext \<Rightarrow> str \<Rightarrow> oid list \<Rightarrow> prepared_statement io" where
  "prepare_typed X query param_oids c =
     (let c1 = c\<lparr>c_counter := c_counter c + 1\<rparr>
      in io_mark (prepare_inner X (c_counter c1) query param_oids) c1)"

definition prepare :: "ext \<Rightarrow> str \<Rightarrow> prepared_statement io" where
  "prepare X query = prepare_typed X query []"

text \<open>The loop of \<open>prepare_batch_inner\<close>.\<close>

definition prepare_batch_iter ::
    "ext \<Rightarrow> batch_prepare \<Rightarrow> conn \<Rightarrow> (unit res \<times> batch_prepare \<times> conn) + (batch_prepare \<times> conn)"
where
  "prepare_batch_iter X m c =
     (let (r, m1, bs) = bp_step X m (c_bufs c); c1 = c\<lparr>c_bufs := bs\<rparr>;
          go_on = (\<lambda>(r, c). case r of
              Ok _ \<Rightarrow> Inr (m1, c) | Err e \<Rightarrow> Inl (Err e, m1, c) | Panic \<Rightarrow> Inl (Panic, m1, c))
      in case r of
           Err e \<Rightarrow> Inl (Err e, m1, c1)
         | Panic \<Rightarrow> Inl (Panic, m1, c1)
         | Ok ReadMessage \<Rightarrow> go_on (conn_read_message c1)
         | Ok WriteAndReadMessage \<Rightarrow>
             go_on (let (w, c2) = conn_write_flush c1 in rtry w c2 (\<lambda>_. conn_read_message c2))
         | Ok Finished \<Rightarrow> Inl (Ok (), m1, c1\<lparr>c_tx := bp_tx m1\<rparr>)
         | Ok _ \<Rightarrow> Inl (Err (LibraryBug ''Unexpected action in batch prepare''), m1, c1))"

partial_function (option) prepare_batch_loop ::
    "ext \<Rightarrow> batch_prepare \<Rightarrow> conn \<Rightarrow> (unit res \<times> batch_prepare \<times> conn) option" where
  "prepare_batch_loop X m c = (case prepare_batch_iter X m c of
     Inl r \<Rightarrow> Some r | Inr (m', c') \<Rightarrow> prepare_batch_loop X m' c')"

definition prepare_batch_inner :: "ext \<Rightarrow> str list \<Rightarrow> u64 \<Rightarrow> prepared_statement list io" where
  "prepare_batch_inner X queries start_idx c =
     (let (sm, bs) = bp_new (c_bufs c) queries start_idx in
      map_option (\<lambda>(r, sm', c'). (rmap (\<lambda>_. bp_statements sm') r, c'))
        (prepare_batch_loop X sm (c\<lparr>c_bufs := bs\<rparr>)))"

definition prepare_batch :: "ext \<Rightarrow> str list \<Rightarrow> prepared_statement list io" where
  "prepare_batch X queries c =
     (if queries = [] then Some (Ok [], c)
      else let start_idx = c_counter c + 1
           in io_mark (prepare_batch_inner X queries start_idx)
                (c\<lparr>c_counter := c_counter c + word_of_nat (length queries)\<rparr>))"

definition close_statement :: "ext \<Rightarrow> prepared_statement \<Rightarrow> unit io" where
  "close_statement X stmt c =
     (let (sm, bs) = eq_close_statement None (c_bufs c) (wire_name stmt) in
      map_option (\<lambda>(r, sm', c'). (r, mark_broken r c'))
        (drive (eq_step X drop_handler) eq_tx sm (c\<lparr>c_bufs := bs\<rparr>)))"

section \<open>Executing statements\<close>

datatype statement_ref = Sql str | Prepared prepared_statement

definition exec_start ::
    "'h \<Rightarrow> buffer_set \<Rightarrow> statement_ref \<Rightarrow> to_params \<Rightarrow> 'h extended_query res \<times> buffer_set" where
  "exec_start h bs statement params = (case statement of
     Sql sql \<Rightarrow> eq_execute_sql h bs sql params
   | Prepared stmt \<Rightarrow> eq_execute h bs (wire_name stmt) (ps_param_oids stmt) params)"

definition conn_exec ::
    "ext \<Rightarrow> 'h handler \<Rightarrow> 'h \<Rightarrow> statement_ref \<Rightarrow> to_params \<Rightarrow> conn \<Rightarrow>
       (unit res \<times> 'h \<times> conn) option" where
  "conn_exec X H h statement params c =
     (let (r, bs) = exec_start h (c_bufs c) statement params; c1 = c\<lparr>c_bufs := bs\<rparr> in
      case r of
        Ok sm \<Rightarrow> map_option (\<lambda>(r, sm', c'). (r, eq_handler sm', mark_broken r c'))
                   (drive (eq_step X H) eq_tx sm c1)
      | Err e \<Rightarrow> Some (Err e, h, mark_broken (Err e :: unit res) c1)
      | Panic \<Rightarrow> Some (Panic, h, c1))"

definition exec_drop :: "ext \<Rightarrow> statement_ref \<Rightarrow> to_params \<Rightarrow> nat option io" where
  "exec_drop X statement params c =
     map_option (\<lambda>(r, h, c'). (rmap (\<lambda>_. h) r, c'))
       (conn_exec X drop_handler None statement params c)"

definition exec_collect ::
    "ext \<Rightarrow> (row_description \<Rightarrow> data_row \<Rightarrow> 'a res) \<Rightarrow> statement_ref \<Rightarrow> to_params \<Rightarrow> 'a list io" where
  "exec_collect X from_row statement params c =
     map_option (\<lambda>(r, h, c'). (rmap (\<lambda>_. h) r, c'))
       (conn_exec X (collect_handler from_row) [] statement params c)"

definition exec_first ::
    "ext \<Rightarrow> (row_description \<Rightarrow> data_row \<Rightarrow> 'a res) \<Rightarrow> statement_ref \<Rightarrow> to_params \<Rightarrow> 'a option io" where
  "exec_first X from_row statement params c =
     map_option (\<lambda>(r, h, c'). (rmap (\<lambda>_. h) r, c'))
       (conn_exec X (first_row_handler from_row) None statement params c)"

definition exec_foreach ::
    "ext \<Rightarrow> (row_description \<Rightarrow> data_row \<Rightarrow> 'a res) \<Rightarrow> ('s \<Rightarrow> 'a \<Rightarrow> unit res \<times> 's) \<Rightarrow> 's \<Rightarrow>
       statement_ref \<Rightarrow> to_params \<Rightarrow> conn \<Rightarrow> (unit res \<times> 's \<times> conn) option" where
  "exec_foreach X from_row f st statement params c =
     conn_exec X (for_each_handler from_row f) st statement params c"

section \<open>Queries return and stop at the boundary\<close>

lemma conn_query_total: "\<exists>r. conn_query X H h sql c = Some r"
  using sq.drive_total [of X H "sq_new h sql" c] by (auto simp: conn_query_def)

lemma sq_new_initial [simp]: "sq_state (sq_new h sql) = SQ_Initial"
  by (simp add: sq_new_def)

lemma sq_new_step: "sq_step X H (sq_new h sql) bs =
    (Ok WriteAndReadMessage, (sq_new h sql)\<lparr>sq_state := SQ_WaitingResponse\<rparr>,
     bs\<lparr>write_buffer := F_QUERY # framed (sql @ [0])\<rparr>)"
  by (simp add: sq_step_def sq_new_def frontend_framed)

lemma conn_query_ok:
  assumes "conn_query X H h sql c = Some (Ok u, h', c')"
  shows "at_boundary (inp (c_stream c)) (inp (c_stream c')) (c_tx c') \<and>
    out (c_stream c') = out (c_stream c) @ F_QUERY # framed (sql @ [0]) \<and>
    c_broken c' = c_broken c"
  using assms sq.drive_boundary [OF sq_new_initial _ _ sq_new_step]
  by (fastforce simp: conn_query_def mark_broken_def)

section \<open>The handler of asynchronous messages\<close>

text \<open>A handler is what it has been given, so a new one has been given nothing.\<close>

definition set_async_message_handler :: "conn \<Rightarrow> conn" where
  "set_async_message_handler c = c\<lparr>c_async := Some []\<rparr>"

definition clear_async_message_handler :: "conn \<Rightarrow> conn" where
  "clear_async_message_handler c = c\<lparr>c_async := None\<rparr>"

end
