(* ===== verification/StartupFacts.thy ===== *)
theory StartupFacts
  imports Startup Samples
begin

text \<open>
  The guarantees of connection startup against an arbitrary server: encryption before anything
  is sent in \<open>Require\<close> mode, authentication of the server by SCRAM, and that the client's proof
  is the one RFC 5802 asks for.
\<close>

section \<open>What a startup guarantees\<close>

text \<open>The run on a list of inputs: SSL response bytes and buffers.\<close>

fun cm_exec ::
    "ext \<Rightarrow> bool \<Rightarrow> bytes \<Rightarrow> startup_trace \<Rightarrow> connection_machine \<Rightarrow> (byte \<times> buffer_set) list \<Rightarrow>
       (startup_trace \<times> connection_machine) option"
where
  "cm_exec X tls rnd tr cm [] = Some (tr, cm)"
| "cm_exec X tls rnd tr cm ((r, bs) # ins) =
     (case cm_step X tls rnd (set_ssl_response r cm) bs of
        (Ok a, cm', bs') \<Rightarrow> cm_exec X tls rnd (tr @ [(bs, a, bs')]) cm' ins
      | _ \<Rightarrow> None)"

lemma cm_exec_run:
  "cm_run X tls rnd options tr cm \<Longrightarrow> cm_exec X tls rnd tr cm ins = Some (tr', cm') \<Longrightarrow>
     cm_run X tls rnd options tr' cm'"
proof (induction ins arbitrary: tr cm)
  case (Cons i ins)
  then show ?case
    by (cases i) (auto split: res.splits prod.splits intro: cm_run.step)
qed simp

definition auth0 :: "bytes \<Rightarrow> byte \<times> buffer_set" where
  "auth0 payload = (83, buffer_set_new\<lparr>type_byte := AUTHENTICATION, read_buffer := payload\<rparr>)"

definition server_first0 :: str where
  "server_first0 = [114, 61, 120, 121, 44, 115, 61, 113, 44, 105, 61, 49]"

lemma server_first0_attrs:
  "scram_attrs (split_on 44 server_first0) (None, None, None) = (Some [120, 121], Some [113], Some 1)"
  by (simp add: server_first0_def ascii_def parse_unsigned_def is_digit_def dec_value_def)

definition server_final0 :: str where
  "server_final0 = ascii ''v='' @ pad32 (scram_auth_message ext0 [120] server_first0 [120, 121] @
     pad32 (ascii ''Server Key'' @ pad32 [112, 113]))"

definition startup0 :: "(byte \<times> buffer_set) list" where
  "startup0 = [(0, buffer_set_new), (83, buffer_set_new), (83, buffer_set_new), (83, buffer_set_new),
     auth0 ([0, 0, 0, 10] @ ascii ''SCRAM-SHA-256'' @ [0, 0]), (83, buffer_set_new),
     auth0 ([0, 0, 0, 11] @ server_first0), (83, buffer_set_new),
     auth0 ([0, 0, 0, 12] @ server_final0)]"

lemma server_final0_proves:
  "scram_server_proves ext0 [112] [120] server_first0 server_final0"
  unfolding scram_server_proves_def server_first0_attrs
  by (simp add: server_final0_def starts_with_def)

lemma server_first0_ok:
  "\<exists>msg s'. process_server_first ext0 (scram_new ext0 [120] [112]) server_first0 = (Ok msg, s') \<and>
     verify_server_final ext0 s' server_final0 = Ok ()"
proof -
  have "\<exists>msg s'. process_server_first ext0 (scram_new ext0 [120] [112]) server_first0 = (Ok msg, s')"
    by (simp add: process_server_first_def server_first0_attrs Let_def scram_new_def hmac_def
        starts_with_def)
  then obtain msg s' where *: "process_server_first ext0 (scram_new ext0 [120] [112]) server_first0 = (Ok msg, s')"
    by blast
  moreover have "verify_server_final ext0 s' server_final0 = Ok ()"
    using process_server_first_answered [OF *, of "[112]" "[120]"] scram_new_fresh [of ext0 "[112]" "[120]"]
      server_final0_proves verify_server_final_iff [of ext0 "[112]" "[120]" server_first0 s' server_final0]
    by simp
  ultimately show ?thesis by blast
qed

lemma read_i32_auth:
  "read_i32 (0 # 0 # 0 # 0 # b) = Ok (0, b)" "read_i32 (0 # 0 # 0 # 10 # b) = Ok (10, b)"
  "read_i32 (0 # 0 # 0 # 11 # b) = Ok (11, b)" "read_i32 (0 # 0 # 0 # 12 # b) = Ok (12, b)"
  by (simp_all add: read_i32_def from_be_bytes_def be_nat_def)

lemma auth0_parse:
  "authentication_parse ext0 ([0, 0, 0, 10] @ ascii ''SCRAM-SHA-256'' @ [0, 0]) = Ok (Sasl [ascii ''SCRAM-SHA-256''])"
  "authentication_parse ext0 ([0, 0, 0, 11] @ b) = Ok (SaslContinue b)"
  "authentication_parse ext0 ([0, 0, 0, 12] @ b) = Ok (SaslFinal b)"
  "authentication_parse ext0 [0, 0, 0, 0] = Ok AuthOk"
     apply (simp_all add: authentication_parse_def read_i32_auth)
  apply (subst parse_mechanisms.simps)
  apply (simp add: parse_mechanisms.simps [of _ "[0]"] ascii_def read_cstr_def read_cstring_def)
  done

lemma opts0_mode [simp]: "o_ssl_mode opts0 = SslRequire" "o_password opts0 = Some [112]"
  by (simp_all add: opts0_def)

lemmas startup_eval = cm_step_def cm_handle_initial_def cm_handle_ssl_response_def
  set_ssl_response_def connection_new_def cm_handle_tls_handshake_complete_def
  cm_handle_auth_message_def cm_handle_sasl_message_def cm_password_def res_simps
  is_async_type_def Let_def

lemma startup0_run:
  "\<exists>tr cm. cm_exec ext0 True [120] [] (connection_new opts0) startup0 = Some (tr, cm) \<and>
     cm_scram cm \<noteq> None \<and> cm_state cm = CS_WaitingAuthResult \<and> length tr = 9 \<and>
     map (\<lambda>(bs, a, bs'). a) (take 3 tr) = [WriteAndReadByte, TlsHandshake, Write]"
proof -
  obtain msg s' where *: "process_server_first ext0 (scram_new ext0 [120] [112]) server_first0 = (Ok msg, s')"
     "verify_server_final ext0 s' server_final0 = Ok ()"
    using server_first0_ok by blast
  show ?thesis
    unfolding startup0_def auth0_def
    by (simp add: startup_eval auth0_parse [simplified] *)
qed

text \<open>
  C10: With \<open>SslMode::Require\<close>, whatever the server sends, the machine asks the driver to write
  nothing but the SSLRequest before it has asked for the TLS handshake: no startup message, no
  user name and no password leaves in clear.
\<close>

theorem startup_require_tls:
  assumes "cm_run X tls rnd options tr cm" and "o_ssl_mode options = SslRequire"
    and "tr = tr1 @ (bs, a, bs') # tr2" and "a \<in> {Write, WriteAndReadByte, WriteAndReadMessage}"
  shows "TlsHandshake \<in> set (actions tr1) \<or> write_buffer bs' = write_ssl_request []"
  using cm_run_require [OF assms(1,2)] assms(3,4) by blast

theorem startup_require_tls_witness:
  "\<exists>tr cm x y z rest. cm_run ext0 True [120] opts0 tr cm \<and> tr = x # y # z # rest \<and>
     fst (snd z) = Write \<and> TlsHandshake \<in> set (actions [x, y])"
proof -
  obtain tr cm where run: "cm_exec ext0 True [120] [] (connection_new opts0) startup0 = Some (tr, cm)"
      "length tr = 9" "map (\<lambda>(bs, a, bs'). a) (take 3 tr) = [WriteAndReadByte, TlsHandshake, Write]"
    using startup0_run by (elim exE conjE) (rule that)
  then obtain x y z rest where tr: "tr = x # y # z # rest"
    by (auto simp: numeral_eq_Suc length_Suc_conv)
  have cm: "cm_run ext0 True [120] opts0 tr cm" by (rule cm_exec_run [OF cm_run.start run(1)])
  obtain bs a bs' where z: "z = (bs, a, bs')" by (cases z)
  have "a = Write" using run(3) tr z by (simp add: numeral_eq_Suc)
  with startup_require_tls [OF cm, of "[x, y]" bs a bs' rest] tr z run(3) cm show ?thesis
    by (cases x; cases y) (auto simp: numeral_eq_Suc opts0_def)
qed

text \<open>
  C4: Once the client has started SCRAM, the startup gets past the exchange (to wait for
  AuthenticationOk, for ReadyForQuery, or finished) only if the server has proved, for the
  client's own nonce, that it knows the salted password: its final message carries the
  signature of exactly this exchange's messages under the server key.
\<close>

theorem startup_scram_mutual:
  assumes "cm_run X tls rnd options tr cm" and "cm_scram cm \<noteq> None"
    and "cm_state cm \<in> {CS_WaitingAuthResultRead, CS_WaitingAuthResult, CS_WaitingReady, CS_Finished}"
  shows "\<exists>pw sf fin. o_password options = Some pw \<and> auth_event X (SaslContinue sf) tr \<and>
    auth_event X (SaslFinal fin) tr \<and> scram_server_proves X pw (x_b64_encode X rnd) sf fin"
  using cm_run_scram [OF assms(1)] assms(2,3) by (auto simp: scram_inv_def; blast)

theorem startup_scram_mutual_witness:
  "\<exists>tr sf fin. auth_event ext0 (SaslContinue sf) tr \<and> auth_event ext0 (SaslFinal fin) tr \<and>
     scram_server_proves ext0 [112] [120] sf fin"
proof -
  obtain tr cm where run: "cm_exec ext0 True [120] [] (connection_new opts0) startup0 = Some (tr, cm)"
      "cm_scram cm \<noteq> None" "cm_state cm = CS_WaitingAuthResult"
    using startup0_run by blast
  from startup_scram_mutual [OF cm_exec_run [OF cm_run.start run(1)] run(2)] run(3)
  show ?thesis by (auto simp: opts0_def)
qed

text \<open>
  A startup waits for ReadyForQuery, or finishes, only after the server has sent
  AuthenticationOk.
\<close>

lemma startup_needs_auth_ok:
  assumes "cm_run X tls rnd options tr cm" and "cm_state cm = CS_WaitingReady \<or> cm_state cm = CS_Finished"
  shows "auth_event X AuthOk tr"
  using cm_run_auth_ok [OF assms(1)] assms(2) by simp

definition startup1 :: "(byte \<times> buffer_set) list" where
  "startup1 = [(0, buffer_set_new), (83, buffer_set_new), (83, buffer_set_new), (83, buffer_set_new),
     auth0 [0, 0, 0, 0]]"

lemma startup_needs_auth_ok_witness:
  "\<exists>tr cm. cm_exec ext0 True [120] [] (connection_new opts0) startup1 = Some (tr, cm) \<and>
     cm_state cm = CS_WaitingReady \<and> auth_event ext0 AuthOk tr"
proof -
  have "\<exists>tr cm. cm_exec ext0 True [120] [] (connection_new opts0) startup1 = Some (tr, cm) \<and>
     cm_state cm = CS_WaitingReady"
    unfolding startup1_def auth0_def
    by (simp add: startup_eval opts0_mode auth0_parse)
  then obtain tr cm where run: "cm_exec ext0 True [120] [] (connection_new opts0) startup1 = Some (tr, cm)"
      "cm_state cm = CS_WaitingReady" by blast
  with startup_needs_auth_ok [OF cm_exec_run [OF cm_run.start run(1)]] show ?thesis by blast
qed

text \<open>
  The proof the client sends convinces an RFC 5802 server: its client-final-message names
  the combined nonce and the channel binding of the first message, and unmasking the proof
  with the signature under the stored key gives the client key, whose hash is the stored key.
\<close>

theorem process_server_first_proof:
  assumes "process_server_first X s sf = (Ok msg, s')"
    and len: "\<And>k m h. x_hmac X k m = Some h \<Longrightarrow> length h = 32"
    and fresh: "scram_fresh X pw nonce s"
  shows "\<exists>n s64 i salt client_key proof.
    scram_attrs (split_on 44 sf) (None, None, None) = (Some n, Some s64, Some i) \<and>
    x_b64_decode X s64 = Some salt \<and>
    x_hmac X (x_pbkdf2 X pw salt (word_of_nat i)) (ascii ''Client Key'') = Some client_key \<and>
    msg = ascii ''c='' @ x_b64_encode X (ascii ''n,,'') @ ascii '',r='' @ n @ ascii '',p='' @
      x_b64_encode X proof \<and>
    scram_server_accepts X (x_sha256 X client_key) (scram_auth_message X nonce sf n) proof"
  using assms
  by (auto simp: process_server_first_def scram_fresh_def scram_auth_message_def
      scram_server_accepts_def client_first_message_bare_def Let_def res_simps
      split: rtry_splits prod.splits if_splits option.splits)
    (metis xor_bytes_cancel len)

theorem process_server_first_proof_witness:
  "\<exists>msg s' proof. process_server_first ext0 (scram_new ext0 [120] [112]) server_first0 = (Ok msg, s') \<and>
     scram_server_accepts ext0 (pad32 (pad32 (ascii ''Client Key'' @ pad32 [112, 113])))
       (scram_auth_message ext0 [120] server_first0 [120, 121]) proof"
proof -
  obtain msg s' where *: "process_server_first ext0 (scram_new ext0 [120] [112]) server_first0 = (Ok msg, s')"
    using server_first0_ok by blast
  with process_server_first_proof [OF *, of "[112]" "[120]"] scram_new_fresh [of ext0 "[112]" "[120]"]
  show ?thesis by (auto simp: server_first0_attrs)
qed

text \<open>
  After the client has answered the server's first message, it accepts a server-final
  message exactly if that message carries the server signature of this exchange.
\<close>

theorem verify_server_final_exact:
  assumes "process_server_first X s sf = (Ok msg, s')" and "scram_fresh X pw nonce s"
  shows "verify_server_final X s' fin = Ok () \<longleftrightarrow> scram_server_proves X pw nonce sf fin"
  using process_server_first_answered [OF assms] verify_server_final_iff by blast

theorem verify_server_final_exact_witness:
  "\<exists>s'. verify_server_final ext0 s' server_final0 = Ok ()"
proof -
  obtain msg s' where *: "process_server_first ext0 (scram_new ext0 [120] [112]) server_first0 = (Ok msg, s')"
    using server_first0_ok by blast
  from verify_server_final_exact [OF *, of "[112]" "[120]" server_final0] scram_new_fresh [of ext0 "[112]" "[120]"]
    server_final0_proves show ?thesis by auto
qed


end
