(* ===== verification/StartupExchange.thy ===== *)
theory StartupExchange
  imports SyncConn StartupFacts
begin

text \<open>
  Connecting: the loop of \<open>Conn::new_with_stream\<close> over the startup machine. It returns whatever
  the server sends, and against a server that accepts the connection it yields the session's
  parameters, key and status.
\<close>

section \<open>Connecting returns\<close>

text \<open>
  The handshake states come once each; afterwards a round either reads a message, or writes in a
  state that waits for one and leaves for a state that reads.
\<close>

fun st_phase :: "conn_state \<Rightarrow> nat" where
  "st_phase CS_Initial = 3"
| "st_phase CS_WaitingSslResponse = 2"
| "st_phase CS_WaitingTlsHandshake = 1"
| "st_phase _ = 0"

definition st_wait :: "conn_state \<Rightarrow> nat" where
  "st_wait s = (if cm_late s then 1 else 0)"

definition startup_order :: "(startup_loop_state \<times> startup_loop_state) set" where
  "startup_order = measures [\<lambda>(cm, bs, s). st_phase (cm_state cm),
     \<lambda>(cm, bs, s). 2 * length (inp s) + st_wait (cm_state cm)]"

lemma startup_iter_Inr:
  assumes step: "cm_step X tls rnd cm bs = (Ok a, cm1, bs1)"
    and iter: "startup_iter X tls sync_tls upgrade rnd (cm, bs, s) = Inr (cm', bs', s')"
  shows "case a of
      Write \<Rightarrow> cm' = cm1 \<and> inp s' = inp s
    | WriteAndReadByte \<Rightarrow> \<exists>b. cm' = set_ssl_response b cm1
    | TlsHandshake \<Rightarrow> cm' = cm1
    | _ \<Rightarrow> cm' = cm1 \<and> length (inp s') < length (inp s)"
  using iter step
  by (cases a)
    (auto simp: startup_iter_def Let_def split: res.splits prod.splits rtry_splits if_splits
      dest!: stream_read_shorter stream_write_inp)

lemma startup_iter_decreases:
  assumes "startup_iter X tls sync_tls upgrade rnd st = Inr st'"
  shows "(st', st) \<in> startup_order"
proof -
  obtain cm bs s cm' bs' s' where st: "st = (cm, bs, s)" "st' = (cm', bs', s')"
    by (cases st; cases st')
  obtain r cm1 bs1 where step: "cm_step X tls rnd cm bs = (r, cm1, bs1)" by (metis prod_cases3)
  with assms st obtain a where r: "r = Ok a" by (cases r) (auto simp: startup_iter_def Let_def)
  note i = startup_iter_Inr [OF step [unfolded r] assms [unfolded st]]
  from step [unfolded r cm_step_iff] show ?thesis
    using i st
    by cases (auto simp: startup_order_def st_wait_def cm_late_def set_ssl_response_def
        dest!: handle_async_message_Ok)
qed

lemma startup_loop_total: "\<exists>r. startup_loop X tls sync_tls upgrade rnd st = Some r"
proof (induction st rule: wf_induct_rule [OF wf_measures [of "[\<lambda>(cm, bs, s). st_phase (cm_state cm),
     \<lambda>(cm, bs, s). 2 * length (inp s) + st_wait (cm_state cm)]"]])
  case (1 st)
  then show ?case
    using startup_iter_decreases [of X tls sync_tls upgrade rnd st]
    by (subst startup_loop.simps) (auto simp: startup_order_def split: sum.splits)
qed

text \<open>
  Connecting returns, whatever the server sends and whatever the TLS handshake makes of the
  stream: the handshake states are passed once, and afterwards every two rounds consume a
  message.
\<close>

theorem new_with_stream_returns:
  "\<exists>r. new_with_stream X tls sync_tls upgrade rnd s options = Some r"
  using startup_loop_total [of X tls sync_tls upgrade rnd "(connection_new options, buffer_set_new, s)"]
  by (auto simp: new_with_stream_def)

section \<open>Connecting to a server that accepts\<close>

text \<open>The rounds of the loop, by the action of the step.\<close>

lemma loop_write:
  "cm_step X tls rnd cm bs = (Ok Write, cm1, bs1) \<Longrightarrow> writable s \<Longrightarrow>
     startup_loop X tls sync_tls upgrade rnd (cm, bs, s) =
     startup_loop X tls sync_tls upgrade rnd (cm1, bs1, s\<lparr>out := out s @ write_buffer bs1\<rparr>)"
  by (subst startup_loop.simps) (simp add: startup_iter_def stream_write_all_def stream_flush_def)

lemma loop_read:
  "cm_step X tls rnd cm bs = (Ok a, cm1, bs1) \<Longrightarrow>
     a = ReadMessage \<or> (\<exists>am. a = HandleAsyncMessageAndReadMessage am) \<Longrightarrow>
     inp s = wire m @ rest \<Longrightarrow> small m \<Longrightarrow>
     startup_loop X tls sync_tls upgrade rnd (cm, bs, s) =
     startup_loop X tls sync_tls upgrade rnd
       (cm1, bs1\<lparr>type_byte := fst m, read_buffer := snd m\<rparr>, s\<lparr>inp := rest\<rparr>)"
  by (subst startup_loop.simps) (auto simp: startup_iter_def)

lemma loop_finish:
  "cm_step X tls rnd cm bs = (Ok Finished, cm1, bs1) \<Longrightarrow>
     startup_loop X tls sync_tls upgrade rnd (cm, bs, s) = Some (Ok (), cm1, bs1, s)"
  by (subst startup_loop.simps) (simp add: startup_iter_def)

text \<open>What the messages between AuthenticationOk and ReadyForQuery say of the session.\<close>

fun session :: "ext \<Rightarrow> (byte \<times> bytes) list \<Rightarrow> backend_key_data option \<times> (str \<times> str) list \<Rightarrow>
    (backend_key_data option \<times> (str \<times> str) list) option" where
  "session X [] kp = Some kp"
| "session X (m # ms) kp =
     (if fst m = BACKEND_KEY_DATA then
        (case backend_key_data_parse (snd m) of Ok k \<Rightarrow> session X ms (Some k, snd kp) | _ \<Rightarrow> None)
      else if fst m = PARAMETER_STATUS then
        (case parameter_status_parse X (snd m) of Ok p \<Rightarrow> session X ms (fst kp, snd kp @ [p]) | _ \<Rightarrow> None)
      else if is_async_type (fst m) then
        (case handle_async_message X (fst m) (snd m) of Ok _ \<Rightarrow> session X ms kp | _ \<Rightarrow> None)
      else None)"

lemma loop_session:
  assumes "cm_state cm = CS_WaitingReady" and "session X msgs (cm_backend_key cm, cm_server_params cm) = Some (k, ps)"
    and "m # ms = msgs @ [(READY_FOR_QUERY, [st])]" and "\<forall>m \<in> set msgs. small m"
    and "inp s = concat (map wire ms) @ rest"
  shows "\<exists>bs'. startup_loop X tls sync_tls upgrade rnd (cm, bs\<lparr>type_byte := fst m, read_buffer := snd m\<rparr>, s) =
    Some (Ok (), cm\<lparr>cm_backend_key := k, cm_server_params := ps, cm_tx := tx_or_default st,
      cm_state := CS_Finished\<rparr>, bs', s\<lparr>inp := rest\<rparr>)"
  using assms
proof (induction msgs arbitrary: cm m ms bs s)
  case Nil
  let ?bs = "bs\<lparr>type_byte := READY_FOR_QUERY, read_buffer := [st]\<rparr>"
  have "cm_step X tls rnd cm ?bs = (Ok Finished, cm\<lparr>cm_tx := tx_or_default st, cm_state := CS_Finished\<rparr>, ?bs)"
    using cm_trans_step [OF cm_trans.ready [of cm ?bs st X tls rnd]] Nil.prems(1)
    by (simp add: ready_for_query_parse_def)
  from loop_finish [OF this, of sync_tls upgrade s] Nil.prems show ?case
    by (cases s; cases cm) auto
next
  case (Cons x msgs)
  let ?bs = "bs\<lparr>type_byte := fst x, read_buffer := snd x\<rparr>"
  obtain m2 ms2 where m2: "m2 # ms2 = msgs @ [(READY_FOR_QUERY, [st])]" by (cases msgs) auto
  with Cons.prems have mx: "m = x" "ms = m2 # ms2" "small m2"
    by (auto simp: small_def Cons_eq_append_conv)
  have inp: "inp s = wire m2 @ concat (map wire ms2) @ rest" using Cons.prems(5) mx(2) by simp
  have "\<exists>a cm1. cm_step X tls rnd cm ?bs = (Ok a, cm1, ?bs) \<and>
      (a = ReadMessage \<or> (\<exists>am. a = HandleAsyncMessageAndReadMessage am)) \<and> cm_state cm1 = CS_WaitingReady \<and>
      session X msgs (cm_backend_key cm1, cm_server_params cm1) = Some (k, ps) \<and>
      cm1 = cm\<lparr>cm_backend_key := cm_backend_key cm1, cm_server_params := cm_server_params cm1\<rparr>"
    using Cons.prems(1,2)
    by (auto simp: cm_step_def cm_handle_ready_message_def Let_def is_async_type_def
        dest: handle_async_message_Ok split: if_splits res.splits)
  then obtain a cm1 where step: "cm_step X tls rnd cm ?bs = (Ok a, cm1, ?bs)"
      "a = ReadMessage \<or> (\<exists>am. a = HandleAsyncMessageAndReadMessage am)" "cm_state cm1 = CS_WaitingReady"
      "session X msgs (cm_backend_key cm1, cm_server_params cm1) = Some (k, ps)"
      "cm1 = cm\<lparr>cm_backend_key := cm_backend_key cm1, cm_server_params := cm_server_params cm1\<rparr>"
    by blast
  have 1: "startup_loop X tls sync_tls upgrade rnd (cm, ?bs, s) = startup_loop X tls sync_tls upgrade rnd
      (cm1, ?bs\<lparr>type_byte := fst m2, read_buffer := snd m2\<rparr>, s\<lparr>inp := concat (map wire ms2) @ rest\<rparr>)"
    by (rule loop_read [OF step(1,2) inp mx(3)])
  have upd: "cm1\<lparr>cm_backend_key := k, cm_server_params := ps, cm_tx := t, cm_state := z\<rparr> =
      cm\<lparr>cm_backend_key := k, cm_server_params := ps, cm_tx := t, cm_state := z\<rparr>" for t z
    by (subst step(5)) simp
  from Cons.IH [OF step(3,4) m2, of "s\<lparr>inp := concat (map wire ms2) @ rest\<rparr>" ?bs] Cons.prems(4) mx(1) 1
  show ?case by (simp add: upd)
qed

text \<open>
  The four ways a server can authenticate the client: what it asks, in order, and what the
  client has to answer, \<open>None\<close> when it cannot or will not.
\<close>

datatype auth_dialog = Trust | Cleartext | Md5 bytes | Scram "str list" str str

fun dialog_asks :: "auth_dialog \<Rightarrow> authentication_message list" where
  "dialog_asks Trust = [AuthOk]"
| "dialog_asks Cleartext = [CleartextPassword, AuthOk]"
| "dialog_asks (Md5 salt) = [Md5Password salt, AuthOk]"
| "dialog_asks (Scram mechs sf fin) = [Sasl mechs, SaslContinue sf, SaslFinal fin, AuthOk]"

fun dialog_answers :: "ext \<Rightarrow> bytes \<Rightarrow> opts \<Rightarrow> auth_dialog \<Rightarrow> bytes option" where
  "dialog_answers X rnd options Trust = Some []"
| "dialog_answers X rnd options Cleartext = map_option (write_password []) (o_password options)"
| "dialog_answers X rnd options (Md5 salt) =
     map_option (\<lambda>pw. write_password [] (md5_password X (o_user options) pw salt)) (o_password options)"
| "dialog_answers X rnd options (Scram mechs sf fin) = (case o_password options of
     None \<Rightarrow> None
   | Some pw \<Rightarrow> (case process_server_first X (scram_new X rnd pw) sf of
         (Ok reply, s1) \<Rightarrow>
           (if ascii ''SCRAM-SHA-256'' \<in> set mechs \<and> x_utf8 X sf \<and> x_utf8 X fin \<and>
               verify_server_final X s1 fin = Ok ()
            then Some (write_sasl_initial_response [] (ascii ''SCRAM-SHA-256'')
                (client_first_message (scram_new X rnd pw)) @ write_sasl_response [] reply)
            else None)
       | _ \<Rightarrow> None))"

definition asks :: "ext \<Rightarrow> byte \<times> bytes \<Rightarrow> authentication_message \<Rightarrow> bool" where
  "asks X m a \<longleftrightarrow> fst m = AUTHENTICATION \<and> authentication_parse X (snd m) = Ok a \<and> small m"

text \<open>The rounds of the authentication, with the message that has been read.\<close>

definition got_msg :: "byte \<times> bytes \<Rightarrow> buffer_set \<Rightarrow> buffer_set" where
  "got_msg m bs = bs\<lparr>type_byte := fst m, read_buffer := snd m\<rparr>"

lemma got_msg_simps [simp]:
  "type_byte (got_msg m bs) = fst m" "read_buffer (got_msg m bs) = snd m"
  by (simp_all add: got_msg_def)

lemma loop_wait:
  assumes "(cm_state cm, next) \<in> {(CS_WaitingAuthRead, CS_WaitingAuth),
      (CS_SaslInProgressRead, CS_SaslInProgress), (CS_WaitingAuthResultRead, CS_WaitingAuthResult)}"
    and "inp s = wire m @ rest" and "small m"
  shows "startup_loop X tls sync_tls upgrade rnd (cm, bs, s) =
    startup_loop X tls sync_tls upgrade rnd (cm\<lparr>cm_state := next\<rparr>, got_msg m bs, s\<lparr>inp := rest\<rparr>)"
  using loop_read [OF cm_trans_step [OF cm_trans.read [OF assms(1)]] _ assms(2,3)]
  by (simp add: got_msg_def)

lemma loop_auth_ok:
  assumes "cm_state cm = CS_WaitingAuth \<or> cm_state cm = CS_WaitingAuthResult" and "asks X a AuthOk"
    and "inp s = wire m @ rest" and "small m"
  shows "startup_loop X tls sync_tls upgrade rnd (cm, got_msg a bs, s) =
    startup_loop X tls sync_tls upgrade rnd
      (cm\<lparr>cm_state := CS_WaitingReady\<rparr>, got_msg m (got_msg a bs), s\<lparr>inp := rest\<rparr>)"
  using loop_read [OF cm_trans_step [OF cm_trans.auth_ok [OF assms(1)]] _ assms(3,4)] assms(2)
  by (simp add: asks_def got_msg_def)

lemma stream_update_order: "s\<lparr>out := a, inp := b\<rparr> = s\<lparr>inp := b, out := a\<rparr>"
  by simp

text \<open>A password, in clear or hashed, then AuthenticationOk.\<close>

lemma loop_password:
  assumes "cm_step X tls rnd cm (got_msg a bs) = (Ok Write, cm\<lparr>cm_state := CS_WaitingAuthResultRead\<rparr>,
      (got_msg a bs)\<lparr>write_buffer := reply\<rparr>)"
    and "writable s" and "asks X b AuthOk" and "inp s = wire b @ wire m @ rest" and "small m"
  shows "startup_loop X tls sync_tls upgrade rnd (cm, got_msg a bs, s) =
    startup_loop X tls sync_tls upgrade rnd (cm\<lparr>cm_state := CS_WaitingReady\<rparr>,
      got_msg m (got_msg b ((got_msg a bs)\<lparr>write_buffer := reply\<rparr>)),
      s\<lparr>inp := rest, out := out s @ reply\<rparr>)"
  using loop_write [OF assms(1,2), of sync_tls upgrade]
    loop_wait [of "cm\<lparr>cm_state := CS_WaitingAuthResultRead\<rparr>" CS_WaitingAuthResult
      "s\<lparr>out := out s @ reply\<rparr>" b "wire m @ rest" X tls sync_tls upgrade rnd]
    loop_auth_ok [of "cm\<lparr>cm_state := CS_WaitingAuthResult\<rparr>" X b
      "s\<lparr>inp := wire m @ rest, out := out s @ reply\<rparr>" m rest tls sync_tls upgrade rnd] assms(3-5)
  by (simp add: asks_def stream_update_order)

text \<open>SCRAM, from the server's offer to AuthenticationOk.\<close>

lemma loop_scram:
  assumes "cm_state cm = CS_WaitingAuth" and "o_password (cm_options cm) = Some pw"
    and "asks X a (Sasl mechs)" and "ascii ''SCRAM-SHA-256'' \<in> set mechs"
    and "asks X b (SaslContinue sf)" and "x_utf8 X sf" and "process_server_first X (scram_new X rnd pw) sf = (Ok reply, s1)"
    and "asks X c (SaslFinal fin)" and "x_utf8 X fin" and "verify_server_final X s1 fin = Ok ()"
    and "asks X e AuthOk" and "writable s" and "inp s = wire b @ wire c @ wire e @ wire m @ rest" and "small m"
  shows "\<exists>bs'. startup_loop X tls sync_tls upgrade rnd (cm, got_msg a bs, s) =
    startup_loop X tls sync_tls upgrade rnd (cm\<lparr>cm_scram := Some s1, cm_state := CS_WaitingReady\<rparr>,
      got_msg m bs', s\<lparr>inp := rest, out := out s @ write_sasl_initial_response [] (ascii ''SCRAM-SHA-256'')
        (client_first_message (scram_new X rnd pw)) @ write_sasl_response [] reply\<rparr>)"
proof -
  let ?first = "write_sasl_initial_response [] (ascii ''SCRAM-SHA-256'') (client_first_message (scram_new X rnd pw))"
  let ?last = "write_sasl_response [] reply"
  let ?L = "startup_loop X tls sync_tls upgrade rnd"
  let ?bs1 = "(got_msg a bs)\<lparr>write_buffer := ?first\<rparr>"
  let ?bs2 = "(got_msg b ?bs1)\<lparr>write_buffer := ?last\<rparr>"
  let ?cm1 = "cm\<lparr>cm_scram := Some (scram_new X rnd pw), cm_state := CS_SaslInProgressRead\<rparr>"
  let ?cm2 = "cm\<lparr>cm_scram := Some s1, cm_state := CS_SaslInProgressRead\<rparr>"
  have "?L (cm, got_msg a bs, s) = ?L (?cm1, ?bs1, s\<lparr>out := out s @ ?first\<rparr>)"
    using loop_write [OF cm_trans_step [OF cm_trans.sasl_first [of cm "got_msg a bs" X mechs pw]] assms(12)] assms
    by (simp add: asks_def)
  also have "\<dots> = ?L (?cm1\<lparr>cm_state := CS_SaslInProgress\<rparr>, got_msg b ?bs1,
      s\<lparr>out := out s @ ?first, inp := wire c @ wire e @ wire m @ rest\<rparr>)"
    using assms by (subst loop_wait [of _ CS_SaslInProgress _ b]) (auto simp: asks_def stream_update_order)
  also have "\<dots> = ?L (?cm2, ?bs2, s\<lparr>out := out s @ ?first @ ?last, inp := wire c @ wire e @ wire m @ rest\<rparr>)"
    using assms
    by (subst loop_write [OF cm_trans_step [OF cm_trans.sasl_continue [where data = sf and
      scram = "scram_new X rnd pw" and client_final = reply and scram' = s1]]]) (auto simp: asks_def stream_update_order)
  also have "\<dots> = ?L (?cm2\<lparr>cm_state := CS_SaslInProgress\<rparr>, got_msg c ?bs2,
      s\<lparr>out := out s @ ?first @ ?last, inp := wire e @ wire m @ rest\<rparr>)"
    using assms by (subst loop_wait [of _ CS_SaslInProgress _ c]) (auto simp: asks_def stream_update_order)
  also have "\<dots> = ?L (?cm2\<lparr>cm_state := CS_WaitingAuthResult\<rparr>, got_msg e (got_msg c ?bs2),
      s\<lparr>out := out s @ ?first @ ?last, inp := wire m @ rest\<rparr>)"
    using assms
    by (subst loop_read [OF cm_trans_step [OF cm_trans.sasl_final [where data = fin and scram = s1]],
      where m = e and rest = "wire m @ rest"]) (auto simp: asks_def got_msg_def stream_update_order)
  also have "\<dots> = ?L (?cm2\<lparr>cm_state := CS_WaitingReady\<rparr>, got_msg m (got_msg e (got_msg c ?bs2)),
      s\<lparr>out := out s @ ?first @ ?last, inp := rest\<rparr>)"
    using assms by (subst loop_auth_ok [of _ X e _ m rest]) (auto simp: stream_update_order)
  finally show ?thesis
    unfolding stream_update_order by (intro exI [of _ "got_msg e (got_msg c ?bs2)"]) simp
qed

text \<open>From waiting for the first authentication message to waiting for ReadyForQuery.\<close>

lemma loop_dialog:
  assumes "cm_state cm = CS_WaitingAuthRead" and "cm_options cm = options" and "writable s"
    and "list_all2 (asks X) auths (dialog_asks d)" and "dialog_answers X rnd options d = Some reply"
    and "inp s = concat (map wire auths) @ wire m @ rest" and "small m"
  shows "\<exists>bs' sc. startup_loop X tls sync_tls upgrade rnd (cm, bs, s) =
      startup_loop X tls sync_tls upgrade rnd (cm\<lparr>cm_scram := sc, cm_state := CS_WaitingReady\<rparr>,
        got_msg m bs', s\<lparr>inp := rest, out := out s @ reply\<rparr>)"
proof -
  obtain a as where auths: "auths = a # as" using assms(4) by (cases d; cases auths) auto
  have "small a" using assms(4) auths by (cases d) (auto simp: asks_def)
  let ?cm = "cm\<lparr>cm_state := CS_WaitingAuth\<rparr>" and ?s = "s\<lparr>inp := concat (map wire as) @ wire m @ rest\<rparr>"
  have keep: "cm\<lparr>cm_scram := cm_scram cm, cm_state := z\<rparr> = cm\<lparr>cm_state := z\<rparr>" for z by simp
  have start: "startup_loop X tls sync_tls upgrade rnd (cm, bs, s) =
      startup_loop X tls sync_tls upgrade rnd (?cm, got_msg a bs, ?s)"
    by (rule loop_wait) (use assms auths \<open>small a\<close> in auto)
  show ?thesis
  proof (cases d)
    case Trust
    with assms(4,5) auths have "asks X a AuthOk" "as = []" "reply = []" by auto
    with loop_auth_ok [of ?cm X a ?s m rest tls sync_tls upgrade rnd bs] assms(7) start keep
    show ?thesis by (auto intro!: exI [of _ "got_msg a bs"] exI [of _ "cm_scram cm"])
  next
    case Cleartext
    with assms(4,5) auths obtain b pw where b: "asks X a CleartextPassword" "as = [b]" "asks X b AuthOk"
        "o_password options = Some pw" "reply = write_password [] pw"
      by (auto simp: list_all2_Cons2)
    have "cm_step X tls rnd ?cm (got_msg a bs) = (Ok Write, ?cm\<lparr>cm_state := CS_WaitingAuthResultRead\<rparr>,
      (got_msg a bs)\<lparr>write_buffer := reply\<rparr>)"
      using cm_trans_step [OF cm_trans.cleartext [of ?cm "got_msg a bs" X pw tls rnd]] b assms(2)
      by (simp add: asks_def)
    from loop_password [OF this _ b(3), of ?s m rest] assms(3,7) b start keep
    show ?thesis by (auto intro!: exI [of _ "cm_scram cm"])
  next
    case (Md5 salt)
    with assms(4,5) auths obtain b pw where b: "asks X a (Md5Password salt)" "as = [b]" "asks X b AuthOk"
        "o_password options = Some pw" "reply = write_password [] (md5_password X (o_user options) pw salt)"
      by (auto simp: list_all2_Cons2)
    have "cm_step X tls rnd ?cm (got_msg a bs) = (Ok Write, ?cm\<lparr>cm_state := CS_WaitingAuthResultRead\<rparr>,
      (got_msg a bs)\<lparr>write_buffer := reply\<rparr>)"
      using cm_trans_step [OF cm_trans.md5 [of ?cm "got_msg a bs" X salt pw tls rnd]] b assms(2)
      by (simp add: asks_def)
    from loop_password [OF this _ b(3), of ?s m rest] assms(3,7) b start keep
    show ?thesis by (auto intro!: exI [of _ "cm_scram cm"])
  next
    case (Scram mechs sf fin)
    with assms(4) auths obtain b c e where as: "asks X a (Sasl mechs)" "as = [b, c, e]"
        "asks X b (SaslContinue sf)" "asks X c (SaslFinal fin)" "asks X e AuthOk"
      by (auto simp: list_all2_Cons2)
    obtain r s1 pw where ps: "process_server_first X (scram_new X rnd pw) sf = (r, s1)"
        "o_password options = Some pw"
      using assms(5) Scram by (auto split: option.splits) (metis surj_pair)
    with assms(5) Scram obtain msg where "r = Ok msg" "ascii ''SCRAM-SHA-256'' \<in> set mechs"
        "x_utf8 X sf" "x_utf8 X fin" "verify_server_final X s1 fin = Ok ()"
        "reply = write_sasl_initial_response [] (ascii ''SCRAM-SHA-256'')
          (client_first_message (scram_new X rnd pw)) @ write_sasl_response [] msg"
      by (auto split: res.splits if_splits)
    with loop_scram [of ?cm pw X a mechs b sf rnd msg s1 c fin e ?s m rest tls sync_tls upgrade bs]
      as ps assms(2,3,7) start show ?thesis by auto
  qed
qed

lemma connects_ok:
  assumes "o_ssl_mode options = SslDisable" and "writable s"
    and "list_all2 (asks X) auths (dialog_asks d)" and "dialog_answers X rnd options d = Some reply"
    and "session X msgs (None, []) = Some (key, params)" and "\<forall>m \<in> set msgs. small m"
    and "inp s = concat (map wire (auths @ msgs @ [(READY_FOR_QUERY, [st])])) @ rest"
  shows "\<exists>c. new_with_stream X tls sync_tls upgrade rnd s options = Some (Ok c) \<and>
    c_params c = params \<and> c_key c = key \<and> c_tx c = tx_or_default st \<and> \<not> c_broken c \<and>
    c_stream c = s\<lparr>inp := rest, out := out s @ write_startup [] (startup_params options) @ reply\<rparr>"
proof -
  let ?L = "startup_loop X tls sync_tls upgrade rnd" and ?cm = "connection_new options"
  obtain m ms where m: "m # ms = msgs @ [(READY_FOR_QUERY, [st])]" by (cases msgs) auto
  then have "small m" using assms(6) by (cases msgs) (auto simp: small_def)
  have inp: "inp s = concat (map wire auths) @ wire m @ concat (map wire ms) @ rest"
    using assms(7) arg_cong [OF m, of "\<lambda>x. concat (map wire x)"] by simp
  let ?w = "write_startup [] (startup_params options)"
  let ?s = "s\<lparr>out := out s @ ?w\<rparr>"
  have 1: "?L (?cm, buffer_set_new, s) = ?L (?cm\<lparr>cm_state := CS_WaitingAuthRead\<rparr>,
      buffer_set_new\<lparr>write_buffer := ?w\<rparr>, ?s)"
    using loop_write [OF cm_trans_step [OF cm_trans.plain [of ?cm tls X rnd buffer_set_new]] assms(2)] assms(1)
    by (simp add: connection_new_def write_startup_message_def)
  obtain bs1 sc where 2: "?L (?cm, buffer_set_new, s) =
      ?L (?cm\<lparr>cm_scram := sc, cm_state := CS_WaitingReady\<rparr>, got_msg m bs1,
        ?s\<lparr>inp := concat (map wire ms) @ rest, out := out ?s @ reply\<rparr>)"
    using loop_dialog [of "?cm\<lparr>cm_state := CS_WaitingAuthRead\<rparr>" options ?s X auths d rnd reply m
        "concat (map wire ms) @ rest" tls sync_tls upgrade "buffer_set_new\<lparr>write_buffer := ?w\<rparr>"]
      assms(2-4) inp \<open>small m\<close> 1
    by (auto simp: connection_new_def)
  show ?thesis
    using loop_session [of "?cm\<lparr>cm_scram := sc, cm_state := CS_WaitingReady\<rparr>" X msgs key params m ms st
        "?s\<lparr>inp := concat (map wire ms) @ rest, out := out ?s @ reply\<rparr>" rest tls sync_tls upgrade rnd bs1]
      2 m assms(5,6)
    by (auto simp: new_with_stream_def connection_new_def got_msg_def stream_update_order)
qed


definition auths0 :: "(byte \<times> bytes) list" where
  "auths0 = map (Pair AUTHENTICATION) [[0, 0, 0, 10] @ ascii ''SCRAM-SHA-256'' @ [0, 0],
     [0, 0, 0, 11] @ server_first0, [0, 0, 0, 12] @ server_final0, [0, 0, 0, 0]]"

definition session0 :: "(byte \<times> bytes) list" where
  "session0 = [(PARAMETER_STATUS, [97, 0, 98, 0]), (NOTICE_RESPONSE, notice0),
     (BACKEND_KEY_DATA, [0, 0, 0, 7, 1, 2, 3, 4])]"

lemma auths0_asks:
  "list_all2 (asks ext0) auths0
     (dialog_asks (Scram [ascii ''SCRAM-SHA-256''] server_first0 server_final0))"
  using auth0_parse
  by (simp add: auths0_def asks_def small_def server_first0_def server_final0_def ascii_def)

lemma session0_reports:
  "session ext0 session0 (None, []) = Some (Some \<lparr>key_pid = 7, secret_key = [1, 2, 3, 4]\<rparr>, [([97], [98])])"
  by (simp add: session0_def backend_key_data_parse_def parameter_status_parse_def read_u32_def
      from_be_bytes_def be_nat_def read_cstr_def read_cstring_def is_async_type_def
      handle_async_message_def notice_response_parse_def parse_fields_def notice0_def)


end
