(* ===== verification/Feed.thy ===== *)
theory Feed
  imports Driver
begin

text \<open>
  The drive loop without its I/O: \<open>feed\<close> runs a machine on a list of messages, and
  \<open>drive_feed\<close> says that driving a connection whose peer sends those messages is feeding them.
  The locale \<open>async_machine\<close> extends \<open>query_machine\<close> by what the machines do with asynchronous
  messages: they deliver them and carry on, so \<open>feed_filter\<close> lets an exchange be stated without
  them.
\<close>

section \<open>Running a machine on a list of messages\<close>

text \<open>
  The pure part of a drive: step the machine on each message in turn until it does something
  other than read on; the asynchronous messages delivered, and the messages not consumed.
\<close>

fun feed ::
    "('m \<Rightarrow> buffer_set \<Rightarrow> action res \<times> 'm \<times> buffer_set) \<Rightarrow> 'm \<Rightarrow> buffer_set \<Rightarrow> (byte \<times> bytes) list \<Rightarrow>
       (action res \<times> 'm \<times> buffer_set \<times> async_message list \<times> (byte \<times> bytes) list) option"
where
  "feed step m bs [] = None"
| "feed step m bs (msg # msgs) =
     (case step m (bs\<lparr>type_byte := fst msg, read_buffer := snd msg\<rparr>) of
        (Ok ReadMessage, m1, bs1) \<Rightarrow> feed step m1 bs1 msgs
      | (Ok (HandleAsyncMessageAndReadMessage am), m1, bs1) \<Rightarrow>
          map_option (\<lambda>(r, m', bs', ams, ms). (r, m', bs', am # ams, ms)) (feed step m1 bs1 msgs)
      | (r, m1, bs1) \<Rightarrow> Some (r, m1, bs1, [], msgs))"

text \<open>The connection after a run that began at \<open>c\<close>, before its result is recorded.\<close>

definition ran :: "conn \<Rightarrow> buffer_set \<Rightarrow> bytes \<Rightarrow> bytes \<Rightarrow> async_message list \<Rightarrow> conn" where
  "ran c bs written rest ams = c\<lparr>c_stream := (c_stream c)\<lparr>inp := rest, out := out (c_stream c) @ written\<rparr>,
     c_bufs := bs, c_async := map_option (\<lambda>l. l @ ams) (c_async c)\<rparr>"

definition finish_drive :: "('m \<Rightarrow> tx_status) \<Rightarrow> action res \<Rightarrow> 'm \<Rightarrow> conn \<Rightarrow> unit res \<times> 'm \<times> conn" where
  "finish_drive tx r m c = (case r of
     Ok Finished \<Rightarrow> (Ok (), m, c\<lparr>c_tx := tx m\<rparr>)
   | Ok (ActionError e) \<Rightarrow> (Err (Server e), m, c\<lparr>c_tx := tx m\<rparr>)
   | Err e \<Rightarrow> (Err e, m, c)
   | _ \<Rightarrow> (Panic, m, c))"

definition stopping :: "action res \<Rightarrow> bool" where
  "stopping r \<longleftrightarrow> (case r of Ok Finished \<Rightarrow> True | Ok (ActionError e) \<Rightarrow> True | Err e \<Rightarrow> True
     | Panic \<Rightarrow> True | _ \<Rightarrow> False)"

lemma ran_append:
  "ran (ran c bs1 w1 r1 a1) bs2 w2 r2 a2 = ran c bs2 (w1 @ w2) r2 (a1 @ a2)"
  by (simp add: ran_def option.map_comp comp_def)

lemma drive_started_feed:
  assumes "feed step m (c_bufs c) (msg # msgs) = Some (r, m', bs', ams, left)" and "stopping r"
    and "\<forall>x \<in> set msgs. small x"
  shows "drive step tx m (got msg (concat (map wire msgs) @ rest) c) =
    Some (finish_drive tx r m' (ran c bs' [] (concat (map wire left) @ rest) ams))"
  using assms(1,3)
proof (induction msgs arbitrary: m c msg ams)
  case Nil
  obtain q m1 b1 where s: "step m (c_bufs (got msg rest c)) = (q, m1, b1)" by (metis prod_cases3)
  with Nil assms(2) show ?case
    by (subst drive.simps)
      (auto simp: drive_iter_def got_def finish_drive_def stopping_def ran_def option.map_ident
        split: res.splits action.splits)
next
  case (Cons m2 msgs)
  obtain q m1 b1 where s: "step m (c_bufs (got msg (concat (map wire (m2 # msgs)) @ rest) c)) = (q, m1, b1)"
    by (metis prod_cases3)
  consider (read) "q = Ok ReadMessage" | (asyn) am where "q = Ok (HandleAsyncMessageAndReadMessage am)"
    | (stop) "stopping q" | (odd) "\<not> stopping q" "q \<noteq> Ok ReadMessage"
        "\<forall>am. q \<noteq> Ok (HandleAsyncMessageAndReadMessage am)"
    by blast
  then show ?case
  proof cases
    case read
    let ?c1 = "c\<lparr>c_stream := (c_stream c)\<lparr>inp := wire m2 @ concat (map wire msgs) @ rest\<rparr>, c_bufs := b1\<rparr>"
    have "feed step m1 (c_bufs ?c1) (m2 # msgs) = Some (r, m', bs', ams, left)"
      using Cons.prems s read by (simp add: got_def)
    from Cons.IH [OF this] Cons.prems(2) s read show ?thesis
      by (subst drive.simps) (simp add: drive_iter_def got_def ran_def)
  next
    case asyn
    let ?c1 = "c\<lparr>c_stream := (c_stream c)\<lparr>inp := wire m2 @ concat (map wire msgs) @ rest\<rparr>, c_bufs := b1,
        c_async := map_option (\<lambda>l. l @ [am]) (c_async c)\<rparr>"
    from Cons.prems s asyn obtain ams' where
        "feed step m1 (c_bufs ?c1) (m2 # msgs) = Some (r, m', bs', ams', left)" "ams = am # ams'"
      by (auto simp add: got_def simp del: feed.simps(2) simp: feed.simps(2) [of step m])
    from Cons.IH [OF this(1)] this(2) Cons.prems(2) s asyn show ?thesis
      by (subst drive.simps)
        (simp add: drive_iter_def got_def ran_def conn_handle_async_def option.map_comp comp_def)
  next
    case stop
    with Cons.prems s show ?thesis
      by (subst drive.simps)
        (auto simp: drive_iter_def got_def finish_drive_def stopping_def ran_def option.map_ident
          split: res.splits action.splits)
  next
    case odd
    with Cons.prems s assms(2) show ?thesis
      by (auto simp: got_def stopping_def split: res.splits action.splits)
  qed
qed

lemma drive_feed:
  assumes "step m (c_bufs c) = (Ok WriteAndReadMessage, m1, bs1)" and "writable (c_stream c)"
    and "feed step m1 bs1 msgs = Some (r, m', bs', ams, left)" and "stopping r"
    and "\<forall>x \<in> set msgs. small x" and "inp (c_stream c) = concat (map wire msgs) @ rest"
  shows "drive step tx m c = Some (finish_drive tx r m'
    (ran c bs' (write_buffer bs1) (concat (map wire left) @ rest) ams))"
proof (cases msgs)
  case Nil
  with assms(3) show ?thesis by simp
next
  case (Cons m2 ms)
  let ?c = "c\<lparr>c_bufs := bs1, c_stream := (c_stream c)\<lparr>out := out (c_stream c) @ write_buffer bs1\<rparr>\<rparr>"
  have "drive step tx m c = drive step tx m1 (got m2 (concat (map wire ms) @ rest) ?c)"
    using assms(1,2,5,6) Cons by (subst drive.simps) (simp add: drive_iter_def)
  also have "\<dots> = Some (finish_drive tx r m' (ran ?c bs' [] (concat (map wire left) @ rest) ams))"
    by (rule drive_started_feed) (use assms Cons in auto)
  finally show ?thesis by (simp add: ran_def)
qed

section \<open>Asynchronous messages between others\<close>

text \<open>
  A machine of the library whose asynchronous messages are delivered between any two others,
  and only those.
\<close>

locale async_machine = query_machine step tx initial
  for step :: "'m \<Rightarrow> buffer_set \<Rightarrow> action res \<times> 'm \<times> buffer_set"
    and tx :: "'m \<Rightarrow> tx_status" and initial :: "'m \<Rightarrow> bool" +
  fixes X :: ext
  assumes async_step: "\<not> initial m \<Longrightarrow> is_async_type (type_byte bs) \<Longrightarrow>
      step m bs = (handle_async_message X (type_byte bs) (read_buffer bs), m, bs)"
    and async_only: "\<not> initial m \<Longrightarrow> step m bs = (Ok (HandleAsyncMessageAndReadMessage am), m', bs') \<Longrightarrow>
      is_async_type (type_byte bs)"

text \<open>The asynchronous messages of a list, decoded.\<close>

fun async_of :: "ext \<Rightarrow> (byte \<times> bytes) list \<Rightarrow> async_message list" where
  "async_of X [] = []"
| "async_of X (m # ms) = (case handle_async_message X (fst m) (snd m) of
     Ok (HandleAsyncMessageAndReadMessage am) \<Rightarrow> am # async_of X ms
   | _ \<Rightarrow> async_of X ms)"

definition sync_msg :: "byte \<times> bytes \<Rightarrow> bool" where
  "sync_msg m \<longleftrightarrow> \<not> is_async_type (fst m)"

definition async_ok :: "ext \<Rightarrow> byte \<times> bytes \<Rightarrow> bool" where
  "async_ok X m \<longleftrightarrow> sync_msg m \<or> (\<exists>a. handle_async_message X (fst m) (snd m) = Ok a)"

lemma async_ok_cases:
  "async_ok X m \<Longrightarrow> \<not> sync_msg m \<Longrightarrow>
     \<exists>am. handle_async_message X (fst m) (snd m) = Ok (HandleAsyncMessageAndReadMessage am)"
  using handle_async_message_Ok by (fastforce simp: async_ok_def)

lemma handle_sync_msg: "sync_msg m \<Longrightarrow> \<exists>e. handle_async_message X (fst m) (snd m) = Err e"
  by (simp add: sync_msg_def is_async_type_def handle_async_message_def)

lemma feed_current [simp]:
  "feed step m (bs\<lparr>type_byte := t, read_buffer := p\<rparr>) msgs = feed step m bs msgs"
  by (cases msgs) simp_all

lemma feed_current_column [simp]:
  "feed step m (bs\<lparr>type_byte := t, read_buffer := p, column_buffer := q\<rparr>) msgs =
     feed step m (bs\<lparr>column_buffer := q\<rparr>) msgs"
proof -
  have "bs\<lparr>type_byte := t, read_buffer := p, column_buffer := q\<rparr> =
      bs\<lparr>column_buffer := q\<rparr>\<lparr>type_byte := t, read_buffer := p\<rparr>" by simp
  then show ?thesis by (simp only: feed_current)
qed

context async_machine
begin

lemma feed_filter:
  "\<lbrakk>\<not> initial m; feed step m bs (filter sync_msg msgs) = Some (r, m', bs', ams, []);
    msgs \<noteq> [] \<longrightarrow> sync_msg (last msgs); \<forall>x \<in> set msgs. async_ok X x\<rbrakk> \<Longrightarrow>
   ams = [] \<and> feed step m bs msgs = Some (r, m', bs', async_of X msgs, [])"
proof (induction msgs arbitrary: m bs ams)
  case Nil
  then show ?case by simp
next
  case (Cons x msgs)
  let ?bs = "bs\<lparr>type_byte := fst x, read_buffer := snd x\<rparr>"
  obtain q m1 b1 where s: "step m ?bs = (q, m1, b1)" by (metis prod_cases3)
  show ?case
  proof (cases "sync_msg x")
    case False
    with Cons.prems(4) async_ok_cases obtain am where
        am: "handle_async_message X (fst x) (snd x) = Ok (HandleAsyncMessageAndReadMessage am)"
      by fastforce
    have "step m ?bs = (Ok (HandleAsyncMessageAndReadMessage am), m, ?bs)"
      using async_step [OF Cons.prems(1), of ?bs] False am by (simp add: sync_msg_def)
    moreover have "msgs \<noteq> []" using Cons.prems(2) False by auto
    ultimately show ?thesis
      using Cons.IH [OF Cons.prems(1), of bs ams] Cons.prems False am by simp
  next
    case True
    then have na: "\<forall>am. q \<noteq> Ok (HandleAsyncMessageAndReadMessage am)"
      using async_only [OF Cons.prems(1)] s by (fastforce simp: sync_msg_def)
    from handle_sync_msg [OF True, of X] obtain e where e: "handle_async_message X (fst x) (snd x) = Err e" ..
    show ?thesis
    proof (cases "q = Ok ReadMessage")
      case True
      have "\<not> initial m1" using later [OF Cons.prems(1), of ?bs ReadMessage m1 b1] s True by simp
      moreover have "msgs \<noteq> []" using Cons.prems(2) s True \<open>sync_msg x\<close> by auto
      ultimately show ?thesis using Cons.IH [of m1 b1 ams] Cons.prems s True \<open>sync_msg x\<close> e by simp
    next
      case False
      with na Cons.prems(2) s True have f: "Some (q, m1, b1, [], filter sync_msg msgs) = Some (r, m', bs', ams, [])"
        by (auto split: res.splits action.splits)
      have "msgs = []"
      proof (rule ccontr)
        assume "msgs \<noteq> []"
        with Cons.prems(3) have "last msgs \<in> set (filter sync_msg msgs)" by simp
        with f show False by simp
      qed
      with f False na s e show ?thesis by (auto split: res.splits action.splits)
    qed
  qed
qed

end

interpretation sqa: async_machine "sq_step X H" sq_tx "\<lambda>m. sq_state m = SQ_Initial" X for X H
proof (unfold_locales, goal_cases)
  case (1 m bs)
  then show ?case by (simp add: sq_step_def)
next
  case (2 m bs am m' bs')
  then show ?case
    by (auto simp: sq_defs Let_def split: sq_state.splits if_splits rtry_splits prod.splits
        option.splits)
qed

interpretation eqa: async_machine "eq_step X H" eq_tx "\<lambda>m. eq_state m = EQ_Initial" X for X H
proof (unfold_locales, goal_cases)
  case (1 m bs)
  then show ?case by (simp add: eq_step_def)
next
  case (2 m bs am m' bs')
  then show ?case
    by (auto simp: eq_defs Let_def split: eq_state.splits if_splits rtry_splits prod.splits
        option.splits operation.splits)
qed

end
