(* ===== verification/SimpleExchange.thy ===== *)
theory SimpleExchange
  imports SyncConn Feed Samples WireFacts
begin

text \<open>
  The simple query protocol from end to end: what \<open>Conn::query\<close> does when the server answers
  with result sets, or with an error after some of them. \<open>handle_results\<close> is the sequence of
  handler calls the answer stands for.
\<close>

section \<open>The result sets of a query\<close>

text \<open>
  What a server sends for one statement of a simple query: a row description, data rows and a
  tag, or only a tag.
\<close>

datatype result_set = RowsOf bytes "bytes list" str | TagOnly str

fun result_msgs :: "result_set \<Rightarrow> (byte \<times> bytes) list" where
  "result_msgs (RowsOf p ds tag) =
     (ROW_DESCRIPTION, p) # map (Pair DATA_ROW) ds @ [(COMMAND_COMPLETE, tag @ [0])]"
| "result_msgs (TagOnly tag) = [(COMMAND_COMPLETE, tag @ [0])]"

text \<open>The calls of the handler they are meant to lead to; \<open>None\<close> when a call or a parse fails.\<close>

fun handle_row_list :: "'h handler \<Rightarrow> row_description \<Rightarrow> 'h \<Rightarrow> bytes list \<Rightarrow> 'h option" where
  "handle_row_list H cols h [] = Some h"
| "handle_row_list H cols h (d # ds) = (case data_row_parse d of
     Ok row \<Rightarrow> (case h_row H h cols row of
         (Ok _, h1) \<Rightarrow> handle_row_list H cols h1 ds | _ \<Rightarrow> None)
   | _ \<Rightarrow> None)"

definition handle_tag :: "ext \<Rightarrow> 'h handler \<Rightarrow> 'h \<Rightarrow> str \<Rightarrow> 'h option" where
  "handle_tag X H h tag = (if command_complete_parse X (tag @ [0]) = Ok tag
     then (case h_result_end H h tag of (Ok _, h1) \<Rightarrow> Some h1 | _ \<Rightarrow> None) else None)"

fun handle_result :: "ext \<Rightarrow> 'h handler \<Rightarrow> 'h \<Rightarrow> result_set \<Rightarrow> 'h option" where
  "handle_result X H h (RowsOf p ds tag) = (case row_description_parse X p of
     Ok cols \<Rightarrow> (case h_result_start H h cols of
         (Ok _, h1) \<Rightarrow> Option.bind (handle_row_list H cols h1 ds) (\<lambda>h2. handle_tag X H h2 tag)
       | _ \<Rightarrow> None)
   | _ \<Rightarrow> None)"
| "handle_result X H h (TagOnly tag) = handle_tag X H h tag"

fun handle_results :: "ext \<Rightarrow> 'h handler \<Rightarrow> 'h \<Rightarrow> result_set list \<Rightarrow> 'h option" where
  "handle_results X H h [] = Some h"
| "handle_results X H h (r # rs) =
     Option.bind (handle_result X H h r) (\<lambda>h1. handle_results X H h1 rs)"

lemma sq_self_update [simp]:
  "sq_handler m = h \<Longrightarrow> m\<lparr>sq_handler := h\<rparr> = m"
  "sq_state m = s \<Longrightarrow> m\<lparr>sq_handler := h, sq_state := s\<rparr> = m\<lparr>sq_handler := h\<rparr>"
  by (cases m; simp)+

lemma sq_feed_rows:
  "\<lbrakk>sq_state m = SQ_ProcessingRows; row_description_parse X (column_buffer bs) = Ok cols;
    handle_row_list H cols (sq_handler m) ds = Some h'\<rbrakk> \<Longrightarrow>
   feed (sq_step X H) m bs (map (Pair DATA_ROW) ds @ zs) =
     feed (sq_step X H) (m\<lparr>sq_handler := h'\<rparr>) bs zs"
proof (induction ds arbitrary: m bs)
  case (Cons d ds)
  then obtain row h1 u where row: "data_row_parse d = Ok row"
      "h_row H (sq_handler m) cols row = (Ok u, h1)" "handle_row_list H cols h1 ds = Some h'"
    by (auto split: res.splits prod.splits)
  with Cons.IH [of "m\<lparr>sq_handler := h1\<rparr>" bs] Cons.prems show ?case
    by (simp add: sq_step_def is_async_type_def sq_handle_rows_def)
qed simp

lemma sq_feed_tag:
  "\<lbrakk>sq_state m \<in> {SQ_WaitingResponse, SQ_ProcessingRows}; handle_tag X H (sq_handler m) tag = Some h'\<rbrakk> \<Longrightarrow>
   feed (sq_step X H) m bs ((COMMAND_COMPLETE, tag @ [0]) # zs) =
     feed (sq_step X H) (m\<lparr>sq_handler := h', sq_state := SQ_WaitingResponse\<rparr>) bs zs"
  by (auto simp: sq_step_def is_async_type_def sq_handle_response_def sq_handle_rows_def
      handle_tag_def split: if_splits res.splits prod.splits)

lemma sq_feed_result:
  assumes "sq_state m = SQ_WaitingResponse" and "handle_result X H (sq_handler m) rs = Some h'"
  shows "\<exists>bs'. feed (sq_step X H) m bs (result_msgs rs @ zs) =
    feed (sq_step X H) (m\<lparr>sq_handler := h'\<rparr>) bs' zs"
proof (cases rs)
  case (TagOnly tag)
  with assms show ?thesis
    using sq_feed_tag [of m X H tag h' bs zs] by (auto simp del: feed.simps COMMAND_COMPLETE_def)
next
  case (RowsOf p ds tag)
  with assms(2) obtain cols u h1 h2 where *: "row_description_parse X p = Ok cols"
      "h_result_start H (sq_handler m) cols = (Ok u, h1)"
      "handle_row_list H cols h1 ds = Some h2" "handle_tag X H h2 tag = Some h'"
    by (auto simp: bind_eq_Some_conv split: res.splits prod.splits)
  let ?m = "m\<lparr>sq_handler := h1, sq_state := SQ_ProcessingRows\<rparr>"
  have "feed (sq_step X H) m bs (result_msgs rs @ zs) =
      feed (sq_step X H) ?m (bs\<lparr>column_buffer := p\<rparr>)
        (map (Pair DATA_ROW) ds @ (COMMAND_COMPLETE, tag @ [0]) # zs)"
    using assms(1) RowsOf * by (simp add: sq_step_def is_async_type_def sq_handle_response_def)
  also have "\<dots> = feed (sq_step X H) (m\<lparr>sq_handler := h'\<rparr>) (bs\<lparr>column_buffer := p\<rparr>) zs"
    using * assms(1) by (simp add: sq_feed_rows sq_feed_tag del: feed.simps COMMAND_COMPLETE_def DATA_ROW_def)
  finally show ?thesis by blast
qed

lemma sq_feed_results:
  "\<lbrakk>sq_state m = SQ_WaitingResponse; handle_results X H (sq_handler m) rs = Some h'\<rbrakk> \<Longrightarrow>
   \<exists>bs'. feed (sq_step X H) m bs (concat (map result_msgs rs) @ zs) =
     feed (sq_step X H) (m\<lparr>sq_handler := h'\<rparr>) bs' zs"
proof (induction rs arbitrary: m bs)
  case Nil
  then show ?case by auto
next
  case (Cons r rs)
  then obtain h1 where h: "handle_result X H (sq_handler m) r = Some h1"
      "handle_results X H h1 rs = Some h'"
    by (auto simp: bind_eq_Some_conv)
  from sq_feed_result [OF Cons.prems(1) h(1), of bs "concat (map result_msgs rs) @ zs"]
  obtain b1 where b1: "feed (sq_step X H) m bs (result_msgs r @ concat (map result_msgs rs) @ zs) =
      feed (sq_step X H) (m\<lparr>sq_handler := h1\<rparr>) b1 (concat (map result_msgs rs) @ zs)" ..
  from Cons.IH [of "m\<lparr>sq_handler := h1\<rparr>" b1] h(2) Cons.prems(1) b1 show ?case by simp
qed

lemma ready_parse_single [simp]: "ready_for_query_parse [st] = Ok st"
  by (simp add: ready_for_query_parse_def)

lemma sync_ready [simp]: "sync_msg (READY_FOR_QUERY, p)"
  by (simp add: sync_msg_def is_async_type_def)

lemma sq_feed_exchange:
  assumes "sq_state m = SQ_WaitingResponse" and "sq_pending m = None"
    and "handle_results X H (sq_handler m) rs = Some h'"
  shows "\<exists>bs'. feed (sq_step X H) m bs (concat (map result_msgs rs) @ [(READY_FOR_QUERY, [st])]) =
    Some (Ok Finished, m\<lparr>sq_handler := h', sq_tx := tx_or_default st, sq_state := SQ_Finished\<rparr>, bs', [], [])"
proof -
  from sq_feed_results [OF assms(1,3), of bs "[(READY_FOR_QUERY, [st])]"] obtain b1 where
    "feed (sq_step X H) m bs (concat (map result_msgs rs) @ [(READY_FOR_QUERY, [st])]) =
      feed (sq_step X H) (m\<lparr>sq_handler := h'\<rparr>) b1 [(READY_FOR_QUERY, [st])]" ..
  with assms(1) show ?thesis
    by (simp add: sq_step_def is_async_type_def sq_handle_response_def)
qed

lemma sq_feed_error:
  assumes "sq_state m = SQ_WaitingResponse" and "sq_pending m = None"
    and "handle_results X H (sq_handler m) rs = Some h'" and "error_response_parse X ep = Ok e"
  shows "\<exists>bs'. feed (sq_step X H) m bs
      (concat (map result_msgs rs) @ [(ERROR_RESPONSE, ep), (READY_FOR_QUERY, [st])]) =
    Some (Ok (ActionError e),
      m\<lparr>sq_handler := h', sq_tx := tx_or_default st, sq_state := SQ_Finished\<rparr>, bs', [], [])"
proof -
  from sq_feed_results [OF assms(1,3), of bs "[(ERROR_RESPONSE, ep), (READY_FOR_QUERY, [st])]"]
  obtain b1 where
    "feed (sq_step X H) m bs (concat (map result_msgs rs) @ [(ERROR_RESPONSE, ep), (READY_FOR_QUERY, [st])]) =
      feed (sq_step X H) (m\<lparr>sq_handler := h'\<rparr>) b1 [(ERROR_RESPONSE, ep), (READY_FOR_QUERY, [st])]" ..
  with assms show ?thesis
    by (cases m) (simp add: sq_step_def is_async_type_def sq_handle_ready_def)
qed

text \<open>The connection after a query: the rest of the input, the query written, its status.\<close>

definition queried :: "ext \<Rightarrow> conn \<Rightarrow> bytes \<Rightarrow> bytes \<Rightarrow> (byte \<times> bytes) list \<Rightarrow> byte \<Rightarrow> conn \<Rightarrow> bool" where
  "queried X c written rest msgs st c' \<longleftrightarrow>
     inp (c_stream c') = rest \<and> out (c_stream c') = out (c_stream c) @ written \<and>
     writable (c_stream c') = writable (c_stream c) \<and> c_tx c' = tx_or_default st \<and>
     c_async c' = map_option (\<lambda>l. l @ async_of X msgs) (c_async c) \<and>
     c_counter c' = c_counter c \<and> c_key c' = c_key c"

text \<open>An exchange with a server that answers the request with \<open>msgs\<close> and then has \<open>rest\<close> to say.\<close>

definition answers :: "ext \<Rightarrow> conn \<Rightarrow> (byte \<times> bytes) list \<Rightarrow> bytes \<Rightarrow> bool" where
  "answers X c msgs rest \<longleftrightarrow> writable (c_stream c) \<and>
     inp (c_stream c) = concat (map wire msgs) @ rest \<and>
     (\<forall>m \<in> set msgs. small m \<and> async_ok X m) \<and> (msgs \<noteq> [] \<longrightarrow> sync_msg (last msgs))"

lemma conn_query_runs:
  assumes ans: "answers X c msgs rest"
    and script: "filter sync_msg msgs = concat (map result_msgs rs) @ [(READY_FOR_QUERY, [st])]"
    and handled: "handle_results X H h rs = Some h'"
  shows "\<exists>c'. conn_query X H h sql c = Some (Ok (), h', c') \<and> c_broken c' = c_broken c \<and>
    queried X c (F_QUERY # framed (sql @ [0])) rest msgs st c'"
proof -
  let ?m = "(sq_new h sql)\<lparr>sq_state := SQ_WaitingResponse\<rparr>"
  let ?bs = "(c_bufs c)\<lparr>write_buffer := F_QUERY # framed (sql @ [0])\<rparr>"
  have "sq_state ?m = SQ_WaitingResponse" "sq_pending ?m = None" "sq_handler ?m = h"
    by (simp_all add: sq_new_def)
  from sq_feed_exchange [OF this(1,2), of X H rs h' ?bs st] this handled obtain bs' where
    "feed (sq_step X H) ?m ?bs (filter sync_msg msgs) =
      Some (Ok Finished, ?m\<lparr>sq_handler := h', sq_tx := tx_or_default st, sq_state := SQ_Finished\<rparr>, bs', [], [])"
    by (auto simp: script)
  from sqa.feed_filter [OF _ this] ans have
    "feed (sq_step X H) ?m ?bs msgs = Some (Ok Finished,
      ?m\<lparr>sq_handler := h', sq_tx := tx_or_default st, sq_state := SQ_Finished\<rparr>, bs', async_of X msgs, [])"
    by (auto simp: answers_def)
  from drive_feed [OF sq_new_step _ this, of rest sq_tx] ans show ?thesis
    by (auto simp: conn_query_def answers_def stopping_def finish_drive_def mark_broken_def
        queried_def ran_def)
qed

text \<open>
  C1: A simple query against a server that answers with any number of result sets and
  ReadyForQuery, asynchronous messages anywhere in between: the query returns \<open>Ok\<close>, the
  handler has received exactly the calls the result sets stand for, in order, the
  asynchronous messages have been delivered in order, one Query message was written, the
  transaction status is the one reported, and what the server says next is left unread.
\<close>

theorem conn_query_results:
  assumes ans: "answers X c msgs rest"
    and script: "filter sync_msg msgs = concat (map result_msgs rs) @ [(READY_FOR_QUERY, [st])]"
    and handled: "handle_results X H h rs = Some h'"
  shows "\<exists>c'. conn_query X H h sql c = Some (Ok (), h', c') \<and> c_broken c' = c_broken c \<and>
    queried X c (F_QUERY # framed (sql @ [0])) rest msgs st c'"
  by (rule conn_query_runs [OF assms])

definition msgs0 :: "(byte \<times> bytes) list" where
  "msgs0 = [(ROW_DESCRIPTION, cols0), (NOTICE_RESPONSE, notice0), (DATA_ROW, row0),
     (COMMAND_COMPLETE, tag0 @ [0]), (READY_FOR_QUERY, [84])]"

lemma answers0:
  "answers ext0 (conn0 (concat (map wire msgs0) @ rest)) msgs0 rest"
  by (auto simp: answers_def msgs0_def small_def async_ok_def sync_msg_def is_async_type_def
      handle_async_message_def notice_response_parse_def parse_fields_def notice0_def read_cstr_def
      read_cstring_def cols0_def row0_def tag0_def)

lemma tag0_parse: "command_complete_parse ext0 (tag0 @ [0]) = Ok tag0"
  by (simp add: command_complete_parse_def tag0_def read_cstr_def read_cstring_def)

lemma handle_results0:
  "handle_results ext0 drop_handler None [RowsOf cols0 [row0] tag0] = Some (rows_affected tag0)"
proof -
  have "\<exists>cols. row_description_parse ext0 cols0 = Ok cols"
    by (simp add: row_description_parse_def cols0_def slice_to_def slice_from_def from_be_bytes_def
        be_nat_def numeral_eq_Suc read_field_def read_cstr_def read_cstring_def)
  moreover have "\<exists>row. data_row_parse row0 = Ok row"
    by (simp add: data_row_parse_def row0_def slice_to_def slice_from_def)
  ultimately show ?thesis by (auto simp: handle_tag_def tag0_parse)
qed

theorem conn_query_results_witness:
  "\<exists>c'. conn_query ext0 drop_handler None [97] (conn0 (concat (map wire msgs0) @ [90])) =
      Some (Ok (), rows_affected tag0, c') \<and>
    queried ext0 (conn0 (concat (map wire msgs0) @ [90])) (F_QUERY # framed [97, 0]) [90] msgs0 84 c'"
  using conn_query_results [OF answers0 [of "[90]"], of "[RowsOf cols0 [row0] tag0]" 84 drop_handler None
      "rows_affected tag0" "[97]"] handle_results0
  by (auto simp: msgs0_def sync_msg_def is_async_type_def)

text \<open>
  C11: A simple query that the server fails after some result sets: the query returns the
  server's error only after ReadyForQuery, with the status it reports, at the boundary of the
  next exchange; the connection is marked broken exactly for a FATAL or PANIC error.
\<close>

theorem conn_query_server_error:
  assumes ans: "answers X c msgs rest"
    and script: "filter sync_msg msgs =
      concat (map result_msgs rs) @ [(ERROR_RESPONSE, ep), (READY_FOR_QUERY, [st])]"
    and handled: "handle_results X H h rs = Some h'" and err: "error_response_parse X ep = Ok e"
  shows "\<exists>c'. conn_query X H h sql c = Some (Err (Server e), h', c') \<and>
    c_broken c' = (c_broken c \<or> is_connection_broken (Server e)) \<and>
    queried X c (F_QUERY # framed (sql @ [0])) rest msgs st c'"
proof -
  let ?m = "(sq_new h sql)\<lparr>sq_state := SQ_WaitingResponse\<rparr>"
  let ?bs = "(c_bufs c)\<lparr>write_buffer := F_QUERY # framed (sql @ [0])\<rparr>"
  have "sq_state ?m = SQ_WaitingResponse" "sq_pending ?m = None" "sq_handler ?m = h"
    by (simp_all add: sq_new_def)
  from sq_feed_error [OF this(1,2), of X H rs h' ep e ?bs st] this handled err obtain bs' where
    "feed (sq_step X H) ?m ?bs (filter sync_msg msgs) = Some (Ok (ActionError e),
      ?m\<lparr>sq_handler := h', sq_tx := tx_or_default st, sq_state := SQ_Finished\<rparr>, bs', [], [])"
    by (auto simp: script)
  from sqa.feed_filter [OF _ this] ans have
    "feed (sq_step X H) ?m ?bs msgs = Some (Ok (ActionError e),
      ?m\<lparr>sq_handler := h', sq_tx := tx_or_default st, sq_state := SQ_Finished\<rparr>, bs', async_of X msgs, [])"
    by (auto simp: answers_def)
  from drive_feed [OF sq_new_step _ this, of rest sq_tx] ans show ?thesis
    by (auto simp: conn_query_def answers_def stopping_def finish_drive_def mark_broken_def
        queried_def ran_def)
qed

definition emsgs0 :: "(byte \<times> bytes) list" where
  "emsgs0 = [(COMMAND_COMPLETE, tag0 @ [0]), (ERROR_RESPONSE, error0), (READY_FOR_QUERY, [73])]"

lemma eanswers0:
  "answers ext0 (conn0 (concat (map wire emsgs0) @ rest)) emsgs0 rest"
  by (auto simp: answers_def emsgs0_def small_def async_ok_def sync_msg_def is_async_type_def
      tag0_def error0_def)

lemma error0_parse: "\<exists>e. error_response_parse ext0 error0 = Ok e"
  by (simp add: error_response_parse_def parse_fields_def error0_def read_cstr_def read_cstring_def)

theorem conn_query_server_error_witness:
  "\<exists>e c'. conn_query ext0 drop_handler None [97] (conn0 (concat (map wire emsgs0) @ [90])) =
      Some (Err (Server e), rows_affected tag0, c') \<and> inp (c_stream c') = [90]"
proof -
  have script: "filter sync_msg emsgs0 = concat (map result_msgs [TagOnly tag0]) @
      [(ERROR_RESPONSE, error0), (READY_FOR_QUERY, [73])]"
    by (simp add: emsgs0_def sync_msg_def is_async_type_def)
  have handled: "handle_results ext0 drop_handler None [TagOnly tag0] = Some (rows_affected tag0)"
    by (simp add: handle_tag_def tag0_parse)
  obtain e where err: "error_response_parse ext0 error0 = Ok e" using error0_parse by blast
  from conn_query_server_error [OF eanswers0 [of "[90]"] script handled err, of "[97]"]
  show ?thesis by (auto simp only: queried_def)
qed

section \<open>After a query: usable or broken\<close>

lemma query_drop_boundary:
  assumes "query_drop X sql c = Some (r, c')" and "r \<noteq> Panic" and "\<not> c_broken c'"
  shows "at_boundary (inp (c_stream c)) (inp (c_stream c')) (c_tx c') \<and>
    out (c_stream c') = out (c_stream c) @ F_QUERY # framed (sql @ [0]) \<and>
    (\<forall>e. r = Err e \<longrightarrow> (\<exists>s. e = Server s))"
proof -
  obtain q sm c1 where d: "drive (sq_step X drop_handler) sq_tx (sq_new None sql) c = Some (q, sm, c1)"
      "r = rmap (\<lambda>_. sq_handler sm) q" "c' = mark_broken q c1"
    using assms(1) by (auto simp: query_drop_def conn_query_def)
  with assms(2,3) have "q \<noteq> Panic" by auto
  from sq.drive_usable [OF sq_new_initial d(1) this sq_drop_bug _ sq_new_step] d assms(3)
  show ?thesis by (auto simp: mark_broken_def split: res.splits if_splits)
qed


lemma query_drop0:
  "\<exists>c'. query_drop ext0 [97] (conn0 (wire (READY_FOR_QUERY, [84]) @ [90])) = Some (Ok None, c') \<and>
     \<not> c_broken c'"
proof -
  let ?c = "conn0 (wire (READY_FOR_QUERY, [84]) @ [90])"
  have "\<exists>m' bs'. feed (sq_step ext0 drop_handler) ((sq_new None [97])\<lparr>sq_state := SQ_WaitingResponse\<rparr>)
      ((c_bufs ?c)\<lparr>write_buffer := F_QUERY # framed ([97] @ [0])\<rparr>) [(READY_FOR_QUERY, [84])] =
      Some (Ok Finished, m', bs', [], []) \<and> sq_handler m' = None"
    by (simp add: sq_new_def sq_step_def is_async_type_def sq_handle_response_def)
  then obtain m' bs' where f: "feed (sq_step ext0 drop_handler)
      ((sq_new None [97])\<lparr>sq_state := SQ_WaitingResponse\<rparr>)
      ((c_bufs ?c)\<lparr>write_buffer := F_QUERY # framed ([97] @ [0])\<rparr>) [(READY_FOR_QUERY, [84])] =
      Some (Ok Finished, m', bs', [], [])" "sq_handler m' = None" by blast
  from drive_feed [OF sq_new_step _ f(1), of "[90]" sq_tx] f(2) show ?thesis
    by (simp add: query_drop_def conn_query_def stopping_def small_def finish_drive_def
        mark_broken_def ran_def)
qed


end
