(* ===== verification/ExtendedExchange.thy ===== *)
theory ExtendedExchange
  imports SimpleExchange
begin

text \<open>
  The extended query protocol from end to end: \<open>Conn::prepare\<close> and \<open>Conn::exec\<close> against the
  answers of a server.
\<close>

section \<open>The extended protocol\<close>

text \<open>What a server answers to Describe and Execute of a portal.\<close>

fun exec_msgs :: "result_set \<Rightarrow> (byte \<times> bytes) list" where
  "exec_msgs (RowsOf p ds tag) = result_msgs (RowsOf p ds tag)"
| "exec_msgs (TagOnly tag) = [(NO_DATA, []), (COMMAND_COMPLETE, tag @ [0])]"

lemma eq_self_update [simp]:
  "eq_handler m = h \<Longrightarrow> m\<lparr>eq_handler := h\<rparr> = m"
  by (cases m; simp)

lemma eq_feed_rows:
  "\<lbrakk>eq_state m = EQ_ProcessingRows; row_description_parse X (column_buffer bs) = Ok cols;
    handle_row_list H cols (eq_handler m) ds = Some h'\<rbrakk> \<Longrightarrow>
   feed (eq_step X H) m bs (map (Pair DATA_ROW) ds @ zs) =
     feed (eq_step X H) (m\<lparr>eq_handler := h'\<rparr>) bs zs"
proof (induction ds arbitrary: m bs)
  case (Cons d ds)
  then obtain row h1 u where row: "data_row_parse d = Ok row"
      "h_row H (eq_handler m) cols row = (Ok u, h1)" "handle_row_list H cols h1 ds = Some h'"
    by (auto split: res.splits prod.splits)
  with Cons.IH [of "m\<lparr>eq_handler := h1\<rparr>" bs] Cons.prems show ?case
    by (simp add: eq_step_def is_async_type_def eq_handle_rows_def)
qed simp

lemma eq_feed_tag:
  "\<lbrakk>eq_state m = EQ_ProcessingRows; handle_tag X H (eq_handler m) tag = Some h'\<rbrakk> \<Longrightarrow>
   feed (eq_step X H) m bs ((COMMAND_COMPLETE, tag @ [0]) # zs) =
     feed (eq_step X H) (m\<lparr>eq_handler := h', eq_state := EQ_WaitingReady\<rparr>) bs zs"
  by (auto simp: eq_step_def is_async_type_def eq_handle_rows_def
      handle_tag_def split: if_splits res.splits prod.splits)

lemma eq_feed_result:
  assumes "eq_state m = EQ_ProcessingRows" and "handle_result X H (eq_handler m) rs = Some h'"
  shows "\<exists>bs'. feed (eq_step X H) m bs (exec_msgs rs @ zs) =
    feed (eq_step X H) (m\<lparr>eq_handler := h', eq_state := EQ_WaitingReady\<rparr>) bs' zs"
proof (cases rs)
  case (TagOnly tag)
  with assms show ?thesis
    using eq_feed_tag [of m X H tag h' bs zs]
    by (auto simp: eq_step_def is_async_type_def eq_handle_rows_def)
next
  case (RowsOf p ds tag)
  with assms(2) obtain cols u h1 h2 where *: "row_description_parse X p = Ok cols"
      "h_result_start H (eq_handler m) cols = (Ok u, h1)"
      "handle_row_list H cols h1 ds = Some h2" "handle_tag X H h2 tag = Some h'"
    by (auto simp: bind_eq_Some_conv split: res.splits prod.splits)
  have "feed (eq_step X H) m bs (exec_msgs rs @ zs) =
      feed (eq_step X H) (m\<lparr>eq_handler := h1\<rparr>) (bs\<lparr>column_buffer := p\<rparr>)
        (map (Pair DATA_ROW) ds @ (COMMAND_COMPLETE, tag @ [0]) # zs)"
    using assms(1) RowsOf *
    by (simp add: eq_step_def is_async_type_def eq_handle_rows_def eq_start_result_def)
  also have "\<dots> = feed (eq_step X H) (m\<lparr>eq_handler := h', eq_state := EQ_WaitingReady\<rparr>)
      (bs\<lparr>column_buffer := p\<rparr>) zs"
    using * assms(1)
    by (simp add: eq_feed_rows eq_feed_tag del: feed.simps COMMAND_COMPLETE_def DATA_ROW_def)
  finally show ?thesis by blast
qed

lemma eq_feed_ready:
  "eq_state m = EQ_WaitingReady \<Longrightarrow> eq_pending m = None \<Longrightarrow>
   \<exists>bs'. feed (eq_step X H) m bs [(READY_FOR_QUERY, [st])] =
     Some (Ok Finished, m\<lparr>eq_tx := tx_or_default st, eq_state := EQ_Finished\<rparr>, bs', [], [])"
  by (simp add: eq_step_def is_async_type_def eq_handle_ready_def)

lemma eq_feed_error:
  "eq_state m \<noteq> EQ_Initial \<Longrightarrow> error_response_parse X ep = Ok e \<Longrightarrow>
   \<exists>m' bs'. feed (eq_step X H) m bs [(ERROR_RESPONSE, ep), (READY_FOR_QUERY, [st])] =
     Some (Ok (ActionError e), m', bs', [], []) \<and> eq_handler m' = eq_handler m \<and>
     eq_tx m' = tx_or_default st"
  by (simp add: eq_step_def is_async_type_def eq_handle_ready_def)

lemma eq_feed_bind:
  "eq_state m = EQ_WaitingBind \<Longrightarrow> feed (eq_step X H) m bs ((BIND_COMPLETE, p) # zs) =
     feed (eq_step X H) (m\<lparr>eq_state := EQ_ProcessingRows\<rparr>) bs zs"
  by (simp add: eq_step_def is_async_type_def eq_handle_bind_def)

lemma eq_feed_parse:
  "eq_state m = EQ_WaitingParse \<Longrightarrow> eq_operation m = OpExecuteSql \<Longrightarrow>
   feed (eq_step X H) m bs ((PARSE_COMPLETE, p) # zs) =
     feed (eq_step X H) (m\<lparr>eq_state := EQ_WaitingBind\<rparr>) bs zs"
  by (simp add: eq_step_def is_async_type_def eq_handle_parse_def)

text \<open>Whatever the machine, drive it against a server that answers with \<open>msgs\<close>.\<close>

lemma eq_drive:
  assumes ans: "answers X c msgs rest" and init: "eq_step X H m (c_bufs c) = (Ok WriteAndReadMessage, m1, bs1)"
    and "eq_state m1 \<noteq> EQ_Initial" and "stopping r"
    and fed: "feed (eq_step X H) m1 bs1 (filter sync_msg msgs) = Some (r, m', bs', ams, [])"
  shows "drive (eq_step X H) eq_tx m c =
    Some (finish_drive eq_tx r m' (ran c bs' (write_buffer bs1) rest (async_of X msgs)))"
proof -
  from ans have "msgs \<noteq> [] \<longrightarrow> sync_msg (last msgs)" "\<forall>x\<in>set msgs. async_ok X x"
    by (auto simp: answers_def)
  with eqa.feed_filter [OF assms(3) fed] have
    "feed (eq_step X H) m1 bs1 msgs = Some (r, m', bs', async_of X msgs, [])" by blast
  from drive_feed [OF init _ this assms(4), of rest eq_tx] ans show ?thesis
    by (simp add: answers_def)
qed

text \<open>
  C24: Preparing a statement, with asynchronous messages anywhere in the answer: the result
  carries the next statement number, the parameter types of ParameterDescription and the raw
  RowDescription (\<open>None\<close> after NoData); Parse, Describe and Sync were written under that
  number's name, and the rest of the input is left unread.
\<close>

theorem prepare_typed_ok:
  assumes ans: "answers X c msgs rest"
    and script: "filter sync_msg msgs =
      [(PARSE_COMPLETE, p1), (PARAMETER_DESCRIPTION, p2), cols, (READY_FOR_QUERY, [st])]"
    and cols: "cols = (ROW_DESCRIPTION, p3) \<and> desc = Some p3 \<or> cols = (NO_DATA, p3) \<and> desc = None"
    and oids: "parameter_description_parse p2 = Ok oids"
  shows "\<exists>c'. prepare_typed X query param_oids c =
      Some (Ok \<lparr>ps_idx = c_counter c + 1, ps_param_oids = oids, ps_row_desc = desc\<rparr>, c') \<and>
    c_counter c' = c_counter c + 1 \<and>
    queried X (c\<lparr>c_counter := c_counter c + 1\<rparr>)
      (write_sync (write_describe_statement
        (write_parse [] (stmt_name (c_counter c + 1)) query param_oids) (stmt_name (c_counter c + 1))))
      rest msgs st c'"
proof -
  let ?idx = "c_counter c + 1"
  obtain sm bs where sm: "eq_prepare (None :: nat option) (c_bufs c) ?idx query param_oids = (sm, bs)" by fastforce
  let ?c = "c\<lparr>c_counter := ?idx, c_bufs := bs\<rparr>"
  let ?m1 = "sm\<lparr>eq_state := EQ_WaitingParse\<rparr>"
  have init: "eq_step X drop_handler sm (c_bufs ?c) = (Ok WriteAndReadMessage, ?m1, bs)"
    using sm by (auto simp: eq_prepare_def eq_step_def Let_def)
  have "answers X ?c msgs rest" using ans by (simp add: answers_def)
  moreover have "\<exists>m' bs'. feed (eq_step X drop_handler) ?m1 bs (filter sync_msg msgs) =
      Some (Ok Finished, m', bs', [], []) \<and> eq_tx m' = tx_or_default st \<and>
      eq_prepared m' = Some \<lparr>ps_idx = ?idx, ps_param_oids = oids, ps_row_desc = desc\<rparr>"
    using sm cols oids unfolding script
    by (elim disjE) (auto simp: eq_prepare_def eq_step_def is_async_type_def eq_handle_parse_def
        eq_handle_describe_def eq_handle_row_desc_def eq_handle_ready_def Let_def)
  ultimately show ?thesis
    using eq_drive [OF _ init, of msgs rest "Ok Finished"] sm
    by (fastforce simp: prepare_typed_def prepare_inner_def io_mark_def mark_broken_def stopping_def
        finish_drive_def queried_def ran_def eq_prepare_def Let_def)
qed

definition pmsgs0 :: "(byte \<times> bytes) list" where
  "pmsgs0 = [(PARSE_COMPLETE, []), (PARAMETER_DESCRIPTION, [0, 1, 0, 0, 0, 23]),
     (NOTICE_RESPONSE, notice0), (ROW_DESCRIPTION, cols0), (READY_FOR_QUERY, [73])]"

lemma notice0_ok: "\<exists>a. handle_async_message ext0 NOTICE_RESPONSE notice0 = Ok a"
  by (simp add: handle_async_message_def notice_response_parse_def parse_fields_def notice0_def
      read_cstr_def read_cstring_def)

lemma panswers0: "answers ext0 (conn0 (concat (map wire pmsgs0) @ rest)) pmsgs0 rest"
  using notice0_ok
  by (auto simp: answers_def pmsgs0_def small_def async_ok_def sync_msg_def is_async_type_def
      notice0_def cols0_def)

lemma oids0: "parameter_description_parse [0, 1, 0, 0, 0, 23] = Ok [23]"
  by (simp add: parameter_description_parse_def slice_to_def slice_from_def from_be_bytes_def
      be_nat_def read_u32_def)

theorem prepare_typed_ok_witness:
  "\<exists>c'. prepare_typed ext0 [97] [] (conn0 (concat (map wire pmsgs0) @ [90])) =
      Some (Ok \<lparr>ps_idx = 1, ps_param_oids = [23], ps_row_desc = Some cols0\<rparr>, c') \<and>
    inp (c_stream c') = [90]"
  using prepare_typed_ok [OF panswers0 [of "[90]"] _ _ oids0,
      of "[]" "(ROW_DESCRIPTION, cols0)" 73 cols0 "Some cols0" "[97]" "[]"]
  by (auto simp: pmsgs0_def sync_msg_def is_async_type_def queried_def)

lemma exec_start_Ok:
  assumes "exec_start h bs statement params = (Ok sm, bs1)"
  shows "sm = \<lparr>eq_state = EQ_Initial, eq_handler = h,
    eq_operation = (case statement of Sql _ \<Rightarrow> OpExecuteSql | Prepared _ \<Rightarrow> OpExecute),
    eq_tx = Idle, eq_prepared = None, eq_pending = None\<rparr>"
  using assms
  by (auto simp: exec_start_def eq_execute_def eq_execute_sql_def Let_def
      split: statement_ref.splits prod.splits rtry_splits)

lemma eq_execute_step:
  assumes "exec_start h bs statement params = (Ok sm, bs1)"
  shows "eq_step X H sm bs1 = (Ok WriteAndReadMessage, sm\<lparr>eq_state :=
    (case statement of Sql _ \<Rightarrow> EQ_WaitingParse | Prepared _ \<Rightarrow> EQ_WaitingBind)\<rparr>, bs1)"
  using exec_start_Ok [OF assms] by (auto simp: eq_step_def split: statement_ref.splits)

lemma exec_feed:
  assumes start: "exec_start h bs statement params = (Ok sm, bs1)"
    and handled: "handle_result X H h rs = Some h'"
    and m1: "m1 = sm\<lparr>eq_state := (case statement of Sql _ \<Rightarrow> EQ_WaitingParse | Prepared _ \<Rightarrow> EQ_WaitingBind)\<rparr>"
  shows "\<exists>m' bs'. feed (eq_step X H) m1 bs2
      ((case statement of Sql _ \<Rightarrow> [(PARSE_COMPLETE, p1)] | Prepared _ \<Rightarrow> []) @
       (BIND_COMPLETE, p2) # exec_msgs rs @ [(READY_FOR_QUERY, [st])]) =
    Some (Ok Finished, m', bs', [], []) \<and> eq_handler m' = h' \<and> eq_tx m' = tx_or_default st"
proof -
  let ?m = "sm\<lparr>eq_state := EQ_ProcessingRows\<rparr>"
  have "feed (eq_step X H) m1 bs2
      ((case statement of Sql _ \<Rightarrow> [(PARSE_COMPLETE, p1)] | Prepared _ \<Rightarrow> []) @
       (BIND_COMPLETE, p2) # exec_msgs rs @ [(READY_FOR_QUERY, [st])]) =
      feed (eq_step X H) ?m bs2 (exec_msgs rs @ [(READY_FOR_QUERY, [st])])"
    using exec_start_Ok [OF start] m1
    by (simp add: eq_feed_parse eq_feed_bind del: feed.simps PARSE_COMPLETE_def BIND_COMPLETE_def
        split: statement_ref.splits)
  moreover obtain b3 where "feed (eq_step X H) ?m bs2 (exec_msgs rs @ [(READY_FOR_QUERY, [st])]) =
      feed (eq_step X H) (?m\<lparr>eq_handler := h', eq_state := EQ_WaitingReady\<rparr>) b3 [(READY_FOR_QUERY, [st])]"
    using eq_feed_result [of ?m X H rs h' bs2 "[(READY_FOR_QUERY, [st])]"] handled
      exec_start_Ok [OF start] by auto
  ultimately show ?thesis
    using eq_feed_ready [of "?m\<lparr>eq_handler := h', eq_state := EQ_WaitingReady\<rparr>" X H b3 st]
      exec_start_Ok [OF start] by auto
qed

lemma conn_exec_runs:
  assumes ans: "answers X c msgs rest"
    and start: "exec_start h (c_bufs c) statement params = (Ok sm, bs)"
    and script: "filter sync_msg msgs =
      (case statement of Sql _ \<Rightarrow> [(PARSE_COMPLETE, p1)] | Prepared _ \<Rightarrow> []) @
      (BIND_COMPLETE, p2) # exec_msgs rs @ [(READY_FOR_QUERY, [st])]"
    and handled: "handle_result X H h rs = Some h'"
  shows "\<exists>c'. conn_exec X H h statement params c = Some (Ok (), h', c') \<and>
    c_broken c' = c_broken c \<and> queried X c (write_buffer bs) rest msgs st c'"
proof -
  let ?m1 = "sm\<lparr>eq_state := (case statement of Sql _ \<Rightarrow> EQ_WaitingParse | Prepared _ \<Rightarrow> EQ_WaitingBind)\<rparr>"
  let ?c = "c\<lparr>c_bufs := bs\<rparr>"
  from exec_feed [OF start handled refl, of bs p1 p2 st] obtain m' bs' where
    "feed (eq_step X H) ?m1 bs (filter sync_msg msgs) = Some (Ok Finished, m', bs', [], [])"
    "eq_handler m' = h'" "eq_tx m' = tx_or_default st" by (auto simp: script)
  moreover have "answers X ?c msgs rest" using ans by (simp add: answers_def)
  ultimately show ?thesis
    using eq_drive [of X ?c msgs rest H sm ?m1 bs "Ok Finished" m' bs' "[]"] eq_execute_step [OF start, of X H] start
    by (auto simp: conn_exec_def stopping_def finish_drive_def mark_broken_def queried_def ran_def
        split: statement_ref.splits)
qed

text \<open>
  C2: Executing a statement, prepared or raw SQL, against a server that answers with a result
  set: the handler receives \<open>result_start\<close>, each row in order and the tag, the call returns
  \<open>Ok\<close> with the reported status, exactly the messages built by the machine's constructor were
  written, and the rest of the input is left unread.
\<close>

theorem conn_exec_results:
  assumes ans: "answers X c msgs rest"
    and start: "exec_start h (c_bufs c) statement params = (Ok sm, bs)"
    and script: "filter sync_msg msgs =
      (case statement of Sql _ \<Rightarrow> [(PARSE_COMPLETE, p1)] | Prepared _ \<Rightarrow> []) @
      (BIND_COMPLETE, p2) # exec_msgs rs @ [(READY_FOR_QUERY, [st])]"
    and handled: "handle_result X H h rs = Some h'"
  shows "\<exists>c'. conn_exec X H h statement params c = Some (Ok (), h', c') \<and>
    c_broken c' = c_broken c \<and> queried X c (write_buffer bs) rest msgs st c'"
  by (rule conn_exec_runs [OF assms])

definition xmsgs0 :: "(byte \<times> bytes) list" where
  "xmsgs0 = [(PARSE_COMPLETE, []), (BIND_COMPLETE, []), (ROW_DESCRIPTION, cols0), (DATA_ROW, row0),
     (COMMAND_COMPLETE, tag0 @ [0]), (READY_FOR_QUERY, [73])]"

lemma xanswers0: "answers ext0 (conn0 (concat (map wire xmsgs0) @ rest)) xmsgs0 rest"
  by (auto simp: answers_def xmsgs0_def small_def async_ok_def sync_msg_def is_async_type_def
      tag0_def cols0_def row0_def)

lemma exec_start0:
  "\<exists>sm bs. exec_start h buffer_set_new (Sql [97]) params0 = (Ok sm, bs)"
  by (simp add: exec_start_def eq_execute_sql_def params0_def write_bind_def write_parse_framed
      building_encode Let_def)

theorem conn_exec_results_witness:
  "\<exists>c'. conn_exec ext0 drop_handler None (Sql [97]) params0 (conn0 (concat (map wire xmsgs0) @ [90])) =
      Some (Ok (), rows_affected tag0, c') \<and> inp (c_stream c') = [90]"
proof -
  obtain sm bs where start: "exec_start (None :: nat option) (c_bufs (conn0 (concat (map wire xmsgs0) @ [90])))
      (Sql [97]) params0 = (Ok sm, bs)" using exec_start0 by force
  have script: "filter sync_msg xmsgs0 = (case Sql [97] of Sql _ \<Rightarrow> [(PARSE_COMPLETE, [])] | Prepared _ \<Rightarrow> []) @
      (BIND_COMPLETE, []) # exec_msgs (RowsOf cols0 [row0] tag0) @ [(READY_FOR_QUERY, [73])]"
    by (simp add: xmsgs0_def sync_msg_def is_async_type_def)
  have handled: "handle_result ext0 drop_handler None (RowsOf cols0 [row0] tag0) = Some (rows_affected tag0)"
    using handle_results0 by (simp add: bind_eq_Some_conv)
  from conn_exec_results [OF xanswers0 [of "[90]"] start script handled]
  show ?thesis by (auto simp only: queried_def)
qed

text \<open>
  C12: Executing a statement that the server refuses: the error is returned after ReadyForQuery,
  at the boundary of the next exchange, the handler untouched, and the connection is marked
  broken exactly for a FATAL or PANIC error.
\<close>

theorem conn_exec_server_error:
  assumes ans: "answers X c msgs rest"
    and start: "exec_start h (c_bufs c) statement params = (Ok sm, bs)"
    and script: "filter sync_msg msgs = [(ERROR_RESPONSE, ep), (READY_FOR_QUERY, [st])]"
    and err: "error_response_parse X ep = Ok e"
  shows "\<exists>c'. conn_exec X H h statement params c = Some (Err (Server e), h, c') \<and>
    c_broken c' = (c_broken c \<or> is_connection_broken (Server e)) \<and>
    queried X c (write_buffer bs) rest msgs st c'"
proof -
  let ?m1 = "sm\<lparr>eq_state := (case statement of Sql _ \<Rightarrow> EQ_WaitingParse | Prepared _ \<Rightarrow> EQ_WaitingBind)\<rparr>"
  let ?c = "c\<lparr>c_bufs := bs\<rparr>"
  have "eq_state ?m1 \<noteq> EQ_Initial" by (simp split: statement_ref.splits)
  from eq_feed_error [OF this err, of H bs st] obtain m' bs' where
    "feed (eq_step X H) ?m1 bs (filter sync_msg msgs) = Some (Ok (ActionError e), m', bs', [], [])"
    "eq_handler m' = h" "eq_tx m' = tx_or_default st"
    using exec_start_Ok [OF start] by (auto simp: script)
  moreover have "answers X ?c msgs rest" using ans by (simp add: answers_def)
  ultimately show ?thesis
    using eq_drive [of X ?c msgs rest H sm ?m1 bs "Ok (ActionError e)" m' bs' "[]"]
      eq_execute_step [OF start, of X H] start
    by (auto simp: conn_exec_def stopping_def finish_drive_def mark_broken_def queried_def ran_def
        split: statement_ref.splits)
qed

definition xemsgs0 :: "(byte \<times> bytes) list" where
  "xemsgs0 = [(ERROR_RESPONSE, error0), (READY_FOR_QUERY, [73])]"

lemma xeanswers0: "answers ext0 (conn0 (concat (map wire xemsgs0) @ rest)) xemsgs0 rest"
  by (auto simp: answers_def xemsgs0_def small_def async_ok_def sync_msg_def is_async_type_def
      error0_def)

theorem conn_exec_server_error_witness:
  "\<exists>e c'. conn_exec ext0 drop_handler None (Sql [97]) params0 (conn0 (concat (map wire xemsgs0) @ [90])) =
      Some (Err (Server e), None, c') \<and> inp (c_stream c') = [90]"
proof -
  obtain sm bs where start: "exec_start (None :: nat option) (c_bufs (conn0 (concat (map wire xemsgs0) @ [90])))
      (Sql [97]) params0 = (Ok sm, bs)" using exec_start0 by force
  have script: "filter sync_msg xemsgs0 = [(ERROR_RESPONSE, error0), (READY_FOR_QUERY, [73])]"
    by (simp add: xemsgs0_def sync_msg_def is_async_type_def)
  obtain e where err: "error_response_parse ext0 error0 = Ok e" using error0_parse by blast
  from conn_exec_server_error [OF xeanswers0 [of "[90]"] start script err, of drop_handler]
  show ?thesis by (auto simp only: queried_def)
qed

section \<open>After an execution: usable or broken\<close>

text \<open>
  An execution whose rows are discarded leaves the connection either marked broken or at a
  message boundary, whatever bytes the server sends: when \<open>is_broken\<close> is not set afterwards,
  exactly the messages up to the first ReadyForQuery have been read and its status recorded.
\<close>

theorem exec_drop_usable:
  assumes "exec_drop X statement params c = Some (r, c')" and "r \<noteq> Panic" and "\<not> c_broken c'"
    and start: "exec_start (None :: nat option) (c_bufs c) statement params = (Ok sm, bs)"
  shows "at_boundary (inp (c_stream c)) (inp (c_stream c')) (c_tx c') \<and>
    out (c_stream c') = out (c_stream c) @ write_buffer bs \<and> (\<forall>e. r = Err e \<longrightarrow> (\<exists>s. e = Server s))"
proof -
  obtain q sm1 c1 where d: "drive (eq_step X drop_handler) eq_tx sm (c\<lparr>c_bufs := bs\<rparr>) = Some (q, sm1, c1)"
      "r = rmap (\<lambda>_. eq_handler sm1) q" "c' = mark_broken q c1"
    using assms(1) start by (auto simp: exec_drop_def conn_exec_def)
  with assms(2,3) have "q \<noteq> Panic" by auto
  have init: "eq_state sm = EQ_Initial" using exec_start_Ok [OF start] by simp
  have "eq_step X drop_handler sm (c_bufs (c\<lparr>c_bufs := bs\<rparr>)) = (Ok WriteAndReadMessage, sm\<lparr>eq_state :=
      (case statement of Sql _ \<Rightarrow> EQ_WaitingParse | Prepared _ \<Rightarrow> EQ_WaitingBind)\<rparr>, bs)"
    by (simp add: eq_execute_step [OF start])
  from eq.drive_usable [OF init d(1) \<open>q \<noteq> Panic\<close> eq_drop_bug _ this] d assms(3)
  show ?thesis by (auto simp: mark_broken_def split: res.splits if_splits)
qed

lemma exec_drop0:
  assumes "exec_start (None :: nat option) buffer_set_new (Sql [97]) params0 = (Ok sm, bs)"
  shows "\<exists>e c'. exec_drop ext0 (Sql [97]) params0 (conn0 (concat (map wire xemsgs0) @ [90])) =
    Some (Err (Server e), c') \<and> \<not> c_broken c'"
proof -
  let ?c = "(conn0 (concat (map wire xemsgs0) @ [90]))\<lparr>c_bufs := bs\<rparr>"
  obtain e where err: "error_response_parse ext0 error0 = Ok e" "\<not> is_connection_broken (Server e)"
    by (simp add: error_response_parse_def parse_fields_def error0_def read_cstr_def
        read_cstring_def severity_english_def ascii_def)
  have "eq_state (sm\<lparr>eq_state := EQ_WaitingParse\<rparr>) \<noteq> EQ_Initial" by simp
  from eq_feed_error [OF this err(1), of drop_handler bs 73] obtain m' bs' where
    f: "feed (eq_step ext0 drop_handler) (sm\<lparr>eq_state := EQ_WaitingParse\<rparr>) bs (filter sync_msg xemsgs0) =
      Some (Ok (ActionError e), m', bs', [], [])"
    by (auto simp: xemsgs0_def sync_msg_def is_async_type_def)
  have "answers ext0 ?c xemsgs0 [90]" using xeanswers0 [of "[90]"] by (simp add: answers_def)
  from eq_drive [OF this _ _ _ f, of sm] eq_execute_step [OF assms, of ext0 drop_handler] err(2) assms
  show ?thesis
    by (auto simp: exec_drop_def conn_exec_def stopping_def finish_drive_def mark_broken_def ran_def)
qed

theorem exec_drop_usable_witness:
  "\<exists>r c'. exec_drop ext0 (Sql [97]) params0 (conn0 (concat (map wire xemsgs0) @ [90])) = Some (r, c') \<and>
    at_boundary (concat (map wire xemsgs0) @ [90]) (inp (c_stream c')) (c_tx c')"
proof -
  obtain sm bs where start: "exec_start (None :: nat option) buffer_set_new (Sql [97]) params0 = (Ok sm, bs)"
    using exec_start0 [of "None :: nat option"] by blast
  from exec_drop0 [OF this] obtain e c' where
    "exec_drop ext0 (Sql [97]) params0 (conn0 (concat (map wire xemsgs0) @ [90])) = Some (Err (Server e), c')"
    "\<not> c_broken c'" by blast
  with exec_drop_usable [OF this(1) _ this(2), of sm bs] start show ?thesis by auto
qed

section \<open>Calls return\<close>

lemma conn_exec_total: "\<exists>r. conn_exec X H h statement params c = Some r"
proof -
  obtain r bs where "exec_start h (c_bufs c) statement params = (r, bs)" by fastforce
  then show ?thesis
    using eq.drive_total [of X H _ "c\<lparr>c_bufs := bs\<rparr>"]
    by (cases r) (fastforce simp: conn_exec_def)+
qed


end
