(* ===== verification/SyncPortal.thy ===== *)
theory SyncPortal
  imports SyncConn
begin

text \<open>
  The rest of \<open>src/sync/conn.rs\<close>: batch execution, transactions, the low-level methods and
  portals, with \<open>src/sync/transaction.rs\<close>, \<open>named_portal.rs\<close> and \<open>unnamed_portal.rs\<close>. A user
  closure is a function argument of type \<open>io\<close>; a portal is its name.
\<close>

section \<open>Batch execution\<close>

text \<open>\<open>params_list.chunks(chunk_size)\<close>\<close>

function chunks :: "nat \<Rightarrow> 'a list \<Rightarrow> 'a list list" where
  "chunks n xs = (if xs = [] \<or> n = 0 then [] else take n xs # chunks n (drop n xs))"
  by pat_completeness auto
termination by (relation "measure (\<lambda>(n, xs). length xs)") auto

declare chunks.simps [simp del]

text \<open>Bind and Execute for each parameter set of a chunk.\<close>

fun write_executions :: "bytes \<Rightarrow> str \<Rightarrow> oid list \<Rightarrow> to_params list \<Rightarrow> unit res \<times> bytes" where
  "write_executions w name oids [] = (Ok (), w)"
| "write_executions w name oids (params # chunk) =
     (let (r, w1) = write_bind w [] name params oids in
      rtry r w1 (\<lambda>_. write_executions (write_execute w1 [] 0) name oids chunk))"

definition exec_chunk ::
    "ext \<Rightarrow> statement_ref \<Rightarrow> oid list \<Rightarrow> str \<Rightarrow> to_params list \<Rightarrow> unit io" where
  "exec_chunk X stmt_ref param_oids sname chunk c =
     (let w0 = (case stmt_ref of Sql sql \<Rightarrow> write_parse [] [] sql param_oids | Prepared _ \<Rightarrow> []);
          effective_stmt_name = (case stmt_ref of Sql _ \<Rightarrow> [] | Prepared _ \<Rightarrow> sname);
          (r, w1) = write_executions w0 effective_stmt_name param_oids chunk
      in case r of
           Err e \<Rightarrow> Some (Err e, c\<lparr>c_bufs := (c_bufs c)\<lparr>write_buffer := w1\<rparr>\<rparr>)
         | Panic \<Rightarrow> Some (Panic, c\<lparr>c_bufs := (c_bufs c)\<lparr>write_buffer := w1\<rparr>\<rparr>)
         | Ok _ \<Rightarrow>
             map_option (\<lambda>(r, sm, c'). (r, if r = Ok () then c'\<lparr>c_tx := bt_tx sm\<rparr> else c'))
               (drive_batch X (batch_new (case stmt_ref of Sql _ \<Rightarrow> True | Prepared _ \<Rightarrow> False))
                 (c\<lparr>c_bufs := (c_bufs c)\<lparr>write_buffer := write_sync w1\<rparr>\<rparr>)))"

fun exec_chunks ::
    "ext \<Rightarrow> statement_ref \<Rightarrow> oid list \<Rightarrow> str \<Rightarrow> to_params list list \<Rightarrow> unit io" where
  "exec_chunks X stmt_ref param_oids sname [] c = Some (Ok (), c)"
| "exec_chunks X stmt_ref param_oids sname (chunk # cs) c =
     io_bind (exec_chunk X stmt_ref param_oids sname chunk)
       (\<lambda>_. exec_chunks X stmt_ref param_oids sname cs) c"

definition exec_batch_inner ::
    "ext \<Rightarrow> statement_ref \<Rightarrow> to_params list \<Rightarrow> nat \<Rightarrow> unit io" where
  "exec_batch_inner X statement params_list chunk_size =
     (if params_list = [] then (\<lambda>c. Some (Ok (), c))
      else let (param_oids, sname) = (case statement of
               Sql _ \<Rightarrow> (natural_oids (hd params_list), [])
             | Prepared stmt \<Rightarrow> (ps_param_oids stmt, wire_name stmt))
           in exec_chunks X statement param_oids sname (chunks (max chunk_size 1) params_list))"

definition exec_batch_chunked ::
    "ext \<Rightarrow> statement_ref \<Rightarrow> to_params list \<Rightarrow> nat \<Rightarrow> unit io" where
  "exec_batch_chunked X statement params_list chunk_size =
     io_mark (exec_batch_inner X statement params_list chunk_size)"

definition exec_batch :: "ext \<Rightarrow> statement_ref \<Rightarrow> to_params list \<Rightarrow> unit io" where
  "exec_batch X statement params_list = exec_batch_chunked X statement params_list 1000"

section \<open>Low-level methods\<close>

text \<open>\<open>self.buffer_set.write_buffer = w; write_all; flush\<close>\<close>

definition send :: "bytes \<Rightarrow> conn \<Rightarrow> unit res \<times> conn" where
  "send w c = conn_write_flush (c\<lparr>c_bufs := (c_bufs c)\<lparr>write_buffer := w\<rparr>\<rparr>)"

text \<open>The head of each loop: read a message, \<open>continue\<close> when it is asynchronous.\<close>

function next_message :: "conn \<Rightarrow> unit res \<times> conn" where
  "next_message c = (case conn_read_message c of
     (Ok _, c1) \<Rightarrow> if is_async_type (type_byte (c_bufs c1)) then next_message c1 else (Ok (), c1)
   | (Err e, c1) \<Rightarrow> (Err e, c1)
   | (Panic, c1) \<Rightarrow> (Panic, c1))"
  by pat_completeness auto
termination
  by (relation "measure (\<lambda>c. length (inp (c_stream c)))") (auto dest: conn_read_shorter [OF sym])

declare next_message.simps [simp del]

definition server_err :: "ext \<Rightarrow> bytes \<Rightarrow> 'a res" where
  "server_err X payload = rbind (error_response_parse X payload) (\<lambda>e. Err (Server e))"

definition await_complete :: "ext \<Rightarrow> byte \<Rightarrow> string \<Rightarrow> conn \<Rightarrow> unit res \<times> conn" where
  "await_complete X ty msg c =
     (let (r, c1) = next_message c in rtry r c1 (\<lambda>_.
        if type_byte (c_bufs c1) = ty then (Ok (), c1)
        else if type_byte (c_bufs c1) = ERROR_RESPONSE
        then (server_err X (read_buffer (c_bufs c1)), c1)
        else (Err (LibraryBug msg), c1)))"

definition lowlevel_bind_inner :: "ext \<Rightarrow> str \<Rightarrow> str \<Rightarrow> to_params \<Rightarrow> conn \<Rightarrow> unit res \<times> conn" where
  "lowlevel_bind_inner X portal statement_name params c =
     (let (r, w) = write_bind [] portal statement_name params (natural_oids params) in
      rtry r (c\<lparr>c_bufs := (c_bufs c)\<lparr>write_buffer := w\<rparr>\<rparr>) (\<lambda>_.
      let (r, c1) = send (write_flush w) c in
      rtry r c1 (\<lambda>_. await_complete X BIND_COMPLETE
        ''Expected BindComplete or ErrorResponse, got {}'' c1)))"

definition lowlevel_bind :: "ext \<Rightarrow> str \<Rightarrow> str \<Rightarrow> to_params \<Rightarrow> conn \<Rightarrow> unit res \<times> conn" where
  "lowlevel_bind X portal statement_name params c =
     (let (r, c1) = lowlevel_bind_inner X portal statement_name params c in (r, mark_broken r c1))"

lemma next_message_shorter:
  "next_message c = (Ok u, c') \<Longrightarrow> length (inp (c_stream c')) < length (inp (c_stream c))"
proof (induction c rule: next_message.induct)
  case (1 c)
  obtain r c1 where rd: "conn_read_message c = (r, c1)" by fastforce
  show ?case
  proof (cases r)
    case (Ok v)
    with rd 1 conn_read_shorter [of c v c1] show ?thesis
      by (fastforce simp: next_message.simps [of c] split: if_splits)
  qed (use rd 1(2) in \<open>auto simp: next_message.simps [of c]\<close>)
qed

text \<open>The loop of \<open>lowlevel_execute_inner\<close>, with the local column buffer.\<close>

function execute_loop ::
    "ext \<Rightarrow> 'h handler \<Rightarrow> 'h \<Rightarrow> bytes \<Rightarrow> conn \<Rightarrow> bool res \<times> 'h \<times> conn" where
  "execute_loop X H h cbuf c = (case next_message c of
     (Err e, c1) \<Rightarrow> (Err e, h, c1)
   | (Panic, c1) \<Rightarrow> (Panic, h, c1)
   | (Ok _, c1) \<Rightarrow>
      (let ty = type_byte (c_bufs c1); payload = read_buffer (c_bufs c1) in
       if ty = ROW_DESCRIPTION then
         (case row_description_parse X payload of
            Err e \<Rightarrow> (Err e, h, c1)
          | Panic \<Rightarrow> (Panic, h, c1)
          | Ok cols \<Rightarrow> (case h_result_start H h cols of
               (Ok _, h1) \<Rightarrow> execute_loop X H h1 payload c1
             | (Err e, h1) \<Rightarrow> (Err e, h1, c1)
             | (Panic, h1) \<Rightarrow> (Panic, h1, c1)))
       else if ty = NO_DATA then execute_loop X H h cbuf c1
       else if ty = DATA_ROW then
         (case rbind (row_description_parse X cbuf) (\<lambda>cols.
                 rmap (\<lambda>row. (cols, row)) (data_row_parse payload)) of
            Err e \<Rightarrow> (Err e, h, c1)
          | Panic \<Rightarrow> (Panic, h, c1)
          | Ok (cols, row) \<Rightarrow> (case h_row H h cols row of
               (Ok _, h1) \<Rightarrow> execute_loop X H h1 cbuf c1
             | (Err e, h1) \<Rightarrow> (Err e, h1, c1)
             | (Panic, h1) \<Rightarrow> (Panic, h1, c1)))
       else if ty = COMMAND_COMPLETE then
         (case command_complete_parse X payload of
            Err e \<Rightarrow> (Err e, h, c1)
          | Panic \<Rightarrow> (Panic, h, c1)
          | Ok complete \<Rightarrow> (let (r, h1) = h_result_end H h complete in (rmap (\<lambda>_. False) r, h1, c1)))
       else if ty = PORTAL_SUSPENDED then (Ok True, h, c1)
       else if ty = ERROR_RESPONSE then (server_err X payload, h, c1)
       else (Err (LibraryBug ''Unexpected message in execute: {}''), h, c1)))"
  by pat_completeness auto
termination
  by (relation "measure (\<lambda>(X, H, h, b, c). length (inp (c_stream c)))")
    (auto dest: next_message_shorter [OF sym])

declare execute_loop.simps [simp del]

definition lowlevel_execute ::
    "ext \<Rightarrow> 'h handler \<Rightarrow> 'h \<Rightarrow> str \<Rightarrow> u32 \<Rightarrow> conn \<Rightarrow> bool res \<times> 'h \<times> conn" where
  "lowlevel_execute X H h portal max_rows c =
     (let w = write_flush (write_execute (write_describe_portal [] portal) portal max_rows);
          (r, c1) = send w c;
          (r2, h2, c2) = (case r of
              Ok _ \<Rightarrow> execute_loop X H h [] c1 | Err e \<Rightarrow> (Err e, h, c1) | Panic \<Rightarrow> (Panic, h, c1))
      in (r2, h2, mark_broken r2 c2))"

text \<open>The loop of \<open>lowlevel_sync_inner\<close>: errors are kept until ReadyForQuery.\<close>

function sync_loop :: "ext \<Rightarrow> server_error option \<Rightarrow> conn \<Rightarrow> unit res \<times> conn" where
  "sync_loop X pending_error c = (case next_message c of
     (Err e, c1) \<Rightarrow> (Err e, c1)
   | (Panic, c1) \<Rightarrow> (Panic, c1)
   | (Ok _, c1) \<Rightarrow>
      (let ty = type_byte (c_bufs c1); payload = read_buffer (c_bufs c1) in
       if ty = READY_FOR_QUERY then
         (case ready_for_query_parse payload of
            Err e \<Rightarrow> (Err e, c1)
          | Panic \<Rightarrow> (Panic, c1)
          | Ok st \<Rightarrow> (case pending_error of
               Some e \<Rightarrow> (Err (Server e), c1\<lparr>c_tx := tx_or_default st\<rparr>)
             | None \<Rightarrow> (Ok (), c1\<lparr>c_tx := tx_or_default st\<rparr>)))
       else if ty = ERROR_RESPONSE then
         (case error_response_parse X payload of
            Err e \<Rightarrow> (Err e, c1)
          | Panic \<Rightarrow> (Panic, c1)
          | Ok e \<Rightarrow> sync_loop X (Some e) c1)
       else sync_loop X pending_error c1))"
  by pat_completeness auto
termination
  by (relation "measure (\<lambda>(X, p, c). length (inp (c_stream c)))")
    (auto dest: next_message_shorter [OF sym])

declare sync_loop.simps [simp del]

definition lowlevel_sync :: "ext \<Rightarrow> conn \<Rightarrow> unit res \<times> conn" where
  "lowlevel_sync X c =
     (let (r, c1) = send (write_sync []) c; (r2, c2) = rtry r c1 (\<lambda>_. sync_loop X None c1)
      in (r2, mark_broken r2 c2))"

definition lowlevel_flush :: "conn \<Rightarrow> unit res \<times> conn" where
  "lowlevel_flush c = send (write_flush []) c"

definition lowlevel_close_portal :: "ext \<Rightarrow> str \<Rightarrow> conn \<Rightarrow> unit res \<times> conn" where
  "lowlevel_close_portal X portal c =
     (let (r, c1) = send (write_flush (write_close_portal [] portal)) c;
          (r2, c2) = rtry r c1 (\<lambda>_. await_complete X CLOSE_COMPLETE
            ''Expected CloseComplete or ErrorResponse, got {}'' c1)
      in (r2, mark_broken r2 c2))"

section \<open>Portals\<close>

text \<open>
  The loop of \<open>create_named_portal\<close> and of \<open>exec_portal_inner\<close>. The machine's messages are
  all read; the arms for other actions are errors.
\<close>

definition bind_iter ::
    "ext \<Rightarrow> bind_machine \<Rightarrow> conn \<Rightarrow> (unit res \<times> conn) + (bind_machine \<times> conn)" where
  "bind_iter X m c =
     (let (r, m1, bs) = bind_step X m (c_bufs c); c1 = c\<lparr>c_bufs := bs\<rparr>;
          go_on = (\<lambda>(r, c). case r of
              Ok _ \<Rightarrow> Inr (m1, c) | Err e \<Rightarrow> Inl (Err e, c) | Panic \<Rightarrow> Inl (Panic, c))
      in case r of
           Err e \<Rightarrow> Inl (Err e, c1)
         | Panic \<Rightarrow> Inl (Panic, c1)
         | Ok ReadMessage \<Rightarrow> go_on (conn_read_message c1)
         | Ok Write \<Rightarrow> go_on (conn_write_flush c1)
         | Ok WriteAndReadMessage \<Rightarrow>
             go_on (let (w, c2) = conn_write_flush c1 in rtry w c2 (\<lambda>_. conn_read_message c2))
         | Ok Finished \<Rightarrow> Inl (Ok (), c1)
         | Ok _ \<Rightarrow> Inl (Err (LibraryBug ''Unexpected action in bind''), c1))"

partial_function (option) bind_loop :: "ext \<Rightarrow> bind_machine \<Rightarrow> unit io" where
  "bind_loop X m c = (case bind_iter X m c of
     Inl r \<Rightarrow> Some r | Inr (m', c') \<Rightarrow> bind_loop X m' c')"

text \<open>Bind a statement to a portal: \<open>create_named_portal\<close>, and the first half of \<open>exec_portal\<close>.\<close>

definition create_portal :: "ext \<Rightarrow> str \<Rightarrow> statement_ref \<Rightarrow> to_params \<Rightarrow> unit io" where
  "create_portal X portal_name statement params c =
     (let (r, bs) = (case statement of
            Sql sql \<Rightarrow> bind_sql (c_bufs c) portal_name sql params
          | Prepared stmt \<Rightarrow>
              bind_prepared (c_bufs c) portal_name (wire_name stmt) (ps_param_oids stmt) params);
          c1 = c\<lparr>c_bufs := bs\<rparr>
      in case r of
           Ok sm \<Rightarrow> bind_loop X sm c1
         | Err e \<Rightarrow> Some (Err e, c1)
         | Panic \<Rightarrow> Some (Panic, c1))"

text \<open>After the closure the portal is always synced; the closure's error wins.\<close>

definition exec_portal_inner ::
    "ext \<Rightarrow> statement_ref \<Rightarrow> to_params \<Rightarrow> 'a io \<Rightarrow> 'a io" where
  "exec_portal_inner X statement params f =
     io_bind (create_portal X [] statement params) (\<lambda>_ c. case f c of
         None \<Rightarrow> None
       | Some (Panic, c1) \<Rightarrow> Some (Panic, c1)
       | Some (result, c1) \<Rightarrow>
           (let (sync_result, c2) = lowlevel_sync X c1 in
            Some (case (result, sync_result) of
                (_, Panic) \<Rightarrow> (Panic, c2)
              | (Ok v, Ok _) \<Rightarrow> (Ok v, c2)
              | (Err e, _) \<Rightarrow> (Err e, c2)
              | (Ok _, Err e) \<Rightarrow> (Err e, c2)
              | (Panic, _) \<Rightarrow> (Panic, c2))))"

definition exec_portal :: "ext \<Rightarrow> statement_ref \<Rightarrow> to_params \<Rightarrow> 'a io \<Rightarrow> 'a io" where
  "exec_portal X statement params f = io_mark (exec_portal_inner X statement params f)"

definition portal_name :: "u64 \<Rightarrow> str" where
  "portal_name n = ascii ''_zero_p_'' @ show_nat (unat n)"

definition next_portal_name :: "conn \<Rightarrow> str \<times> conn" where
  "next_portal_name c =
     (let c1 = c\<lparr>c_counter := c_counter c + 1\<rparr> in (portal_name (c_counter c1), c1))"

record named_portal =
  np_name :: str
  np_complete :: bool

definition named_portal_exec ::
    "ext \<Rightarrow> 'h handler \<Rightarrow> 'h \<Rightarrow> named_portal \<Rightarrow> u32 \<Rightarrow> conn \<Rightarrow>
       unit res \<times> named_portal \<times> 'h \<times> conn" where
  "named_portal_exec X H h p max_rows c =
     (let (r, h1, c1) = lowlevel_execute X H h (np_name p) max_rows c in
      case r of
        Ok has_more \<Rightarrow> (Ok (), p\<lparr>np_complete := \<not> has_more\<rparr>, h1, c1)
      | Err e \<Rightarrow> (Err e, p, h1, c1)
      | Panic \<Rightarrow> (Panic, p, h1, c1))"

definition named_portal_close :: "ext \<Rightarrow> named_portal \<Rightarrow> conn \<Rightarrow> unit res \<times> conn" where
  "named_portal_close X p c =
     (let (r, c1) = lowlevel_close_portal X (np_name p) c in rtry r c1 (\<lambda>_. lowlevel_sync X c1))"

section \<open>Transactions\<close>

text \<open>A \<open>Transaction\<close> is the connection id it was started on.\<close>

definition tx_commit :: "ext \<Rightarrow> u32 \<Rightarrow> unit io" where
  "tx_commit X tx c =
     (if tx \<noteq> conn_id c
      then Some (Err (InvalidUsage ''connection mismatch: expected {}, got {}''), c)
      else map_option (\<lambda>(r, c'). (rmap (\<lambda>_. ()) r, c')) (query_drop X (ascii ''COMMIT'') c))"

definition tx_rollback :: "ext \<Rightarrow> u32 \<Rightarrow> unit io" where
  "tx_rollback X tx c =
     (if tx \<noteq> conn_id c
      then Some (Err (InvalidUsage ''connection mismatch: expected {}, got {}''), c)
      else map_option (\<lambda>(r, c'). (rmap (\<lambda>_. ()) r, c')) (query_drop X (ascii ''ROLLBACK'') c))"

definition exec_portal_named ::
    "ext \<Rightarrow> u32 \<Rightarrow> statement_ref \<Rightarrow> to_params \<Rightarrow> named_portal io" where
  "exec_portal_named X tx statement params c =
     (if tx \<noteq> conn_id c
      then Some (Err (InvalidUsage ''connection mismatch: expected {}, got {}''), c)
      else let (name, c1) = next_portal_name c in
        map_option (\<lambda>(r, c2). (rmap (\<lambda>_. \<lparr>np_name = name, np_complete = False\<rparr>) r, mark_broken r c2))
          (create_portal X name statement params c1))"

definition conn_transaction :: "ext \<Rightarrow> (u32 \<Rightarrow> 'a io) \<Rightarrow> 'a io" where
  "conn_transaction X f c =
     (if conn_in_transaction c
      then Some (Err (InvalidUsage ''nested transactions are not supported''), c)
      else io_bind (query_drop X (ascii ''BEGIN'')) (\<lambda>_ c1.
        case f (conn_id c1) c1 of
          None \<Rightarrow> None
        | Some (Panic, c2) \<Rightarrow> Some (Panic, c2)
        | Some (result, c2) \<Rightarrow>
            (if conn_in_transaction c2 then
               (case result of
                  Ok _ \<Rightarrow> io_bind (query_drop X (ascii ''COMMIT'')) (\<lambda>_ c3. Some (result, c3)) c2
                | _ \<Rightarrow> map_option (\<lambda>(r, c3). (if r = Panic then Panic else result, c3))
                         (query_drop X (ascii ''ROLLBACK'') c2))
             else Some (result, c2))) c)"

end
