(* ===== verification/PortalFacts.thy ===== *)
theory PortalFacts
  imports SyncPortal SimpleExchange
begin

text \<open>
  The low-level methods, portals and transactions: where they leave the stream, whatever the
  server sends and whatever the caller's closure does.
\<close>

section \<open>Reading up to a message\<close>

text \<open>\<open>next_message\<close> reads asynchronous messages and then one that is not.\<close>

lemma next_message_reads:
  "next_message c = (Ok u, c') \<Longrightarrow> \<exists>ms. reads (inp (c_stream c))
      (ms @ [(type_byte (c_bufs c'), read_buffer (c_bufs c'))]) (inp (c_stream c')) \<and>
    (\<forall>m \<in> set ms. is_async_type (fst m)) \<and> \<not> is_async_type (type_byte (c_bufs c')) \<and>
    out (c_stream c') = out (c_stream c) \<and> c_broken c' = c_broken c \<and> c_tx c' = c_tx c"
proof (induction c rule: next_message.induct)
  case (1 c)
  obtain c1 where rd: "conn_read_message c = (Ok (), c1)"
    using "1.prems" by (cases "conn_read_message c") (auto simp: next_message.simps [of c] split: res.splits)
  then obtain m rest where m: "parse_msg (inp (c_stream c)) = Some (m, rest)" "c1 = got m rest c"
    by (auto simp: conn_read_iff)
  show ?case
  proof (cases "is_async_type (type_byte (c_bufs c1))")
    case True
    with "1.prems" rd have "next_message c1 = (Ok u, c')" by (simp add: next_message.simps [of c])
    from "1.IH" [OF rd [symmetric] refl True this] obtain ms where "reads (inp (c_stream c1))
        (ms @ [(type_byte (c_bufs c'), read_buffer (c_bufs c'))]) (inp (c_stream c'))"
        "\<forall>m \<in> set ms. is_async_type (fst m)" "\<not> is_async_type (type_byte (c_bufs c'))"
        "out (c_stream c') = out (c_stream c1)" "c_broken c' = c_broken c1" "c_tx c' = c_tx c1"
      by blast
    with m True show ?thesis by (intro exI [of _ "m # ms"]) auto
  next
    case False
    with "1.prems" rd have "c' = c1" by (simp add: next_message.simps [of c])
    with m False show ?thesis by (intro exI [of _ "[]"]) auto
  qed
qed

lemma next_message_Err:
  "next_message c = (Err e, c') \<Longrightarrow> e = Io UnexpectedEof"
  "next_message c \<noteq> (Panic, c')"
proof (induction c rule: next_message.induct)
  case (1 c)
  {
    case 1
    with "1.IH" show ?case
      by (cases "conn_read_message c")
        (auto simp: next_message.simps [of c] dest: conn_read_Err split: res.splits if_splits)
  next
    case 2
    with "1.IH" show ?case
      by (cases "conn_read_message c")
        (auto simp: next_message.simps [of c] split: res.splits if_splits)
  }
qed

lemma reads_append: "reads d (ms @ ns) r \<longleftrightarrow> (\<exists>d'. reads d ms d' \<and> reads d' ns r)"
  by (induction ms arbitrary: d) (auto split: option.splits)

lemma at_boundary_reads:
  assumes "reads d ms d'" and "READY_FOR_QUERY \<notin> fst ` set ms" and "at_boundary d' r t"
  shows "at_boundary d r t"
proof -
  from assms(3) obtain ns st where "reads d' (ns @ [(READY_FOR_QUERY, [st])]) r"
      "READY_FOR_QUERY \<notin> fst ` set ns" "t = tx_or_default st" by (auto simp: at_boundary_def)
  with assms(1,2) show ?thesis
    unfolding at_boundary_def by (intro exI [of _ "ms @ ns"] exI [of _ st]) (auto simp: reads_append)
qed

section \<open>Sync\<close>

lemma sync_loop_boundary:
  "\<lbrakk>sync_loop X pending c = (r, c'); r = Ok () \<or> (\<exists>s. r = Err (Server s))\<rbrakk> \<Longrightarrow>
   at_boundary (inp (c_stream c)) (inp (c_stream c')) (c_tx c') \<and>
   out (c_stream c') = out (c_stream c) \<and> c_broken c' = c_broken c"
proof (induction X pending c rule: sync_loop.induct)
  case (1 X pending c)
  obtain n c1 where n: "next_message c = (n, c1)" by fastforce
  from "1.prems" n next_message_Err [of c] obtain u where u: "n = Ok u"
    by (cases n) (auto simp: sync_loop.simps [of X pending c])
  from next_message_reads [OF n [unfolded u]] obtain ms where ms: "reads (inp (c_stream c))
      (ms @ [(type_byte (c_bufs c1), read_buffer (c_bufs c1))]) (inp (c_stream c1))"
    "\<forall>m \<in> set ms. is_async_type (fst m)" "out (c_stream c1) = out (c_stream c)"
    "c_broken c1 = c_broken c" by blast
  then have asy: "READY_FOR_QUERY \<notin> fst ` set ms" by (auto simp: is_async_type_def)
  let ?ty = "type_byte (c_bufs c1)"
  have rest: ?case if "sync_loop X p c1 = (r, c')" "?ty \<noteq> READY_FOR_QUERY"
      "at_boundary (inp (c_stream c1)) (inp (c_stream c')) (c_tx c') \<and>
       out (c_stream c') = out (c_stream c1) \<and> c_broken c' = c_broken c1" for p
    using that ms asy at_boundary_reads [OF ms(1)] by auto
  consider (ready) "?ty = READY_FOR_QUERY" | (error) "?ty = ERROR_RESPONSE" "?ty \<noteq> READY_FOR_QUERY"
    | (other) "?ty \<noteq> READY_FOR_QUERY" "?ty \<noteq> ERROR_RESPONSE" by blast
  then show ?case
  proof cases
    case ready
    with "1.prems" n u show ?thesis
      using ms asy
      by (auto simp: sync_loop.simps [of X pending c] Let_def ready_for_query_parse_def at_boundary_def
          split: list.splits option.splits intro!: exI [of _ ms])
  next
    case error
    with "1.prems" n u obtain e where e: "error_response_parse X (read_buffer (c_bufs c1)) = Ok e"
        "sync_loop X (Some e) c1 = (r, c')"
      by (auto simp: sync_loop.simps [of X pending c] Let_def split: res.splits dest: bug_dest)
    from "1.IH"(1) [OF n [symmetric] u refl refl] error e "1.prems"(2) rest show ?thesis by simp
  next
    case other
    with "1.prems" n u have "sync_loop X pending c1 = (r, c')"
      by (auto simp: sync_loop.simps [of X pending c] Let_def)
    from "1.IH"(2) [OF n [symmetric] u refl refl] other this "1.prems"(2) rest show ?thesis by simp
  qed
qed

text \<open>Errors of the loop are the stream's, library bugs, or the server's.\<close>

lemma sync_loop_Err:
  "sync_loop X pending c = (Err e, c') \<Longrightarrow> is_bug e \<or> e = Io UnexpectedEof \<or> (\<exists>s. e = Server s)"
proof (induction X pending c rule: sync_loop.induct)
  case (1 X pending c)
  obtain n c1 where n: "next_message c = (n, c1)" by fastforce
  show ?case
  proof (cases n)
    case (Ok u)
    note IH = "1.IH" [OF n [symmetric] Ok refl refl]
    from "1.prems" n Ok IH show ?thesis
      by (auto simp: sync_loop.simps [of X pending c] Let_def split: if_splits res.splits option.splits
          dest: bug_dest)
  qed (use "1.prems" n next_message_Err [of c] in \<open>auto simp: sync_loop.simps [of X pending c]\<close>)
qed

lemma bug_broken: "is_bug e \<Longrightarrow> is_connection_broken e"
  by (auto simp: is_bug_def split: error.splits)

lemma sync_boundary:
  assumes "lowlevel_sync X c = (r, c')" and "r \<noteq> Panic" and "\<not> c_broken c'"
  shows "at_boundary (inp (c_stream c)) (inp (c_stream c')) (c_tx c') \<and>
    out (c_stream c') = out (c_stream c) @ F_SYNC # framed [] \<and>
    (\<forall>e. r = Err e \<longrightarrow> (\<exists>s. e = Server s))"
proof (cases "writable (c_stream c)")
  case True
  let ?c1 = "c\<lparr>c_bufs := (c_bufs c)\<lparr>write_buffer := write_sync []\<rparr>,
    c_stream := (c_stream c)\<lparr>out := out (c_stream c) @ write_sync []\<rparr>\<rparr>"
  obtain q c2 where q: "sync_loop X None ?c1 = (q, c2)" by fastforce
  with True assms(1) have r: "r = q" "c' = mark_broken q c2"
    by (auto simp: lowlevel_sync_def send_def)
  have "q = Ok () \<or> (\<exists>s. q = Err (Server s))"
  proof (cases q)
    case (Err e)
    with sync_loop_Err [of X None ?c1 e c2] q r assms(3) bug_broken show ?thesis
      by (auto simp: mark_broken_def split: if_splits)
  qed (use assms(2) r in auto)
  with sync_loop_boundary [OF q this] r show ?thesis
    by (auto simp: mark_broken_def frontend_framed split: if_splits)
next
  case False
  with assms show ?thesis
    by (auto simp: lowlevel_sync_def send_def conn_write_flush_fail mark_broken_def)
qed

text \<open>
  \<open>lowlevel_sync\<close> resynchronises: after it the connection is either marked broken or at a
  message boundary. Unless it is marked broken, a Sync has been written, the messages up to
  the first ReadyForQuery, whatever they are, have been read, the status has been recorded, and
  the only possible error is one the server sent on the way.
\<close>

theorem lowlevel_sync_resync:
  assumes "lowlevel_sync X c = (r, c')" and "r \<noteq> Panic" and "\<not> c_broken c'"
  shows "at_boundary (inp (c_stream c)) (inp (c_stream c')) (c_tx c') \<and>
    out (c_stream c') = out (c_stream c) @ F_SYNC # framed [] \<and>
    (\<forall>e. r = Err e \<longrightarrow> (\<exists>s. e = Server s))"
  by (rule sync_boundary [OF assms])

lemma next_message_wire:
  "inp (c_stream c) = wire m @ rest \<Longrightarrow> small m \<Longrightarrow> sync_msg m \<Longrightarrow>
     next_message c = (Ok (), got m rest c)"
  by (simp add: next_message.simps [of c] sync_msg_def)

lemma lowlevel_sync0:
  "\<exists>c'. lowlevel_sync ext0 (conn0 (wire (DATA_ROW, row0) @ wire (READY_FOR_QUERY, [69]) @ [90])) = (Ok (), c') \<and>
     \<not> c_broken c' \<and> c_tx c' = tx_or_default 69"
  by (simp add: lowlevel_sync_def send_def sync_loop.simps next_message_wire [where m = "(DATA_ROW, row0)"
      and rest = "wire (READY_FOR_QUERY, [69]) @ [90]"] next_message_wire [where m = "(READY_FOR_QUERY, [69])"
      and rest = "[90]"] small_def row0_def sync_msg_def is_async_type_def mark_broken_def Let_def)

theorem lowlevel_sync_resync_witness:
  "\<exists>c'. lowlevel_sync ext0 (conn0 (wire (DATA_ROW, row0) @ wire (READY_FOR_QUERY, [69]) @ [90])) = (Ok (), c') \<and>
     at_boundary (wire (DATA_ROW, row0) @ wire (READY_FOR_QUERY, [69]) @ [90])
       (inp (c_stream c')) (tx_or_default 69)"
proof -
  obtain c' where "lowlevel_sync ext0 (conn0 (wire (DATA_ROW, row0) @ wire (READY_FOR_QUERY, [69]) @ [90])) = (Ok (), c')"
    "\<not> c_broken c'" "c_tx c' = tx_or_default 69" using lowlevel_sync0 by blast
  with lowlevel_sync_resync [OF this(1) _ this(2)] show ?thesis by auto
qed

section \<open>Portals\<close>

text \<open>Binding a portal, when the server agrees.\<close>

definition bind_request :: "str \<Rightarrow> statement_ref \<Rightarrow> to_params \<Rightarrow> bytes option list \<Rightarrow> bytes" where
  "bind_request portal statement params vs = (case statement of
     Sql sql \<Rightarrow> write_parse [] [] sql (natural_oids params) @
       F_BIND # framed (bind_payload portal [] (natural_oids params) vs)
   | Prepared stmt \<Rightarrow> F_BIND # framed (bind_payload portal (wire_name stmt) (ps_param_oids stmt) vs)) @
   write_flush []"

definition bind_oids :: "statement_ref \<Rightarrow> to_params \<Rightarrow> oid list" where
  "bind_oids statement params = (case statement of
     Sql _ \<Rightarrow> natural_oids params | Prepared stmt \<Rightarrow> ps_param_oids stmt)"

lemma bind_start:
  assumes "encodes params (bind_oids statement params) vs"
  shows "(case statement of
      Sql sql \<Rightarrow> bind_sql bs portal sql params
    | Prepared stmt \<Rightarrow> bind_prepared bs portal (wire_name stmt) (ps_param_oids stmt) params) =
    (Ok \<lparr>bd_state = BD_Initial, bd_needs_parse = (case statement of Sql _ \<Rightarrow> True | Prepared _ \<Rightarrow> False)\<rparr>,
     bs\<lparr>write_buffer := bind_request portal statement params vs\<rparr>)"
  using assms write_bind_framed
  by (auto simp: bind_oids_def bind_sql_def bind_prepared_def bind_request_def frontend_framed Let_def
      split: statement_ref.splits)

lemma create_portal_ok:
  assumes "encodes params (bind_oids statement params) vs" and "writable (c_stream c)"
    and "inp (c_stream c) = (case statement of Sql _ \<Rightarrow> wire (PARSE_COMPLETE, []) | Prepared _ \<Rightarrow> []) @
      wire (BIND_COMPLETE, []) @ rest"
  shows "\<exists>c'. create_portal X portal statement params c = Some (Ok (), c') \<and>
    inp (c_stream c') = rest \<and> writable (c_stream c') \<and> c_broken c' = c_broken c \<and>
    out (c_stream c') = out (c_stream c) @ bind_request portal statement params vs"
proof -
  have small: "small (PARSE_COMPLETE, [])" "small (BIND_COMPLETE, [])" by (simp_all add: small_def)
  have rd: "bind_loop X m (got (ty, []) r d) = (case bind_iter X m (got (ty, []) r d) of
      Inl r \<Rightarrow> Some r | Inr (m', c') \<Rightarrow> bind_loop X m' c')" for m ty r d
    by (rule bind_loop.simps)
  show ?thesis
  proof (cases statement)
    case (Sql sql)
    with assms bind_start [OF assms(1), of "c_bufs c" portal] small show ?thesis
      by (simp add: create_portal_def bind_loop.simps [of X "\<lparr>bd_state = BD_Initial, bd_needs_parse = True\<rparr>"]
          rd bind_iter_def bind_step_def is_async_type_def del: wire_Cons)
  next
    case (Prepared stmt)
    with assms bind_start [OF assms(1), of "c_bufs c" portal] small show ?thesis
      by (simp add: create_portal_def bind_loop.simps [of X "\<lparr>bd_state = BD_Initial, bd_needs_parse = False\<rparr>"]
          rd bind_iter_def bind_step_def is_async_type_def del: wire_Cons)
  qed
qed

text \<open>
  C40: After the closure of \<open>exec_portal\<close> has run on a bound portal, however it used the
  connection and whatever it returned, the portal is synced: the call returns the closure's
  value or error, or the server's error when the closure succeeded, and leaves the connection
  marked broken or at the boundary after the first ReadyForQuery of what the closure left
  unread.
\<close>

theorem exec_portal_syncs:
  assumes "create_portal X [] statement params c = Some (Ok (), c1)" and "f c1 = Some (q, c2)" and "q \<noteq> Panic"
    and "exec_portal X statement params f c = Some (r, c')" and "r \<noteq> Panic" and "\<not> c_broken c'"
  shows "at_boundary (inp (c_stream c2)) (inp (c_stream c')) (c_tx c') \<and>
    out (c_stream c') = out (c_stream c2) @ F_SYNC # framed [] \<and>
    (r = q \<or> (\<exists>v s. q = Ok v \<and> r = Err (Server s)))"
proof -
  obtain sr c3 where s: "lowlevel_sync X c2 = (sr, c3)" by fastforce
  have c3: "c' = mark_broken r c3" "sr \<noteq> Panic" "(case q of Err e \<Rightarrow> r = Err e
      | Ok v \<Rightarrow> (case sr of Ok _ \<Rightarrow> r = Ok v | Err e \<Rightarrow> r = Err e | Panic \<Rightarrow> False) | Panic \<Rightarrow> False)"
    using assms(1-5) s
    by (cases q; cases sr; auto simp: exec_portal_def exec_portal_inner_def io_mark_def io_bind_def)+
  then have "\<not> c_broken c3" using assms(6) by (auto simp: mark_broken_def split: res.splits if_splits)
  from sync_boundary [OF s c3(2) this] c3 assms(6) show ?thesis
    by (auto simp: mark_broken_def split: res.splits if_splits)
qed

lemma params0_encodes: "encodes params0 (bind_oids (Sql sql) params0) [Some [0, 0, 0, 5]]"
  by (simp add: encodes_def params0_def good_value_def)

theorem exec_portal_syncs_witness:
  "\<exists>c'. exec_portal ext0 (Sql [97]) params0 (\<lambda>c. Some (Ok (5 :: nat), c))
      (conn0 (wire (PARSE_COMPLETE, []) @ wire (BIND_COMPLETE, []) @ wire (READY_FOR_QUERY, [73]) @ [90])) =
      Some (Ok 5, c') \<and>
    at_boundary (wire (READY_FOR_QUERY, [73]) @ [90]) (inp (c_stream c')) (c_tx c')"
proof -
  let ?c = "conn0 (wire (PARSE_COMPLETE, []) @ wire (BIND_COMPLETE, []) @ wire (READY_FOR_QUERY, [73]) @ [90])"
  obtain c1 where c1: "create_portal ext0 [] (Sql [97]) params0 ?c = Some (Ok (), c1)"
      "inp (c_stream c1) = wire (READY_FOR_QUERY, [73]) @ [90]" "writable (c_stream c1)" "\<not> c_broken c1"
    using create_portal_ok [OF params0_encodes, of ?c "[97]" "wire (READY_FOR_QUERY, [73]) @ [90]" ext0 "[]"]
    by auto
  have "\<exists>c'. lowlevel_sync ext0 c1 = (Ok (), c') \<and> \<not> c_broken c'"
    using c1
    by (simp add: lowlevel_sync_def send_def sync_loop.simps next_message_wire [where m = "(READY_FOR_QUERY, [73])"
        and rest = "[90]"] small_def sync_msg_def is_async_type_def mark_broken_def Let_def)
  then obtain c' where "exec_portal ext0 (Sql [97]) params0 (\<lambda>c. Some (Ok (5 :: nat), c)) ?c = Some (Ok 5, c')"
      "\<not> c_broken c'"
    using c1 by (auto simp: exec_portal_def exec_portal_inner_def io_mark_def io_bind_def mark_broken_def)
  with exec_portal_syncs [OF c1(1) _ _ this(1), of "Ok 5" c1] c1(2) show ?thesis by auto
qed

section \<open>Transactions\<close>

definition query_bytes :: "string \<Rightarrow> bytes" where
  "query_bytes sql = F_QUERY # framed (ascii sql @ [0])"

lemma query_drop_ok:
  assumes "query_drop X sql c = Some (Ok n, c')"
  shows "at_boundary (inp (c_stream c)) (inp (c_stream c')) (c_tx c') \<and>
    out (c_stream c') = out (c_stream c) @ F_QUERY # framed (sql @ [0])"
proof -
  obtain u h where "conn_query X drop_handler None sql c = Some (Ok u, h, c')"
    using assms by (auto simp: query_drop_def res_simps)
  from conn_query_ok [OF this] show ?thesis by simp
qed

text \<open>
  A transaction that returns a value has been bracketed: the connection was not in a
  transaction, BEGIN was sent and answered, the closure ran on the connection at that
  boundary and returned this value, and if it left the transaction open COMMIT was sent and
  answered up to its ReadyForQuery; nothing was sent in its place when the closure had ended
  the transaction itself.
\<close>

theorem transaction_committed:
  assumes "conn_transaction X f c = Some (Ok v, c')"
  shows "\<not> conn_in_transaction c \<and> (\<exists>c1 c2. f (conn_id c1) c1 = Some (Ok v, c2) \<and>
    at_boundary (inp (c_stream c)) (inp (c_stream c1)) (c_tx c1) \<and>
    out (c_stream c1) = out (c_stream c) @ query_bytes ''BEGIN'' \<and>
    (if conn_in_transaction c2
     then at_boundary (inp (c_stream c2)) (inp (c_stream c')) (c_tx c') \<and>
       out (c_stream c') = out (c_stream c2) @ query_bytes ''COMMIT''
     else c' = c2))"
proof -
  obtain n c1 where bg: "\<not> conn_in_transaction c" "query_drop X (ascii ''BEGIN'') c = Some (Ok n, c1)"
    using assms by (auto simp: conn_transaction_def io_bind_def split: if_splits option.splits res.splits)
  obtain q c2 where f: "f (conn_id c1) c1 = Some (q, c2)"
    using assms bg by (auto simp: conn_transaction_def io_bind_def split: option.splits)
  have "q = Ok v \<and> (if conn_in_transaction c2
      then \<exists>m. query_drop X (ascii ''COMMIT'') c2 = Some (Ok m, c') else c' = c2)"
    using assms bg f
    by (cases q) (auto simp: conn_transaction_def io_bind_def split: if_splits option.splits res.splits)
  with bg f query_drop_ok [OF bg(2)] query_drop_ok [of X "ascii ''COMMIT''" c2] show ?thesis
    by (intro conjI exI [of _ c1] exI [of _ c2]) (auto simp: query_bytes_def)
qed

text \<open>A statement without rows, such as BEGIN.\<close>

lemma query_drop_tag:
  assumes "writable (c_stream c)" and "inp (c_stream c) = wire (COMMAND_COMPLETE, tag @ [0]) @ wire (READY_FOR_QUERY, [st]) @ rest"
    and "command_complete_parse X (tag @ [0]) = Ok tag" and "length tag < 1000"
  shows "\<exists>c'. query_drop X sql c = Some (Ok (rows_affected tag), c') \<and> c_broken c' = c_broken c \<and>
    queried X c (F_QUERY # framed (sql @ [0])) rest [(COMMAND_COMPLETE, tag @ [0]), (READY_FOR_QUERY, [st])] st c'"
proof -
  let ?ms = "[(COMMAND_COMPLETE, tag @ [0]), (READY_FOR_QUERY, [st])]"
  have "answers X c ?ms rest"
    using assms by (auto simp: answers_def small_def async_ok_def sync_msg_def is_async_type_def)
  from conn_query_runs [OF this, of "[TagOnly tag]" st drop_handler None "rows_affected tag" sql] assms(3)
  show ?thesis
    by (force simp: sync_msg_def is_async_type_def handle_tag_def query_drop_def)
qed

definition begin0 :: str where "begin0 = [66, 69, 71, 73, 78]"
definition commit0 :: str where "commit0 = [67, 79, 77, 77, 73, 84]"

lemma tags0_parse:
  "command_complete_parse ext0 (begin0 @ [0]) = Ok begin0"
  "command_complete_parse ext0 (commit0 @ [0]) = Ok commit0"
  by (simp_all add: command_complete_parse_def begin0_def commit0_def read_cstr_def read_cstring_def)

definition tx_input :: "bytes \<Rightarrow> bytes" where
  "tx_input rest = wire (COMMAND_COMPLETE, begin0 @ [0]) @ wire (READY_FOR_QUERY, [84]) @
     wire (COMMAND_COMPLETE, commit0 @ [0]) @ wire (READY_FOR_QUERY, [73]) @ rest"

lemma begin0_run:
  "\<exists>c1. query_drop ext0 (ascii ''BEGIN'') (conn0 (tx_input rest)) = Some (Ok (rows_affected begin0), c1) \<and>
     writable (c_stream c1) \<and> conn_in_transaction c1 \<and>
     inp (c_stream c1) = wire (COMMAND_COMPLETE, commit0 @ [0]) @ wire (READY_FOR_QUERY, [73]) @ rest"
proof -
  let ?rest = "wire (COMMAND_COMPLETE, commit0 @ [0]) @ wire (READY_FOR_QUERY, [73]) @ rest"
  have "inp (c_stream (conn0 (tx_input rest))) =
      wire (COMMAND_COMPLETE, begin0 @ [0]) @ wire (READY_FOR_QUERY, [84]) @ ?rest"
    by (simp add: tx_input_def)
  from query_drop_tag [OF _ this tags0_parse(1), of "ascii ''BEGIN''"] obtain c1 where
    "query_drop ext0 (ascii ''BEGIN'') (conn0 (tx_input rest)) = Some (Ok (rows_affected begin0), c1)"
    "queried ext0 (conn0 (tx_input rest)) (F_QUERY # framed (ascii ''BEGIN'' @ [0])) ?rest
      [(COMMAND_COMPLETE, begin0 @ [0]), (READY_FOR_QUERY, [84])] 84 c1"
    by (auto simp: begin0_def)
  then show ?thesis
    by (simp add: queried_def conn_in_transaction_def tx_or_default_def tx_from_byte_def)
qed

theorem transaction_committed_witness:
  "\<exists>c1 c'. conn_transaction ext0 (\<lambda>tx c. Some (Ok (5 :: nat), c)) (conn0 (tx_input [90])) = Some (Ok 5, c') \<and>
     out (c_stream c1) = query_bytes ''BEGIN'' \<and>
     (if conn_in_transaction c1 then out (c_stream c') = out (c_stream c1) @ query_bytes ''COMMIT'' else c' = c1)"
proof -
  obtain c1 where c1: "query_drop ext0 (ascii ''BEGIN'') (conn0 (tx_input [90])) = Some (Ok (rows_affected begin0), c1)"
     "writable (c_stream c1)" "conn_in_transaction c1"
     "inp (c_stream c1) = wire (COMMAND_COMPLETE, commit0 @ [0]) @ wire (READY_FOR_QUERY, [73]) @ [90]"
    using begin0_run by blast
  obtain c' where "query_drop ext0 (ascii ''COMMIT'') c1 = Some (Ok (rows_affected commit0), c')"
    using query_drop_tag [OF c1(2,4) tags0_parse(2), of "ascii ''COMMIT''"] by (auto simp: commit0_def)
  then have run: "conn_transaction ext0 (\<lambda>tx c. Some (Ok (5 :: nat), c)) (conn0 (tx_input [90])) = Some (Ok 5, c')"
    using c1 by (simp add: conn_transaction_def io_bind_def conn_in_transaction_def [of "conn0 _"])
  from transaction_committed [OF run] run show ?thesis by (auto split: if_splits)
qed

end
