(* ===== verification/TransactionFacts.thy ===== *)
theory TransactionFacts
  imports PortalFacts
begin

text \<open>
  What is written whatever the peer answers, and what a transaction does when its closure fails.
\<close>

section \<open>The request is written once\<close>

lemma conn_read_keeps:
  "conn_read_message c = (r, c') \<Longrightarrow> out (c_stream c') = out (c_stream c) \<and>
     writable (c_stream c') = writable (c_stream c)"
  by (auto simp: conn_read_message_def stream_read_message_def stream_read_u8_def
      stream_read_exact_def Let_def split: rtry_splits if_splits list.splits prod.splits)

context query_machine
begin

lemma iter_stop_out:
  assumes "\<not> initial m" and "drive_iter step tx m c = Inl (r, m', c')"
  shows "out (c_stream c') = out (c_stream c)"
proof -
  obtain q m1 bs where s: "step m (c_bufs c) = (q, m1, bs)" by (metis prod_cases3)
  show ?thesis
  proof (cases q)
    case (Ok a)
    from later [OF assms(1) s [unfolded Ok]] assms(2) s Ok show ?thesis
      by (auto simp: drive_iter_def Let_def conn_handle_async_def split: res.splits prod.splits
          dest!: conn_read_keeps)
  qed (use assms(2) s in \<open>auto simp: drive_iter_def Let_def\<close>)
qed

lemma drive_started_out:
  "\<not> initial m \<Longrightarrow> drive step tx m c = Some (r, m', c') \<Longrightarrow> out (c_stream c') = out (c_stream c)"
proof (induction "length (inp (c_stream c))" arbitrary: m c rule: less_induct)
  case less
  show ?case
  proof (cases "drive_iter step tx m c")
    case (Inl q)
    with less.prems iter_stop_out [of m c r m' c'] show ?thesis by (subst (asm) drive.simps) auto
  next
    case (Inr mc)
    obtain m1 c1 where mc: "mc = (m1, c1)" by (cases mc)
    from iter_continue [OF less.prems(1) Inr [unfolded mc]]
    have 1: "\<not> initial m1" "length (inp (c_stream c1)) < length (inp (c_stream c))"
      "out (c_stream c1) = out (c_stream c)"
      by (auto dest: parse_msg_shorter)
    moreover have "drive step tx m1 c1 = Some (r, m', c')"
      using less.prems(2) by (subst (asm) drive.simps) (simp add: Inr mc)
    ultimately show ?thesis using less.hyps [of c1 m1] by simp
  qed
qed

text \<open>Whatever the peer answers, the request is written exactly once.\<close>

lemma drive_writes_once:
  assumes "initial m" and "step m (c_bufs c) = (Ok WriteAndReadMessage, m1, bs)" and "writable (c_stream c)"
    and "drive step tx m c = Some (r, m', c')"
  shows "out (c_stream c') = out (c_stream c) @ write_buffer bs"
proof -
  let ?c = "c\<lparr>c_bufs := bs, c_stream := (c_stream c)\<lparr>out := out (c_stream c) @ write_buffer bs\<rparr>\<rparr>"
  obtain q c2 where rd: "conn_read_message ?c = (q, c2)" by (cases "conn_read_message ?c")
  from conn_read_keeps [OF this] have o: "out (c_stream c2) = out (c_stream c) @ write_buffer bs" by simp
  have "\<not> initial m1" using first [OF assms(1,2)] by simp
  with assms(2-4) rd o show ?thesis
    by (subst (asm) drive.simps)
      (auto simp: drive_iter_def Let_def dest: drive_started_out split: res.splits)
qed

end

lemma conn_query_out:
  assumes "conn_query X H h sql c = Some (r, h', c')" and "writable (c_stream c)"
  shows "out (c_stream c') = out (c_stream c) @ F_QUERY # framed (sql @ [0])"
proof -
  obtain q sm c1 where d: "drive (sq_step X H) sq_tx (sq_new h sql) c = Some (q, sm, c1)"
      "c' = mark_broken q c1"
    using assms(1) by (auto simp: conn_query_def)
  from sq.drive_writes_once [OF sq_new_initial sq_new_step assms(2) d(1)] d(2) show ?thesis
    by (auto simp: mark_broken_def split: res.splits)
qed

section \<open>A closure that fails\<close>

text \<open>
  C25: When the closure of a transaction fails and leaves the transaction open, ROLLBACK is
  written exactly once, whatever the server answers; the call returns the closure's own error,
  not the one ROLLBACK may end with, and the connection is then marked broken or at the
  boundary after ROLLBACK's answer. A malformed answer can only make the call panic.
\<close>

theorem transaction_rolled_back:
  assumes "\<not> conn_in_transaction c" and "query_drop X (ascii ''BEGIN'') c = Some (Ok n, c1)"
    and "f (conn_id c1) c1 = Some (Err e, c2)" and "conn_in_transaction c2"
    and "writable (c_stream c2)"
  shows "\<exists>r c'. conn_transaction X f c = Some (r, c') \<and>
    out (c_stream c') = out (c_stream c2) @ query_bytes ''ROLLBACK'' \<and>
    (r = Panic \<or> r = Err e \<and>
      (c_broken c' \<or> at_boundary (inp (c_stream c2)) (inp (c_stream c')) (c_tx c')))"
proof -
  obtain q h c' where run: "conn_query X drop_handler None (ascii ''ROLLBACK'') c2 = Some (q, h, c')"
    using conn_query_total [of X drop_handler None "ascii ''ROLLBACK''" c2] by (metis prod_cases3)
  then have drop: "query_drop X (ascii ''ROLLBACK'') c2 = Some (rmap (\<lambda>_. h) q, c')"
    by (simp add: query_drop_def)
  have "conn_transaction X f c = Some (if rmap (\<lambda>_. h) q = Panic then Panic else Err e, c')"
    using assms drop by (simp add: conn_transaction_def io_bind_def)
  moreover have "out (c_stream c') = out (c_stream c2) @ query_bytes ''ROLLBACK''"
    using conn_query_out [OF run assms(5)] by (simp add: query_bytes_def)
  moreover have "rmap (\<lambda>_. h) q \<noteq> Panic \<Longrightarrow> \<not> c_broken c' \<Longrightarrow>
      at_boundary (inp (c_stream c2)) (inp (c_stream c')) (c_tx c')"
    using query_drop_boundary [OF drop] by simp
  ultimately show ?thesis by auto
qed

theorem transaction_rolled_back_witness:
  "\<exists>c1 c'. query_drop ext0 (ascii ''BEGIN'') (conn0 (tx_input [90])) = Some (Ok (rows_affected begin0), c1) \<and>
    conn_transaction ext0 (\<lambda>tx c. Some (Err (InvalidUsage ''stop'') :: nat res, c)) (conn0 (tx_input [90])) =
      Some (Err (InvalidUsage ''stop''), c') \<and>
    out (c_stream c') = out (c_stream c1) @ query_bytes ''ROLLBACK''"
proof -
  obtain c1 where c1: "query_drop ext0 (ascii ''BEGIN'') (conn0 (tx_input [90])) = Some (Ok (rows_affected begin0), c1)"
     "writable (c_stream c1)" "conn_in_transaction c1"
     "inp (c_stream c1) = wire (COMMAND_COMPLETE, commit0 @ [0]) @ wire (READY_FOR_QUERY, [73]) @ [90]"
    using begin0_run by blast
  let ?f = "\<lambda>tx c. Some (Err (InvalidUsage ''stop'') :: nat res, c :: conn)"
  have idle: "\<not> conn_in_transaction (conn0 (tx_input [90]))" by (simp add: conn_in_transaction_def)
  obtain c' where ok: "query_drop ext0 (ascii ''ROLLBACK'') c1 = Some (Ok (rows_affected commit0), c')"
    using query_drop_tag [OF c1(2,4) tags0_parse(2), of "ascii ''ROLLBACK''"] by (auto simp: commit0_def)
  have "conn_transaction ext0 ?f (conn0 (tx_input [90])) = Some (Err (InvalidUsage ''stop''), c')"
    using c1 ok idle by (simp add: conn_transaction_def io_bind_def)
  with transaction_rolled_back [where f = ?f, OF idle c1(1) refl c1(3,2)] c1(1) show ?thesis
    by (intro exI [of _ c1] exI [of _ c']) auto
qed

end
