(* ===== verification/Pipeline.thy ===== *)
theory Pipeline
  imports SyncPortal
begin

text \<open>
  \<open>src/sync/pipeline/mod.rs\<close> and \<open>src/pipeline.rs\<close>: pipeline mode. A pipeline is the record of
  its fields with the connection it borrows; its methods return the new pipeline on every
  path. Reading loops recurse on the remaining input.
\<close>

section \<open>Tickets and expectations\<close>

record ticket =
  t_seq :: nat
  t_stmt :: "prepared_statement option"

datatype expectation = ParseBindExecute | BindExecute | Sync

record pipeline =
  pl_conn :: conn
  pl_queue_seq :: nat
  pl_claim_seq :: nat
  pl_aborted :: bool
  pl_expectations :: "expectation list"

definition set_write :: "bytes \<Rightarrow> conn \<Rightarrow> conn" where
  "set_write w c = c\<lparr>c_bufs := (c_bufs c)\<lparr>write_buffer := w\<rparr>\<rparr>"

definition pipeline_new :: "conn \<Rightarrow> pipeline" where
  "pipeline_new c =
     \<lparr>pl_conn = set_write [] c, pl_queue_seq = 0, pl_claim_seq = 0, pl_aborted = False,
      pl_expectations = []\<rparr>"

definition pl_write :: "pipeline \<Rightarrow> bytes" where
  "pl_write p = write_buffer (c_bufs (pl_conn p))"

definition set_pl_write :: "bytes \<Rightarrow> pipeline \<Rightarrow> pipeline" where
  "set_pl_write w p = p\<lparr>pl_conn := set_write w (pl_conn p)\<rparr>"

definition push_expectation :: "expectation \<Rightarrow> pipeline \<Rightarrow> pipeline" where
  "push_expectation e p = p\<lparr>pl_expectations := pl_expectations p @ [e]\<rparr>"

section \<open>Queueing\<close>

definition exec_sql_inner :: "str \<Rightarrow> to_params \<Rightarrow> pipeline \<Rightarrow> unit res \<times> pipeline" where
  "exec_sql_inner sql params p =
     (let param_oids = natural_oids params;
          w1 = write_parse (pl_write p) [] sql param_oids;
          (r, w2) = write_bind w1 [] [] params param_oids
      in rtry r (set_pl_write w2 p) (\<lambda>_.
        (Ok (), push_expectation ParseBindExecute
          (set_pl_write (write_execute (write_describe_portal w2 []) [] 0) p))))"

definition exec_prepared_inner ::
    "str \<Rightarrow> oid list \<Rightarrow> to_params \<Rightarrow> pipeline \<Rightarrow> unit res \<times> pipeline" where
  "exec_prepared_inner name param_oids params p =
     (let (r, w) = write_bind (pl_write p) [] name params param_oids in
      rtry r (set_pl_write w p) (\<lambda>_.
        (Ok (), push_expectation BindExecute (set_pl_write (write_execute w [] 0) p))))"

definition pl_exec :: "statement_ref \<Rightarrow> to_params \<Rightarrow> pipeline \<Rightarrow> ticket res \<times> pipeline" where
  "pl_exec statement params p =
     (let seq = pl_queue_seq p; p1 = p\<lparr>pl_queue_seq := seq + 1\<rparr> in
      case statement of
        Sql sql \<Rightarrow>
          (let (r, p2) = exec_sql_inner sql params p1 in
           rtry r p2 (\<lambda>_. (Ok \<lparr>t_seq = seq, t_stmt = None\<rparr>, p2)))
      | Prepared stmt \<Rightarrow>
          (let (r, p2) = exec_prepared_inner (wire_name stmt) (ps_param_oids stmt) params p1 in
           rtry r p2 (\<lambda>_. (Ok \<lparr>t_seq = seq, t_stmt = Some stmt\<rparr>, p2))))"

text \<open>Write and flush; the write buffer is cleared only when that succeeded.\<close>

definition pl_send :: "pipeline \<Rightarrow> unit res \<times> pipeline" where
  "pl_send p =
     (let (r, c) = conn_write_flush (pl_conn p); p1 = p\<lparr>pl_conn := c\<rparr>
      in rtry r p1 (\<lambda>_. (Ok (), set_pl_write [] p1)))"

definition pl_flush :: "pipeline \<Rightarrow> unit res \<times> pipeline" where
  "pl_flush p =
     (if pl_write p \<noteq> [] then pl_send (set_pl_write (write_flush (pl_write p)) p) else (Ok (), p))"

definition pl_sync :: "pipeline \<Rightarrow> unit res \<times> pipeline" where
  "pl_sync p =
     (let (r, p1) = pl_send (push_expectation Sync (set_pl_write (write_sync (pl_write p)) p))
      in (r, p1\<lparr>pl_conn := mark_broken r (pl_conn p1)\<rparr>))"

section \<open>Reading\<close>

text \<open>\<open>read_next_message\<close>: skip asynchronous messages, turn an ErrorResponse into an error.\<close>

definition read_next_message :: "ext \<Rightarrow> conn \<Rightarrow> unit res \<times> conn" where
  "read_next_message X c =
     (let (r, c1) = next_message c in
      rtry r c1 (\<lambda>_.
        if type_byte (c_bufs c1) = ERROR_RESPONSE
        then (server_err X (read_buffer (c_bufs c1)), c1) else (Ok (), c1)))"

function consume_ready_for_query :: "ext \<Rightarrow> conn \<Rightarrow> unit res \<times> conn" where
  "consume_ready_for_query X c = (case next_message c of
     (Err e, c1) \<Rightarrow> (Err e, c1)
   | (Panic, c1) \<Rightarrow> (Panic, c1)
   | (Ok _, c1) \<Rightarrow>
      (if type_byte (c_bufs c1) = ERROR_RESPONSE
       then (server_err X (read_buffer (c_bufs c1)), c1)
       else if type_byte (c_bufs c1) = READY_FOR_QUERY then
         (case ready_for_query_parse (read_buffer (c_bufs c1)) of
            Ok st \<Rightarrow> (Ok (), c1\<lparr>c_tx := tx_or_default st\<rparr>)
          | Err e \<Rightarrow> (Err e, c1)
          | Panic \<Rightarrow> (Panic, c1))
       else consume_ready_for_query X c1))"
  by pat_completeness auto
termination
  by (relation "measure (\<lambda>(X, c). length (inp (c_stream c)))")
    (auto dest: next_message_shorter [OF sym])

declare consume_ready_for_query.simps [simp del]

lemma read_next_message_shorter:
  "read_next_message X c = (Ok u, c') \<Longrightarrow> length (inp (c_stream c')) < length (inp (c_stream c))"
  by (auto simp: read_next_message_def server_err_def res_simps split: rtry_splits if_splits
      prod.splits dest: next_message_shorter)

text \<open>The loop of \<open>claim_rows_inner\<close>, after RowDescription or NoData.\<close>

function claim_rows_loop ::
    "ext \<Rightarrow> 'h handler \<Rightarrow> 'h \<Rightarrow> bool \<Rightarrow> conn \<Rightarrow> unit res \<times> 'h \<times> conn" where
  "claim_rows_loop X H h has_rows c = (case read_next_message X c of
     (Err e, c1) \<Rightarrow> (Err e, h, c1)
   | (Panic, c1) \<Rightarrow> (Panic, h, c1)
   | (Ok _, c1) \<Rightarrow>
      (let ty = type_byte (c_bufs c1); payload = read_buffer (c_bufs c1) in
       if ty = DATA_ROW then
         (if \<not> has_rows
          then (Err (LibraryBug ''received DataRow but no RowDescription''), h, c1)
          else (case rbind (row_description_parse X (column_buffer (c_bufs c1))) (\<lambda>cols.
                  rmap (\<lambda>row. (cols, row)) (data_row_parse payload)) of
              Err e \<Rightarrow> (Err e, h, c1)
            | Panic \<Rightarrow> (Panic, h, c1)
            | Ok (cols, row) \<Rightarrow> (case h_row H h cols row of
                (Ok _, h1) \<Rightarrow> claim_rows_loop X H h1 has_rows c1
              | (Err e, h1) \<Rightarrow> (Err e, h1, c1)
              | (Panic, h1) \<Rightarrow> (Panic, h1, c1))))
       else if ty = COMMAND_COMPLETE then
         (case command_complete_parse X payload of
            Err e \<Rightarrow> (Err e, h, c1)
          | Panic \<Rightarrow> (Panic, h, c1)
          | Ok cmd \<Rightarrow> (let (r, h1) = h_result_end H h cmd in (r, h1, c1)))
       else if ty = EMPTY_QUERY_RESPONSE then (Ok (), h, c1)
       else (Err (LibraryBug ''unexpected message type in pipeline claim: {}''), h, c1)))"
  by pat_completeness auto
termination
  by (relation "measure (\<lambda>(X, H, h, b, c). length (inp (c_stream c)))")
    (auto dest: read_next_message_shorter [OF sym])

declare claim_rows_loop.simps [simp del]

text \<open>Continue with \<open>f\<close> after a read, keeping the handler on an error.\<close>

definition htry ::
    "unit res \<times> conn \<Rightarrow> 'h \<Rightarrow> (conn \<Rightarrow> unit res \<times> 'h \<times> conn) \<Rightarrow> unit res \<times> 'h \<times> conn" where
  "htry rc h f = (case rc of
     (Ok _, c) \<Rightarrow> f c | (Err e, c) \<Rightarrow> (Err e, h, c) | (Panic, c) \<Rightarrow> (Panic, h, c))"

definition claim_rows_inner ::
    "ext \<Rightarrow> 'h handler \<Rightarrow> 'h \<Rightarrow> conn \<Rightarrow> unit res \<times> 'h \<times> conn" where
  "claim_rows_inner X H h c = htry (read_next_message X c) h (\<lambda>c1.
     if type_byte (c_bufs c1) = ROW_DESCRIPTION
     then claim_rows_loop X H h True (c1\<lparr>c_bufs := save_column_buffer (c_bufs c1)\<rparr>)
     else if type_byte (c_bufs c1) = NO_DATA then claim_rows_loop X H h False c1
     else (Err (LibraryBug ''expected RowDescription or NoData, got {}''), h, c1))"

function claim_rows_cached_inner ::
    "ext \<Rightarrow> 'h handler \<Rightarrow> 'h \<Rightarrow> bytes option \<Rightarrow> conn \<Rightarrow> unit res \<times> 'h \<times> conn" where
  "claim_rows_cached_inner X H h row_desc c = (case read_next_message X c of
     (Err e, c1) \<Rightarrow> (Err e, h, c1)
   | (Panic, c1) \<Rightarrow> (Panic, h, c1)
   | (Ok _, c1) \<Rightarrow>
      (let ty = type_byte (c_bufs c1); payload = read_buffer (c_bufs c1) in
       if ty = DATA_ROW then
         (case rbind (ok_or row_desc (LibraryBug ''received DataRow but no RowDescription cached''))
                 (\<lambda>rd. rbind (row_description_parse X rd) (\<lambda>cols.
                  rmap (\<lambda>row. (cols, row)) (data_row_parse payload))) of
            Err e \<Rightarrow> (Err e, h, c1)
          | Panic \<Rightarrow> (Panic, h, c1)
          | Ok (cols, row) \<Rightarrow> (case h_row H h cols row of
              (Ok _, h1) \<Rightarrow> claim_rows_cached_inner X H h1 row_desc c1
            | (Err e, h1) \<Rightarrow> (Err e, h1, c1)
            | (Panic, h1) \<Rightarrow> (Panic, h1, c1)))
       else if ty = COMMAND_COMPLETE then
         (case command_complete_parse X payload of
            Err e \<Rightarrow> (Err e, h, c1)
          | Panic \<Rightarrow> (Panic, h, c1)
          | Ok cmd \<Rightarrow> (let (r, h1) = h_result_end H h cmd in (r, h1, c1)))
       else if ty = EMPTY_QUERY_RESPONSE then (Ok (), h, c1)
       else (Err (LibraryBug ''unexpected message type in pipeline claim: {}''), h, c1)))"
  by pat_completeness auto
termination
  by (relation "measure (\<lambda>(X, H, h, b, c). length (inp (c_stream c)))")
    (auto dest: read_next_message_shorter [OF sym])

declare claim_rows_cached_inner.simps [simp del]

definition claim_parse_bind_exec_inner ::
    "ext \<Rightarrow> 'h handler \<Rightarrow> 'h \<Rightarrow> conn \<Rightarrow> unit res \<times> 'h \<times> conn" where
  "claim_parse_bind_exec_inner X H h c = htry (read_next_message X c) h (\<lambda>c1.
     if type_byte (c_bufs c1) \<noteq> PARSE_COMPLETE
     then (Err (LibraryBug ''expected {}, got {}''), h, c1)
     else htry (read_next_message X c1) h (\<lambda>c2.
       if type_byte (c_bufs c2) \<noteq> BIND_COMPLETE
       then (Err (LibraryBug ''expected {}, got {}''), h, c2)
       else claim_rows_inner X H h c2))"

definition claim_bind_exec_inner ::
    "ext \<Rightarrow> 'h handler \<Rightarrow> 'h \<Rightarrow> prepared_statement option \<Rightarrow> conn \<Rightarrow> unit res \<times> 'h \<times> conn" where
  "claim_bind_exec_inner X H h stmt c = htry (read_next_message X c) h (\<lambda>c1.
     if type_byte (c_bufs c1) \<noteq> BIND_COMPLETE
     then (Err (LibraryBug ''expected {}, got {}''), h, c1)
     else claim_rows_cached_inner X H h (Option.bind stmt ps_row_desc) c1)"

section \<open>Claiming\<close>

function consume_pending_syncs :: "ext \<Rightarrow> pipeline \<Rightarrow> unit res \<times> pipeline" where
  "consume_pending_syncs X p = (case pl_expectations p of
     Sync # es \<Rightarrow>
       (let (r, c) = consume_ready_for_query X (pl_conn p);
            p1 = p\<lparr>pl_expectations := es, pl_conn := c\<rparr>
        in case r of
             Ok _ \<Rightarrow> consume_pending_syncs X (p1\<lparr>pl_aborted := False\<rparr>)
           | Err e \<Rightarrow> (Err e, p1)
           | Panic \<Rightarrow> (Panic, p1))
   | _ \<Rightarrow> (Ok (), p))"
  by pat_completeness auto
termination by (relation "measure (\<lambda>(X, p). length (pl_expectations p))") auto

declare consume_pending_syncs.simps [simp del]

definition check_sequence :: "nat \<Rightarrow> pipeline \<Rightarrow> unit res" where
  "check_sequence seq p =
     (if seq \<noteq> pl_claim_seq p
      then Err (InvalidUsage ''claim out of order: expected seq {}, got {}'') else Ok ())"

text \<open>The claim once its sequence number is checked and the buffer is sent.\<close>

definition claim_sent ::
    "ext \<Rightarrow> 'h handler \<Rightarrow> 'h \<Rightarrow> ticket \<Rightarrow> pipeline \<Rightarrow> unit res \<times> 'h \<times> pipeline" where
  "claim_sent X H h ticket p =
     (if pl_aborted p then
        (let (r, p1) = consume_pending_syncs X
               (p\<lparr>pl_claim_seq := pl_claim_seq p + 1, pl_expectations := tl (pl_expectations p)\<rparr>)
         in case r of
              Ok _ \<Rightarrow> (Err (LibraryBug ''pipeline aborted due to earlier error''), h, p1)
            | Err e \<Rightarrow> (Err e, h, p1)
            | Panic \<Rightarrow> (Panic, h, p1))
      else
        (let p1 = p\<lparr>pl_expectations := tl (pl_expectations p)\<rparr>;
             (result, h1, c1) = (case pl_expectations p of
                ParseBindExecute # _ \<Rightarrow> claim_parse_bind_exec_inner X H h (pl_conn p1)
              | BindExecute # _ \<Rightarrow> claim_bind_exec_inner X H h (t_stmt ticket) (pl_conn p1)
              | Sync # _ \<Rightarrow> (Err (LibraryBug ''unexpected Sync expectation''), h, pl_conn p1)
              | [] \<Rightarrow> (Err (LibraryBug ''no expectation in queue''), h, pl_conn p1))
         in case result of
              Panic \<Rightarrow> (Panic, h1, p1\<lparr>pl_conn := c1\<rparr>)
            | _ \<Rightarrow>
              (let p2 = p1\<lparr>pl_conn := mark_broken result c1,
                           pl_aborted := (case result of Err _ \<Rightarrow> True | _ \<Rightarrow> pl_aborted p1),
                           pl_claim_seq := pl_claim_seq p1 + 1\<rparr>;
                   (r, p3) = consume_pending_syncs X p2
               in case r of
                    Ok _ \<Rightarrow> (result, h1, p3)
                  | Err e \<Rightarrow> (Err e, h1, p3)
                  | Panic \<Rightarrow> (Panic, h1, p3))))"

definition claim_with_handler ::
    "ext \<Rightarrow> 'h handler \<Rightarrow> 'h \<Rightarrow> ticket \<Rightarrow> pipeline \<Rightarrow> unit res \<times> 'h \<times> pipeline" where
  "claim_with_handler X H h ticket p = (case check_sequence (t_seq ticket) p of
     Err e \<Rightarrow> (Err e, h, p)
   | Panic \<Rightarrow> (Panic, h, p)
   | Ok _ \<Rightarrow>
      (if pl_write p \<noteq> [] then
         (case pl_sync p of
            (Ok _, p1) \<Rightarrow> claim_sent X H h ticket p1
          | (Err e, p1) \<Rightarrow> (Err e, h, p1)
          | (Panic, p1) \<Rightarrow> (Panic, h, p1))
       else claim_sent X H h ticket p))"

definition claim_collect ::
    "ext \<Rightarrow> (row_description \<Rightarrow> data_row \<Rightarrow> 'a res) \<Rightarrow> ticket \<Rightarrow> pipeline \<Rightarrow> 'a list res \<times> pipeline" where
  "claim_collect X from_row ticket p =
     (let (r, h, p1) = claim_with_handler X (collect_handler from_row) [] ticket p
      in (rmap (\<lambda>_. h) r, p1))"

definition claim_one ::
    "ext \<Rightarrow> (row_description \<Rightarrow> data_row \<Rightarrow> 'a res) \<Rightarrow> ticket \<Rightarrow> pipeline \<Rightarrow> 'a option res \<times> pipeline" where
  "claim_one X from_row ticket p =
     (let (r, h, p1) = claim_with_handler X (first_row_handler from_row) None ticket p
      in (rmap (\<lambda>_. h) r, p1))"

definition claim_drop :: "ext \<Rightarrow> ticket \<Rightarrow> pipeline \<Rightarrow> unit res \<times> pipeline" where
  "claim_drop X ticket p =
     (let (r, h, p1) = claim_with_handler X drop_handler None ticket p in (r, p1))"

definition pending_count :: "pipeline \<Rightarrow> nat" where
  "pending_count p = pl_queue_seq p - pl_claim_seq p"

section \<open>Cleaning up\<close>

definition drain_expectation :: "ext \<Rightarrow> expectation \<Rightarrow> pipeline \<Rightarrow> unit res \<times> pipeline" where
  "drain_expectation X e p = (case e of
     ParseBindExecute \<Rightarrow>
       (let (r, _, c) = claim_parse_bind_exec_inner X drop_handler None (pl_conn p)
        in (r, p\<lparr>pl_conn := c\<rparr>))
   | BindExecute \<Rightarrow>
       (let (r, _, c) = claim_bind_exec_inner X drop_handler None None (pl_conn p)
        in (r, p\<lparr>pl_conn := c\<rparr>))
   | Sync \<Rightarrow>
       (let (r, c) = consume_ready_for_query X (pl_conn p) in (r, p\<lparr>pl_conn := c\<rparr>)))"

text \<open>The two draining loops; their errors are ignored (\<open>let _ =\<close>), a panic is not.\<close>

fun drain_all :: "ext \<Rightarrow> bool \<Rightarrow> expectation list \<Rightarrow> pipeline \<Rightarrow> unit res \<times> pipeline" where
  "drain_all X ab [] p = (Ok (), p)"
| "drain_all X ab (e # es) p =
     (let p0 = p\<lparr>pl_expectations := es\<rparr>;
          (r, p1) = (if ab \<and> e \<noteq> Sync then (Ok (), p0) else drain_expectation X e p0)
      in if r = Panic then (Panic, p1) else drain_all X ab es p1)"

definition cleanup :: "ext \<Rightarrow> pipeline \<Rightarrow> unit res \<times> pipeline" where
  "cleanup X p =
     (if pl_queue_seq p = 0 \<and> pl_expectations p = [] then (Ok (), p)
      else
        (let (r, p1) = (if pl_write p \<noteq> [] \<or> Sync \<notin> set (pl_expectations p)
                        then pl_sync p else (Ok (), p))
         in if r = Panic then (Panic, p1)
            else let (r2, p2) = drain_all X (pl_aborted p1) (pl_expectations p1) p1
                 in if r2 = Panic then (Panic, p2)
                    else (Ok (), p2\<lparr>pl_queue_seq := 0, pl_claim_seq := 0, pl_aborted := False\<rparr>)))"

text \<open>\<open>Conn::pipeline\<close>: run the closure, then clean up whatever it left.\<close>

definition conn_pipeline :: "ext \<Rightarrow> (pipeline \<Rightarrow> 'a res \<times> pipeline) \<Rightarrow> conn \<Rightarrow> 'a res \<times> conn" where
  "conn_pipeline X f c =
     (let (result, p) = f (pipeline_new c) in
      if result = Panic then (Panic, pl_conn p)
      else let (r, p1) = cleanup X p
           in (if r = Panic then Panic else result, pl_conn p1))"

end
