(* ===== verification/PipelineFacts.thy ===== *)
theory PipelineFacts
  imports Pipeline ExtendedExchange
begin

text \<open>
  What pipeline mode promises: the claims of a pipeline, made in order, each get the answer of
  their own operation, whatever asynchronous messages come between; after an error the
  remaining claims fail without touching the stream until the ReadyForQuery, and the pipeline
  is usable again after it.
\<close>

section \<open>Reading past asynchronous messages\<close>

text \<open>The connection is at the messages \<open>msgs\<close>, with \<open>rest\<close> behind them.\<close>

definition pending :: "conn \<Rightarrow> (byte \<times> bytes) list \<Rightarrow> bytes \<Rightarrow> bool" where
  "pending c msgs rest \<longleftrightarrow>
     inp (c_stream c) = concat (map wire msgs) @ rest \<and> (\<forall>m \<in> set msgs. small m)"

lemma got_got [simp]: "got m2 r2 (got m1 r1 c) = got m2 r2 c"
  by (simp add: got_def)

lemma next_message_pending:
  assumes "pending c msgs rest" and "filter sync_msg msgs = m # ms"
  shows "\<exists>msgs'. next_message c = (Ok (), got m (concat (map wire msgs') @ rest) c) \<and>
    pending (got m (concat (map wire msgs') @ rest) c) msgs' rest \<and> filter sync_msg msgs' = ms"
  using assms
proof (induction msgs arbitrary: c)
  case Nil
  then show ?case by simp
next
  case (Cons x msgs)
  let ?c = "got x (concat (map wire msgs) @ rest) c"
  have rd: "conn_read_message c = (Ok (), ?c)" using Cons.prems(1) by (simp add: pending_def)
  have p: "pending ?c msgs rest" using Cons.prems(1) by (simp add: pending_def)
  show ?case
  proof (cases "sync_msg x")
    case True
    with Cons.prems(2) rd p show ?thesis
      by (auto simp: next_message.simps [of c] sync_msg_def)
  next
    case False
    with Cons.prems(2) Cons.IH [OF p] rd show ?thesis
      by (auto simp: next_message.simps [of c] sync_msg_def)
  qed
qed

lemma read_next_pending:
  assumes "pending c msgs rest" and "filter sync_msg msgs = m # ms" and "fst m \<noteq> ERROR_RESPONSE"
  shows "\<exists>msgs'. read_next_message X c = (Ok (), got m (concat (map wire msgs') @ rest) c) \<and>
    pending (got m (concat (map wire msgs') @ rest) c) msgs' rest \<and> filter sync_msg msgs' = ms"
  using next_message_pending [OF assms(1,2)] assms(3) by (auto simp: read_next_message_def)

lemma read_next_error:
  assumes "pending c msgs rest" and "filter sync_msg msgs = (ERROR_RESPONSE, ep) # ms"
    and "error_response_parse X ep = Ok e"
  shows "\<exists>msgs' c'. read_next_message X c = (Err (Server e), c') \<and> pending c' msgs' rest \<and>
    filter sync_msg msgs' = ms \<and> c' = got (ERROR_RESPONSE, ep) (concat (map wire msgs') @ rest) c"
  using next_message_pending [OF assms(1,2)] assms(3)
  by (auto simp: read_next_message_def server_err_def)

text \<open>
  \<open>same_pipe c c'\<close>: the reads between two connections changed nothing but the stream's input
  and the read and column buffers.
\<close>

definition same_pipe :: "conn \<Rightarrow> conn \<Rightarrow> bool" where
  "same_pipe c c' \<longleftrightarrow> out (c_stream c') = out (c_stream c) \<and>
     writable (c_stream c') = writable (c_stream c) \<and>
     write_buffer (c_bufs c') = write_buffer (c_bufs c) \<and> c_broken c' = c_broken c \<and>
     c_key c' = c_key c \<and> c_counter c' = c_counter c \<and> c_async c' = c_async c"

lemma same_pipe_refl [simp]: "same_pipe c c"
  by (simp add: same_pipe_def)

lemma same_pipe_got [simp]: "same_pipe c (got m r c)"
  by (simp add: same_pipe_def)

lemma same_pipe_trans: "same_pipe a b \<Longrightarrow> same_pipe b c \<Longrightarrow> same_pipe a c"
  by (simp add: same_pipe_def)

section \<open>Claiming one operation\<close>

lemma claim_rows_loop_ok:
  assumes "pending c msgs rest" and "filter sync_msg msgs = map (Pair DATA_ROW) ds @ (COMMAND_COMPLETE, tag @ [0]) # ms"
    and "row_description_parse X (column_buffer (c_bufs c)) = Ok cols"
    and "handle_row_list H cols h ds = Some h1" and "handle_tag X H h1 tag = Some h2"
  shows "\<exists>c' msgs'. claim_rows_loop X H h True c = (Ok (), h2, c') \<and> pending c' msgs' rest \<and>
    filter sync_msg msgs' = ms \<and> same_pipe c c' \<and> c_tx c' = c_tx c"
  using assms
proof (induction ds arbitrary: c msgs h)
  case Nil
  from read_next_pending [OF Nil.prems(1), of "(COMMAND_COMPLETE, tag @ [0])" ms X] Nil.prems(2)
  obtain msgs' where "read_next_message X c =
      (Ok (), got (COMMAND_COMPLETE, tag @ [0]) (concat (map wire msgs') @ rest) c)"
    "pending (got (COMMAND_COMPLETE, tag @ [0]) (concat (map wire msgs') @ rest) c) msgs' rest"
    "filter sync_msg msgs' = ms" by auto
  with Nil.prems(4,5) show ?case
    by (subst claim_rows_loop.simps)
      (fastforce simp: handle_tag_def split: if_splits res.splits prod.splits)
next
  case (Cons d ds)
  let ?c = "\<lambda>r. got (DATA_ROW, d) r c"
  from Cons.prems(4) obtain row u h0 where row: "data_row_parse d = Ok row"
      "h_row H h cols row = (Ok u, h0)" "handle_row_list H cols h0 ds = Some h1"
    by (auto split: res.splits prod.splits)
  from read_next_pending [OF Cons.prems(1), of "(DATA_ROW, d)" _ X] Cons.prems(2)
  obtain msgs' where rd: "read_next_message X c = (Ok (), ?c (concat (map wire msgs') @ rest))"
    "pending (?c (concat (map wire msgs') @ rest)) msgs' rest"
    "filter sync_msg msgs' = map (Pair DATA_ROW) ds @ (COMMAND_COMPLETE, tag @ [0]) # ms" by auto
  from Cons.IH [OF rd(2,3) _ row(3)] Cons.prems(3,5)
  obtain c' ms' where "claim_rows_loop X H h0 True (?c (concat (map wire msgs') @ rest)) = (Ok (), h2, c')"
    "pending c' ms' rest" "filter sync_msg ms' = ms"
    "same_pipe (?c (concat (map wire msgs') @ rest)) c'" "c_tx c' = c_tx c" by auto
  with Cons.prems(3) rd row show ?case
    by (subst claim_rows_loop.simps) (auto intro: same_pipe_trans [OF same_pipe_got])
qed

lemma claim_rows_cached_ok:
  assumes "pending c msgs rest" and "filter sync_msg msgs = map (Pair DATA_ROW) ds @ (COMMAND_COMPLETE, tag @ [0]) # ms"
    and "ds \<noteq> [] \<Longrightarrow> rd = Some p" and "row_description_parse X p = Ok cols"
    and "handle_row_list H cols h ds = Some h1" and "handle_tag X H h1 tag = Some h2"
  shows "\<exists>c' msgs'. claim_rows_cached_inner X H h rd c = (Ok (), h2, c') \<and> pending c' msgs' rest \<and>
    filter sync_msg msgs' = ms \<and> same_pipe c c' \<and> c_tx c' = c_tx c"
  using assms
proof (induction ds arbitrary: c msgs h)
  case Nil
  from read_next_pending [OF Nil.prems(1), of "(COMMAND_COMPLETE, tag @ [0])" ms X] Nil.prems(2)
  obtain msgs' where "read_next_message X c =
      (Ok (), got (COMMAND_COMPLETE, tag @ [0]) (concat (map wire msgs') @ rest) c)"
    "pending (got (COMMAND_COMPLETE, tag @ [0]) (concat (map wire msgs') @ rest) c) msgs' rest"
    "filter sync_msg msgs' = ms" by auto
  with Nil.prems(5,6) show ?case
    by (subst claim_rows_cached_inner.simps)
      (fastforce simp: handle_tag_def split: if_splits res.splits prod.splits)
next
  case (Cons d ds)
  let ?c = "\<lambda>r. got (DATA_ROW, d) r c"
  from Cons.prems(5) obtain row u h0 where row: "data_row_parse d = Ok row"
      "h_row H h cols row = (Ok u, h0)" "handle_row_list H cols h0 ds = Some h1"
    by (auto split: res.splits prod.splits)
  from read_next_pending [OF Cons.prems(1), of "(DATA_ROW, d)" _ X] Cons.prems(2)
  obtain msgs' where rd: "read_next_message X c = (Ok (), ?c (concat (map wire msgs') @ rest))"
    "pending (?c (concat (map wire msgs') @ rest)) msgs' rest"
    "filter sync_msg msgs' = map (Pair DATA_ROW) ds @ (COMMAND_COMPLETE, tag @ [0]) # ms" by auto
  from Cons.IH [OF rd(2,3) _ _ row(3)] Cons.prems(3,4,6)
  obtain c' ms' where "claim_rows_cached_inner X H h0 (Some p) (?c (concat (map wire msgs') @ rest)) = (Ok (), h2, c')"
    "pending c' ms' rest" "filter sync_msg ms' = ms"
    "same_pipe (?c (concat (map wire msgs') @ rest)) c'" "c_tx c' = c_tx c" by auto
  with Cons.prems(3,4) rd row show ?case
    by (subst claim_rows_cached_inner.simps) (auto intro: same_pipe_trans [OF same_pipe_got])
qed

section \<open>Operations and their answers\<close>

datatype pl_op = PlSql result_set | PlPrepared prepared_statement result_set

fun op_expectation :: "pl_op \<Rightarrow> expectation" where
  "op_expectation (PlSql rs) = ParseBindExecute"
| "op_expectation (PlPrepared stmt rs) = BindExecute"

fun op_stmt :: "pl_op \<Rightarrow> prepared_statement option" where
  "op_stmt (PlSql rs) = None"
| "op_stmt (PlPrepared stmt rs) = Some stmt"

text \<open>What the server answers: a prepared operation sends no Describe and gets no description.\<close>

fun op_msgs :: "pl_op \<Rightarrow> (byte \<times> bytes) list" where
  "op_msgs (PlSql rs) = (PARSE_COMPLETE, []) # (BIND_COMPLETE, []) # exec_msgs rs"
| "op_msgs (PlPrepared stmt (RowsOf p ds tag)) =
     (BIND_COMPLETE, []) # map (Pair DATA_ROW) ds @ [(COMMAND_COMPLETE, tag @ [0])]"
| "op_msgs (PlPrepared stmt (TagOnly tag)) = [(BIND_COMPLETE, []), (COMMAND_COMPLETE, tag @ [0])]"

text \<open>
  The handler calls of a claim: the rows under the description, sent or cached, and the tag.
  A claim does not call \<open>result_start\<close>.
\<close>

definition handle_rows_tag :: "ext \<Rightarrow> 'h handler \<Rightarrow> 'h \<Rightarrow> bytes \<Rightarrow> bytes list \<Rightarrow> str \<Rightarrow> 'h option" where
  "handle_rows_tag X H h p ds tag = (case row_description_parse X p of
     Ok cols \<Rightarrow> Option.bind (handle_row_list H cols h ds) (\<lambda>h1. handle_tag X H h1 tag)
   | _ \<Rightarrow> None)"

fun op_result :: "ext \<Rightarrow> 'h handler \<Rightarrow> 'h \<Rightarrow> pl_op \<Rightarrow> 'h option" where
  "op_result X H h (PlSql (RowsOf p ds tag)) = handle_rows_tag X H h p ds tag"
| "op_result X H h (PlSql (TagOnly tag)) = handle_tag X H h tag"
| "op_result X H h (PlPrepared stmt (RowsOf p ds tag)) =
     (if ps_row_desc stmt = Some p then handle_rows_tag X H h p ds tag else None)"
| "op_result X H h (PlPrepared stmt (TagOnly tag)) = handle_tag X H h tag"

lemma claim_tag_only:
  assumes "pending c msgs rest" and "filter sync_msg msgs = (COMMAND_COMPLETE, tag @ [0]) # ms"
    and "handle_tag X H h tag = Some h'"
  shows "\<exists>c' msgs'. claim_rows_loop X H h b c = (Ok (), h', c') \<and>
    claim_rows_cached_inner X H h rd c = (Ok (), h', c') \<and> pending c' msgs' rest \<and>
    filter sync_msg msgs' = ms \<and> same_pipe c c' \<and> c_tx c' = c_tx c"
proof -
  from read_next_pending [OF assms(1,2), of X] obtain msgs' where
    "read_next_message X c =
      (Ok (), got (COMMAND_COMPLETE, tag @ [0]) (concat (map wire msgs') @ rest) c)"
    "pending (got (COMMAND_COMPLETE, tag @ [0]) (concat (map wire msgs') @ rest) c) msgs' rest"
    "filter sync_msg msgs' = ms" by auto
  with assms(3) show ?thesis
    by (subst claim_rows_loop.simps, subst claim_rows_cached_inner.simps)
      (fastforce simp: handle_tag_def split: if_splits res.splits prod.splits)
qed

lemma claim_rows_inner_ok:
  assumes "pending c msgs rest" and "filter sync_msg msgs = exec_msgs rs @ ms"
    and "op_result X H h (PlSql rs) = Some h'"
  shows "\<exists>c' msgs'. claim_rows_inner X H h c = (Ok (), h', c') \<and> pending c' msgs' rest \<and>
    filter sync_msg msgs' = ms \<and> same_pipe c c' \<and> c_tx c' = c_tx c"
proof (cases rs)
  case (RowsOf p ds tag)
  from read_next_pending [OF assms(1), of "(ROW_DESCRIPTION, p)" _ X] assms(2) RowsOf
  obtain msgs' where rd: "read_next_message X c =
      (Ok (), got (ROW_DESCRIPTION, p) (concat (map wire msgs') @ rest) c)"
    "pending (got (ROW_DESCRIPTION, p) (concat (map wire msgs') @ rest) c) msgs' rest"
    "filter sync_msg msgs' = map (Pair DATA_ROW) ds @ (COMMAND_COMPLETE, tag @ [0]) # ms" by auto
  let ?c = "got (ROW_DESCRIPTION, p) (concat (map wire msgs') @ rest) c"
  let ?c1 = "?c\<lparr>c_bufs := save_column_buffer (c_bufs ?c)\<rparr>"
  have "pending ?c1 msgs' rest" "column_buffer (c_bufs ?c1) = p" "same_pipe c ?c1" "c_tx ?c1 = c_tx c"
    using rd(2) by (simp_all add: pending_def save_column_buffer_def same_pipe_def)
  moreover from assms(3) RowsOf obtain cols h1 where "row_description_parse X p = Ok cols"
      "handle_row_list H cols h ds = Some h1" "handle_tag X H h1 tag = Some h'"
    by (auto simp: handle_rows_tag_def bind_eq_Some_conv split: res.splits)
  ultimately show ?thesis
    using claim_rows_loop_ok [of ?c1 msgs' rest ds tag ms X cols H h h1 h'] rd
    by (auto simp: claim_rows_inner_def htry_def intro: same_pipe_trans)
next
  case (TagOnly tag)
  from read_next_pending [OF assms(1), of "(NO_DATA, [])" _ X] assms(2) TagOnly
  obtain msgs' where rd: "read_next_message X c =
      (Ok (), got (NO_DATA, []) (concat (map wire msgs') @ rest) c)"
    "pending (got (NO_DATA, []) (concat (map wire msgs') @ rest) c) msgs' rest"
    "filter sync_msg msgs' = (COMMAND_COMPLETE, tag @ [0]) # ms" by auto
  from claim_tag_only [OF rd(2,3), of X H h h' False None] assms(3) TagOnly rd(1) show ?thesis
    by (auto simp: claim_rows_inner_def htry_def intro: same_pipe_trans [OF same_pipe_got])
qed

text \<open>The part of a claim that reads the answer.\<close>

definition claim_inner ::
    "ext \<Rightarrow> 'h handler \<Rightarrow> 'h \<Rightarrow> expectation \<Rightarrow> prepared_statement option \<Rightarrow> conn \<Rightarrow> unit res \<times> 'h \<times> conn"
where
  "claim_inner X H h e stmt c = (case e of
     ParseBindExecute \<Rightarrow> claim_parse_bind_exec_inner X H h c
   | BindExecute \<Rightarrow> claim_bind_exec_inner X H h stmt c
   | Sync \<Rightarrow> (Err (LibraryBug ''unexpected Sync expectation''), h, c))"

lemma claim_inner_ok:
  assumes "pending c msgs rest" and "filter sync_msg msgs = op_msgs op @ ms"
    and "op_result X H h op = Some h'"
  shows "\<exists>c' msgs'. claim_inner X H h (op_expectation op) (op_stmt op) c = (Ok (), h', c') \<and>
    pending c' msgs' rest \<and> filter sync_msg msgs' = ms \<and> same_pipe c c' \<and> c_tx c' = c_tx c"
proof (cases op)
  case (PlSql rs)
  from read_next_pending [OF assms(1), of "(PARSE_COMPLETE, [])" _ X] assms(2) PlSql
  obtain m1 where r1: "read_next_message X c =
      (Ok (), got (PARSE_COMPLETE, []) (concat (map wire m1) @ rest) c)"
    "pending (got (PARSE_COMPLETE, []) (concat (map wire m1) @ rest) c) m1 rest"
    "filter sync_msg m1 = (BIND_COMPLETE, []) # exec_msgs rs @ ms" by auto
  from read_next_pending [OF r1(2,3), of X] obtain m2 where r2:
    "read_next_message X (got (PARSE_COMPLETE, []) (concat (map wire m1) @ rest) c) =
      (Ok (), got (BIND_COMPLETE, []) (concat (map wire m2) @ rest) c)"
    "pending (got (BIND_COMPLETE, []) (concat (map wire m2) @ rest) c) m2 rest"
    "filter sync_msg m2 = exec_msgs rs @ ms" by auto
  from claim_rows_inner_ok [OF r2(2,3), of X H h h'] assms(3) PlSql r1(1) r2(1) show ?thesis
    by (auto simp: claim_inner_def claim_parse_bind_exec_inner_def htry_def
        intro: same_pipe_trans [OF same_pipe_got])
next
  case (PlPrepared stmt rs)
  then obtain body where body: "op_msgs op = (BIND_COMPLETE, []) # body" by (cases rs) auto
  from read_next_pending [OF assms(1), of "(BIND_COMPLETE, [])" "body @ ms" X] assms(2) body
  obtain m1 where r1: "read_next_message X c =
      (Ok (), got (BIND_COMPLETE, []) (concat (map wire m1) @ rest) c)"
    "pending (got (BIND_COMPLETE, []) (concat (map wire m1) @ rest) c) m1 rest"
    "filter sync_msg m1 = body @ ms" by auto
  let ?c = "got (BIND_COMPLETE, []) (concat (map wire m1) @ rest) c"
  show ?thesis
  proof (cases rs)
    case (TagOnly tag)
    with claim_tag_only [of ?c m1 rest tag ms X H h h' False "ps_row_desc stmt"] r1 body assms(3) PlPrepared
    show ?thesis
      by (auto simp: claim_inner_def claim_bind_exec_inner_def htry_def
          intro: same_pipe_trans [OF same_pipe_got])
  next
    case (RowsOf p ds tag)
    with assms(3) PlPrepared obtain cols h1 where "ps_row_desc stmt = Some p"
        "row_description_parse X p = Ok cols"
        "handle_row_list H cols h ds = Some h1" "handle_tag X H h1 tag = Some h'"
      by (auto simp: handle_rows_tag_def bind_eq_Some_conv split: res.splits if_splits)
    with claim_rows_cached_ok [of ?c m1 rest ds tag ms "Some p" p X cols H h h1 h'] r1 body RowsOf PlPrepared
    show ?thesis
      by (auto simp: claim_inner_def claim_bind_exec_inner_def htry_def
          intro: same_pipe_trans [OF same_pipe_got])
  qed
qed

section \<open>Claims in order\<close>

lemma consume_ready_ok:
  assumes "pending c msgs rest" and "filter sync_msg msgs = (READY_FOR_QUERY, [st]) # ms"
  shows "\<exists>c' msgs'. consume_ready_for_query X c = (Ok (), c') \<and> pending c' msgs' rest \<and>
    filter sync_msg msgs' = ms \<and> same_pipe c c' \<and> c_tx c' = tx_or_default st"
proof -
  from next_message_pending [OF assms] obtain msgs' where
    "next_message c = (Ok (), got (READY_FOR_QUERY, [st]) (concat (map wire msgs') @ rest) c)"
    "pending (got (READY_FOR_QUERY, [st]) (concat (map wire msgs') @ rest) c) msgs' rest"
    "filter sync_msg msgs' = ms" by auto
  then show ?thesis
    by (subst consume_ready_for_query.simps) (auto simp: pending_def same_pipe_def)
qed

lemma same_pipe_write:
  "same_pipe (pl_conn p) c \<Longrightarrow> write_buffer (c_bufs c) = pl_write p"
  by (simp add: same_pipe_def pl_write_def)

text \<open>What is left of the expectations once the Syncs at their head are consumed.\<close>

lemma claim_sent_ok:
  assumes pend: "pending (pl_conn p) msgs rest"
    and script: "filter sync_msg msgs = op_msgs op @ ms"
    and exps: "pl_expectations p = op_expectation op # es" "es = [] \<or> hd es \<noteq> Sync"
    and fine: "\<not> pl_aborted p" "t_stmt t = op_stmt op" and res: "op_result X H h op = Some h'"
  shows "\<exists>c' msgs'. claim_sent X H h t p =
      (Ok (), h', p\<lparr>pl_conn := c', pl_expectations := es, pl_claim_seq := pl_claim_seq p + 1\<rparr>) \<and>
    pending c' msgs' rest \<and> filter sync_msg msgs' = ms \<and> same_pipe (pl_conn p) c' \<and>
    c_tx c' = c_tx (pl_conn p)"
proof -
  from claim_inner_ok [OF pend script res] obtain c' msgs' where
    c': "claim_inner X H h (op_expectation op) (op_stmt op) (pl_conn p) = (Ok (), h', c')"
      "pending c' msgs' rest" "filter sync_msg msgs' = ms" "same_pipe (pl_conn p) c'"
      "c_tx c' = c_tx (pl_conn p)" by blast
  then have "claim_sent X H h t p =
      (Ok (), h', p\<lparr>pl_conn := c', pl_expectations := es, pl_claim_seq := pl_claim_seq p + 1\<rparr>)"
    using exps fine
    by (cases op; cases es; cases "hd es")
      (auto simp: claim_sent_def claim_inner_def mark_broken_def consume_pending_syncs.simps)
  with c' show ?thesis by blast
qed

lemma claim_sent_last:
  assumes pend: "pending (pl_conn p) msgs rest"
    and script: "filter sync_msg msgs = op_msgs op @ (READY_FOR_QUERY, [st]) # ms"
    and exps: "pl_expectations p = [op_expectation op, Sync]"
    and fine: "\<not> pl_aborted p" "t_stmt t = op_stmt op" and res: "op_result X H h op = Some h'"
  shows "\<exists>c' msgs'. claim_sent X H h t p =
      (Ok (), h', p\<lparr>pl_conn := c', pl_expectations := [], pl_claim_seq := pl_claim_seq p + 1\<rparr>) \<and>
    pending c' msgs' rest \<and> filter sync_msg msgs' = ms \<and> same_pipe (pl_conn p) c' \<and>
    c_tx c' = tx_or_default st"
proof -
  from claim_inner_ok [OF pend script res] obtain c1 m1 where
    c1: "claim_inner X H h (op_expectation op) (op_stmt op) (pl_conn p) = (Ok (), h', c1)"
      "pending c1 m1 rest" "filter sync_msg m1 = (READY_FOR_QUERY, [st]) # ms"
      "same_pipe (pl_conn p) c1" by blast
  from consume_ready_ok [OF c1(2,3), of X] obtain c2 m2 where
    c2: "consume_ready_for_query X c1 = (Ok (), c2)" "pending c2 m2 rest"
      "filter sync_msg m2 = ms" "same_pipe c1 c2" "c_tx c2 = tx_or_default st" by blast
  have "claim_sent X H h t p =
      (Ok (), h', p\<lparr>pl_conn := c2, pl_expectations := [], pl_claim_seq := pl_claim_seq p + 1\<rparr>)"
    using exps fine c1(1) c2(1)
    by (cases op) (auto simp: claim_sent_def claim_inner_def mark_broken_def
        consume_pending_syncs.simps)
  with c1 c2 show ?thesis by (blast intro: same_pipe_trans)
qed

text \<open>The claims of the tickets in order, each with a fresh handler; their results.\<close>

fun claim_all ::
    "ext \<Rightarrow> 'h handler \<Rightarrow> 'h \<Rightarrow> ticket list \<Rightarrow> pipeline \<Rightarrow> (unit res \<times> 'h) list \<times> pipeline" where
  "claim_all X H h [] p = ([], p)"
| "claim_all X H h (t # ts) p =
     (let (r, h1, p1) = claim_with_handler X H h t p; (rs, p2) = claim_all X H h ts p1
      in ((r, h1) # rs, p2))"

definition tickets_for :: "nat \<Rightarrow> pl_op list \<Rightarrow> ticket list" where
  "tickets_for n ops = map (\<lambda>(i, op). \<lparr>t_seq = i, t_stmt = op_stmt op\<rparr>) (zip [n..<n + length ops] ops)"

lemma tickets_for_simps [simp]:
  "tickets_for n [] = []"
  "tickets_for n (op # ops) = \<lparr>t_seq = n, t_stmt = op_stmt op\<rparr> # tickets_for (Suc n) ops"
  by (simp_all add: tickets_for_def upt_conv_Cons del: upt_Suc)


definition ops0 :: "pl_op list" where
  "ops0 = [PlSql (RowsOf cols0 [row0] tag0),
     PlPrepared \<lparr>ps_idx = 1, ps_param_oids = [], ps_row_desc = Some cols0\<rparr> (RowsOf cols0 [row0] tag0),
     PlPrepared \<lparr>ps_idx = 1, ps_param_oids = [], ps_row_desc = None\<rparr> (TagOnly tag0)]"

definition pipe0 :: "bytes \<Rightarrow> pipeline" where
  "pipe0 data = \<lparr>pl_conn = conn0 data, pl_queue_seq = 3, pl_claim_seq = 0, pl_aborted = False,
     pl_expectations = [ParseBindExecute, BindExecute, BindExecute, Sync]\<rparr>"

definition plmsgs0 :: "(byte \<times> bytes) list" where
  "plmsgs0 = concat (map op_msgs ops0) @ [(NOTICE_RESPONSE, notice0), (READY_FOR_QUERY, [73])]"

lemma op_result0: "map (op_result ext0 drop_handler None) ops0 = map Some (replicate 3 (rows_affected tag0))"
  using handle_results0
  by (auto simp: ops0_def handle_rows_tag_def bind_eq_Some_conv numeral_eq_Suc handle_tag_def tag0_parse
      split: res.splits)

lemma plmsgs0_pending: "pending (conn0 (concat (map wire plmsgs0) @ rest)) plmsgs0 rest"
  by (auto simp: pending_def plmsgs0_def ops0_def small_def cols0_def row0_def tag0_def notice0_def)


section \<open>Queueing\<close>

text \<open>
  Queueing an operation whose parameters encode only extends the write buffer, by exactly
  Parse, Bind, Describe, Execute for raw SQL and Bind, Execute for a prepared statement, as
  whole frames; the ticket carries the next number and the expectation matches the operation.
  Nothing is read or written.
\<close>

lemma pl_exec_queues:
  assumes enc: "encodes params (case st of Sql _ \<Rightarrow> natural_oids params | Prepared s \<Rightarrow> ps_param_oids s) vs"
  shows "pl_exec st params p = (Ok \<lparr>t_seq = pl_queue_seq p,
      t_stmt = (case st of Sql _ \<Rightarrow> None | Prepared s \<Rightarrow> Some s)\<rparr>,
    (set_pl_write (pl_write p @ concat (map wire (case st of
       Sql sql \<Rightarrow>
         [(F_PARSE, 0 # sql @ 0 # to_be_bytes (word_of_nat (length (natural_oids params)) :: i16) @
             concat (map to_be_bytes (natural_oids params))),
          (F_BIND, bind_payload [] [] (natural_oids params) vs), (F_DESCRIBE, [80, 0]),
          (F_EXECUTE, 0 # to_be_bytes (0 :: u32))]
     | Prepared s \<Rightarrow> [(F_BIND, bind_payload [] (wire_name s) (ps_param_oids s) vs),
          (F_EXECUTE, 0 # to_be_bytes (0 :: u32))]))) p)
      \<lparr>pl_queue_seq := pl_queue_seq p + 1, pl_expectations := pl_expectations p @
        [case st of Sql _ \<Rightarrow> ParseBindExecute | Prepared _ \<Rightarrow> BindExecute]\<rparr>)"
proof (cases st)
  case (Sql sql)
  with enc show ?thesis
    by (simp add: pl_exec_def exec_sql_inner_def pl_write_def set_pl_write_def set_write_def
        push_expectation_def write_bind_framed [OF enc [unfolded Sql, simplified]] frontend_framed Let_def)
next
  case (Prepared s)
  with enc show ?thesis
    by (simp add: pl_exec_def exec_prepared_inner_def pl_write_def set_pl_write_def set_write_def
        push_expectation_def write_bind_framed [OF enc [unfolded Prepared, simplified]] frontend_framed Let_def)
qed

lemma encodes0: "encodes params0 oids [Some [0, 0, 0, 5]]"
  by (simp add: encodes_def params0_def good_value_def)

lemma pl_exec_queues_witness:
  "\<exists>p'. pl_exec (Sql [97]) params0 (pipe0 []) = (Ok \<lparr>t_seq = 3, t_stmt = None\<rparr>, p')"
  using pl_exec_queues [of params0 "Sql [97]" "[Some [0, 0, 0, 5]]" "pipe0 []"] encodes0
  by (simp add: pipe0_def)

text \<open>
  A claim out of order is refused with a usage error and changes nothing: no message is
  read, nothing is sent, and the ticket can still be claimed in its turn.
\<close>

lemma claim_out_of_order:
  assumes "t_seq t \<noteq> pl_claim_seq p"
  shows "claim_with_handler X H h t p =
    (Err (InvalidUsage ''claim out of order: expected seq {}, got {}''), h, p)"
  using assms by (simp add: claim_with_handler_def check_sequence_def)

lemma claim_out_of_order_witness:
  "claim_with_handler ext0 drop_handler None \<lparr>t_seq = 1, t_stmt = None\<rparr> (pipe0 []) =
    (Err (InvalidUsage ''claim out of order: expected seq {}, got {}''), None, pipe0 [])"
  by (rule claim_out_of_order) (simp add: pipe0_def)

text \<open>
  A failed \<open>exec\<close> has already taken its number: the ticket of the next one cannot be claimed.
\<close>

lemma failed_exec_blocks_claims:
  assumes "pl_exec st params p = (Err e, p1)" and "pl_queue_seq p = pl_claim_seq p"
    and "pl_exec st2 params2 p1 = (Ok t, p2)"
  shows "\<exists>msg. claim_with_handler X H h t p2 = (Err (InvalidUsage msg), h, p2)"
proof -
  have "pl_queue_seq p1 = pl_queue_seq p + 1 \<and> pl_claim_seq p1 = pl_claim_seq p"
    using assms(1) by (auto simp: pl_exec_def exec_sql_inner_def exec_prepared_inner_def Let_def
        set_pl_write_def push_expectation_def split: statement_ref.splits prod.splits rtry_splits)
  moreover have "t_seq t = pl_queue_seq p1 \<and> pl_claim_seq p2 = pl_claim_seq p1"
    using assms(3) by (auto simp: pl_exec_def exec_sql_inner_def exec_prepared_inner_def Let_def
        set_pl_write_def push_expectation_def split: statement_ref.splits prod.splits rtry_splits)
  ultimately show ?thesis
    using assms(2) by (simp add: claim_with_handler_def check_sequence_def)
qed

section \<open>Errors in a pipeline\<close>

text \<open>The error of a claim on an aborted pipeline.\<close>

definition aborted_error :: error where
  "aborted_error = LibraryBug ''pipeline aborted due to earlier error''"

lemma claim_inner_error:
  assumes "pending c msgs rest" and "filter sync_msg msgs = (ERROR_RESPONSE, ep) # ms"
    and "error_response_parse X ep = Ok e"
  shows "\<exists>c' msgs'. claim_inner X H h (op_expectation op) stmt c = (Err (Server e), h, c') \<and>
    pending c' msgs' rest \<and> filter sync_msg msgs' = ms \<and> same_pipe c c' \<and> c_tx c' = c_tx c"
  using read_next_error [OF assms]
  by (cases op) (auto simp: claim_inner_def claim_parse_bind_exec_inner_def
      claim_bind_exec_inner_def htry_def)

lemma mark_broken_simps [simp]:
  "c_stream (mark_broken r c) = c_stream c" "c_bufs (mark_broken r c) = c_bufs c"
  "c_tx (mark_broken r c) = c_tx c" "pending (mark_broken r c) msgs rest = pending c msgs rest"
  "c_key (mark_broken r c) = c_key c" "c_counter (mark_broken r c) = c_counter c"
  "c_async (mark_broken r c) = c_async c"
  by (simp_all add: mark_broken_def pending_def split: res.splits)

lemma claim_sent_error:
  assumes pend: "pending (pl_conn p) msgs rest"
    and script: "filter sync_msg msgs = (ERROR_RESPONSE, ep) # ms"
    and err: "error_response_parse X ep = Ok e"
    and exps: "pl_expectations p = op_expectation op # es" "es = [] \<or> hd es \<noteq> Sync"
    and fine: "\<not> pl_aborted p" "t_stmt t = op_stmt op"
  shows "\<exists>c' msgs'. claim_sent X H h t p = (Err (Server e), h,
      p\<lparr>pl_conn := c', pl_expectations := es, pl_claim_seq := pl_claim_seq p + 1, pl_aborted := True\<rparr>) \<and>
    pending c' msgs' rest \<and> filter sync_msg msgs' = ms \<and>
    out (c_stream c') = out (c_stream (pl_conn p)) \<and> write_buffer (c_bufs c') = pl_write p"
proof -
  from claim_inner_error [OF pend script err, of H h op "op_stmt op"] obtain c' msgs' where
    c': "claim_inner X H h (op_expectation op) (op_stmt op) (pl_conn p) = (Err (Server e), h, c')"
      "pending c' msgs' rest" "filter sync_msg msgs' = ms" "same_pipe (pl_conn p) c'" by blast
  then have "claim_sent X H h t p = (Err (Server e), h,
      p\<lparr>pl_conn := mark_broken (Err (Server e) :: unit res) c', pl_expectations := es,
        pl_claim_seq := pl_claim_seq p + 1, pl_aborted := True\<rparr>)"
    using exps fine
    by (cases op; cases es; cases "hd es")
      (auto simp: claim_sent_def claim_inner_def consume_pending_syncs.simps)
  with c' show ?thesis
    by (intro exI [of _ "mark_broken (Err (Server e) :: unit res) c'"] exI [of _ msgs'])
      (simp add: same_pipe_def pl_write_def)
qed

lemma claim_sent_error_last:
  assumes pend: "pending (pl_conn p) msgs rest"
    and script: "filter sync_msg msgs = (ERROR_RESPONSE, ep) # (READY_FOR_QUERY, [st]) # ms"
    and err: "error_response_parse X ep = Ok e"
    and exps: "pl_expectations p = [op_expectation op, Sync]"
    and fine: "\<not> pl_aborted p" "t_stmt t = op_stmt op"
  shows "\<exists>c' msgs'. claim_sent X H h t p = (Err (Server e), h,
      p\<lparr>pl_conn := c', pl_expectations := [], pl_claim_seq := pl_claim_seq p + 1\<rparr>) \<and>
    pending c' msgs' rest \<and> filter sync_msg msgs' = ms \<and> c_tx c' = tx_or_default st \<and>
    out (c_stream c') = out (c_stream (pl_conn p))"
proof -
  from claim_inner_error [OF pend script err, of H h op "op_stmt op"] obtain c1 m1 where
    c1: "claim_inner X H h (op_expectation op) (op_stmt op) (pl_conn p) = (Err (Server e), h, c1)"
      "pending c1 m1 rest" "filter sync_msg m1 = (READY_FOR_QUERY, [st]) # ms"
      "same_pipe (pl_conn p) c1" by blast
  let ?c1 = "mark_broken (Err (Server e) :: unit res) c1"
  from consume_ready_ok [of ?c1 m1 rest st ms X] c1 obtain c2 m2 where
    c2: "consume_ready_for_query X ?c1 = (Ok (), c2)" "pending c2 m2 rest"
      "filter sync_msg m2 = ms" "same_pipe ?c1 c2" "c_tx c2 = tx_or_default st" by auto
  have "claim_sent X H h t p = (Err (Server e), h,
      p\<lparr>pl_conn := c2, pl_expectations := [], pl_claim_seq := pl_claim_seq p + 1\<rparr>)"
    using exps fine c1(1) c2(1)
    by (cases op; cases p) (auto simp: claim_sent_def claim_inner_def consume_pending_syncs.simps)
  with c1 c2 show ?thesis by (auto simp: same_pipe_def)
qed

text \<open>On an aborted pipeline a claim that no Sync follows leaves the connection alone.\<close>

lemma claim_sent_aborted:
  assumes "pl_aborted p" and "pl_expectations p = e # es" and "es = [] \<or> hd es \<noteq> Sync"
  shows "claim_sent X H h t p = (Err aborted_error, h,
    p\<lparr>pl_claim_seq := pl_claim_seq p + 1, pl_expectations := es\<rparr>)"
  using assms
  by (cases es; cases "hd es") (auto simp: claim_sent_def consume_pending_syncs.simps aborted_error_def)

lemma claim_sent_aborted_last:
  assumes "pl_aborted p" and "pl_expectations p = [e, Sync]"
    and "pending (pl_conn p) msgs rest" and "filter sync_msg msgs = (READY_FOR_QUERY, [st]) # ms"
  shows "\<exists>c' msgs'. claim_sent X H h t p = (Err aborted_error, h,
      p\<lparr>pl_conn := c', pl_expectations := [], pl_claim_seq := pl_claim_seq p + 1, pl_aborted := False\<rparr>) \<and>
    pending c' msgs' rest \<and> filter sync_msg msgs' = ms \<and> c_tx c' = tx_or_default st \<and>
    out (c_stream c') = out (c_stream (pl_conn p))"
proof -
  from consume_ready_ok [OF assms(3,4), of X] obtain c2 m2 where
    c2: "consume_ready_for_query X (pl_conn p) = (Ok (), c2)" "pending c2 m2 rest"
      "filter sync_msg m2 = ms" "same_pipe (pl_conn p) c2" "c_tx c2 = tx_or_default st" by blast
  with assms show ?thesis
    by (intro exI [of _ c2] exI [of _ m2])
      (simp add: claim_sent_def consume_pending_syncs.simps aborted_error_def same_pipe_def)
qed

lemma claim_all_aborted:
  assumes "ops \<noteq> []" and "pl_aborted p" and "pl_write p = []"
    and "pl_expectations p = map op_expectation ops @ [Sync]"
    and "pending (pl_conn p) msgs rest" and "filter sync_msg msgs = (READY_FOR_QUERY, [st]) # ms"
  shows "\<exists>c' msgs'. claim_all X H h (tickets_for (pl_claim_seq p) ops) p =
      (replicate (length ops) (Err aborted_error, h),
       p\<lparr>pl_conn := c', pl_expectations := [], pl_claim_seq := pl_claim_seq p + length ops,
         pl_aborted := False\<rparr>) \<and>
    pending c' msgs' rest \<and> filter sync_msg msgs' = ms \<and> c_tx c' = tx_or_default st \<and>
    out (c_stream c') = out (c_stream (pl_conn p))"
  using assms
proof (induction ops arbitrary: p)
  case Nil
  then show ?case by simp
next
  case (Cons op ops)
  let ?t = "\<lparr>t_seq = pl_claim_seq p, t_stmt = op_stmt op\<rparr>"
  have claim: "claim_with_handler X H h ?t p = claim_sent X H h ?t p"
    using Cons.prems(3) by (simp add: claim_with_handler_def check_sequence_def)
  show ?case
  proof (cases ops)
    case Nil
    with claim_sent_aborted_last [of p "op_expectation op" msgs rest st ms X H h ?t] Cons.prems claim
    show ?thesis by auto
  next
    case (Cons op2 ops2)
    have "map op_expectation ops @ [Sync] = [] \<or> hd (map op_expectation ops @ [Sync]) \<noteq> Sync"
      using Cons by (cases op2) auto
    with claim_sent_aborted [OF Cons.prems(2), of "op_expectation op"
        "map op_expectation ops @ [Sync]" X H h ?t] Cons.prems(4)
    have "claim_sent X H h ?t p = (Err aborted_error, h,
        p\<lparr>pl_claim_seq := pl_claim_seq p + 1, pl_expectations := map op_expectation ops @ [Sync]\<rparr>)"
      by simp
    moreover let ?p = "p\<lparr>pl_claim_seq := pl_claim_seq p + 1,
        pl_expectations := map op_expectation ops @ [Sync]\<rparr>"
    have "pl_write ?p = []" using Cons.prems(3) by (simp add: pl_write_def)
    ultimately show ?thesis using Cons.IH [of ?p] Cons.prems Cons claim by auto
  qed
qed

text \<open>
  When the server fails the first operation of a pipeline and skips to ReadyForQuery, the
  first claim returns the server's error, every later claim fails as aborted without reading
  anything of another exchange, the last one consumes the ReadyForQuery, and the pipeline is
  not aborted any more and the connection at the next exchange.
\<close>

theorem claim_all_error:
  assumes "pending (pl_conn p) msgs rest"
    and "filter sync_msg msgs = (ERROR_RESPONSE, ep) # (READY_FOR_QUERY, [st]) # ms"
    and "error_response_parse X ep = Ok e"
    and "pl_expectations p = map op_expectation (op # ops) @ [Sync]"
    and "\<not> pl_aborted p" and "pl_write p = []"
  shows "\<exists>c' msgs'. claim_all X H h (tickets_for (pl_claim_seq p) (op # ops)) p =
      ((Err (Server e), h) # replicate (length ops) (Err aborted_error, h),
       p\<lparr>pl_conn := c', pl_expectations := [], pl_claim_seq := pl_claim_seq p + length (op # ops)\<rparr>) \<and>
    pending c' msgs' rest \<and> filter sync_msg msgs' = ms \<and> c_tx c' = tx_or_default st \<and>
    out (c_stream c') = out (c_stream (pl_conn p))"
proof -
  let ?t = "\<lparr>t_seq = pl_claim_seq p, t_stmt = op_stmt op\<rparr>"
  have claim: "claim_with_handler X H h ?t p = claim_sent X H h ?t p"
    using assms(6) by (simp add: claim_with_handler_def check_sequence_def)
  show ?thesis
  proof (cases ops)
    case Nil
    with claim_sent_error_last [OF assms(1-3), of op ?t H h] assms(4,5) claim show ?thesis by auto
  next
    case (Cons op2 ops2)
    have "map op_expectation ops @ [Sync] = [] \<or> hd (map op_expectation ops @ [Sync]) \<noteq> Sync"
      using Cons by (cases op2) auto
    with claim_sent_error [OF assms(1-3), of op "map op_expectation ops @ [Sync]" ?t H h] assms(4-6)
    obtain c1 m1 where s1: "claim_sent X H h ?t p = (Err (Server e), h, p\<lparr>pl_conn := c1,
        pl_expectations := map op_expectation ops @ [Sync], pl_claim_seq := pl_claim_seq p + 1,
        pl_aborted := True\<rparr>)"
      "pending c1 m1 rest" "filter sync_msg m1 = (READY_FOR_QUERY, [st]) # ms"
      "out (c_stream c1) = out (c_stream (pl_conn p))" "write_buffer (c_bufs c1) = []" by auto
    let ?p = "p\<lparr>pl_conn := c1, pl_expectations := map op_expectation ops @ [Sync],
        pl_claim_seq := pl_claim_seq p + 1, pl_aborted := True\<rparr>"
    from claim_all_aborted [of ops ?p m1 rest st ms X H h] s1 Cons obtain c2 m2 where
      "claim_all X H h (tickets_for (Suc (pl_claim_seq p)) ops) ?p =
        (replicate (length ops) (Err aborted_error, h), ?p\<lparr>pl_conn := c2, pl_expectations := [],
          pl_claim_seq := Suc (pl_claim_seq p + length ops), pl_aborted := False\<rparr>)"
      "pending c2 m2 rest" "filter sync_msg m2 = ms" "c_tx c2 = tx_or_default st"
      "out (c_stream c2) = out (c_stream c1)"
      by (auto simp: pl_write_def)
    with s1 claim assms(5) show ?thesis by (cases p) auto
  qed
qed

theorem claim_all_error_witness:
  "\<exists>e p'. claim_all ext0 drop_handler None (tickets_for 0 ops0) (pipe0 (concat (map wire xemsgs0) @ [90])) =
      ((Err (Server e), None) # replicate 2 (Err aborted_error, None), p') \<and>
    \<not> pl_aborted p' \<and> pl_expectations p' = []"
proof -
  let ?p = "pipe0 (concat (map wire xemsgs0) @ [90])"
  obtain e where err: "error_response_parse ext0 error0 = Ok e" using error0_parse by blast
  have script: "filter sync_msg xemsgs0 = (ERROR_RESPONSE, error0) # (READY_FOR_QUERY, [73]) # []"
    by (simp add: xemsgs0_def sync_msg_def is_async_type_def)
  have pend: "pending (pl_conn ?p) xemsgs0 [90]"
    by (auto simp: pending_def pipe0_def xemsgs0_def small_def error0_def)
  have "pl_expectations ?p = map op_expectation (hd ops0 # tl ops0) @ [Sync]"
    by (simp add: pipe0_def ops0_def)
  from claim_all_error [OF pend script err this, of drop_handler None]
  obtain c' msgs' where "claim_all ext0 drop_handler None (tickets_for 0 (hd ops0 # tl ops0)) ?p =
      ((Err (Server e), None) # replicate (length (tl ops0)) (Err aborted_error, None),
       ?p\<lparr>pl_conn := c', pl_expectations := [], pl_claim_seq := length (hd ops0 # tl ops0)\<rparr>)"
    by (auto simp: pipe0_def pl_write_def buffer_set_new_def)
  then show ?thesis by (auto simp: pipe0_def ops0_def numeral_eq_Suc)
qed

end
