(* ===== verification/Numeric.thy ===== *)
theory Numeric
  imports StdStr Codec
begin

text \<open>
  \<open>src/conversion/numeric_util.rs\<close>: \<open>numeric_to_string\<close>, the decimal text of a binary NUMERIC.
  A binary NUMERIC is a header of four 16-bit fields (the number of base-10000 digits, the
  weight of the first one, the sign and the display scale) and the digits. The loops are
  recursions over the digits, with the counter and the string built so far as arguments.
  \<open>numeric_to_f64\<close> and \<open>numeric_to_f32\<close> compute in floating point and are not modelled.

  \<open>decimal_text\<close> is what the text means: the value, scaled by a power of ten, printed with a
  decimal point. The lemmas on \<open>dec_digits\<close> (decimal digits of a fixed width) relate the two.
\<close>

section \<open>The code\<close>

definition NUMERIC_NEG :: u16 where "NUMERIC_NEG = 0x4000"
definition NUMERIC_NAN :: u16 where "NUMERIC_NAN = 0xC000"
definition NUMERIC_PINF :: u16 where "NUMERIC_PINF = 0xD000"
definition NUMERIC_NINF :: u16 where "NUMERIC_NINF = 0xF000"

text \<open>\<open>format!("{:04}", d)\<close>: the sign counts towards the width.\<close>

definition format_04 :: "int \<Rightarrow> str" where
  "format_04 d =
     (if d < 0 then 45 # replicate (3 - length (show_nat (nat (- d)))) 48 @ show_nat (nat (- d))
      else replicate (4 - length (show_nat (nat d))) 48 @ show_nat (nat d))"

text \<open>Read the digits: \<open>n\<close> pairs of bytes.\<close>

fun read_digits :: "nat \<Rightarrow> bytes \<Rightarrow> int list res" where
  "read_digits 0 remaining = Ok []"
| "read_digits (Suc n) remaining =
     (if length remaining < 2 then Err (Decode ''truncated NUMERIC data: {} bytes'')
      else rmap (Cons (sint (from_be_bytes (take 2 remaining) :: i16)))
             (read_digits n (drop 2 remaining)))"

text \<open>\<open>for c in s.chars() { if frac_digits_written < dscale { result.push(c); .. += 1 } }\<close>\<close>

fun push_chars :: "nat \<Rightarrow> str \<Rightarrow> nat \<Rightarrow> str \<Rightarrow> str \<times> nat" where
  "push_chars dscale [] written result = (result, written)"
| "push_chars dscale (c # s) written result =
     (if written < dscale then push_chars dscale s (written + 1) (result @ [c])
      else push_chars dscale s written result)"

text \<open>The digit groups when all digits are after the decimal point: only the last is cut.\<close>

fun push_groups :: "nat \<Rightarrow> int list \<Rightarrow> nat \<Rightarrow> str \<Rightarrow> str \<times> nat" where
  "push_groups dscale [] written result = (result, written)"
| "push_groups dscale (d # ds) written result =
     (if ds = [] \<and> dscale > 0 then push_chars dscale (format_04 d) written result
      else push_groups dscale ds (written + 4) (result @ format_04 d))"

text \<open>\<open>while d_idx <= full_int_groups && d_idx < ndigits\<close>, over the digits from \<open>d_idx\<close> on.\<close>

fun push_int_groups :: "nat \<Rightarrow> nat \<Rightarrow> int list \<Rightarrow> str \<Rightarrow> str \<times> nat \<times> int list" where
  "push_int_groups full d_idx [] result = (result, d_idx, [])"
| "push_int_groups full d_idx (d # ds) result =
     (if d_idx \<le> full then push_int_groups full (d_idx + 1) ds (result @ format_04 d)
      else (result, d_idx, d # ds))"

text \<open>\<open>while d_idx < ndigits && frac_digits_written < dscale\<close>\<close>

fun push_frac_groups :: "nat \<Rightarrow> int list \<Rightarrow> nat \<Rightarrow> str \<Rightarrow> str \<times> nat" where
  "push_frac_groups dscale [] written result = (result, written)"
| "push_frac_groups dscale (d # ds) written result =
     (if written < dscale then
        (let (result', written') = push_chars dscale (format_04 d) written result
         in push_frac_groups dscale ds written' result')
      else (result, written))"

definition pad_zeros :: "nat \<Rightarrow> str \<times> nat \<Rightarrow> str" where
  "pad_zeros dscale p = fst p @ replicate (dscale - snd p) 48"

definition fraction_only :: "int \<Rightarrow> nat \<Rightarrow> int list \<Rightarrow> str \<Rightarrow> str" where
  "fraction_only weight dscale digits result =
     (let zeros = nat (- ((weight + 1) * 4)) in
      pad_zeros dscale (push_groups dscale digits zeros (result @ ascii ''0.'' @ replicate zeros 48)))"

definition with_integer_part :: "nat \<Rightarrow> nat \<Rightarrow> int list \<Rightarrow> str \<Rightarrow> str" where
  "with_integer_part full dscale digits result =
     (let (first, d_idx, rest) = (case digits of [] \<Rightarrow> (result, 0, [])
                                  | d # ds \<Rightarrow> (result @ show_int d, 1, ds));
          (result1, d_idx1, frac) = push_int_groups full d_idx rest first;
          result2 = result1 @ replicate (4 * (full + 1 - d_idx1)) 48
      in if dscale > 0 then pad_zeros dscale (push_frac_groups dscale frac 0 (result2 @ [46]))
         else result2)"

text \<open>A negative \<open>ndigits\<close> becomes a huge \<open>usize\<close>, which \<open>Vec::with_capacity\<close> panics on.\<close>

definition numeric_to_string :: "bytes \<Rightarrow> str res" where
  "numeric_to_string b =
     (if length b < 8 then Err (Decode ''invalid NUMERIC length: {}'')
      else let ndigits = sint (from_be_bytes (take 2 b) :: i16);
               weight = sint (from_be_bytes (take 2 (drop 2 b)) :: i16);
               sign = (from_be_bytes (take 2 (drop 4 b)) :: u16);
               dscale = unat (from_be_bytes (take 2 (drop 6 b)) :: u16)
           in if sign = NUMERIC_NAN then Ok (ascii ''NaN'')
              else if sign = NUMERIC_PINF then Ok (ascii ''Infinity'')
              else if sign = NUMERIC_NINF then Ok (ascii ''-Infinity'')
              else if ndigits = 0 then
                Ok (if dscale > 0 then ascii ''0.'' @ replicate dscale 48 else ascii ''0'')
              else if ndigits < 0 then Panic
              else rbind (read_digits (nat ndigits) (drop 8 b)) (\<lambda>digits.
                let result = (if sign = NUMERIC_NEG then [45] else []) in
                Ok (if (weight + 1) * 4 \<le> 0 then fraction_only weight dscale digits result
                    else with_integer_part (nat weight) dscale digits result)))"

section \<open>Decimal digits of a fixed width\<close>

fun dec_digits :: "nat \<Rightarrow> nat \<Rightarrow> str" where
  "dec_digits 0 x = []"
| "dec_digits (Suc n) x = dec_digits n (x div 10) @ [word_of_nat (48 + x mod 10)]"

text \<open>The decimal text of \<open>v\<close> over \<open>10 ^ scale\<close>.\<close>

definition decimal_text :: "nat \<Rightarrow> nat \<Rightarrow> str" where
  "decimal_text v scale =
     show_nat (v div 10 ^ scale) @
     (if scale = 0 then [] else 46 # dec_digits scale (v mod 10 ^ scale))"

text \<open>A binary NUMERIC and the number its digits spell in base 10000.\<close>

definition base_10000 :: "nat list \<Rightarrow> nat" where
  "base_10000 ds = foldl (\<lambda>acc d. acc * 10000 + d) 0 ds"

text \<open>The value of the number times \<open>10 ^ dscale\<close>, cut to a whole number.\<close>

definition scaled_value :: "int \<Rightarrow> nat \<Rightarrow> nat list \<Rightarrow> nat" where
  "scaled_value weight dscale ds =
     base_10000 ds * 10 ^ (dscale + 4 * nat (weight + 1)) div
     10 ^ (4 * (length ds + nat (- weight - 1)))"

definition enc_numeric :: "int \<Rightarrow> u16 \<Rightarrow> nat \<Rightarrow> nat list \<Rightarrow> bytes" where
  "enc_numeric weight sign dscale ds =
     to_be_bytes (word_of_nat (length ds) :: i16) @ to_be_bytes (word_of_int weight :: i16) @
     to_be_bytes sign @ to_be_bytes (word_of_nat dscale :: u16) @
     concat (map (\<lambda>d. to_be_bytes (word_of_nat d :: i16)) ds)"

lemma length_dec_digits [simp]: "length (dec_digits n x) = n"
  by (induction n arbitrary: x) auto

lemma dec_digits_0 [simp]: "dec_digits n 0 = replicate n 48"
  by (induction n) (auto simp: replicate_append_same)

lemma scaled_div_mod_10:
  "(a * 10 ^ Suc n + b) div 10 = a * 10 ^ n + b div (10::nat)"
  "(a * 10 ^ Suc n + b) mod 10 = b mod (10::nat)"
proof -
  have *: "a * 10 ^ Suc n + b = b + 10 * (a * 10 ^ n)" by simp
  show "(a * 10 ^ Suc n + b) div 10 = a * 10 ^ n + b div (10::nat)" by (subst *) simp
  show "(a * 10 ^ Suc n + b) mod 10 = b mod (10::nat)" by (subst *) (rule mod_mult_self2)
qed

lemma div_10_less: "b < 10 ^ Suc n \<Longrightarrow> b div 10 < (10::nat) ^ n"
  by (simp add: less_mult_imp_div_less mult.commute)

lemma dec_digits_append:
  "b < 10 ^ n \<Longrightarrow> dec_digits (m + n) (a * 10 ^ n + b) = dec_digits m a @ dec_digits n b"
proof (induction n arbitrary: b)
  case (Suc n)
  then show ?case by (simp add: scaled_div_mod_10 div_10_less del: power_Suc of_nat_add)
qed simp

lemma dec_digits_take: "k \<le> n \<Longrightarrow> take k (dec_digits n x) = dec_digits k (x div 10 ^ (n - k))"
proof (induction n arbitrary: x)
  case (Suc n)
  show ?case
  proof (cases "k = Suc n")
    case False
    then have "k \<le> n" "Suc n - k = Suc (n - k)" using Suc.prems by auto
    then show ?thesis using Suc.IH [of "x div 10"] by (simp add: div_mult2_eq)
  qed simp
qed simp

lemma show_nat_dec_digits:
  "0 < a \<Longrightarrow> b < 10 ^ n \<Longrightarrow> show_nat (a * 10 ^ n + b) = show_nat a @ dec_digits n b"
proof (induction n arbitrary: b)
  case (Suc n)
  have "1 * 10 \<le> a * 10 ^ Suc n" by (rule mult_le_mono) (use Suc.prems(1) in auto)
  then have "\<not> a * 10 ^ Suc n + b < 10" by linarith
  then show ?case using Suc
    by (subst show_nat.simps) (simp add: scaled_div_mod_10 div_10_less del: power_Suc of_nat_add)
qed simp

lemma show_nat_pad: "x < 10 ^ n \<Longrightarrow> 0 < n \<Longrightarrow>
    replicate (n - length (show_nat x)) 48 @ show_nat x = dec_digits n x"
proof (induction n arbitrary: x)
  case (Suc n)
  show ?case
  proof (cases "x < 10")
    case True
    then show ?thesis by (simp add: show_nat.simps [of x] replicate_append_same)
  next
    case False
    then have "0 < n" using Suc.prems by (cases n) auto
    moreover have "x div 10 < 10 ^ n" using Suc.prems by (simp add: div_10_less)
    ultimately show ?thesis using Suc.IH [of "x div 10"] False
      by (subst (1 2) show_nat.simps) (simp del: of_nat_add)
  qed
qed simp

lemma format_04_digits: "d < 10000 \<Longrightarrow> format_04 (int d) = dec_digits 4 d"
  using show_nat_pad [of d 4] by (simp add: format_04_def del: dec_digits.simps)

section \<open>What the loops compute\<close>

lemma push_chars_eq:
  "push_chars dscale s w r = (r @ take (dscale - w) s, w + min (dscale - w) (length s))"
proof (induction dscale s w r rule: push_chars.induct)
  case (2 dscale c s w r)
  then show ?case by (cases "w < dscale") (auto simp: Suc_diff_Suc [symmetric])
qed simp

lemma push_frac_groups_eq:
  "push_frac_groups dscale ds w r =
     (r @ take (dscale - w) (concat (map format_04 ds)),
      w + min (dscale - w) (length (concat (map format_04 ds))))"
proof (induction ds arbitrary: w r)
  case (Cons d ds)
  then show ?case by (auto simp: push_chars_eq min_def)
qed simp

lemma push_groups_eq:
  "\<forall>d \<in> set ds. length (format_04 d) = 4 \<Longrightarrow> w + 4 * (length ds - 1) < dscale \<Longrightarrow>
     push_groups dscale ds w r =
       (r @ take (dscale - w) (concat (map format_04 ds)),
        w + min (dscale - w) (length (concat (map format_04 ds))))"
proof (induction ds arbitrary: w r)
  case (Cons d ds)
  show ?case
  proof (cases ds)
    case Nil
    then show ?thesis using Cons.prems by (simp add: push_chars_eq)
  next
    case (Cons d' ds')
    then have "w + 4 + 4 * (length ds - 1) < dscale" using Cons.prems(2) by simp
    then show ?thesis using Cons.IH [of "w + 4"] Cons.prems(1) Cons by simp
  qed
qed simp

lemma push_int_groups_eq:
  "push_int_groups full i ds r =
     (r @ concat (map format_04 (take (Suc full - i) ds)), i + min (Suc full - i) (length ds),
      drop (Suc full - i) ds)"
proof (induction full i ds r rule: push_int_groups.induct)
  case (2 full i d ds r)
  then show ?case by (cases "i \<le> full") (auto simp: Suc_diff_le)
qed simp

lemma pad_zeros_eq:
  "pad_zeros dscale (r @ take (dscale - w) s, w + min (dscale - w) (length s)) =
     r @ take (dscale - w) (s @ replicate (dscale - w) 48)"
  by (auto simp: pad_zeros_def min_def)

section \<open>The digits of the number\<close>

lemma base_10000_snoc [simp]: "base_10000 (ds @ [d]) = base_10000 ds * 10000 + d"
  by (simp add: base_10000_def)

lemma base_10000_Nil [simp]: "base_10000 [] = 0"
  by (simp add: base_10000_def)

lemma base_10000_append: "base_10000 (xs @ ys) = base_10000 xs * 10000 ^ length ys + base_10000 ys"
  by (induction ys rule: rev_induct) (simp_all add: algebra_simps flip: append_assoc)

lemma ten_4: "(10::nat) ^ (4 * n) = 10000 ^ n" "(10::nat) ^ (4 + 4 * n) = 10000 * 10000 ^ n"
  by (simp_all add: power_mult power_add)

lemma base_10000_less: "\<forall>d \<in> set ds. d < 10000 \<Longrightarrow> base_10000 ds < 10 ^ (4 * length ds)"
proof (induction ds rule: rev_induct)
  case (snoc d ds)
  then show ?case by (simp add: ten_4)
qed simp

lemma format_04_concat:
  "\<forall>d \<in> set ds. d < 10000 \<Longrightarrow>
     concat (map (\<lambda>d. format_04 (int d)) ds) = dec_digits (4 * length ds) (base_10000 ds)"
proof (induction ds rule: rev_induct)
  case (snoc d ds)
  then have "dec_digits (4 * length ds + 4) (base_10000 ds * 10 ^ 4 + d) =
      dec_digits (4 * length ds) (base_10000 ds) @ dec_digits 4 d"
    by (intro dec_digits_append) auto
  then show ?case using snoc
    by (simp add: format_04_digits add.commute [of 4] del: dec_digits.simps)
qed simp

lemma dec_digits_zeros: "dec_digits n x @ replicate k 48 = dec_digits (n + k) (x * 10 ^ k)"
  using dec_digits_append [of 0 k n x] by simp

lemma zeros_dec_digits: "x < 10 ^ n \<Longrightarrow> replicate k 48 @ dec_digits n x = dec_digits (k + n) x"
  using dec_digits_append [of x n k 0] by simp

text \<open>Cut or extend the digits of a fraction to \<open>dscale\<close> places.\<close>

lemma fraction_digits:
  "take dscale (dec_digits n x @ replicate dscale 48) =
     dec_digits dscale (x * 10 ^ dscale div 10 ^ n)"
  by (simp only: dec_digits_zeros dec_digits_take) simp

lemma fraction_digits_pad:
  "take dscale (dec_digits n x) @ replicate (dscale - min dscale n) 48 =
     dec_digits dscale (x * 10 ^ dscale div 10 ^ n)"
  using fraction_digits [of dscale n x] by (auto simp: min_def)

lemma fraction_only_text:
  assumes "\<forall>d \<in> set ds. d < 10000" and "weight < 0"
    and "4 * nat (- weight - 1) + 4 * (length ds - 1) < dscale"
  shows "fraction_only weight dscale (map int ds) r =
           r @ decimal_text (scaled_value weight dscale ds) dscale"
proof -
  define z where "z = 4 * nat (- weight - 1)"
  have z: "nat (- ((weight + 1) * 4)) = z" "nat (weight + 1) = 0"
    "4 * (length ds + nat (- weight - 1)) = z + 4 * length ds"
    using assms(2) by (simp_all add: z_def)
  have le: "z \<le> dscale" "0 < dscale" using assms(3) by (simp_all add: z_def)
  define C where "C = concat (map format_04 (map int ds))"
  have C: "C = dec_digits (4 * length ds) (base_10000 ds)"
    using format_04_concat [OF assms(1)] by (simp add: C_def o_def)
  have len: "\<forall>d \<in> set (map int ds). length (format_04 d) = 4"
    using assms(1) by (auto simp: format_04_digits simp del: dec_digits.simps)
  have less: "base_10000 ds < 10 ^ (4 * length ds)" by (rule base_10000_less [OF assms(1)])
  have "fraction_only weight dscale (map int ds) r =
      pad_zeros dscale (push_groups dscale (map int ds) z (r @ ascii ''0.'' @ replicate z 48))"
    by (simp only: fraction_only_def Let_def z(1))
  also have "\<dots> = (r @ ascii ''0.'' @ replicate z 48) @
      take (dscale - z) (C @ replicate (dscale - z) 48)"
    by (subst push_groups_eq [OF len])
      (use assms(3) in \<open>simp add: z_def\<close>, simp only: pad_zeros_eq C_def)
  also have "\<dots> = r @ ascii ''0.'' @ take dscale ((replicate z 48 @ C) @ replicate dscale 48)"
    using le by (simp add: take_replicate min_def)
  also have "\<dots> = r @ ascii ''0.'' @
      dec_digits dscale (base_10000 ds * 10 ^ dscale div 10 ^ (z + 4 * length ds))"
    by (simp only: C zeros_dec_digits [OF less] fraction_digits)
  also have "\<dots> = r @ decimal_text (scaled_value weight dscale ds) dscale"
  proof -
    have "base_10000 ds < 10 ^ (z + 4 * length ds)"
      using less by (rule less_le_trans) simp
    then have "base_10000 ds * 10 ^ dscale div 10 ^ (z + 4 * length ds) < 10 ^ dscale"
      by (simp add: div_less_iff_less_mult)
    moreover have "scaled_value weight dscale ds =
        base_10000 ds * 10 ^ dscale div 10 ^ (z + 4 * length ds)"
      by (simp only: scaled_value_def z) simp
    ultimately show ?thesis using le
      by (simp add: decimal_text_def ascii_def show_nat.simps [of 0])
  qed
  finally show ?thesis .
qed

lemma base_10000_Cons: "base_10000 (d # ds) = d * 10 ^ (4 * length ds) + base_10000 ds"
  using base_10000_append [of "[d]" ds] by (simp add: base_10000_def ten_4)

text \<open>Whole digits \<open>A\<close>, \<open>z\<close> zeros they lack, and the fraction's digits \<open>B\<close>, one of the two empty.\<close>

lemma scaled_div_mod:
  fixes A B m z p :: nat
  assumes "B < 10 ^ m" and "z = 0 \<or> m = 0"
  defines "V \<equiv> (A * 10 ^ m + B) * 10 ^ (p + z) div 10 ^ m"
  shows "V div 10 ^ p = A * 10 ^ z" and "V mod 10 ^ p = B * 10 ^ p div (10::nat) ^ m"
proof -
  have V: "V = A * 10 ^ z * 10 ^ p + B * 10 ^ p div 10 ^ m"
  proof (cases "z = 0")
    case True
    have "(A * 10 ^ m + B) * 10 ^ p = B * 10 ^ p + 10 ^ m * (A * 10 ^ p)"
      by (simp add: algebra_simps)
    then show ?thesis by (simp add: V_def True)
  next
    case False
    then show ?thesis using assms by (simp add: power_add)
  qed
  have "B * 10 ^ p div 10 ^ m < 10 ^ p" using assms(1) by (simp add: div_less_iff_less_mult)
  then show "V div 10 ^ p = A * 10 ^ z" "V mod 10 ^ p = B * 10 ^ p div 10 ^ m"
    by (simp_all add: V)
qed

lemma with_integer_part_text:
  assumes "\<forall>d' \<in> set (d # ds). d' < 10000" and "0 \<le> weight" and "0 < d"
  shows "with_integer_part (nat weight) dscale (map int (d # ds)) r =
           r @ decimal_text (scaled_value weight dscale (d # ds)) dscale"
proof -
  define full where "full = nat weight"
  define P Q A z where "P = take full ds" and "Q = drop full ds" and "A = base_10000 (d # P)"
    and "z = 4 * (full - length ds)"
  have lt: "\<forall>d' \<in> set P. d' < 10000" "\<forall>d' \<in> set Q. d' < 10000"
    using assms(1) by (auto simp: P_def Q_def dest: in_set_takeD in_set_dropD)
  have "A = d * 10 ^ (4 * length P) + base_10000 P" by (simp add: A_def base_10000_Cons)
  then have A: "show_nat d @ concat (map (\<lambda>d. format_04 (int d)) P) = show_nat A" "0 < A"
    using show_nat_dec_digits [OF assms(3) base_10000_less [OF lt(1)]] format_04_concat [OF lt(1)]
      assms(3) by simp_all
  have I: "show_nat A @ replicate z 48 = show_nat (A * 10 ^ z)"
    using show_nat_dec_digits [OF A(2), of 0 z] by simp
  have idx: "4 * (full - min full (length ds)) = z" by (simp add: z_def)
  have V: "scaled_value weight dscale (d # ds) =
      (A * 10 ^ (4 * length Q) + base_10000 Q) * 10 ^ (dscale + z) div 10 ^ (4 * length Q)"
  proof -
    have split: "base_10000 (d # ds) = A * 10 ^ (4 * length Q) + base_10000 Q"
      using base_10000_append [of "d # P" Q] by (simp add: A_def P_def Q_def ten_4)
    have e: "4 * nat (weight + 1) = 4 * length (d # P) + z"
      "4 * length (d # ds) = 4 * length (d # P) + 4 * length Q"
      using assms(2) by (auto simp: P_def Q_def z_def full_def nat_add_distrib)
    have "nat (- weight - 1) = 0" using assms(2) by simp
    then have "scaled_value weight dscale (d # ds) =
        base_10000 (d # ds) * 10 ^ (dscale + z) * 10 ^ (4 * length (d # P)) div
        (10 ^ (4 * length Q) * 10 ^ (4 * length (d # P)))"
      by (simp only: scaled_value_def add_0_right e) (simp add: power_add ac_simps)
    then show ?thesis by (simp add: split)
  qed
  have zQ: "z = 0 \<or> 4 * length Q = 0" by (auto simp: z_def Q_def)
  note V_parts = scaled_div_mod [OF base_10000_less [OF lt(2)] zQ, of A dscale, folded V]
  show ?thesis
  proof (cases "dscale = 0")
    case True
    then show ?thesis using V_parts
      by (simp add: with_integer_part_def push_int_groups_eq idx decimal_text_def show_int_def
          full_def [symmetric] take_map drop_map o_def P_def [symmetric] I [symmetric] A(1) [symmetric])
  next
    case False
    then show ?thesis using V_parts
      by (simp add: with_integer_part_def push_int_groups_eq idx decimal_text_def show_int_def
          full_def [symmetric] take_map drop_map o_def P_def [symmetric] I [symmetric] A(1) [symmetric]
          Q_def [symmetric] push_frac_groups_eq format_04_concat [OF lt(2)]
          fraction_digits_pad pad_zeros_def)
  qed
qed

section \<open>The decoder on a NUMERIC the server sends\<close>

lemma sint_word_of_int_16: "- (2 ^ 15) \<le> i \<Longrightarrow> i < 2 ^ 15 \<Longrightarrow> sint (word_of_int i :: i16) = i"
  by (simp add: signed_of_int signed_take_bit_int_eq_self)

lemma read_digits_eq:
  "\<forall>d \<in> set ds. d < 10000 \<Longrightarrow>
     read_digits (length ds) (concat (map (\<lambda>d. to_be_bytes (word_of_nat d :: i16)) ds)) =
       Ok (map int ds)"
proof (induction ds)
  case (Cons d ds)
  then have "sint (word_of_nat d :: i16) = int d"
    using sint_word_of_int_16 [of "int d"] by simp
  with Cons show ?case by simp
qed simp

text \<open>
  A number as PostgreSQL sends it: zero has no digits and no sign, other numbers a non-zero first
  digit. A number below one has no digit group beyond its display scale.
\<close>

definition numeric_sent :: "int \<Rightarrow> bool \<Rightarrow> nat \<Rightarrow> nat list \<Rightarrow> bool" where
  "numeric_sent weight neg dscale ds \<longleftrightarrow>
     length ds < 2 ^ 15 \<and> - (2 ^ 15) \<le> weight \<and> weight < 2 ^ 15 \<and> dscale < 2 ^ 16 \<and>
     list_all (\<lambda>d. d < 10000) ds \<and>
     (case ds of [] \<Rightarrow> \<not> neg
      | d # ds' \<Rightarrow> 0 < d \<and>
          (weight < 0 \<longrightarrow> 4 * nat (- weight - 1) + 4 * length ds' < dscale))"

lemma numeric_to_string_sent:
  assumes "numeric_sent weight neg dscale ds"
  shows "numeric_to_string (enc_numeric weight (if neg then NUMERIC_NEG else 0) dscale ds) =
           Ok ((if neg then [45] else []) @ decimal_text (scaled_value weight dscale ds) dscale)"
proof -
  define b where "b = enc_numeric weight (if neg then NUMERIC_NEG else 0) dscale ds"
  have bounds: "length ds < 2 ^ 15" "- (2 ^ 15) \<le> weight" "weight < 2 ^ 15" "dscale < 2 ^ 16"
    and lt: "\<forall>d \<in> set ds. d < 10000"
    using assms by (auto simp: numeric_sent_def list_all_iff)
  have header: "sint (from_be_bytes (take 2 b) :: i16) = int (length ds)"
    "sint (from_be_bytes (take 2 (drop 2 b)) :: i16) = weight"
    "(from_be_bytes (take 2 (drop 4 b)) :: u16) = (if neg then NUMERIC_NEG else 0)"
    "unat (from_be_bytes (take 2 (drop 6 b)) :: u16) = dscale"
    "drop 8 b = concat (map (\<lambda>d. to_be_bytes (word_of_nat d :: i16)) ds)" "\<not> length b < 8"
    using bounds sint_word_of_int_16 [of weight] sint_word_of_int_16 [of "int (length ds)"]
    by (simp_all add: b_def enc_numeric_def unat_of_nat)
  note parse = numeric_to_string_def [of b, unfolded header Let_def]
  show ?thesis
  proof (cases ds)
    case Nil
    then have "\<not> neg" using assms by (simp add: numeric_sent_def)
    with Nil show ?thesis unfolding b_def [symmetric] parse
      by (simp add: header(6) NUMERIC_NEG_def NUMERIC_NAN_def NUMERIC_PINF_def NUMERIC_NINF_def
          decimal_text_def scaled_value_def show_nat.simps [of 0] ascii_def)
  next
    case (Cons d ds')
    have "read_digits (nat (int (length ds)))
        (concat (map (\<lambda>d. to_be_bytes (word_of_nat d :: i16)) ds)) = Ok (map int ds)"
      using read_digits_eq [OF lt] by simp
    moreover have "0 < d" and
      small: "weight < 0 \<longrightarrow> 4 * nat (- weight - 1) + 4 * (length ds - 1) < dscale"
      using assms Cons by (auto simp: numeric_sent_def)
    moreover have "fraction_only weight dscale (map int ds) r =
        r @ decimal_text (scaled_value weight dscale ds) dscale" if "weight < 0" for r
      using fraction_only_text [OF lt that] small that by simp
    moreover have "with_integer_part (nat weight) dscale (map int ds) r =
        r @ decimal_text (scaled_value weight dscale ds) dscale" if "0 \<le> weight" for r
      using with_integer_part_text [OF lt [unfolded Cons] that \<open>0 < d\<close>] Cons by simp
    ultimately show ?thesis unfolding b_def [symmetric] parse
      by (simp add: header(6) Cons NUMERIC_NEG_def NUMERIC_NAN_def NUMERIC_PINF_def NUMERIC_NINF_def)
  qed
qed

text \<open>
  C28: a binary NUMERIC as the server sends it (any sign, weight, display scale and digits)
  becomes exactly its decimal text: the value cut to the display scale, its whole part without
  leading zeros and, when the scale is positive, a point and that many digits; so the four
  loops over the digit groups (the shorter first group, the groups before the point, the zeros
  for missing groups, the cut and padded fraction) never lose, repeat or misplace a digit.
\<close>

theorem numeric_text_exact:
  assumes "numeric_sent weight neg dscale ds"
  shows "numeric_to_string (enc_numeric weight (if neg then NUMERIC_NEG else 0) dscale ds) =
           Ok ((if neg then [45] else []) @ decimal_text (scaled_value weight dscale ds) dscale)"
  by (rule numeric_to_string_sent [OF assms])

lemma show_nat_eval:
  "n < 10 \<Longrightarrow> show_nat n = [word_of_nat (48 + n)]"
  "10 \<le> n \<Longrightarrow> show_nat n = show_nat (n div 10) @ [word_of_nat (48 + n mod 10)]"
  by (subst show_nat.simps, simp)+

lemma dec_digits_numeral:
  "dec_digits (numeral k) x =
     dec_digits (pred_numeral k) (x div 10) @ [word_of_nat (48 + x mod 10)]"
  unfolding numeral_eq_Suc [of k] by (rule dec_digits.simps(2))

text \<open>-12345.67 and 0.0001\<close>

lemma decimal_text_samples:
  "decimal_text (scaled_value 1 2 [1, 2345, 6700]) 2 = ascii ''12345.67''"
  "decimal_text (scaled_value (-1) 4 [1]) 4 = ascii ''0.0001''"
proof -
  have "scaled_value 1 2 [1, 2345, 6700] = 1234567" "scaled_value (-1) 4 [1] = 1"
    by (simp_all add: scaled_value_def base_10000_def)
  moreover have "replicate 3 x = [x, x, x]" for x :: byte by (simp add: numeral_3_eq_3)
  ultimately show "decimal_text (scaled_value 1 2 [1, 2345, 6700]) 2 = ascii ''12345.67''"
    "decimal_text (scaled_value (-1) 4 [1]) 4 = ascii ''0.0001''"
    by (simp_all add: decimal_text_def show_nat_eval dec_digits_numeral ascii_def)
qed

lemma numeric_text_exact_witness:
  "numeric_to_string (enc_numeric 1 (if True then NUMERIC_NEG else 0) 2 [1, 2345, 6700]) =
     Ok ([45] @ ascii ''12345.67'') \<and>
   numeric_to_string (enc_numeric (-1) (if False then NUMERIC_NEG else 0) 4 [1]) =
     Ok (ascii ''0.0001'')"
proof -
  have "numeric_sent 1 True 2 [1, 2345, 6700]" "numeric_sent (-1) False 4 [1]"
    by (simp_all add: numeric_sent_def)
  from this [THEN numeric_text_exact] show ?thesis
    by (simp only: decimal_text_samples if_True if_False append_Nil)
qed

end
