(* ===== verification/WireValue.thy ===== *)
theory WireValue
  imports StdStr Codec ProtoTypes Frontend Backend
begin

text \<open>
  \<open>src/conversion/\<close>: the values of parameters and columns. \<open>mod.rs\<close> (the traits, options,
  slices and tuples), \<open>row.rs\<close>, and the implementations for booleans, integers, strings, byte
  strings and UUIDs. An \<open>iN\<close> or \<open>uN\<close> is an \<open>N word\<close>, read with \<open>sint\<close> or \<open>unat\<close>.

  A trait implementation is a record of its functions. Floating point numbers are not
  modelled. The uuid crate is the parameter of \<open>uuid_from_text\<close>.
\<close>

section \<open>Traits (mod.rs)\<close>

record 'a from_wire =
  fw_null :: "'a res"
  fw_text :: "oid \<Rightarrow> bytes \<Rightarrow> 'a res"
  fw_binary :: "oid \<Rightarrow> bytes \<Rightarrow> 'a res"

record 'a to_wire =
  tw_oid :: "'a \<Rightarrow> oid"
  tw_encode :: "'a \<Rightarrow> oid \<Rightarrow> bytes \<Rightarrow> unit res \<times> bytes"

text \<open>The default \<open>from_null\<close>.\<close>

definition no_null :: "'a res" where
  "no_null = Err (Decode ''unexpected NULL value'')"

definition option_from_wire :: "'a from_wire \<Rightarrow> 'a option from_wire" where
  "option_from_wire T =
     \<lparr>fw_null = Ok None, fw_text = (\<lambda>o1 b. rmap Some (fw_text T o1 b)),
      fw_binary = (\<lambda>o1 b. rmap Some (fw_binary T o1 b))\<rparr>"

definition option_to_wire :: "'a to_wire \<Rightarrow> 'a option to_wire" where
  "option_to_wire T =
     \<lparr>tw_oid = (\<lambda>v. case v of Some x \<Rightarrow> tw_oid T x | None \<Rightarrow> 0),
      tw_encode = (\<lambda>v o1 b. case v of
          Some x \<Rightarrow> tw_encode T x o1 b
        | None \<Rightarrow> (Ok (), b @ to_be_bytes (-1 :: i32)))\<rparr>"

text \<open>\<open>ToParams\<close> for \<open>()\<close>, for slices and for tuples. A slice zips its values with the
  OIDs; a tuple indexes the OIDs, which panics when there are too few. The components of a
  tuple have types of their own, so a component is what the tuple uses of it: its natural OID
  and its \<open>encode\<close>.\<close>

definition unit_params :: to_params where
  "unit_params = \<lparr>param_count = 0, natural_oids = [], encode_params = (\<lambda>oids b. (Ok (), b))\<rparr>"

fun encode_slice :: "'a to_wire \<Rightarrow> ('a \<times> oid) list \<Rightarrow> bytes \<Rightarrow> unit res \<times> bytes" where
  "encode_slice T [] b = (Ok (), b)"
| "encode_slice T ((v, o1) # vs) b =
     (let (r, b1) = tw_encode T v o1 b in rtry r b1 (\<lambda>_. encode_slice T vs b1))"

definition slice_params :: "'a to_wire \<Rightarrow> 'a list \<Rightarrow> to_params" where
  "slice_params T vs =
     \<lparr>param_count = length vs, natural_oids = map (tw_oid T) vs,
      encode_params = (\<lambda>oids b. encode_slice T (zip vs oids) b)\<rparr>"

type_synonym tuple_component = "oid \<times> (oid \<Rightarrow> bytes \<Rightarrow> unit res \<times> bytes)"

definition tuple_field :: "'a to_wire \<Rightarrow> 'a \<Rightarrow> tuple_component" where
  "tuple_field T v = (tw_oid T v, tw_encode T v)"

fun encode_tuple :: "tuple_component list \<Rightarrow> oid list \<Rightarrow> bytes \<Rightarrow> unit res \<times> bytes" where
  "encode_tuple [] oids b = (Ok (), b)"
| "encode_tuple (f # fs) [] b = (Panic, b)"
| "encode_tuple (f # fs) (o1 # oids) b =
     (let (r, b1) = snd f o1 b in rtry r b1 (\<lambda>_. encode_tuple fs oids b1))"

definition tuple_params :: "tuple_component list \<Rightarrow> to_params" where
  "tuple_params fs =
     \<lparr>param_count = length fs, natural_oids = map fst fs, encode_params = encode_tuple fs\<rparr>"

section \<open>Encoding helpers\<close>

text \<open>\<open>buf.extend_from_slice(&n_i32.to_be_bytes()); buf.extend_from_slice(data)\<close>\<close>

definition put :: "i32 \<Rightarrow> bytes \<Rightarrow> bytes \<Rightarrow> unit res \<times> bytes" where
  "put n d b = (Ok (), (b @ to_be_bytes n) @ d)"

text \<open>\<open>iM::try_from(v)\<close> for a signed and for an unsigned \<open>v\<close>.\<close>

definition try_from_signed :: "'a::len word \<Rightarrow> 'b::len word option" where
  "try_from_signed v =
     (if - (2 ^ (LENGTH('b) - 1)) \<le> sint v \<and> sint v < 2 ^ (LENGTH('b) - 1)
      then Some (word_of_int (sint v)) else None)"

definition try_from_unsigned :: "'a::len word \<Rightarrow> 'b::len word option" where
  "try_from_unsigned v =
     (if unat v < 2 ^ (LENGTH('b) - 1) then Some (word_of_nat (unat v)) else None)"

text \<open>\<open>let v = ..::try_from(..).map_err(overflow)?; put\<close>\<close>

definition put_checked :: "i32 \<Rightarrow> 'a::len word option \<Rightarrow> bytes \<Rightarrow> unit res \<times> bytes" where
  "put_checked n v b = (case v of None \<Rightarrow> (Err overflow_error, b) | Some w \<Rightarrow> put n (to_be_bytes w) b)"

section \<open>Booleans and integers (primitives.rs)\<close>

definition bool_from_text :: "oid \<Rightarrow> bytes \<Rightarrow> bool res" where
  "bool_from_text o1 b =
     (if o1 \<noteq> oid_BOOL then Err (Decode ''cannot decode oid {} as bool'')
      else if b \<in> {ascii ''t'', ascii ''true'', ascii ''TRUE'', ascii ''T'', ascii ''1''} then Ok True
      else if b \<in> {ascii ''f'', ascii ''false'', ascii ''FALSE'', ascii ''F'', ascii ''0''} then Ok False
      else Err (Decode ''invalid boolean: {:?}''))"

definition bool_from_binary :: "oid \<Rightarrow> bytes \<Rightarrow> bool res" where
  "bool_from_binary o1 b =
     (if o1 \<noteq> oid_BOOL then Err (Decode ''cannot decode oid {} as bool'')
      else case b of [x] \<Rightarrow> Ok (x \<noteq> 0) | _ \<Rightarrow> Err (Decode ''invalid boolean length: {}''))"

definition bool_encode :: "bool \<Rightarrow> oid \<Rightarrow> bytes \<Rightarrow> unit res \<times> bytes" where
  "bool_encode v o1 b =
     (if o1 = oid_BOOL then put 1 [if v then 1 else 0] b else (Err (type_mismatch oid_BOOL o1), b))"

text \<open>\<open>s.parse()\<close> after the UTF-8 check, as an \<open>iN\<close>.\<close>

definition parse_int :: "ext \<Rightarrow> string \<Rightarrow> bytes \<Rightarrow> 'a::len word res" where
  "parse_int X invalid b =
     (if \<not> x_utf8 X b then Err (Decode ''invalid UTF-8: {}'')
      else rmap word_of_int (ok_or (parse_signed LENGTH('a) b) (Decode invalid)))"

text \<open>\<open>bytes.try_into()\<close> to an array, then \<open>from_be_bytes\<close>.\<close>

definition be_exact :: "string \<Rightarrow> bytes \<Rightarrow> 'a::len word res" where
  "be_exact invalid b =
     (if length b = LENGTH('a) div 8 then Ok (from_be_bytes b) else Err (Decode invalid))"

definition i16_from_text :: "ext \<Rightarrow> oid \<Rightarrow> bytes \<Rightarrow> i16 res" where
  "i16_from_text X o1 b =
     (if o1 \<noteq> oid_INT2 then Err (Decode ''cannot decode oid {} as i16'')
      else parse_int X ''invalid i16: {}'' b)"

definition i16_from_binary :: "oid \<Rightarrow> bytes \<Rightarrow> i16 res" where
  "i16_from_binary o1 b =
     (if o1 \<noteq> oid_INT2 then Err (Decode ''cannot decode oid {} as i16'')
      else be_exact ''invalid i16 length: {}'' b)"

definition i32_from_text :: "ext \<Rightarrow> oid \<Rightarrow> bytes \<Rightarrow> i32 res" where
  "i32_from_text X o1 b =
     (if o1 \<notin> {oid_INT2, oid_INT4} then Err (Decode ''cannot decode oid {} as i32'')
      else parse_int X ''invalid i32: {}'' b)"

definition i32_from_binary :: "oid \<Rightarrow> bytes \<Rightarrow> i32 res" where
  "i32_from_binary o1 b =
     (if o1 = oid_INT2 then rmap (\<lambda>v :: i16. scast v) (be_exact ''invalid i16 length: {}'' b)
      else if o1 = oid_INT4 then be_exact ''invalid i32 length: {}'' b
      else Err (Decode ''cannot decode oid {} as i32''))"

definition i64_from_text :: "ext \<Rightarrow> oid \<Rightarrow> bytes \<Rightarrow> i64 res" where
  "i64_from_text X o1 b =
     (if o1 \<notin> {oid_INT2, oid_INT4, oid_INT8} then Err (Decode ''cannot decode oid {} as i64'')
      else parse_int X ''invalid i64: {}'' b)"

definition i64_from_binary :: "oid \<Rightarrow> bytes \<Rightarrow> i64 res" where
  "i64_from_binary o1 b =
     (if o1 = oid_INT2 then rmap (\<lambda>v :: i16. scast v) (be_exact ''invalid i16 length: {}'' b)
      else if o1 = oid_INT4 then rmap (\<lambda>v :: i32. scast v) (be_exact ''invalid i32 length: {}'' b)
      else if o1 = oid_INT8 then be_exact ''invalid i64 length: {}'' b
      else Err (Decode ''cannot decode oid {} as i64''))"

definition i16_encode :: "i16 \<Rightarrow> oid \<Rightarrow> bytes \<Rightarrow> unit res \<times> bytes" where
  "i16_encode v o1 b =
     (if o1 = oid_INT2 then put 2 (to_be_bytes v) b
      else if o1 = oid_INT4 then put 4 (to_be_bytes (scast v :: i32)) b
      else if o1 = oid_INT8 then put 8 (to_be_bytes (scast v :: i64)) b
      else (Err (type_mismatch oid_INT2 o1), b))"

definition i32_encode :: "i32 \<Rightarrow> oid \<Rightarrow> bytes \<Rightarrow> unit res \<times> bytes" where
  "i32_encode v o1 b =
     (if o1 = oid_INT2 then put_checked 2 (try_from_signed v :: i16 option) b
      else if o1 = oid_INT4 then put 4 (to_be_bytes v) b
      else if o1 = oid_INT8 then put 8 (to_be_bytes (scast v :: i64)) b
      else (Err (type_mismatch oid_INT4 o1), b))"

definition i64_encode :: "i64 \<Rightarrow> oid \<Rightarrow> bytes \<Rightarrow> unit res \<times> bytes" where
  "i64_encode v o1 b =
     (if o1 = oid_INT2 then put_checked 2 (try_from_signed v :: i16 option) b
      else if o1 = oid_INT4 then put_checked 4 (try_from_signed v :: i32 option) b
      else if o1 = oid_INT8 then put 8 (to_be_bytes v) b
      else (Err (type_mismatch oid_INT8 o1), b))"

definition i8_encode :: "8 word \<Rightarrow> oid \<Rightarrow> bytes \<Rightarrow> unit res \<times> bytes" where
  "i8_encode v o1 b =
     (if o1 = oid_INT2 then put 2 (to_be_bytes (scast v :: i16)) b
      else if o1 = oid_INT4 then put 4 (to_be_bytes (scast v :: i32)) b
      else if o1 = oid_INT8 then put 8 (to_be_bytes (scast v :: i64)) b
      else (Err (type_mismatch oid_INT2 o1), b))"

definition u8_encode :: "8 word \<Rightarrow> oid \<Rightarrow> bytes \<Rightarrow> unit res \<times> bytes" where
  "u8_encode v o1 b =
     (if o1 = oid_INT2 then put 2 (to_be_bytes (ucast v :: i16)) b
      else if o1 = oid_INT4 then put 4 (to_be_bytes (ucast v :: i32)) b
      else if o1 = oid_INT8 then put 8 (to_be_bytes (ucast v :: i64)) b
      else (Err (type_mismatch oid_INT2 o1), b))"

definition u16_encode :: "u16 \<Rightarrow> oid \<Rightarrow> bytes \<Rightarrow> unit res \<times> bytes" where
  "u16_encode v o1 b =
     (if o1 = oid_INT2 then put_checked 2 (try_from_unsigned v :: i16 option) b
      else if o1 = oid_INT4 then put 4 (to_be_bytes (ucast v :: i32)) b
      else if o1 = oid_INT8 then put 8 (to_be_bytes (ucast v :: i64)) b
      else (Err (type_mismatch oid_INT4 o1), b))"

definition u32_encode :: "u32 \<Rightarrow> oid \<Rightarrow> bytes \<Rightarrow> unit res \<times> bytes" where
  "u32_encode v o1 b =
     (if o1 = oid_INT2 then put_checked 2 (try_from_unsigned v :: i16 option) b
      else if o1 = oid_INT4 then put_checked 4 (try_from_unsigned v :: i32 option) b
      else if o1 = oid_INT8 then put 8 (to_be_bytes (ucast v :: i64)) b
      else (Err (type_mismatch oid_INT8 o1), b))"

definition u64_encode :: "u64 \<Rightarrow> oid \<Rightarrow> bytes \<Rightarrow> unit res \<times> bytes" where
  "u64_encode v o1 b =
     (if o1 = oid_INT2 then put_checked 2 (try_from_unsigned v :: i16 option) b
      else if o1 = oid_INT4 then put_checked 4 (try_from_unsigned v :: i32 option) b
      else if o1 = oid_INT8 then put_checked 8 (try_from_unsigned v :: i64 option) b
      else (Err (type_mismatch oid_INT8 o1), b))"

section \<open>The implementations\<close>

definition bool_from_wire :: "bool from_wire" where
  "bool_from_wire = \<lparr>fw_null = no_null, fw_text = bool_from_text, fw_binary = bool_from_binary\<rparr>"

definition i16_from_wire :: "ext \<Rightarrow> i16 from_wire" where
  "i16_from_wire X = \<lparr>fw_null = no_null, fw_text = i16_from_text X, fw_binary = i16_from_binary\<rparr>"

definition i32_from_wire :: "ext \<Rightarrow> i32 from_wire" where
  "i32_from_wire X = \<lparr>fw_null = no_null, fw_text = i32_from_text X, fw_binary = i32_from_binary\<rparr>"

definition i64_from_wire :: "ext \<Rightarrow> i64 from_wire" where
  "i64_from_wire X = \<lparr>fw_null = no_null, fw_text = i64_from_text X, fw_binary = i64_from_binary\<rparr>"

definition bool_to_wire :: "bool to_wire" where
  "bool_to_wire = \<lparr>tw_oid = (\<lambda>_. oid_BOOL), tw_encode = bool_encode\<rparr>"

definition i16_to_wire :: "i16 to_wire" where
  "i16_to_wire = \<lparr>tw_oid = (\<lambda>_. oid_INT2), tw_encode = i16_encode\<rparr>"

definition i32_to_wire :: "i32 to_wire" where
  "i32_to_wire = \<lparr>tw_oid = (\<lambda>_. oid_INT4), tw_encode = i32_encode\<rparr>"

definition i64_to_wire :: "i64 to_wire" where
  "i64_to_wire = \<lparr>tw_oid = (\<lambda>_. oid_INT8), tw_encode = i64_encode\<rparr>"

definition i8_to_wire :: "8 word to_wire" where
  "i8_to_wire = \<lparr>tw_oid = (\<lambda>_. oid_INT2), tw_encode = i8_encode\<rparr>"

definition u8_to_wire :: "8 word to_wire" where
  "u8_to_wire = \<lparr>tw_oid = (\<lambda>_. oid_INT2), tw_encode = u8_encode\<rparr>"

definition u16_to_wire :: "u16 to_wire" where
  "u16_to_wire = \<lparr>tw_oid = (\<lambda>_. oid_INT4), tw_encode = u16_encode\<rparr>"

definition u32_to_wire :: "u32 to_wire" where
  "u32_to_wire = \<lparr>tw_oid = (\<lambda>_. oid_INT8), tw_encode = u32_encode\<rparr>"

definition u64_to_wire :: "u64 to_wire" where
  "u64_to_wire = \<lparr>tw_oid = (\<lambda>_. oid_INT8), tw_encode = u64_encode\<rparr>"

section \<open>Strings (string.rs)\<close>

text \<open>\<open>&str\<close>; \<open>String\<close> differs in the text of an error.\<close>

definition utf8_or_decode :: "ext \<Rightarrow> bytes \<Rightarrow> str res" where
  "utf8_or_decode X b = (if x_utf8 X b then Ok b else Err (Decode ''invalid UTF-8: {}''))"

definition str_from_text :: "ext \<Rightarrow> oid \<Rightarrow> bytes \<Rightarrow> str res" where
  "str_from_text X o1 b =
     (if o1 \<notin> {oid_TEXT, oid_VARCHAR, oid_BPCHAR, oid_NAME, oid_NUMERIC}
      then Err (Decode ''cannot decode oid {} as str'')
      else utf8_or_decode X b)"

definition str_from_binary :: "ext \<Rightarrow> oid \<Rightarrow> bytes \<Rightarrow> str res" where
  "str_from_binary X o1 b =
     (if o1 \<notin> {oid_TEXT, oid_VARCHAR, oid_BPCHAR, oid_NAME}
      then Err (Decode ''cannot decode oid {} as str'')
      else utf8_or_decode X b)"

definition string_from_text :: "ext \<Rightarrow> oid \<Rightarrow> bytes \<Rightarrow> str res" where
  "string_from_text X o1 b =
     (if o1 \<notin> {oid_TEXT, oid_VARCHAR, oid_BPCHAR, oid_NAME, oid_NUMERIC}
      then Err (Decode ''cannot decode oid {} as String'')
      else utf8_or_decode X b)"

definition string_from_binary :: "ext \<Rightarrow> oid \<Rightarrow> bytes \<Rightarrow> str res" where
  "string_from_binary X o1 b =
     (if o1 \<notin> {oid_TEXT, oid_VARCHAR, oid_BPCHAR, oid_NAME}
      then Err (Decode ''cannot decode oid {} as String'')
      else utf8_or_decode X b)"

definition str_encode :: "str \<Rightarrow> oid \<Rightarrow> bytes \<Rightarrow> unit res \<times> bytes" where
  "str_encode v o1 b =
     (if o1 \<in> {oid_TEXT, oid_VARCHAR, oid_BPCHAR, oid_NAME, oid_JSON, oid_JSONB}
      then put (word_of_nat (length v)) v b
      else (Err (type_mismatch oid_TEXT o1), b))"

definition string_from_wire :: "ext \<Rightarrow> str from_wire" where
  "string_from_wire X =
     \<lparr>fw_null = no_null, fw_text = string_from_text X, fw_binary = string_from_binary X\<rparr>"

definition string_to_wire :: "str to_wire" where
  "string_to_wire = \<lparr>tw_oid = (\<lambda>_. oid_TEXT), tw_encode = str_encode\<rparr>"

section \<open>Byte strings (bytes.rs)\<close>

text \<open>The lookup table of \<open>decode_hex\<close>: the nibble, 255 for anything else.\<close>

definition hex_lookup :: "byte \<Rightarrow> byte" where
  "hex_lookup i =
     (if 48 \<le> i \<and> i \<le> 57 then i - 48
      else if 97 \<le> i \<and> i \<le> 102 then i - 97 + 10
      else if 65 \<le> i \<and> i \<le> 70 then i - 65 + 10
      else 255)"

fun decode_hex_pairs :: "bytes \<Rightarrow> bytes \<Rightarrow> bytes res" where
  "decode_hex_pairs (hi # lo # rest) result =
     (let high = hex_lookup hi; low = hex_lookup lo in
      if or high low > 15 then Err (Decode ''invalid hex digit'')
      else decode_hex_pairs rest (result @ [or (push_bit 4 high) low]))"
| "decode_hex_pairs _ result = Ok result"

definition decode_hex :: "bytes \<Rightarrow> bytes res" where
  "decode_hex hex =
     (if odd (length hex) then Err (Decode ''invalid hex length'') else decode_hex_pairs hex [])"

text \<open>\<open>&[u8]\<close> keeps the text form, \<open>Vec<u8>\<close> decodes it.\<close>

definition slice_from_text :: "oid \<Rightarrow> bytes \<Rightarrow> bytes res" where
  "slice_from_text o1 b =
     (if o1 \<noteq> oid_BYTEA then Err (Decode ''cannot decode oid {} as bytes'') else Ok b)"

definition slice_from_binary :: "oid \<Rightarrow> bytes \<Rightarrow> bytes res" where
  "slice_from_binary o1 b =
     (if o1 \<noteq> oid_BYTEA then Err (Decode ''cannot decode oid {} as bytes'') else Ok b)"

definition vec_from_text :: "oid \<Rightarrow> bytes \<Rightarrow> bytes res" where
  "vec_from_text o1 b =
     (if o1 \<noteq> oid_BYTEA then Err (Decode ''cannot decode oid {} as Vec<u8>'')
      else if starts_with b [92, 120] then decode_hex (drop 2 b) else Ok b)"

definition vec_from_binary :: "oid \<Rightarrow> bytes \<Rightarrow> bytes res" where
  "vec_from_binary o1 b =
     (if o1 \<noteq> oid_BYTEA then Err (Decode ''cannot decode oid {} as Vec<u8>'') else Ok b)"

definition bytes_encode :: "bytes \<Rightarrow> oid \<Rightarrow> bytes \<Rightarrow> unit res \<times> bytes" where
  "bytes_encode v o1 b =
     (if o1 = oid_BYTEA then put (word_of_nat (length v)) v b
      else (Err (type_mismatch oid_BYTEA o1), b))"

definition vec_from_wire :: "bytes from_wire" where
  "vec_from_wire = \<lparr>fw_null = no_null, fw_text = vec_from_text, fw_binary = vec_from_binary\<rparr>"

definition bytes_to_wire :: "bytes to_wire" where
  "bytes_to_wire = \<lparr>tw_oid = (\<lambda>_. oid_BYTEA), tw_encode = bytes_encode\<rparr>"

section \<open>UUIDs (uuid.rs)\<close>

text \<open>A UUID is its 16 bytes; \<open>parse_str\<close> is the crate's parser, \<open>from_slice\<close> accepts 16 bytes.\<close>

definition uuid_from_text :: "ext \<Rightarrow> (str \<Rightarrow> bytes option) \<Rightarrow> oid \<Rightarrow> bytes \<Rightarrow> bytes res" where
  "uuid_from_text X parse_str o1 b =
     (if o1 \<noteq> oid_UUID then Err (Decode ''cannot decode oid {} as UUID'')
      else if \<not> x_utf8 X b then Err (Decode ''invalid UTF-8: {}'')
      else ok_or (parse_str b) (Decode ''invalid UUID: {}''))"

definition uuid_from_binary :: "oid \<Rightarrow> bytes \<Rightarrow> bytes res" where
  "uuid_from_binary o1 b =
     (if o1 \<noteq> oid_UUID then Err (Decode ''cannot decode oid {} as UUID'')
      else if length b = 16 then Ok b else Err (Decode ''invalid UUID: {}''))"

definition uuid_encode :: "bytes \<Rightarrow> oid \<Rightarrow> bytes \<Rightarrow> unit res \<times> bytes" where
  "uuid_encode v o1 b =
     (if o1 = oid_UUID then put 16 v b else (Err (type_mismatch oid_UUID o1), b))"

section \<open>Rows (row.rs)\<close>

definition decode_column_text :: "'a from_wire \<Rightarrow> field_description \<Rightarrow> bytes option \<Rightarrow> 'a res" where
  "decode_column_text T field v = (case v of
     None \<Rightarrow> fw_null T | Some b \<Rightarrow> fw_text T (type_oid (tail field)) b)"

definition decode_column_binary :: "'a from_wire \<Rightarrow> field_description \<Rightarrow> bytes option \<Rightarrow> 'a res" where
  "decode_column_binary T field v = (case v of
     None \<Rightarrow> fw_null T | Some b \<Rightarrow> fw_binary T (type_oid (tail field)) b)"

text \<open>
  \<open>FromRow\<close> for tuples: the components in order, each from the next column of the row (as
  NULL when there is none). A component is its decoder into a common type.
\<close>

fun decode_fields ::
    "(field_description \<Rightarrow> bytes option \<Rightarrow> 'v res) list \<Rightarrow> field_description list \<Rightarrow> bytes \<Rightarrow> 'v list res"
where
  "decode_fields (d # ds) (field # cols) remaining =
     (let (next, remaining') = row_next remaining in
      rbind (d field (case next of Some v \<Rightarrow> v | None \<Rightarrow> None)) (\<lambda>x.
        rmap (Cons x) (decode_fields ds cols remaining')))"
| "decode_fields _ _ remaining = Ok []"

definition tuple_from_row ::
    "(field_description \<Rightarrow> bytes option \<Rightarrow> 'v res) list \<Rightarrow> field_description list \<Rightarrow> data_row \<Rightarrow> 'v list res"
where
  "tuple_from_row ds cols row =
     (if length cols < length ds then Err (Decode ''not enough columns for tuple'')
      else decode_fields ds (take (length ds) cols) (columns_data row))"

end
