(* ===== verification/ConversionFacts.thy ===== *)
theory ConversionFacts
  imports WireValue WireFacts
begin

text \<open>
  What the conversions of \<open>WireValue\<close> guarantee. Integers: every integer type is encoded into
  each integer column type as the big-endian two's complement of the same number, or refused as
  an overflow when it does not fit; reading back gives the number. Byte strings: the hexadecimal
  text form decodes to the bytes it spells. Parameters: slices and tuples of values become the
  values of a Bind message. Rows: a tuple takes its components from the columns in order.
\<close>

section \<open>Integers\<close>

definition int_oid :: "oid \<Rightarrow> nat option" where
  "int_oid o1 = (if o1 = oid_INT2 then Some 2 else if o1 = oid_INT4 then Some 4
                 else if o1 = oid_INT8 then Some 8 else None)"

text \<open>The column of \<open>n\<close> bytes can hold \<open>z\<close>; the bytes that hold it.\<close>

definition fits :: "nat \<Rightarrow> int \<Rightarrow> bool" where
  "fits n z \<longleftrightarrow> - (2 ^ (8 * n - 1)) \<le> z \<and> z < 2 ^ (8 * n - 1)"

definition int_bytes :: "nat \<Rightarrow> int \<Rightarrow> bytes" where
  "int_bytes n z = nat_be n (nat (z mod 2 ^ (8 * n)))"

text \<open>
  \<open>encode\<close> writes the number \<open>val v\<close> into any integer column that can hold it, reports an
  overflow for one that cannot and a type mismatch for other columns, and leaves the buffer as
  it was when it reports an error.
\<close>

definition int_encoder ::
    "('a \<Rightarrow> oid \<Rightarrow> bytes \<Rightarrow> unit res \<times> bytes) \<Rightarrow> ('a \<Rightarrow> int) \<Rightarrow> bool" where
  "int_encoder encode val \<longleftrightarrow> (\<forall>v o1 b. case int_oid o1 of
     None \<Rightarrow> (\<exists>o2. encode v o1 b = (Err (type_mismatch o2 o1), b))
   | Some n \<Rightarrow>
       if fits n (val v)
       then encode v o1 b = (Ok (), b @ to_be_bytes (word_of_nat n :: i32) @ int_bytes n (val v))
       else encode v o1 b = (Err overflow_error, b))"

lemma to_be_bytes_int: "to_be_bytes (word_of_int z :: 'a::len word) = nat_be (LENGTH('a) div 8) (nat (z mod 2 ^ LENGTH('a)))"
  by (simp add: to_be_bytes_def unsigned_of_int take_bit_eq_mod nat_mod_distrib)

lemma int_bytes_words:
  "to_be_bytes (word_of_int z :: i16) = int_bytes 2 z"
  "to_be_bytes (word_of_int z :: i32) = int_bytes 4 z"
  "to_be_bytes (word_of_int z :: i64) = int_bytes 8 z"
  by (simp_all add: to_be_bytes_int int_bytes_def)

lemma word_int_bytes:
  "to_be_bytes (v16 :: i16) = int_bytes 2 (sint v16)"
  "to_be_bytes (v32 :: i32) = int_bytes 4 (sint v32)"
  "to_be_bytes (v64 :: i64) = int_bytes 8 (sint v64)"
  using int_bytes_words [of "sint v16"] int_bytes_words [of "sint v32"] int_bytes_words [of "sint v64"]
  by simp_all

lemma cast_bytes:
  "to_be_bytes (scast v :: i16) = int_bytes 2 (sint v)" "to_be_bytes (ucast v :: i16) = int_bytes 2 (uint v)"
  "to_be_bytes (scast v :: i32) = int_bytes 4 (sint v)" "to_be_bytes (ucast v :: i32) = int_bytes 4 (uint v)"
  "to_be_bytes (scast v :: i64) = int_bytes 8 (sint v)" "to_be_bytes (ucast v :: i64) = int_bytes 8 (uint v)"
  by (simp_all only: scast_eq ucast_eq int_bytes_words)

lemma int_bytes_cast:
  "int_bytes 2 (sint (scast v :: i16)) = int_bytes 2 (sint v)"
  "int_bytes 4 (sint (scast v :: i32)) = int_bytes 4 (sint v)"
  "int_bytes 8 (sint (scast v :: i64)) = int_bytes 8 (sint v)"
  "int_bytes 2 (sint (ucast v :: i16)) = int_bytes 2 (uint v)"
  "int_bytes 4 (sint (ucast v :: i32)) = int_bytes 4 (uint v)"
  "int_bytes 8 (sint (ucast v :: i64)) = int_bytes 8 (uint v)"
  by (fact cast_bytes [unfolded word_int_bytes])+

lemmas int_bytes_same =
  int_bytes_cast(4) [where 'a = 16, simplified] int_bytes_cast(5) [where 'a = 32, simplified]
  int_bytes_cast(6) [where 'a = 64, simplified]

lemma neg_le_uint [simp]: "- numeral k \<le> uint v"
  by (rule order_trans [of _ 0]) simp_all

lemma sint_range:
  "- (2 ^ (LENGTH('a) - 1)) \<le> sint (v :: 'a::len word)" "sint v < 2 ^ (LENGTH('a) - 1)"
  using sint_ge [of v] sint_lt [of v] by simp_all

lemma try_signed:
  "(try_from_signed v :: i16 option) = (if fits 2 (sint v) then Some (scast v) else None)"
  "(try_from_signed v :: i32 option) = (if fits 4 (sint v) then Some (scast v) else None)"
  by (simp_all add: try_from_signed_def fits_def)

lemma unat_uint_less: "unat v < 2 ^ n \<longleftrightarrow> uint v < 2 ^ n"
  using of_nat_less_iff [of "unat v" "2 ^ n", where 'a = int]
  by (simp only: uint_nat of_nat_power of_nat_numeral)

lemma try_unsigned:
  "(try_from_unsigned v :: i16 option) = (if fits 2 (uint v) then Some (ucast v) else None)"
  "(try_from_unsigned v :: i32 option) = (if fits 4 (uint v) then Some (ucast v) else None)"
  "(try_from_unsigned v :: i64 option) = (if fits 8 (uint v) then Some (ucast v) else None)"
  using unat_uint_less [of v 15] unat_uint_less [of v 31] unat_uint_less [of v 63]
  by (simp_all add: try_from_unsigned_def fits_def)

lemma fits_width:
  "fits 2 (sint (v :: 8 word))" "fits 4 (sint (v :: 8 word))" "fits 8 (sint (v :: 8 word))"
  "fits 2 (uint (v :: 8 word))" "fits 4 (uint (v :: 8 word))" "fits 8 (uint (v :: 8 word))"
  "fits 2 (sint (w :: 16 word))" "fits 4 (sint (w :: 16 word))" "fits 8 (sint (w :: 16 word))"
  "fits 4 (uint (w :: 16 word))" "fits 8 (uint (w :: 16 word))"
  "fits 4 (sint (x :: 32 word))" "fits 8 (sint (x :: 32 word))" "fits 8 (uint (x :: 32 word))"
  "fits 8 (sint (y :: 64 word))"
  using sint_range [of v] sint_range [of w] sint_range [of x] sint_range [of y]
    uint_lt2p [of v] uint_lt2p [of w] uint_lt2p [of x]
  by (simp_all add: fits_def)

lemmas encoder_simps =
  int_encoder_def int_oid_def put_def put_checked_def try_signed try_unsigned fits_width
  word_int_bytes int_bytes_cast

lemma signed_encoders:
  "int_encoder i8_encode sint" "int_encoder i16_encode sint"
  "int_encoder i32_encode sint" "int_encoder i64_encode sint"
  by (auto simp: encoder_simps i8_encode_def i16_encode_def i32_encode_def i64_encode_def)

lemma unsigned_encoders:
  "int_encoder u8_encode uint" "int_encoder u16_encode uint"
  "int_encoder u32_encode uint" "int_encoder u64_encode uint"
  by (auto simp: encoder_simps int_bytes_same [symmetric] u8_encode_def u16_encode_def u32_encode_def u64_encode_def)

text \<open>Reading back: an \<open>i64\<close> from any integer column, the others from the columns they accept.\<close>

lemma length_int_bytes [simp]: "length (int_bytes n z) = n"
  by (simp add: int_bytes_def)

lemma be_exact_int_bytes:
  "(be_exact e (int_bytes 2 z) :: i16 res) = Ok (word_of_int z)"
  "(be_exact e (int_bytes 4 z) :: i32 res) = Ok (word_of_int z)"
  "(be_exact e (int_bytes 8 z) :: i64 res) = Ok (word_of_int z)"
  by (simp_all add: be_exact_def int_bytes_words [symmetric])

lemma fits_scast:
  "fits 2 z \<Longrightarrow> sint (word_of_int z :: i16) = z" "fits 4 z \<Longrightarrow> sint (word_of_int z :: i32) = z"
  "fits 8 z \<Longrightarrow> sint (word_of_int z :: i64) = z"
  by (simp_all add: fits_def signed_of_int signed_take_bit_int_eq_self)

lemma cast_back:
  "fits 2 z \<Longrightarrow> scast (word_of_int z :: i16) = (word_of_int z :: 'a::len word)"
  "fits 4 z \<Longrightarrow> scast (word_of_int z :: i32) = (word_of_int z :: 'a::len word)"
  by (simp_all only: scast_eq fits_scast)

lemma int_readers:
  "int_oid o1 = Some n \<Longrightarrow> fits n z \<Longrightarrow> i64_from_binary o1 (int_bytes n z) = Ok (word_of_int z)"
  "int_oid o1 = Some n \<Longrightarrow> n \<le> 4 \<Longrightarrow> fits n z \<Longrightarrow> i32_from_binary o1 (int_bytes n z) = Ok (word_of_int z)"
  "int_oid o1 = Some n \<Longrightarrow> n \<le> 2 \<Longrightarrow> fits n z \<Longrightarrow> i16_from_binary o1 (int_bytes n z) = Ok (word_of_int z)"
  by (auto simp: int_oid_def i64_from_binary_def i32_from_binary_def i16_from_binary_def
      be_exact_int_bytes fits_scast cast_back split: if_splits)

text \<open>\<open>decode\<close> reads every number back from the integer columns of at most \<open>w\<close> bytes.\<close>

definition int_decoder :: "(oid \<Rightarrow> bytes \<Rightarrow> 'a::len word res) \<Rightarrow> nat \<Rightarrow> bool" where
  "int_decoder decode w \<longleftrightarrow> (\<forall>o1 n z. int_oid o1 = Some n \<and> n \<le> w \<and> fits n z \<longrightarrow>
     decode o1 (int_bytes n z) = Ok (word_of_int z))"

lemma int_decoders:
  "int_decoder i16_from_binary 2" "int_decoder i32_from_binary 4" "int_decoder i64_from_binary 8"
  by (simp_all add: int_decoder_def int_readers)

text \<open>
  C38: every one of the eight integer types, given to any integer column, is written as a length
  and the big-endian two's complement of its number when the column can hold it, and otherwise
  reported as an overflow, and for another column as a type mismatch, with nothing written; the
  decoders read the number back from every column they accept.
\<close>

theorem integer_wire_exact:
  "int_encoder i8_encode sint \<and> int_encoder i16_encode sint \<and> int_encoder i32_encode sint \<and>
   int_encoder i64_encode sint \<and> int_encoder u8_encode uint \<and> int_encoder u16_encode uint \<and>
   int_encoder u32_encode uint \<and> int_encoder u64_encode uint \<and>
   int_decoder i16_from_binary 2 \<and> int_decoder i32_from_binary 4 \<and> int_decoder i64_from_binary 8"
  by (intro conjI signed_encoders unsigned_encoders int_decoders)

section \<open>Byte strings\<close>

text \<open>The lower-case hexadecimal text of a byte string; the lower-case form of a hex digit.\<close>

definition nibble_char :: "byte \<Rightarrow> byte" where
  "nibble_char n = (if n < 10 then 48 + n else 87 + n)"

definition bytea_hex :: "bytes \<Rightarrow> str" where
  "bytea_hex b = concat (map (\<lambda>x. [nibble_char (drop_bit 4 x), nibble_char (take_bit 4 x)]) b)"

definition lower_hex :: "byte \<Rightarrow> byte" where
  "lower_hex c = (if 65 \<le> c \<and> c \<le> 70 then c + 32 else c)"

lemma nibble_iff: "(n :: byte) < 16 \<longleftrightarrow> take_bit 4 n = n"
proof -
  have "take_bit 4 n = n \<longleftrightarrow> unat n mod 16 = unat n"
    by (simp add: word_eq_iff_unsigned [where 'a = nat] unsigned_take_bit_eq take_bit_eq_mod
        unat_mod_distrib)
  moreover have "unat n < 16 \<longleftrightarrow> unat n mod 16 = unat n" by presburger
  ultimately show ?thesis by (simp add: word_less_nat_alt)
qed

lemma nibbles:
  assumes "(h :: byte) < 16" "l < 16"
  shows "or (push_bit 4 h) l = x \<longleftrightarrow> h = drop_bit 4 x \<and> l = take_bit 4 x"
proof
  have *: "take_bit 4 h = h" "take_bit 4 l = l" using assms by (simp_all add: nibble_iff)
  show "h = drop_bit 4 x \<and> l = take_bit 4 x" if "or (push_bit 4 h) l = x"
  proof -
    have "take_bit 4 x = or (take_bit 4 (push_bit 4 h)) (take_bit 4 l)"
      using that by (auto simp: take_bit_or)
    moreover have "drop_bit 4 x = or (drop_bit 4 (push_bit 4 h)) (drop_bit 4 (take_bit 4 l))"
      using that * by (auto simp: drop_bit_or)
    moreover have "drop_bit 4 (push_bit 4 (take_bit 4 h)) = take_bit 4 h"
      "drop_bit 4 (take_bit 4 l) = 0"
      by (rule bit_eqI, auto simp: bit_simps)+
    ultimately show ?thesis using * by (simp add: take_bit_push_bit)
  qed
  show "or (push_bit 4 h) l = x" if "h = drop_bit 4 x \<and> l = take_bit 4 x"
    using that by (intro bit_eqI) (auto simp: bit_simps)
qed

lemma hex_range:
  "48 \<le> unat (c :: byte) \<Longrightarrow> unat (c - 48) = unat c - 48"
  "97 \<le> unat c \<Longrightarrow> unat (c - 87) = unat c - 87" "65 \<le> unat c \<Longrightarrow> unat (c - 55) = unat c - 55"
  using unat_sub [of 48 c] unat_sub [of 87 c] unat_sub [of 55 c] by (auto simp: word_le_nat_alt)

lemma hex_lookup_cases:
  "hex_lookup c = (if hex_lookup c < 16 then hex_lookup c else 255)"
  using hex_range [of c]
  by (auto simp: hex_lookup_def word_le_nat_alt word_less_nat_alt)

lemma hex_pair_ok: "\<not> or (hex_lookup c) (hex_lookup d) > 15 \<longleftrightarrow> hex_lookup c < 16 \<and> hex_lookup d < 16"
proof -
  have le: "\<not> x > 15 \<longleftrightarrow> x < (16 :: byte)" for x
    by (auto simp: word_le_nat_alt word_less_nat_alt)
  have all_ones: "(255 :: byte) = - 1" by simp
  show ?thesis
  proof (cases "hex_lookup c < 16 \<and> hex_lookup d < 16")
    case True
    then show ?thesis by (simp add: le nibble_iff take_bit_or)
  next
    case False
    then have "or (hex_lookup c) (hex_lookup d) = 255"
      using hex_lookup_cases [of c] hex_lookup_cases [of d] by (auto simp: all_ones)
    with False show ?thesis by simp
  qed
qed

lemma hex_lookup_lower: "hex_lookup c = n \<and> n < 16 \<longleftrightarrow> n < 16 \<and> lower_hex c = nibble_char n"
  using hex_range [of c] unat_byte_less [of c]
  by (auto simp: hex_lookup_def nibble_char_def lower_hex_def word_le_nat_alt word_less_nat_alt
      unat_word_ariths word_eq_iff_unsigned [where 'a = nat] split: if_splits)

lemma bytea_hex_simps [simp]:
  "bytea_hex [] = []"
  "bytea_hex (x # b) = nibble_char (drop_bit 4 x) # nibble_char (take_bit 4 x) # bytea_hex b"
  by (simp_all add: bytea_hex_def)

lemma nibble_less: "drop_bit 4 (x :: byte) < 16" "take_bit 4 (x :: byte) < 16"
proof -
  have "take_bit 4 (drop_bit 4 x) = drop_bit 4 x"
    by (rule bit_eqI) (auto simp: bit_simps dest: bit_imp_le_length)
  then show "drop_bit 4 x < 16" "take_bit 4 x < 16" by (simp_all add: nibble_iff)
qed

lemma hex_pair:
  "(\<not> or (hex_lookup c) (hex_lookup d) > 15 \<and> or (push_bit 4 (hex_lookup c)) (hex_lookup d) = x) \<longleftrightarrow>
     lower_hex c = nibble_char (drop_bit 4 x) \<and> lower_hex d = nibble_char (take_bit 4 x)"
proof -
  have "(\<not> or (hex_lookup c) (hex_lookup d) > 15 \<and> or (push_bit 4 (hex_lookup c)) (hex_lookup d) = x) \<longleftrightarrow>
      (hex_lookup c = drop_bit 4 x \<and> drop_bit 4 x < 16) \<and> (hex_lookup d = take_bit 4 x \<and> take_bit 4 x < 16)"
    using nibbles [of "hex_lookup c" "hex_lookup d" x] nibble_less [of x] by (auto simp: hex_pair_ok)
  then show ?thesis by (simp only: hex_lookup_lower) (use nibble_less [of x] in simp)
qed

lemma decode_hex_pairs_iff:
  "even (length hex) \<Longrightarrow> decode_hex_pairs hex r = Ok out \<longleftrightarrow>
     (\<exists>b. out = r @ b \<and> map lower_hex hex = bytea_hex b)"
proof (induction hex r rule: decode_hex_pairs.induct)
  case (1 c d rest r)
  let ?x = "or (push_bit 4 (hex_lookup c)) (hex_lookup d)"
  have digits: "(map lower_hex (c # d # rest) = bytea_hex b) \<longleftrightarrow>
      (\<exists>b'. b = ?x # b' \<and> \<not> or (hex_lookup c) (hex_lookup d) > 15 \<and> map lower_hex rest = bytea_hex b')" for b
  proof (cases b)
    case (Cons x b')
    show ?thesis unfolding Cons using hex_pair [of c d x] by auto
  qed simp
  show ?case
    by (simp only: digits decode_hex_pairs.simps Let_def) (use 1 in \<open>auto split: if_splits\<close>)
qed (auto simp: bytea_hex_def)

lemma bytea_hex_even: "map lower_hex hex = bytea_hex b \<Longrightarrow> even (length hex)"
proof -
  have "even (length (bytea_hex b))" by (induction b) auto
  then show "map lower_hex hex = bytea_hex b \<Longrightarrow> even (length hex)" by (metis length_map)
qed

lemma decode_hex_iff: "decode_hex hex = Ok b \<longleftrightarrow> map lower_hex hex = bytea_hex b"
  using decode_hex_pairs_iff [of hex "[]" b] bytea_hex_even [of hex b] by (auto simp: decode_hex_def)

text \<open>
  \<open>Vec<u8>\<close> decodes the text form of a BYTEA column (a backslash, \<open>x\<close>, then digits) to \<open>b\<close> exactly when what follows is the
  two hexadecimal digits of each byte of \<open>b\<close>, in either case: nothing else is accepted and the
  hexadecimal text of any byte string reads back.
\<close>

theorem bytea_text_exact:
  "vec_from_text oid_BYTEA ([92, 120] @ hex) = Ok b \<longleftrightarrow> map lower_hex hex = bytea_hex b"
  by (simp add: vec_from_text_def starts_with_def decode_hex_iff)

section \<open>Parameters\<close>

text \<open>A component of a tuple that encodes, for the column type \<open>o1\<close>, to the value \<open>v\<close>.\<close>

definition field_encodes :: "tuple_component \<Rightarrow> oid \<Rightarrow> bytes option \<Rightarrow> bool" where
  "field_encodes f o1 v \<longleftrightarrow> good_value v \<and> (\<forall>b. snd f o1 b = (Ok (), b @ enc_value v))"

lemma encode_tuple_fields:
  "\<forall>(f, o1, v) \<in> set ps. field_encodes f o1 v \<Longrightarrow>
     encode_tuple (map fst ps) (map (fst \<circ> snd) ps) b =
       (Ok (), b @ concat (map (enc_value \<circ> snd \<circ> snd) ps))"
  by (induction ps arbitrary: b) (auto simp: field_encodes_def)

lemma tuple_params_encodes:
  "\<forall>(f, o1, v) \<in> set ps. field_encodes f o1 v \<Longrightarrow> length ps < 2 ^ 16 \<Longrightarrow>
     encodes (tuple_params (map fst ps)) (map (fst \<circ> snd) ps) (map (snd \<circ> snd) ps)"
  by (auto simp: encodes_def tuple_params_def encode_tuple_fields field_encodes_def comp_assoc)

text \<open>A slice of values is the tuple of its elements when there is an OID for each.\<close>

lemma encode_slice_tuple:
  "length oids = length vs \<Longrightarrow>
     encode_slice T (zip vs oids) b = encode_tuple (map (tuple_field T) vs) oids b"
  by (induction vs oids arbitrary: b rule: list_induct2') (auto simp: tuple_field_def)

text \<open>What the values are encoded to.\<close>

lemma put_value: "length d < 2 ^ 31 \<Longrightarrow> n = word_of_nat (length d) \<Longrightarrow> put n d b = (Ok (), b @ enc_value (Some d))"
  by (simp add: put_def enc_value_def)

lemma int_field:
  assumes "int_encoder (tw_encode T) val" and "int_oid o1 = Some n" and "fits n (val v)"
  shows "field_encodes (tuple_field T v) o1 (Some (int_bytes n (val v)))"
proof -
  have "n < 2 ^ 31" using assms(2) by (auto simp: int_oid_def split: if_splits)
  moreover have "tw_encode T v o1 b = (Ok (), b @ to_be_bytes (word_of_nat n :: i32) @ int_bytes n (val v))" for b
    using assms by (auto simp: int_encoder_def dest!: spec [of _ v] spec [of _ o1])
  ultimately show ?thesis
    by (simp add: field_encodes_def tuple_field_def good_value_def enc_value_def)
qed

lemma string_field:
  assumes "o1 \<in> {oid_TEXT, oid_VARCHAR, oid_BPCHAR, oid_NAME, oid_JSON, oid_JSONB}"
    and "length s < 2 ^ 31"
  shows "field_encodes (tuple_field string_to_wire s) o1 (Some s)"
  using assms
  by (simp add: field_encodes_def tuple_field_def string_to_wire_def str_encode_def put_value
      good_value_def)

lemma bytes_field:
  "length d < 2 ^ 31 \<Longrightarrow> field_encodes (tuple_field bytes_to_wire d) oid_BYTEA (Some d)"
  by (simp add: field_encodes_def tuple_field_def bytes_to_wire_def bytes_encode_def put_value
      good_value_def)

lemma option_field:
  "field_encodes (tuple_field (option_to_wire T) None) o1 None"
  "field_encodes (tuple_field T x) o1 v \<Longrightarrow> field_encodes (tuple_field (option_to_wire T) (Some x)) o1 v"
  by (simp_all add: field_encodes_def tuple_field_def option_to_wire_def good_value_def enc_value_def)

text \<open>
  C27: The parameters of a statement given as a tuple: when each component encodes for its column
  type (integers that fit, strings, byte strings, NULLs), the Bind message is complete, and a
  server reads from it one value per component, in order, NULL for \<open>None\<close>, with the format
  code preferred for each column type.
\<close>

theorem tuple_params_bound:
  assumes "\<forall>(f, o1, v) \<in> set ps. field_encodes f o1 v" and "length ps < 2 ^ 16"
    and "0 \<notin> set portal" and "0 \<notin> set stmt"
  shows "\<exists>p. write_bind b portal stmt (tuple_params (map fst ps)) (map (fst \<circ> snd) ps) =
      (Ok (), b @ F_BIND # framed p) \<and>
    rmap bm_values (decode_bind p) = Ok (map (snd \<circ> snd) ps) \<and>
    rmap bm_formats (decode_bind p) =
      Ok (map (\<lambda>(f, o1, v). format_word (preferred_format o1)) ps)"
proof -
  note enc = tuple_params_encodes [OF assms(1,2)]
  have "\<forall>v \<in> set (map (snd \<circ> snd) ps). good_value v"
    using assms(1) by (auto simp: field_encodes_def)
  then show ?thesis
    using write_bind_framed [OF enc, of b portal stmt] assms
      decode_bind_payload [of portal stmt "map (fst \<circ> snd) ps" "map (snd \<circ> snd) ps"]
    by (auto simp: case_prod_beta)
qed

definition tuple0 :: "(tuple_component \<times> oid \<times> bytes option) list" where
  "tuple0 = [(tuple_field i64_to_wire (-2), oid_INT4, Some (int_bytes 4 (-2))),
     (tuple_field string_to_wire [104, 105], oid_TEXT, Some [104, 105]),
     (tuple_field (option_to_wire bytes_to_wire) None, oid_BYTEA, None)]"

lemma tuple0_encodes: "\<forall>(f, o1, v) \<in> set tuple0. field_encodes f o1 v"
  using int_field [of i64_to_wire sint oid_INT4 4 "-2"] signed_encoders(4)
  by (simp add: tuple0_def string_field option_field i64_to_wire_def int_oid_def fits_def)

lemma nat_be_numeral: "nat_be (numeral k) x = nat_be (pred_numeral k) (x div 256) @ [word_of_nat x]"
  unfolding numeral_eq_Suc [of k] by (rule nat_be.simps(2))

theorem tuple_params_bound_witness:
  "\<exists>p. write_bind [] [] [97] (tuple_params (map fst tuple0)) [oid_INT4, oid_TEXT, oid_BYTEA] =
      (Ok (), F_BIND # framed p) \<and>
    rmap bm_values (decode_bind p) = Ok [Some [255, 255, 255, 254], Some [104, 105], None]"
proof -
  have l: "length tuple0 < 2 ^ 16" "map (fst \<circ> snd) tuple0 = [oid_INT4, oid_TEXT, oid_BYTEA]"
    "map (snd \<circ> snd) tuple0 = [Some [255, 255, 255, 254], Some [104, 105], None]"
    by (simp_all add: tuple0_def int_bytes_def nat_be_numeral)
  show ?thesis using tuple_params_bound [OF tuple0_encodes l(1), of "[]" "[97]" "[]", unfolded l(2,3)]
    by simp blast
qed

section \<open>Rows\<close>

text \<open>The components of a row by position: what a tuple of decoders makes of the columns.\<close>

definition decode_columns ::
    "(field_description \<Rightarrow> bytes option \<Rightarrow> 'v res) list \<Rightarrow> field_description list \<Rightarrow>
       bytes option list \<Rightarrow> 'v list \<Rightarrow> bool" where
  "decode_columns ds cols vs ts \<longleftrightarrow> length ts = length ds \<and> length ds \<le> length cols \<and>
     length ds \<le> length vs \<and> (\<forall>i < length ds. (ds ! i) (cols ! i) (vs ! i) = Ok (ts ! i))"

lemma decode_columns_Cons:
  "decode_columns (d # ds) cols vs ts \<longleftrightarrow> (\<exists>c cols' v vs' t ts'. cols = c # cols' \<and> vs = v # vs' \<and>
     ts = t # ts' \<and> d c v = Ok t \<and> decode_columns ds cols' vs' ts')"
  by (cases cols; cases vs; cases ts)
    (auto simp: decode_columns_def nth_Cons' less_Suc_eq_0_disj)

lemma decode_fields_enc:
  "decode_columns ds cols vs ts \<Longrightarrow> \<forall>v \<in> set vs. good_value v \<Longrightarrow>
     decode_fields ds (take (length ds) cols) (concat (map enc_value vs)) = Ok ts"
proof (induction ds arbitrary: cols vs ts)
  case Nil
  then show ?case by (simp add: decode_columns_def)
next
  case (Cons d ds)
  then show ?case by (auto simp: decode_columns_Cons row_next_enc)
qed

lemma tuple_from_row_enc:
  assumes "decode_columns ds cols vs ts" and "\<forall>v \<in> set vs. good_value v" and "length vs < 2 ^ 16"
  shows "\<exists>row. data_row_parse (enc_data_row vs) = Ok row \<and> tuple_from_row ds cols row = Ok ts"
proof -
  have "data_row_parse (enc_data_row vs) = Ok \<lparr>num_columns = word_of_nat (length vs),
      columns_data = concat (map enc_value vs)\<rparr>"
    by (simp add: data_row_parse_def enc_data_row_def slice_to_def slice_from_def)
  moreover have "length ds \<le> length cols" using assms(1) by (simp add: decode_columns_def)
  ultimately show ?thesis using decode_fields_enc [OF assms(1,2)] by (simp add: tuple_from_row_def)
qed

end
