(* ===== verification/TypedExchange.thy ===== *)
theory TypedExchange
  imports ConversionFacts ExtendedExchange
begin

text \<open>
  Typed values end to end: a statement's rows decoded into tuples, and what a value that does
  not decode leaves behind.
\<close>

section \<open>Rows decoded into tuples\<close>

text \<open>The rows \<open>vss\<close>, sent as data rows, decode to the tuples \<open>tss\<close>.\<close>

definition rows_decode ::
    "(field_description \<Rightarrow> bytes option \<Rightarrow> 'v res) list \<Rightarrow> row_description \<Rightarrow>
       bytes option list list \<Rightarrow> 'v list list \<Rightarrow> bool" where
  "rows_decode ds cols vss tss \<longleftrightarrow>
     list_all2 (\<lambda>vs ts. decode_columns ds cols vs ts \<and> length vs < 2 ^ 16 \<and> list_all good_value vs) vss tss"

lemma collect_rows:
  "rows_decode ds cols vss tss \<Longrightarrow>
     handle_row_list (collect_handler (tuple_from_row ds)) cols h (map enc_data_row vss) = Some (h @ tss)"
proof (induction vss arbitrary: h tss)
  case Nil
  then show ?case by (simp add: rows_decode_def)
next
  case (Cons vs vss)
  then obtain ts tss' where ts: "tss = ts # tss'" "rows_decode ds cols vss tss'"
      "decode_columns ds cols vs ts" "length vs < 2 ^ 16" "\<forall>v \<in> set vs. good_value v"
    by (auto simp: rows_decode_def list_all2_Cons1 list_all_iff)
  from tuple_from_row_enc [OF ts(3,5,4)] Cons.IH [OF ts(2), of "h @ [ts]"] ts(1) show ?case
    by (auto simp: collect_handler_def)
qed

lemma collect_handler_simps [simp]:
  "h_result_start (collect_handler f) h cols = (Ok (), h)"
  "h_result_end (collect_handler f) h tag = (Ok (), h)"
  by (simp_all add: collect_handler_def)

lemma collect_result:
  assumes "row_description_parse X p = Ok cols" and "rows_decode ds cols vss tss"
    and "command_complete_parse X (tag @ [0]) = Ok tag"
  shows "handle_result X (collect_handler (tuple_from_row ds)) [] (RowsOf p (map enc_data_row vss) tag) = Some tss"
  using assms collect_rows [OF assms(2), of "[]"] by (simp add: handle_tag_def)

text \<open>
  C26: Executing a statement and collecting its rows as tuples: when the server describes the
  columns and sends one data row for each row of values, and the components decode, the call
  returns exactly the decoded tuples, in order, at the boundary of the next exchange.
\<close>

theorem exec_collect_rows:
  fixes ds :: "(field_description \<Rightarrow> bytes option \<Rightarrow> 'v res) list"
  assumes ans: "answers X c msgs rest"
    and start: "exec_start ([] :: 'v list list) (c_bufs c) statement params = (Ok sm, bs)"
    and script: "filter sync_msg msgs =
      (case statement of Sql _ \<Rightarrow> [(PARSE_COMPLETE, p1)] | Prepared _ \<Rightarrow> []) @
      (BIND_COMPLETE, p2) # exec_msgs (RowsOf p (map enc_data_row vss) tag) @ [(READY_FOR_QUERY, [st])]"
    and described: "row_description_parse X p = Ok cols"
    and tagged: "command_complete_parse X (tag @ [0]) = Ok tag"
    and rows: "rows_decode ds cols vss tss"
  shows "\<exists>c'. exec_collect X (tuple_from_row ds) statement params c = Some (Ok tss, c') \<and>
    c_broken c' = c_broken c \<and> queried X c (write_buffer bs) rest msgs st c'"
  using conn_exec_runs [OF ans start script collect_result [OF described rows tagged]]
  by (auto simp: exec_collect_def)

definition ints0 :: "(field_description \<Rightarrow> bytes option \<Rightarrow> i32 res) list" where
  "ints0 = [decode_column_binary (i32_from_wire ext0)]"

definition int_column :: field_description where
  "int_column = \<lparr>field_name = [97], tail = \<lparr>table_oid = 0, column_id = 0, type_oid = oid_INT4,
     type_size = 4, type_modifier = 0xFFFFFFFF, format = 1\<rparr>\<rparr>"

lemma cols0_enc: "cols0 = enc_row_description [int_column]"
  by (simp add: cols0_def enc_row_description_def enc_field_def enc_tail_def int_column_def
      to_be_bytes_def nat_be_numeral)

lemma cols0_parse: "\<exists>f. row_description_parse ext0 cols0 = Ok [f] \<and> type_oid (tail f) = oid_INT4"
  using field_codec.read_many_enc [of "[int_column]" ext0 "[]"]
  by (simp add: cols0_enc row_description_parse_def enc_row_description_def slice_to_def
      slice_from_def good_field_def) (simp add: int_column_def)

lemma row0_enc: "row0 = enc_data_row [Some [0, 0, 0, 5]]"
  by (simp add: row0_def enc_data_row_def enc_value_def to_be_bytes_def nat_be_numeral)

lemma row0_int: "i32_from_binary oid_INT4 [0, 0, 0, 5] = Ok 5"
  by (simp add: i32_from_binary_def be_exact_def from_be_bytes_def be_nat_def)

theorem exec_collect_rows_witness:
  "\<exists>c'. exec_collect ext0 (tuple_from_row ints0) (Sql [97]) params0
      (conn0 (concat (map wire xmsgs0) @ [90])) = Some (Ok [[5]], c') \<and> inp (c_stream c') = [90]"
proof -
  obtain sm bs where start: "exec_start ([] :: i32 list list)
      (c_bufs (conn0 (concat (map wire xmsgs0) @ [90]))) (Sql [97]) params0 = (Ok sm, bs)"
    using exec_start0 by force
  have script: "filter sync_msg xmsgs0 =
      (case Sql [97] of Sql _ \<Rightarrow> [(PARSE_COMPLETE, [])] | Prepared _ \<Rightarrow> []) @
      (BIND_COMPLETE, []) # exec_msgs (RowsOf cols0 (map enc_data_row [[Some [0, 0, 0, 5]]]) tag0) @
      [(READY_FOR_QUERY, [73])]"
    by (simp add: xmsgs0_def sync_msg_def is_async_type_def row0_enc)
  obtain f where f: "row_description_parse ext0 cols0 = Ok [f]" "type_oid (tail f) = oid_INT4"
    using cols0_parse by blast
  have "rows_decode ints0 [f] [[Some [0, 0, 0, 5]]] [[5]]"
    using row0_int f(2)
    by (simp add: rows_decode_def decode_columns_def ints0_def decode_column_binary_def
        i32_from_wire_def good_value_def)
  from exec_collect_rows [OF xanswers0 [of "[90]"] start script f(1) tag0_parse this]
  show ?thesis by (auto simp only: queried_def)
qed

text \<open>
  C39: A row that the handler refuses, as when a value does not decode, ends the query at once:
  the error is returned with everything after that row, ReadyForQuery included, left unread and
  the transaction status as before, and the connection is marked broken only if the error
  counts as one; a decode error does not, so the next call starts inside this answer.
\<close>

theorem query_row_error_leaves_rest:
  assumes ans: "answers X c msgs rest"
    and script: "filter sync_msg msgs =
      (ROW_DESCRIPTION, p) # map (Pair DATA_ROW) ds @ [(DATA_ROW, d)]"
    and described: "row_description_parse X p = Ok cols"
    and started: "h_result_start H h cols = (Ok (), h1)"
    and before: "handle_row_list H cols h1 ds = Some h2"
    and row: "data_row_parse d = Ok row" and refused: "h_row H h2 cols row = (Err e, h3)"
  shows "\<exists>c'. conn_query X H h sql c = Some (Err e, h3, c') \<and> inp (c_stream c') = rest \<and>
    c_broken c' = (c_broken c \<or> is_connection_broken e) \<and> c_tx c' = c_tx c"
proof -
  let ?m = "(sq_new h sql)\<lparr>sq_state := SQ_WaitingResponse\<rparr>"
  let ?bs = "(c_bufs c)\<lparr>write_buffer := F_QUERY # framed (sql @ [0])\<rparr>"
  let ?m1 = "?m\<lparr>sq_handler := h1, sq_state := SQ_ProcessingRows\<rparr>"
  define m' where "m' = ?m1\<lparr>sq_handler := h3\<rparr>"
  let ?bs' = "?bs\<lparr>column_buffer := p, type_byte := DATA_ROW, read_buffer := d\<rparr>"
  have "feed (sq_step X H) ?m ?bs (filter sync_msg msgs) =
      feed (sq_step X H) ?m1 (?bs\<lparr>column_buffer := p\<rparr>) (map (Pair DATA_ROW) ds @ [(DATA_ROW, d)])"
    using described started
    by (simp add: script sq_new_def sq_step_def is_async_type_def sq_handle_response_def)
  also have "\<dots> = feed (sq_step X H) (?m1\<lparr>sq_handler := h2\<rparr>) (?bs\<lparr>column_buffer := p\<rparr>) [(DATA_ROW, d)]"
    by (rule sq_feed_rows) (use described before in simp_all)
  also have "\<dots> = Some (Err e, m', ?bs', [], [])"
    using described row refused
    by (simp add: m'_def sq_step_def is_async_type_def sq_handle_rows_def)
  finally have "feed (sq_step X H) ?m ?bs (filter sync_msg msgs) = Some (Err e, m', ?bs', [], [])" .
  from sqa.feed_filter [OF _ this] ans have
    "feed (sq_step X H) ?m ?bs msgs = Some (Err e, m', ?bs', async_of X msgs, [])"
    by (auto simp: answers_def sq_new_def)
  from drive_feed [OF sq_new_step _ this, of rest sq_tx] ans show ?thesis
    by (auto simp: m'_def conn_query_def answers_def stopping_def finish_drive_def mark_broken_def ran_def)
qed

definition bmsgs0 :: "(byte \<times> bytes) list" where
  "bmsgs0 = [(ROW_DESCRIPTION, cols0), (DATA_ROW, row0)]"

theorem query_row_error_leaves_rest_witness:
  "\<exists>c'. conn_query ext0 (collect_handler (tuple_from_row [decode_column_text bool_from_wire])) [] [97]
      (conn0 (concat (map wire bmsgs0) @ [67, 90])) =
      Some (Err (Decode ''cannot decode oid {} as bool''), [], c') \<and>
    inp (c_stream c') = [67, 90] \<and> \<not> c_broken c'"
proof -
  let ?H = "collect_handler (tuple_from_row [decode_column_text bool_from_wire])"
  have ans: "answers ext0 (conn0 (concat (map wire bmsgs0) @ [67, 90])) bmsgs0 [67, 90]"
    by (auto simp: answers_def bmsgs0_def small_def async_ok_def sync_msg_def is_async_type_def
        cols0_def row0_def)
  have script: "filter sync_msg bmsgs0 =
      (ROW_DESCRIPTION, cols0) # map (Pair DATA_ROW) [] @ [(DATA_ROW, row0)]"
    by (simp add: bmsgs0_def sync_msg_def is_async_type_def)
  obtain f where f: "row_description_parse ext0 cols0 = Ok [f]" "type_oid (tail f) = oid_INT4"
    using cols0_parse by blast
  define row where "row = \<lparr>num_columns = 1, columns_data = enc_value (Some [0, 0, 0, 5])\<rparr>"
  have row: "data_row_parse row0 = Ok row"
    by (simp add: row0_enc data_row_parse_def enc_data_row_def slice_to_def slice_from_def row_def)
  have "h_row ?H [] [f] row = (Err (Decode ''cannot decode oid {} as bool''), [])"
    using f(2) row_next_enc [of "Some [0, 0, 0, 5]" "[]"]
    by (simp add: row_def collect_handler_def tuple_from_row_def decode_column_text_def
        bool_from_wire_def bool_from_text_def good_value_def)
  from query_row_error_leaves_rest [OF ans script f(1) collect_handler_simps(1) _ row this, where sql = "[97]"]
  show ?thesis by auto
qed

end
