(* ===== verification/Calendar.thy ===== *)
theory Calendar
  imports WireValue "HOL-Library.Signed_Division"
begin

text \<open>
  \<open>src/conversion/chrono.rs\<close> and \<open>src/conversion/time.rs\<close>: dates, times of day and timestamps
  for the types of the chrono and of the time crate.

  The crates are parameters: a record holds the functions the code calls of one of their types,
  \<open>'d\<close> for dates, \<open>'t\<close> for times of day, \<open>'x\<close> for timestamps, \<open>'u\<close> for durations, \<open>'f\<close> for
  parsed format descriptions. A \<open>Result\<close> of theirs whose error the code only prints is an
  option. What the code relies on is stated in \<open>CalendarFacts\<close>.

  Division and remainder of an \<open>i64\<close> truncate. Sums, differences and products wrap, as in a
  release build, and none of them leaves its range but the one of \<open>time::Date::from_binary\<close>,
  where the build decides: \<open>add_i32\<close>.
\<close>

section \<open>Machine arithmetic\<close>

definition i64_div :: "i64 \<Rightarrow> i64 \<Rightarrow> i64" where
  "i64_div a b = word_of_int (sint a sdiv sint b)"

definition i64_rem :: "i64 \<Rightarrow> i64 \<Rightarrow> i64" where
  "i64_rem a b = word_of_int (sint a smod sint b)"

definition i64_abs :: "i64 \<Rightarrow> i64" where
  "i64_abs a = word_of_int \<bar>sint a\<bar>"

definition i32_max_0 :: "i32 \<Rightarrow> i32" where
  "i32_max_0 a = (if sint a \<le> 0 then 0 else a)"

text \<open>\<open>a + b\<close>: an overflow panics when the build has overflow checks, and wraps otherwise.\<close>

definition add_i32 :: "bool \<Rightarrow> i32 \<Rightarrow> i32 \<Rightarrow> i32 res" where
  "add_i32 overflow_checks a b =
     (if overflow_checks \<and> sint (a + b) \<noteq> sint a + sint b then Panic else Ok (a + b))"

definition USECS_PER_SEC :: i64 where "USECS_PER_SEC = 1000000"

definition PG_EPOCH_JULIAN_DAY :: i32 where "PG_EPOCH_JULIAN_DAY = 2451545"

section \<open>The chrono crate\<close>

text \<open>
  \<open>td_seconds\<close> is \<open>Duration::seconds\<close>, which panics out of its range. \<open>cd_epoch\<close> is
  \<open>NaiveDate::from_ymd_opt(2000, 1, 1).unwrap()\<close>, evaluated when the crate is compiled.
\<close>

record 'u chrono_delta =
  td_seconds :: "i64 \<Rightarrow> 'u res"
  td_nanoseconds :: "i64 \<Rightarrow> 'u"
  td_num_days :: "'u \<Rightarrow> i64"
  td_num_microseconds :: "'u \<Rightarrow> i64 option"

record ('d, 'u) chrono_date =
  cd_parse :: "str \<Rightarrow> string \<Rightarrow> 'd option"
  cd_epoch :: 'd
  cd_add_days :: "'d \<Rightarrow> u64 \<Rightarrow> 'd option"
  cd_sub_days :: "'d \<Rightarrow> u64 \<Rightarrow> 'd option"
  cd_since :: "'d \<Rightarrow> 'd \<Rightarrow> 'u"

record 't chrono_time =
  ct_parse :: "str \<Rightarrow> string \<Rightarrow> 't option"
  ct_from_seconds :: "u32 \<Rightarrow> u32 \<Rightarrow> 't option"
  ct_seconds :: "'t \<Rightarrow> u32"
  ct_nanosecond :: "'t \<Rightarrow> u32"

text \<open>
  \<open>NaiveDateTime\<close> or \<open>DateTime<Utc>\<close>. \<open>cx_midnight\<close> is \<open>PG_EPOCH.and_hms_opt(0, 0, 0)\<close>,
  \<open>cx_epoch\<close> is \<open>PG_EPOCH_DT\<close>, for UTC each followed by \<open>and_utc\<close>; \<open>cx_parse\<close> is
  \<open>parse_from_str\<close>, for UTC followed by \<open>with_timezone(&Utc)\<close>.
\<close>

record ('x, 'u) chrono_datetime =
  cx_parse :: "str \<Rightarrow> string \<Rightarrow> 'x option"
  cx_midnight :: "'x option"
  cx_epoch :: 'x
  cx_add :: "'x \<Rightarrow> 'u \<Rightarrow> 'x option"
  cx_sub :: "'x \<Rightarrow> 'u \<Rightarrow> 'x option"
  cx_with_nanosecond :: "'x \<Rightarrow> u32 \<Rightarrow> 'x option"
  cx_since :: "'x \<Rightarrow> 'x \<Rightarrow> 'u"

text \<open>\<open>a.or_else(|_| b)\<close>\<close>

fun or_else :: "'a option \<Rightarrow> 'a option \<Rightarrow> 'a option" where
  "or_else (Some x) b = Some x"
| "or_else None b = b"

section \<open>NaiveDate\<close>

definition naive_date_from_text :: "ext \<Rightarrow> ('d, 'u) chrono_date \<Rightarrow> oid \<Rightarrow> bytes \<Rightarrow> 'd res" where
  "naive_date_from_text X D o1 b =
     (if o1 \<noteq> oid_DATE then Err (Decode ''cannot decode oid {} as NaiveDate'')
      else if \<not> x_utf8 X b then Err (Decode ''invalid UTF-8: {}'')
      else ok_or (cd_parse D b ''%Y-%m-%d'') (Decode ''invalid date: {}''))"

definition naive_date_from_binary :: "('d, 'u) chrono_date \<Rightarrow> oid \<Rightarrow> bytes \<Rightarrow> 'd res" where
  "naive_date_from_binary D o1 b =
     (if o1 \<noteq> oid_DATE then Err (Decode ''cannot decode oid {} as NaiveDate'')
      else rbind (be_exact ''invalid Date length: {}'' b) (\<lambda>pg_days :: i32.
        ok_or (or_else (cd_add_days D (cd_epoch D) (scast (i32_max_0 pg_days)))
                 (cd_sub_days D (cd_epoch D) (scast (i32_max_0 (- pg_days)))))
          (Decode ''date overflow'')))"

definition naive_date_encode ::
    "('d, 'u) chrono_date \<Rightarrow> 'u chrono_delta \<Rightarrow> 'd \<Rightarrow> oid \<Rightarrow> bytes \<Rightarrow> unit res \<times> bytes" where
  "naive_date_encode D U v o1 b =
     (if o1 = oid_DATE
      then let pg_days = ucast (td_num_days U (cd_since D v (cd_epoch D))) :: i32 in
        put 4 (to_be_bytes pg_days) b
      else (Err (type_mismatch oid_DATE o1), b))"

section \<open>NaiveTime\<close>

definition naive_time_from_text :: "ext \<Rightarrow> 't chrono_time \<Rightarrow> oid \<Rightarrow> bytes \<Rightarrow> 't res" where
  "naive_time_from_text X T o1 b =
     (if o1 \<noteq> oid_TIME then Err (Decode ''cannot decode oid {} as NaiveTime'')
      else if \<not> x_utf8 X b then Err (Decode ''invalid UTF-8: {}'')
      else ok_or (or_else (ct_parse T b ''%H:%M:%S%.f'') (ct_parse T b ''%H:%M:%S''))
        (Decode ''invalid time: {}''))"

definition naive_time_from_binary :: "'t chrono_time \<Rightarrow> oid \<Rightarrow> bytes \<Rightarrow> 't res" where
  "naive_time_from_binary T o1 b =
     (if o1 \<noteq> oid_TIME then Err (Decode ''cannot decode oid {} as NaiveTime'')
      else rbind (be_exact ''invalid Time length: {}'' b) (\<lambda>usecs :: i64.
        let secs = ucast (i64_div usecs USECS_PER_SEC) :: u32;
            nano = ucast (i64_rem usecs USECS_PER_SEC * 1000) :: u32 in
        ok_or (ct_from_seconds T secs nano) (Decode ''invalid time'')))"

definition naive_time_encode ::
    "'t chrono_time \<Rightarrow> 't \<Rightarrow> oid \<Rightarrow> bytes \<Rightarrow> unit res \<times> bytes" where
  "naive_time_encode T v o1 b =
     (if o1 = oid_TIME
      then let usecs = (ucast (ct_seconds T v) :: i64) * USECS_PER_SEC +
             i64_div (ucast (ct_nanosecond T v)) 1000 in
        put 8 (to_be_bytes usecs) b
      else (Err (type_mismatch oid_TIME o1), b))"

section \<open>NaiveDateTime and DateTime<Utc>\<close>

text \<open>\<open>s.find(['+', '-']).filter(|&pos| pos > 10).map(|pos| &s[..pos]).unwrap_or(s)\<close>\<close>

fun find_sign :: "str \<Rightarrow> nat option" where
  "find_sign [] = None"
| "find_sign (c # s) = (if c = 43 \<or> c = 45 then Some 0 else map_option Suc (find_sign s))"

definition strip_timezone :: "str \<Rightarrow> str" where
  "strip_timezone s = (case find_sign s of
     Some pos \<Rightarrow> if pos > 10 then take pos s else s
   | None \<Rightarrow> s)"

definition naive_datetime_from_text ::
    "ext \<Rightarrow> ('x, 'u) chrono_datetime \<Rightarrow> oid \<Rightarrow> bytes \<Rightarrow> 'x res" where
  "naive_datetime_from_text X L o1 b =
     (if o1 \<notin> {oid_TIMESTAMP, oid_TIMESTAMPTZ} then Err (Decode ''cannot decode oid {} as NaiveDateTime'')
      else if \<not> x_utf8 X b then Err (Decode ''invalid UTF-8: {}'')
      else let s = strip_timezone b in
        ok_or (or_else (cx_parse L s ''%Y-%m-%d %H:%M:%S%.f'') (cx_parse L s ''%Y-%m-%d %H:%M:%S''))
          (Decode ''invalid timestamp: {}''))"

text \<open>The end of both \<open>from_binary\<close>: the epoch and the microseconds from it.\<close>

definition chrono_from_usecs ::
    "('x, 'u) chrono_datetime \<Rightarrow> 'u chrono_delta \<Rightarrow> i64 \<Rightarrow> 'x res" where
  "chrono_from_usecs L U usecs =
     rbind (ok_or (cx_midnight L) (Decode ''invalid epoch'')) (\<lambda>pg_epoch.
       let secs = i64_div usecs USECS_PER_SEC;
           nano = ucast (i64_abs (i64_rem usecs USECS_PER_SEC) * 1000) :: u32 in
       rbind (td_seconds U secs) (\<lambda>d.
         ok_or (case cx_add L pg_epoch d of
              None \<Rightarrow> None
            | Some dt \<Rightarrow>
                if 0 \<le> sint usecs then cx_with_nanosecond L dt nano
                else cx_sub L dt (td_nanoseconds U (ucast nano)))
           (Decode ''timestamp overflow'')))"

definition naive_datetime_from_binary ::
    "('x, 'u) chrono_datetime \<Rightarrow> 'u chrono_delta \<Rightarrow> oid \<Rightarrow> bytes \<Rightarrow> 'x res" where
  "naive_datetime_from_binary L U o1 b =
     (if o1 \<notin> {oid_TIMESTAMP, oid_TIMESTAMPTZ} then Err (Decode ''cannot decode oid {} as NaiveDateTime'')
      else rbind (be_exact ''invalid Timestamp length: {}'' b) (chrono_from_usecs L U))"

definition naive_datetime_encode ::
    "('x, 'u) chrono_datetime \<Rightarrow> 'u chrono_delta \<Rightarrow> 'x \<Rightarrow> oid \<Rightarrow> bytes \<Rightarrow> unit res \<times> bytes" where
  "naive_datetime_encode L U v o1 b =
     (if o1 \<in> {oid_TIMESTAMP, oid_TIMESTAMPTZ}
      then let usecs = (case td_num_microseconds U (cx_since L v (cx_epoch L)) of
               Some n \<Rightarrow> n | None \<Rightarrow> word_of_int (2 ^ 63 - 1)) in
        put 8 (to_be_bytes usecs) b
      else (Err (type_mismatch oid_TIMESTAMP o1), b))"

definition datetime_utc_from_text ::
    "ext \<Rightarrow> ('x, 'u) chrono_datetime \<Rightarrow> oid \<Rightarrow> bytes \<Rightarrow> 'x res" where
  "datetime_utc_from_text X L o1 b =
     (if o1 \<noteq> oid_TIMESTAMPTZ then Err (Decode ''cannot decode oid {} as DateTime<Utc>'')
      else if \<not> x_utf8 X b then Err (Decode ''invalid UTF-8: {}'')
      else ok_or (or_else (cx_parse L b ''%Y-%m-%d %H:%M:%S%.f%#z'')
                    (cx_parse L b ''%Y-%m-%d %H:%M:%S%#z''))
        (Decode ''invalid timestamptz: {}''))"

definition datetime_utc_from_binary ::
    "('x, 'u) chrono_datetime \<Rightarrow> 'u chrono_delta \<Rightarrow> oid \<Rightarrow> bytes \<Rightarrow> 'x res" where
  "datetime_utc_from_binary L U o1 b =
     (if o1 \<noteq> oid_TIMESTAMPTZ then Err (Decode ''cannot decode oid {} as DateTime<Utc>'')
      else rbind (be_exact ''invalid Timestamp length: {}'' b) (chrono_from_usecs L U))"

definition datetime_utc_encode ::
    "('x, 'u) chrono_datetime \<Rightarrow> 'u chrono_delta \<Rightarrow> 'x \<Rightarrow> oid \<Rightarrow> bytes \<Rightarrow> unit res \<times> bytes" where
  "datetime_utc_encode L U v o1 b =
     (if o1 \<in> {oid_TIMESTAMP, oid_TIMESTAMPTZ}
      then let usecs = (case td_num_microseconds U (cx_since L v (cx_epoch L)) of
               Some n \<Rightarrow> n | None \<Rightarrow> word_of_int (2 ^ 63 - 1)) in
        put 8 (to_be_bytes usecs) b
      else (Err (type_mismatch oid_TIMESTAMPTZ o1), b))"

section \<open>The time crate\<close>

text \<open>
  \<open>format_description!\<close> is \<open>ft_macro\<close>, \<open>parse_borrowed::<3>\<close> is \<open>ft_borrowed\<close>.
  \<open>tx_whole_microseconds\<close> is an \<open>i128\<close>, \<open>tx_epoch\<close> is \<open>datetime!(2000-01-01 00:00:00)\<close>, for
  \<open>OffsetDateTime\<close> with \<open>UTC\<close>, and \<open>tx_to_utc\<close> is \<open>to_offset(UtcOffset::UTC)\<close>.
\<close>

record 'f time_formats =
  ft_macro :: "string \<Rightarrow> 'f"
  ft_borrowed :: "string \<Rightarrow> 'f option"

record ('d, 'f) time_date =
  tm_parse_date :: "str \<Rightarrow> 'f \<Rightarrow> 'd option"
  tm_from_julian :: "i32 \<Rightarrow> 'd option"
  tm_to_julian :: "'d \<Rightarrow> i32"

record ('t, 'f) time_time =
  tm_parse_time :: "str \<Rightarrow> 'f \<Rightarrow> 't option"
  tm_from_hms_micro :: "byte \<Rightarrow> byte \<Rightarrow> byte \<Rightarrow> u32 \<Rightarrow> 't option"
  tm_as_hms_nano :: "'t \<Rightarrow> byte \<times> byte \<times> byte \<times> u32"

record ('x, 'u, 'f) time_datetime =
  tx_parse :: "str \<Rightarrow> 'f \<Rightarrow> 'x option"
  tx_epoch :: 'x
  tx_add :: "'x \<Rightarrow> 'u \<Rightarrow> 'x option"
  tx_minus :: "'x \<Rightarrow> 'x \<Rightarrow> 'u"
  tx_microseconds :: "i64 \<Rightarrow> 'u"
  tx_whole_microseconds :: "'u \<Rightarrow> 128 word"
  tx_to_utc :: "'x \<Rightarrow> 'x"

section \<open>Date\<close>

definition time_date_from_text ::
    "ext \<Rightarrow> 'f time_formats \<Rightarrow> ('d, 'f) time_date \<Rightarrow> oid \<Rightarrow> bytes \<Rightarrow> 'd res" where
  "time_date_from_text X F D o1 b =
     (if o1 \<noteq> oid_DATE then Err (Decode ''cannot decode oid {} as Date'')
      else if \<not> x_utf8 X b then Err (Decode ''invalid UTF-8: {}'')
      else ok_or (tm_parse_date D b (ft_macro F ''[year]-[month]-[day]'')) (Decode ''invalid date: {}''))"

definition time_date_from_binary ::
    "bool \<Rightarrow> ('d, 'f) time_date \<Rightarrow> oid \<Rightarrow> bytes \<Rightarrow> 'd res" where
  "time_date_from_binary overflow_checks D o1 b =
     (if o1 \<noteq> oid_DATE then Err (Decode ''cannot decode oid {} as Date'')
      else rbind (be_exact ''invalid Date length: {}'' b) (\<lambda>pg_days :: i32.
        rbind (add_i32 overflow_checks pg_days PG_EPOCH_JULIAN_DAY) (\<lambda>day.
          ok_or (tm_from_julian D day) (Decode ''invalid date: {}''))))"

definition time_date_encode ::
    "('d, 'f) time_date \<Rightarrow> 'd \<Rightarrow> oid \<Rightarrow> bytes \<Rightarrow> unit res \<times> bytes" where
  "time_date_encode D v o1 b =
     (if o1 = oid_DATE
      then let pg_days = tm_to_julian D v - PG_EPOCH_JULIAN_DAY in put 4 (to_be_bytes pg_days) b
      else (Err (type_mismatch oid_DATE o1), b))"

section \<open>Time\<close>

definition time_time_from_text ::
    "ext \<Rightarrow> 'f time_formats \<Rightarrow> ('t, 'f) time_time \<Rightarrow> oid \<Rightarrow> bytes \<Rightarrow> 't res" where
  "time_time_from_text X F T o1 b =
     (if o1 \<noteq> oid_TIME then Err (Decode ''cannot decode oid {} as Time'')
      else if \<not> x_utf8 X b then Err (Decode ''invalid UTF-8: {}'')
      else ok_or (or_else (tm_parse_time T b (ft_macro F ''[hour]:[minute]:[second].[subsecond]''))
                    (tm_parse_time T b (ft_macro F ''[hour]:[minute]:[second]'')))
        (Decode ''invalid time: {}''))"

definition time_time_from_binary :: "('t, 'f) time_time \<Rightarrow> oid \<Rightarrow> bytes \<Rightarrow> 't res" where
  "time_time_from_binary T o1 b =
     (if o1 \<noteq> oid_TIME then Err (Decode ''cannot decode oid {} as Time'')
      else rbind (be_exact ''invalid Time length: {}'' b) (\<lambda>usecs :: i64.
        let hours = ucast (i64_div usecs 3600000000) :: byte;
            remaining = i64_rem usecs 3600000000;
            minutes = ucast (i64_div remaining 60000000) :: byte;
            remaining = i64_rem remaining 60000000;
            seconds = ucast (i64_div remaining 1000000) :: byte;
            micros = ucast (i64_rem remaining 1000000) :: u32 in
        ok_or (tm_from_hms_micro T hours minutes seconds micros) (Decode ''invalid time: {}'')))"

definition time_time_encode ::
    "('t, 'f) time_time \<Rightarrow> 't \<Rightarrow> oid \<Rightarrow> bytes \<Rightarrow> unit res \<times> bytes" where
  "time_time_encode T v o1 b =
     (if o1 = oid_TIME
      then let (hour, minute, second, nano) = tm_as_hms_nano T v;
               usecs = (ucast hour :: i64) * 3600000000 + ucast minute * 60000000 +
                 ucast second * 1000000 + i64_div (ucast nano) 1000 in
        put 8 (to_be_bytes usecs) b
      else (Err (type_mismatch oid_TIME o1), b))"

section \<open>PrimitiveDateTime\<close>

definition primitive_from_text ::
    "ext \<Rightarrow> 'f time_formats \<Rightarrow> ('x, 'u, 'f) time_datetime \<Rightarrow> oid \<Rightarrow> bytes \<Rightarrow> 'x res" where
  "primitive_from_text X F L o1 b =
     (if o1 \<notin> {oid_TIMESTAMP, oid_TIMESTAMPTZ} then Err (Decode ''cannot decode oid {} as Timestamp'')
      else if \<not> x_utf8 X b then Err (Decode ''invalid UTF-8: {}'')
      else let s = strip_timezone b in
        ok_or (or_else
            (tx_parse L s (ft_macro F ''[year]-[month]-[day] [hour]:[minute]:[second].[subsecond]''))
            (tx_parse L s (ft_macro F ''[year]-[month]-[day] [hour]:[minute]:[second]'')))
          (Decode ''invalid timestamp: {}''))"

definition primitive_from_binary ::
    "('x, 'u, 'f) time_datetime \<Rightarrow> oid \<Rightarrow> bytes \<Rightarrow> 'x res" where
  "primitive_from_binary L o1 b =
     (if o1 \<notin> {oid_TIMESTAMP, oid_TIMESTAMPTZ} then Err (Decode ''cannot decode oid {} as Timestamp'')
      else rbind (be_exact ''invalid Timestamp length: {}'' b) (\<lambda>usecs :: i64.
        ok_or (tx_add L (tx_epoch L) (tx_microseconds L usecs)) (Decode ''timestamp overflow'')))"

definition primitive_encode ::
    "('x, 'u, 'f) time_datetime \<Rightarrow> 'x \<Rightarrow> oid \<Rightarrow> bytes \<Rightarrow> unit res \<times> bytes" where
  "primitive_encode L v o1 b =
     (if o1 \<in> {oid_TIMESTAMP, oid_TIMESTAMPTZ}
      then let usecs = ucast (tx_whole_microseconds L (tx_minus L v (tx_epoch L))) :: i64 in
        put 8 (to_be_bytes usecs) b
      else (Err (type_mismatch oid_TIMESTAMP o1), b))"

section \<open>OffsetDateTime\<close>

definition offset_formats :: "string list" where
  "offset_formats =
     [''[year]-[month]-[day] [hour]:[minute]:[second].[subsecond][offset_hour]:[offset_minute]'',
      ''[year]-[month]-[day] [hour]:[minute]:[second][offset_hour]:[offset_minute]'',
      ''[year]-[month]-[day] [hour]:[minute]:[second].[subsecond][offset_hour]'',
      ''[year]-[month]-[day] [hour]:[minute]:[second][offset_hour]'']"

fun try_formats ::
    "'f time_formats \<Rightarrow> ('x, 'u, 'f) time_datetime \<Rightarrow> str \<Rightarrow> string list \<Rightarrow> 'x res" where
  "try_formats F L s [] = Err (Decode ''invalid timestamptz: {}'')"
| "try_formats F L s (fmt # fmts) = (case ft_borrowed F fmt of
       None \<Rightarrow> try_formats F L s fmts
     | Some f \<Rightarrow> (case tx_parse L s f of
           None \<Rightarrow> try_formats F L s fmts
         | Some dt \<Rightarrow> Ok dt))"

definition offset_from_text ::
    "ext \<Rightarrow> 'f time_formats \<Rightarrow> ('x, 'u, 'f) time_datetime \<Rightarrow> oid \<Rightarrow> bytes \<Rightarrow> 'x res" where
  "offset_from_text X F L o1 b =
     (if o1 \<noteq> oid_TIMESTAMPTZ then Err (Decode ''cannot decode oid {} as OffsetDateTime'')
      else if \<not> x_utf8 X b then Err (Decode ''invalid UTF-8: {}'')
      else try_formats F L b offset_formats)"

definition offset_from_binary ::
    "('x, 'u, 'f) time_datetime \<Rightarrow> oid \<Rightarrow> bytes \<Rightarrow> 'x res" where
  "offset_from_binary L o1 b =
     (if o1 \<noteq> oid_TIMESTAMPTZ then Err (Decode ''cannot decode oid {} as OffsetDateTime'')
      else rbind (be_exact ''invalid Timestamp length: {}'' b) (\<lambda>usecs :: i64.
        ok_or (tx_add L (tx_epoch L) (tx_microseconds L usecs)) (Decode ''timestamp overflow'')))"

definition offset_encode ::
    "('x, 'u, 'f) time_datetime \<Rightarrow> 'x \<Rightarrow> oid \<Rightarrow> bytes \<Rightarrow> unit res \<times> bytes" where
  "offset_encode L v o1 b =
     (if o1 \<in> {oid_TIMESTAMP, oid_TIMESTAMPTZ}
      then let utc = tx_to_utc L v;
               usecs = ucast (tx_whole_microseconds L (tx_minus L utc (tx_epoch L))) :: i64 in
        put 8 (to_be_bytes usecs) b
      else (Err (type_mismatch oid_TIMESTAMPTZ o1), b))"

section \<open>The implementations\<close>

definition naive_date_from_wire :: "ext \<Rightarrow> ('d, 'u) chrono_date \<Rightarrow> 'd from_wire" where
  "naive_date_from_wire X D =
     \<lparr>fw_null = no_null, fw_text = naive_date_from_text X D, fw_binary = naive_date_from_binary D\<rparr>"

definition naive_date_to_wire :: "('d, 'u) chrono_date \<Rightarrow> 'u chrono_delta \<Rightarrow> 'd to_wire" where
  "naive_date_to_wire D U = \<lparr>tw_oid = (\<lambda>_. oid_DATE), tw_encode = naive_date_encode D U\<rparr>"

definition naive_time_from_wire :: "ext \<Rightarrow> 't chrono_time \<Rightarrow> 't from_wire" where
  "naive_time_from_wire X T =
     \<lparr>fw_null = no_null, fw_text = naive_time_from_text X T, fw_binary = naive_time_from_binary T\<rparr>"

definition naive_time_to_wire :: "'t chrono_time \<Rightarrow> 't to_wire" where
  "naive_time_to_wire T = \<lparr>tw_oid = (\<lambda>_. oid_TIME), tw_encode = naive_time_encode T\<rparr>"

definition naive_datetime_from_wire :: "ext \<Rightarrow> ('x, 'u) chrono_datetime \<Rightarrow> 'u chrono_delta \<Rightarrow> 'x from_wire" where
  "naive_datetime_from_wire X L U =
     \<lparr>fw_null = no_null, fw_text = naive_datetime_from_text X L, fw_binary = naive_datetime_from_binary L U\<rparr>"

definition naive_datetime_to_wire :: "('x, 'u) chrono_datetime \<Rightarrow> 'u chrono_delta \<Rightarrow> 'x to_wire" where
  "naive_datetime_to_wire L U = \<lparr>tw_oid = (\<lambda>_. oid_TIMESTAMP), tw_encode = naive_datetime_encode L U\<rparr>"

definition datetime_utc_from_wire :: "ext \<Rightarrow> ('x, 'u) chrono_datetime \<Rightarrow> 'u chrono_delta \<Rightarrow> 'x from_wire" where
  "datetime_utc_from_wire X L U =
     \<lparr>fw_null = no_null, fw_text = datetime_utc_from_text X L, fw_binary = datetime_utc_from_binary L U\<rparr>"

definition datetime_utc_to_wire :: "('x, 'u) chrono_datetime \<Rightarrow> 'u chrono_delta \<Rightarrow> 'x to_wire" where
  "datetime_utc_to_wire L U = \<lparr>tw_oid = (\<lambda>_. oid_TIMESTAMPTZ), tw_encode = datetime_utc_encode L U\<rparr>"

definition time_date_from_wire :: "ext \<Rightarrow> bool \<Rightarrow> 'f time_formats \<Rightarrow> ('d, 'f) time_date \<Rightarrow> 'd from_wire" where
  "time_date_from_wire X overflow_checks F D =
     \<lparr>fw_null = no_null, fw_text = time_date_from_text X F D, fw_binary = time_date_from_binary overflow_checks D\<rparr>"

definition time_date_to_wire :: "('d, 'f) time_date \<Rightarrow> 'd to_wire" where
  "time_date_to_wire D = \<lparr>tw_oid = (\<lambda>_. oid_DATE), tw_encode = time_date_encode D\<rparr>"

definition time_time_from_wire :: "ext \<Rightarrow> 'f time_formats \<Rightarrow> ('t, 'f) time_time \<Rightarrow> 't from_wire" where
  "time_time_from_wire X F T =
     \<lparr>fw_null = no_null, fw_text = time_time_from_text X F T, fw_binary = time_time_from_binary T\<rparr>"

definition time_time_to_wire :: "('t, 'f) time_time \<Rightarrow> 't to_wire" where
  "time_time_to_wire T = \<lparr>tw_oid = (\<lambda>_. oid_TIME), tw_encode = time_time_encode T\<rparr>"

definition primitive_from_wire :: "ext \<Rightarrow> 'f time_formats \<Rightarrow> ('x, 'u, 'f) time_datetime \<Rightarrow> 'x from_wire" where
  "primitive_from_wire X F L =
     \<lparr>fw_null = no_null, fw_text = primitive_from_text X F L, fw_binary = primitive_from_binary L\<rparr>"

definition primitive_to_wire :: "('x, 'u, 'f) time_datetime \<Rightarrow> 'x to_wire" where
  "primitive_to_wire L = \<lparr>tw_oid = (\<lambda>_. oid_TIMESTAMP), tw_encode = primitive_encode L\<rparr>"

definition offset_from_wire :: "ext \<Rightarrow> 'f time_formats \<Rightarrow> ('x, 'u, 'f) time_datetime \<Rightarrow> 'x from_wire" where
  "offset_from_wire X F L =
     \<lparr>fw_null = no_null, fw_text = offset_from_text X F L, fw_binary = offset_from_binary L\<rparr>"

definition offset_to_wire :: "('x, 'u, 'f) time_datetime \<Rightarrow> 'x to_wire" where
  "offset_to_wire L = \<lparr>tw_oid = (\<lambda>_. oid_TIMESTAMPTZ), tw_encode = offset_encode L\<rparr>"

end
