(* ===== verification/CalendarFacts.thy ===== *)
theory CalendarFacts
  imports Calendar ConversionFacts
begin

text \<open>
  Dates, times of day and timestamps. The laws say what the chrono and the time crate document of
  the functions the code calls: each of their types stands for a number (nanoseconds or days from
  2000-01-01), constructors and sums give the value of that number when it is in the range of
  the type and fail otherwise. Under the laws, what each \<open>from_binary\<close> makes of every wire
  value, and that \<open>encode\<close> writes it back.
\<close>

section \<open>Signed arithmetic\<close>

lemma quotient_less:
  fixes a b c :: int
  assumes "a < c * b" and "0 < b"
  shows "a div b < c"
proof (rule ccontr)
  assume "\<not> a div b < c"
  then have "c * b \<le> a div b * b" using assms(2) by (simp add: mult_right_mono)
  also have "\<dots> \<le> a" using div_mult_mod_eq [of a b] pos_mod_sign [of b a] assms(2) by linarith
  finally show False using assms(1) by simp
qed

lemma i64_division:
  assumes "fits 8 z" and "0 < k" and "k < 2 ^ 63"
  shows "sint (i64_div (word_of_int z) (word_of_int k)) = z sdiv k"
    "sint (i64_rem (word_of_int z) (word_of_int k)) = z smod k"
    "fits 8 (z sdiv k)" "fits 8 (z smod k)"
proof -
  have k: "fits 8 k" using assms by (simp add: fits_def)
  have z: "- (2 ^ 63) \<le> z" "z < 2 ^ 63" using assms(1) by (simp_all add: fits_def)
  have "z div k < 2 ^ 63" if "0 \<le> z"
    using that z(2) assms(2) by (smt (verit) div_by_1 zdiv_mono2)
  moreover have "(- z) div k \<le> 2 ^ 63" if "z < 0"
    using that z(1) assms(2) by (smt (verit) div_by_1 zdiv_mono2)
  moreover have "0 \<le> z \<Longrightarrow> 0 \<le> z div k" "z < 0 \<Longrightarrow> 0 \<le> (- z) div k"
    using assms(2) by (simp_all add: pos_imp_zdiv_nonneg_iff)
  ultimately show q: "fits 8 (z sdiv k)"
    using assms(2) by (cases z "0 :: int" rule: linorder_cases)
      (auto simp: fits_def signed_divide_int_def)
  show r: "fits 8 (z smod k)"
    using smod_int_range [of k z] assms(2,3) by (simp add: fits_def)
  show "sint (i64_div (word_of_int z) (word_of_int k)) = z sdiv k"
    "sint (i64_rem (word_of_int z) (word_of_int k)) = z smod k"
    by (simp_all add: i64_div_def i64_rem_def fits_scast assms k q r)
qed

text \<open>An \<open>as u32\<close> of an \<open>i64\<close> that is a small natural number.\<close>

lemma cast_small:
  "0 \<le> z \<Longrightarrow> z < 2 ^ 32 \<Longrightarrow> uint (ucast (word_of_int z :: i64) :: u32) = z"
  "0 \<le> z \<Longrightarrow> z < 256 \<Longrightarrow> uint (ucast (word_of_int z :: i64) :: byte) = z"
  by (simp_all add: unsigned_ucast_eq unsigned_of_int take_bit_int_eq_self take_bit_take_bit)

section \<open>Laws of the crates\<close>

text \<open>A value of number \<open>v\<close> when it is in range, otherwise nothing.\<close>

definition lands :: "('x \<Rightarrow> bool) \<Rightarrow> ('x \<Rightarrow> int) \<Rightarrow> int \<Rightarrow> int \<Rightarrow> 'x option \<Rightarrow> int \<Rightarrow> bool" where
  "lands reg nu lo hi r v \<longleftrightarrow>
     (if lo \<le> v \<and> v \<le> hi then \<exists>y. r = Some y \<and> reg y \<and> nu y = v else r = None)"

text \<open>
  \<open>chrono::Duration\<close>: \<open>du\<close> in nanoseconds. \<open>seconds\<close> panics beyond \<open>i64::MAX / 1000\<close>.
\<close>

definition chrono_delta_laws :: "'u chrono_delta \<Rightarrow> ('u \<Rightarrow> int) \<Rightarrow> bool" where
  "chrono_delta_laws U du \<longleftrightarrow>
     (\<forall>s. \<bar>sint s\<bar> \<le> 9223372036854775 \<longrightarrow> (\<exists>u. td_seconds U s = Ok u \<and> du u = sint s * 10 ^ 9)) \<and>
     (\<forall>n. du (td_nanoseconds U n) = sint n) \<and>
     (\<forall>u z. du u = 1000 * z \<and> fits 8 z \<longrightarrow> td_num_microseconds U u = Some (word_of_int z)) \<and>
     (\<forall>u z. du u = 86400 * 10 ^ 9 * z \<and> fits 8 z \<longrightarrow> td_num_days U u = word_of_int z)"

text \<open>
  \<open>NaiveDateTime\<close> and \<open>DateTime<Utc>\<close>: \<open>nu\<close> in nanoseconds, \<open>reg\<close> the values outside a
  leap second. The last value of the range ends a second.
\<close>

definition chrono_datetime_laws ::
    "('x, 'u) chrono_datetime \<Rightarrow> ('u \<Rightarrow> int) \<Rightarrow> ('x \<Rightarrow> bool) \<Rightarrow> ('x \<Rightarrow> int) \<Rightarrow> int \<Rightarrow> int \<Rightarrow> bool" where
  "chrono_datetime_laws L du reg nu lo hi \<longleftrightarrow>
     lo \<le> 0 \<and> 0 \<le> hi \<and> hi mod 10 ^ 9 = 10 ^ 9 - 1 \<and>
     lands reg nu lo hi (cx_midnight L) 0 \<and> reg (cx_epoch L) \<and> nu (cx_epoch L) = 0 \<and>
     (\<forall>x u. reg x \<longrightarrow> lands reg nu lo hi (cx_add L x u) (nu x + du u)) \<and>
     (\<forall>x u. reg x \<longrightarrow> lands reg nu lo hi (cx_sub L x u) (nu x - du u)) \<and>
     (\<forall>x n. reg x \<and> uint n < 10 ^ 9 \<longrightarrow>
       (\<exists>y. cx_with_nanosecond L x n = Some y \<and> reg y \<and> nu y = nu x - nu x mod 10 ^ 9 + uint n)) \<and>
     (\<forall>x y. reg x \<and> reg y \<longrightarrow> du (cx_since L x y) = nu x - nu y)"

text \<open>\<open>PrimitiveDateTime\<close> and \<open>OffsetDateTime\<close> of the time crate, with its durations.\<close>

definition time_datetime_laws ::
    "('x, 'u, 'f) time_datetime \<Rightarrow> ('x \<Rightarrow> int) \<Rightarrow> int \<Rightarrow> int \<Rightarrow> bool" where
  "time_datetime_laws L nu lo hi \<longleftrightarrow> (\<exists>du.
     nu (tx_epoch L) = 0 \<and>
     (\<forall>s. du (tx_microseconds L s) = 1000 * sint s) \<and>
     (\<forall>u z. du u = 1000 * z \<and> fits 16 z \<longrightarrow> tx_whole_microseconds L u = word_of_int z) \<and>
     (\<forall>x u. lands (\<lambda>_. True) nu lo hi (tx_add L x u) (nu x + du u)) \<and>
     (\<forall>x y. du (tx_minus L x y) = nu x - nu y) \<and>
     (\<forall>x. nu (tx_to_utc L x) = nu x))"

section \<open>Timestamps\<close>

text \<open>
  A timestamp of \<open>z\<close> microseconds decodes to the value of \<open>1000 * z\<close> nanoseconds, which is
  written back as \<open>z\<close>, or is an overflow when the type has no such value.
\<close>

definition exact_timestamp ::
    "(bytes \<Rightarrow> 'x res) \<Rightarrow> ('x \<Rightarrow> bytes \<Rightarrow> unit res \<times> bytes) \<Rightarrow> ('x \<Rightarrow> int) \<Rightarrow> int \<Rightarrow> int \<Rightarrow> bool" where
  "exact_timestamp decode encode nu lo hi \<longleftrightarrow> (\<forall>z b. fits 8 z \<longrightarrow>
     (if lo \<le> 1000 * z \<and> 1000 * z \<le> hi
      then \<exists>x. decode (int_bytes 8 z) = Ok x \<and> nu x = 1000 * z \<and>
        encode x b = (Ok (), b @ to_be_bytes (8 :: i32) @ int_bytes 8 z)
      else decode (int_bytes 8 z) = Err (Decode ''timestamp overflow'')))"

text \<open>The seconds and the nanoseconds that \<open>chrono_from_usecs\<close> splits the microseconds into.\<close>

lemma usecs_split:
  assumes "fits 8 z"
  shows "sint (i64_div (word_of_int z) USECS_PER_SEC) = z sdiv 1000000"
    "\<bar>z sdiv 1000000\<bar> \<le> 9223372036854775"
    "uint (ucast (i64_abs (i64_rem (word_of_int z) USECS_PER_SEC) * 1000) :: u32) = \<bar>z\<bar> mod 1000000 * 1000"
proof -
  have k: "USECS_PER_SEC = word_of_int 1000000" by (simp add: USECS_PER_SEC_def)
  note d = i64_division [OF assms, of 1000000, folded k, simplified]
  show "sint (i64_div (word_of_int z) USECS_PER_SEC) = z sdiv 1000000" by (rule d(1))
  have "\<bar>z\<bar> \<le> 2 ^ 63" using assms by (auto simp: fits_def)
  then have "\<bar>z\<bar> div 1000000 \<le> 9223372036854775" by simp
  then show "\<bar>z sdiv 1000000\<bar> \<le> 9223372036854775"
    by (simp add: signed_divide_int_def abs_mult abs_sgn_eq)
  have "\<bar>z smod 1000000\<bar> = \<bar>z\<bar> mod 1000000"
    by (auto simp: smod_int_alt_def abs_mult abs_sgn_eq)
  then have eq: "i64_abs (i64_rem (word_of_int z) USECS_PER_SEC) * 1000 =
      word_of_int (\<bar>z\<bar> mod 1000000 * 1000)"
    by (simp add: i64_abs_def d(2))
  have "\<bar>z\<bar> mod 1000000 < 1000000" "0 \<le> \<bar>z\<bar> mod 1000000" by simp_all
  then have "0 \<le> \<bar>z\<bar> mod 1000000 * 1000" "\<bar>z\<bar> mod 1000000 * 1000 < 2 ^ 32" by simp_all
  then show "uint (ucast (i64_abs (i64_rem (word_of_int z) USECS_PER_SEC) * 1000) :: u32) =
      \<bar>z\<bar> mod 1000000 * 1000"
    unfolding eq by (rule cast_small(1))
qed

text \<open>The nanoseconds of a \<open>u32\<close> read as an \<open>i64\<close>.\<close>

lemma sint_ucast_u32: "sint (ucast (n :: u32) :: i64) = uint n"
proof -
  have "uint n < 2 ^ 32" "0 \<le> uint n" using uint_lt2p [of n] by simp_all
  then have "fits 8 (uint n)" by (simp add: fits_def)
  then show ?thesis by (simp only: ucast_eq fits_scast)
qed

text \<open>Truncation towards zero; a range that ends a second contains a second with all its fractions.\<close>

lemma truncated:
  fixes z :: int
  shows "0 \<le> z \<Longrightarrow> z = z sdiv 1000000 * 1000000 + \<bar>z\<bar> mod 1000000"
    "0 \<le> z \<Longrightarrow> 0 \<le> z sdiv 1000000"
    "z < 0 \<Longrightarrow> z = z sdiv 1000000 * 1000000 - \<bar>z\<bar> mod 1000000"
    "z < 0 \<Longrightarrow> z sdiv 1000000 \<le> 0"
  using minus_mod_eq_mult_div [of "- z" 1000000]
  by (auto simp: signed_divide_int_def sgn_if pos_imp_zdiv_nonneg_iff)

lemma whole_second:
  fixes hi q r :: int
  assumes "hi mod 1000000000 = 999999999" and "0 \<le> r" and "r < 1000000"
  shows "q * 1000000000 \<le> hi \<longleftrightarrow> q * 1000000000 + 1000 * r \<le> hi"
proof -
  obtain h where h: "hi = h * 1000000000 + 999999999"
    using assms(1) div_mult_mod_eq [of hi 1000000000] by metis
  have "q \<le> h \<or> h + 1 \<le> q" by linarith
  moreover have "q \<le> h \<Longrightarrow> q * 1000000000 \<le> hi" "q \<le> h \<Longrightarrow> q * 1000000000 + 1000 * r \<le> hi"
    "h + 1 \<le> q \<Longrightarrow> \<not> q * 1000000000 \<le> hi" "h + 1 \<le> q \<Longrightarrow> \<not> q * 1000000000 + 1000 * r \<le> hi"
    using assms h by linarith+
  ultimately show ?thesis by blast
qed

lemma chrono_from_usecs_exact:
  assumes U: "chrono_delta_laws U du" and L: "chrono_datetime_laws L du reg nu lo hi" and z: "fits 8 z"
  shows "if lo \<le> 1000 * z \<and> 1000 * z \<le> hi
    then \<exists>x. chrono_from_usecs L U (word_of_int z) = Ok x \<and> reg x \<and> nu x = 1000 * z
    else chrono_from_usecs L U (word_of_int z) = Err (Decode ''timestamp overflow'')"
proof -
  define q r where "q = z sdiv 1000000" and "r = \<bar>z\<bar> mod 1000000"
  define nano where "nano = (ucast (i64_abs (i64_rem (word_of_int z) USECS_PER_SEC) * 1000) :: u32)"
  note split = usecs_split [OF z, folded q_def r_def nano_def]
  from L obtain e where e: "cx_midnight L = Some e" "reg e" "nu e = 0"
    by (auto simp: chrono_datetime_laws_def lands_def)
  from U split obtain d where d: "td_seconds U (i64_div (word_of_int z) USECS_PER_SEC) = Ok d"
      "du d = q * 10 ^ 9"
    by (auto simp: chrono_delta_laws_def)
  have r: "0 \<le> r" "r < 1000000" by (simp_all add: r_def)
  have "lands reg nu lo hi (cx_add L e d) (nu e + du d)"
    using L e(2) unfolding chrono_datetime_laws_def by blast
  then have add: "lands reg nu lo hi (cx_add L e d) (q * 10 ^ 9)"
    by (simp only: e(3) d(2) add_0)
  have run: "chrono_from_usecs L U (word_of_int z) =
     ok_or (case cx_add L e d of None \<Rightarrow> None
            | Some dt \<Rightarrow> if 0 \<le> z then cx_with_nanosecond L dt nano
                else cx_sub L dt (td_nanoseconds U (ucast nano))) (Decode ''timestamp overflow'')"
    by (simp add: chrono_from_usecs_def e d Let_def fits_scast z flip: nano_def cong: option.case_cong)
  show ?thesis
  proof (cases "0 \<le> z")
    case True
    note zpos = truncated(1,2) [OF True, folded q_def r_def]
    have "hi mod 1000000000 = 999999999" "lo \<le> 0" using L by (auto simp: chrono_datetime_laws_def)
    then have fit: "lo \<le> q * 1000000000 \<and> q * 1000000000 \<le> hi \<longleftrightarrow> lo \<le> 1000 * z \<and> 1000 * z \<le> hi"
      using whole_second [of hi r q] zpos r by auto
    show ?thesis
    proof (cases "cx_add L e d")
      case None
      with add fit show ?thesis by (auto simp: run lands_def split: if_splits)
    next
      case (Some dt)
      with add fit have dt: "reg dt" "nu dt = q * 10 ^ 9" "lo \<le> 1000 * z \<and> 1000 * z \<le> hi"
        by (auto simp: lands_def split: if_splits)
      have "uint nano < 10 ^ 9" using split(3) r by simp
      with L dt(1) obtain y where y: "cx_with_nanosecond L dt nano = Some y" "reg y"
          "nu y = nu dt - nu dt mod 10 ^ 9 + uint nano"
        unfolding chrono_datetime_laws_def by blast
      then have "nu y = 1000 * z" using zpos split(3) dt(2) by simp
      moreover have "chrono_from_usecs L U (word_of_int z) = Ok y"
        using Some True y by (simp add: run)
      ultimately show ?thesis using dt(3) y(2) by simp
    qed
  next
    case False
    then have z0: "z = q * 1000000 - r" "q \<le> 0"
      using truncated(3,4) [of z, folded q_def r_def] by simp_all
    have lohi: "lo \<le> 0" "0 \<le> hi" using L by (auto simp: chrono_datetime_laws_def)
    have "du (td_nanoseconds U (ucast nano)) = sint (ucast nano :: i64)"
      using U unfolding chrono_delta_laws_def by blast
    then have dn: "du (td_nanoseconds U (ucast nano)) = 1000 * r" using split(3) by (simp add: sint_ucast_u32)
    have sub: "lands reg nu lo hi (cx_sub L dt (td_nanoseconds U (ucast nano))) (nu dt - 1000 * r)"
      if "reg dt" for dt
      using L that unfolding chrono_datetime_laws_def dn [symmetric] by blast
    show ?thesis
    proof (cases "cx_add L e d")
      case None
      with add z0 r lohi have "\<not> lo \<le> 1000 * z" by (auto simp: lands_def split: if_splits)
      with None show ?thesis by (simp add: run)
    next
      case (Some dt)
      with add have "reg dt" "nu dt = q * 10 ^ 9" by (auto simp: lands_def split: if_splits)
      moreover have "nu dt - 1000 * r = 1000 * z" using z0 \<open>nu dt = _\<close> by simp
      ultimately have "lands reg nu lo hi (cx_sub L dt (td_nanoseconds U (ucast nano))) (1000 * z)"
        using sub [of dt] by simp
      moreover have "chrono_from_usecs L U (word_of_int z) =
          ok_or (cx_sub L dt (td_nanoseconds U (ucast nano))) (Decode ''timestamp overflow'')"
        using Some False by (simp add: run)
      ultimately show ?thesis by (auto simp: lands_def split: if_splits)
    qed
  qed
qed


lemma chrono_encode_usecs:
  assumes U: "chrono_delta_laws U du" and L: "chrono_datetime_laws L du reg nu lo hi" and z: "fits 8 z"
    and x: "reg x" "nu x = 1000 * z"
  shows "o1 \<in> {oid_TIMESTAMP, oid_TIMESTAMPTZ} \<Longrightarrow>
      naive_datetime_encode L U x o1 b = (Ok (), b @ to_be_bytes (8 :: i32) @ int_bytes 8 z)"
    "o1 \<in> {oid_TIMESTAMP, oid_TIMESTAMPTZ} \<Longrightarrow>
      datetime_utc_encode L U x o1 b = (Ok (), b @ to_be_bytes (8 :: i32) @ int_bytes 8 z)"
proof -
  have "du (cx_since L x (cx_epoch L)) = 1000 * z"
    using L x by (simp add: chrono_datetime_laws_def)
  with U z have "td_num_microseconds U (cx_since L x (cx_epoch L)) = Some (word_of_int z)"
    by (simp add: chrono_delta_laws_def)
  then show "o1 \<in> {oid_TIMESTAMP, oid_TIMESTAMPTZ} \<Longrightarrow>
      naive_datetime_encode L U x o1 b = (Ok (), b @ to_be_bytes (8 :: i32) @ int_bytes 8 z)"
    "o1 \<in> {oid_TIMESTAMP, oid_TIMESTAMPTZ} \<Longrightarrow>
      datetime_utc_encode L U x o1 b = (Ok (), b @ to_be_bytes (8 :: i32) @ int_bytes 8 z)"
    by (simp_all add: naive_datetime_encode_def datetime_utc_encode_def put_def int_bytes_words)
qed

lemma chrono_timestamps_exact:
  assumes "chrono_delta_laws U du" and "chrono_datetime_laws L du reg nu lo hi"
  shows "o1 \<in> {oid_TIMESTAMP, oid_TIMESTAMPTZ} \<Longrightarrow> exact_timestamp
      (naive_datetime_from_binary L U o1) (\<lambda>x. naive_datetime_encode L U x o1) nu lo hi"
    "exact_timestamp (datetime_utc_from_binary L U oid_TIMESTAMPTZ)
      (\<lambda>x. datetime_utc_encode L U x oid_TIMESTAMPTZ) nu lo hi"
proof -
  have decode: "naive_datetime_from_binary L U o2 (int_bytes 8 z) = chrono_from_usecs L U (word_of_int z)"
    "datetime_utc_from_binary L U oid_TIMESTAMPTZ (int_bytes 8 z) = chrono_from_usecs L U (word_of_int z)"
    if "o2 \<in> {oid_TIMESTAMP, oid_TIMESTAMPTZ}" for o2 z
    using that by (simp_all add: naive_datetime_from_binary_def datetime_utc_from_binary_def be_exact_int_bytes)
  show "o1 \<in> {oid_TIMESTAMP, oid_TIMESTAMPTZ} \<Longrightarrow> exact_timestamp
      (naive_datetime_from_binary L U o1) (\<lambda>x. naive_datetime_encode L U x o1) nu lo hi"
    unfolding exact_timestamp_def
    using chrono_from_usecs_exact [OF assms] chrono_encode_usecs [OF assms] decode by metis
  show "exact_timestamp (datetime_utc_from_binary L U oid_TIMESTAMPTZ)
      (\<lambda>x. datetime_utc_encode L U x oid_TIMESTAMPTZ) nu lo hi"
    unfolding exact_timestamp_def
    using chrono_from_usecs_exact [OF assms] chrono_encode_usecs [OF assms] decode(2)
    by (metis insertCI)
qed

lemma ucast_wide: "ucast (word_of_int z :: 128 word) = (word_of_int z :: i64)"
  by (rule bit_word_eqI) (auto simp: bit_simps)

lemma time_timestamps_exact:
  assumes "time_datetime_laws L nu lo hi"
  shows "o1 \<in> {oid_TIMESTAMP, oid_TIMESTAMPTZ} \<Longrightarrow> exact_timestamp
      (primitive_from_binary L o1) (\<lambda>x. primitive_encode L x o1) nu lo hi"
    "exact_timestamp (offset_from_binary L oid_TIMESTAMPTZ)
      (\<lambda>x. offset_encode L x oid_TIMESTAMPTZ) nu lo hi"
proof -
  from assms obtain du where du: "nu (tx_epoch L) = 0" "\<And>s. du (tx_microseconds L s) = 1000 * sint s"
      "\<And>u z. du u = 1000 * z \<Longrightarrow> fits 16 z \<Longrightarrow> tx_whole_microseconds L u = word_of_int z"
      "\<And>x u. lands (\<lambda>_. True) nu lo hi (tx_add L x u) (nu x + du u)"
      "\<And>x y. du (tx_minus L x y) = nu x - nu y" "\<And>x. nu (tx_to_utc L x) = nu x"
    unfolding time_datetime_laws_def by blast
  have wide: "fits 8 z \<Longrightarrow> fits 16 z" for z by (simp add: fits_def)
  have out1: "ucast (tx_whole_microseconds L (tx_minus L x (tx_epoch L))) = (word_of_int z :: i64)"
    if "nu x = 1000 * z" "fits 8 z" for x z
    using du(3) [of _ z] that wide by (simp add: du(1,5) ucast_wide)
  have land: "if lo \<le> 1000 * z \<and> 1000 * z \<le> hi
      then \<exists>x. tx_add L (tx_epoch L) (tx_microseconds L (word_of_int z)) = Some x \<and> nu x = 1000 * z
      else tx_add L (tx_epoch L) (tx_microseconds L (word_of_int z)) = None" if "fits 8 z" for z
    using du(4) [of "tx_epoch L" "tx_microseconds L (word_of_int z)"] that
    by (auto simp: du(1,2) fits_scast lands_def split: if_splits)
  have exact: "exact_timestamp decode encode nu lo hi"
    if "\<And>z. decode (int_bytes 8 z) = ok_or (tx_add L (tx_epoch L) (tx_microseconds L (word_of_int z)))
          (Decode ''timestamp overflow'')"
      and "\<And>x z b. nu x = 1000 * z \<Longrightarrow> fits 8 z \<Longrightarrow>
          encode x b = (Ok (), b @ to_be_bytes (8 :: i32) @ int_bytes 8 z)" for decode encode
    using that land unfolding exact_timestamp_def by (metis ok_or.simps)
  show "o1 \<in> {oid_TIMESTAMP, oid_TIMESTAMPTZ} \<Longrightarrow> exact_timestamp
      (primitive_from_binary L o1) (\<lambda>x. primitive_encode L x o1) nu lo hi"
    by (rule exact) (simp_all add: primitive_from_binary_def primitive_encode_def
        be_exact_int_bytes out1 put_def int_bytes_words)
  show "exact_timestamp (offset_from_binary L oid_TIMESTAMPTZ)
      (\<lambda>x. offset_encode L x oid_TIMESTAMPTZ) nu lo hi"
    by (rule exact) (simp_all add: offset_from_binary_def offset_encode_def
        be_exact_int_bytes out1 du(6) put_def int_bytes_words)
qed

text \<open>
  C33: timestamps of all four types. Under the laws of the crates, every \<open>i64\<close> of microseconds,
  before or after 2000-01-01, decodes to exactly that instant when the type can represent it and
  is reported as an overflow otherwise, and a decoded timestamp is written back as the bytes it
  came from. The chrono types split negative microseconds by truncation and subtract the fraction.
\<close>

theorem timestamps_exact:
  assumes "chrono_delta_laws U du" and "chrono_datetime_laws L du reg nu lo hi"
    and "time_datetime_laws M mu lo' hi'"
    and "o1 \<in> {oid_TIMESTAMP, oid_TIMESTAMPTZ}"
  shows "exact_timestamp (naive_datetime_from_binary L U o1) (\<lambda>x. naive_datetime_encode L U x o1) nu lo hi \<and>
    exact_timestamp (datetime_utc_from_binary L U oid_TIMESTAMPTZ)
      (\<lambda>x. datetime_utc_encode L U x oid_TIMESTAMPTZ) nu lo hi \<and>
    exact_timestamp (primitive_from_binary M o1) (\<lambda>x. primitive_encode M x o1) mu lo' hi' \<and>
    exact_timestamp (offset_from_binary M oid_TIMESTAMPTZ)
      (\<lambda>x. offset_encode M x oid_TIMESTAMPTZ) mu lo' hi'"
  using assms by (intro conjI chrono_timestamps_exact time_timestamps_exact)

text \<open>Instances: durations and timestamps as their numbers of nanoseconds.\<close>

definition nanos_delta :: "int chrono_delta" where
  "nanos_delta =
     \<lparr>td_seconds = (\<lambda>s. if \<bar>sint s\<bar> \<le> 9223372036854775 then Ok (sint s * 10 ^ 9) else Panic),
      td_nanoseconds = sint, td_num_days = (\<lambda>u. word_of_int (u div (86400 * 10 ^ 9))),
      td_num_microseconds = (\<lambda>u. if fits 8 (u div 1000) then Some (word_of_int (u div 1000)) else None)\<rparr>"

definition within_days :: "int \<Rightarrow> int \<Rightarrow> int option" where
  "within_days n v = (if - (n * 86400 * 10 ^ 9) \<le> v \<and> v \<le> n * 86400 * 10 ^ 9 - 1 then Some v else None)"

definition nanos_datetime :: "(int, int) chrono_datetime" where
  "nanos_datetime =
     \<lparr>cx_parse = (\<lambda>s f. None), cx_midnight = Some 0, cx_epoch = 0,
      cx_add = (\<lambda>x u. within_days 95000000 (x + u)), cx_sub = (\<lambda>x u. within_days 95000000 (x - u)),
      cx_with_nanosecond = (\<lambda>x n. if uint n < 2 * 10 ^ 9 then Some (x - x mod 10 ^ 9 + uint n) else None),
      cx_since = (-)\<rparr>"

definition nanos_time_datetime :: "(int, int, unit) time_datetime" where
  "nanos_time_datetime =
     \<lparr>tx_parse = (\<lambda>s f. None), tx_epoch = 0, tx_add = (\<lambda>x u. within_days 2900000 (x + u)),
      tx_minus = (-), tx_microseconds = (\<lambda>s. 1000 * sint s),
      tx_whole_microseconds = (\<lambda>u. word_of_int (u div 1000)), tx_to_utc = id\<rparr>"

lemma nanos_laws:
  "chrono_delta_laws nanos_delta id"
  "chrono_datetime_laws nanos_datetime id (\<lambda>_. True) id
     (- (95000000 * 86400 * 10 ^ 9)) (95000000 * 86400 * 10 ^ 9 - 1)"
  "time_datetime_laws nanos_time_datetime id (- (2900000 * 86400 * 10 ^ 9)) (2900000 * 86400 * 10 ^ 9 - 1)"
proof -
  show "chrono_delta_laws nanos_delta id" by (auto simp: chrono_delta_laws_def nanos_delta_def)
  show "chrono_datetime_laws nanos_datetime id (\<lambda>_. True) id
     (- (95000000 * 86400 * 10 ^ 9)) (95000000 * 86400 * 10 ^ 9 - 1)"
    by (simp add: chrono_datetime_laws_def nanos_datetime_def lands_def within_days_def)
  show "time_datetime_laws nanos_time_datetime id (- (2900000 * 86400 * 10 ^ 9)) (2900000 * 86400 * 10 ^ 9 - 1)"
    unfolding time_datetime_laws_def
    by (rule exI [of _ id]) (auto simp: nanos_time_datetime_def lands_def within_days_def)
qed

lemma timestamps_exact_witness:
  "(\<exists>x. naive_datetime_from_binary nanos_datetime nanos_delta oid_TIMESTAMP (int_bytes 8 (- 1500000)) = Ok x \<and>
      x = - 1500000000) \<and>
   primitive_from_binary nanos_time_datetime oid_TIMESTAMP (int_bytes 8 (2 ^ 63 - 1)) =
     Err (Decode ''timestamp overflow'')"
proof -
  note exact = timestamps_exact [OF nanos_laws insertI1, unfolded exact_timestamp_def]
  have "fits 8 (- 1500000)" "fits 8 (2 ^ 63 - 1)" by (simp_all add: fits_def)
  with exact [THEN conjunct1, rule_format, of "- 1500000"]
    exact [THEN conjunct2, THEN conjunct2, THEN conjunct1, rule_format, of "2 ^ 63 - 1"]
  show ?thesis by auto
qed

section \<open>Times of day\<close>

text \<open>
  A time of day \<open>t\<close> is \<open>val t\<close> nanoseconds after midnight. PostgreSQL's \<open>time\<close> goes up to
  24:00:00 inclusive, \<open>86400 * 10 ^ 6\<close> microseconds.
\<close>

definition exact_time ::
    "(bytes \<Rightarrow> 't res) \<Rightarrow> ('t \<Rightarrow> bytes \<Rightarrow> unit res \<times> bytes) \<Rightarrow> ('t \<Rightarrow> int) \<Rightarrow> bool" where
  "exact_time decode encode val \<longleftrightarrow> (\<forall>z b. 0 \<le> z \<and> z < 86400 * 10 ^ 6 \<longrightarrow>
     (\<exists>t. decode (int_bytes 8 z) = Ok t \<and> val t = 1000 * z \<and>
        encode t b = (Ok (), b @ to_be_bytes (8 :: i32) @ int_bytes 8 z))) \<and>
     (\<exists>e. decode (int_bytes 8 (86400 * 10 ^ 6)) = Err e)"

text \<open>
  \<open>from_num_seconds_from_midnight_opt\<close>, \<open>num_seconds_from_midnight\<close> and \<open>nanosecond\<close> of
  \<open>NaiveTime\<close>, outside leap seconds; \<open>from_hms_micro\<close> and \<open>as_hms_nano\<close> of \<open>time::Time\<close>.
\<close>

definition chrono_time_laws :: "'t chrono_time \<Rightarrow> bool" where
  "chrono_time_laws T \<longleftrightarrow>
     (\<forall>s n. uint s < 86400 \<and> uint n < 10 ^ 9 \<longrightarrow>
       (\<exists>t. ct_from_seconds T s n = Some t \<and> ct_seconds T t = s \<and> ct_nanosecond T t = n)) \<and>
     (\<forall>s n. 86400 \<le> uint s \<longrightarrow> ct_from_seconds T s n = None)"

definition time_time_laws :: "('t, 'f) time_time \<Rightarrow> bool" where
  "time_time_laws T \<longleftrightarrow>
     (\<forall>h m s us. uint h < 24 \<and> uint m < 60 \<and> uint s < 60 \<and> uint us < 10 ^ 6 \<longrightarrow>
       (\<exists>t. tm_from_hms_micro T h m s us = Some t \<and> tm_as_hms_nano T t = (h, m, s, us * 1000))) \<and>
     (\<forall>h m s us. 24 \<le> uint h \<longrightarrow> tm_from_hms_micro T h m s us = None)"

definition chrono_time_nanos :: "'t chrono_time \<Rightarrow> 't \<Rightarrow> int" where
  "chrono_time_nanos T t = uint (ct_seconds T t) * 10 ^ 9 + uint (ct_nanosecond T t)"

definition time_time_nanos :: "('t, 'f) time_time \<Rightarrow> 't \<Rightarrow> int" where
  "time_time_nanos T t = (case tm_as_hms_nano T t of
     (h, m, s, n) \<Rightarrow> (uint h * 3600 + uint m * 60 + uint s) * 10 ^ 9 + uint n)"

lemma nonneg_split:
  assumes "0 \<le> z" and "z < 2 ^ 63" and "0 < k" and "k < 2 ^ 63"
  shows "i64_div (word_of_int z) (word_of_int k) = word_of_int (z div k)"
    "i64_rem (word_of_int z) (word_of_int k) = word_of_int (z mod k)"
proof -
  have f: "fits 8 z" "fits 8 k" using assms by (simp_all add: fits_def)
  have "z sdiv k = z div k" "z smod k = z mod k"
    using assms by (cases "z = 0"; simp add: signed_divide_int_def smod_int_alt_def)+
  with f show "i64_div (word_of_int z) (word_of_int k) = word_of_int (z div k)"
    "i64_rem (word_of_int z) (word_of_int k) = word_of_int (z mod k)"
    by (simp_all only: i64_div_def i64_rem_def fits_scast)
qed

lemma widen: "ucast (w :: 'a::len word) = (word_of_int (uint w) :: i64)"
  by (fact ucast_eq)

lemma chrono_times_exact:
  assumes "chrono_time_laws T"
  shows "exact_time (naive_time_from_binary T oid_TIME) (\<lambda>t. naive_time_encode T t oid_TIME) (chrono_time_nanos T)"
proof -
  define s n where "s z = (ucast (word_of_int (z div 1000000) :: i64) :: u32)"
    and "n z = (ucast (word_of_int (z mod 1000000 * 1000) :: i64) :: u32)" for z
  have decode: "naive_time_from_binary T oid_TIME (int_bytes 8 z) =
      ok_or (ct_from_seconds T (s z) (n z)) (Decode ''invalid time'')" if "0 \<le> z" "z < 2 ^ 63" for z
    using nonneg_split [OF that, of 1000000]
    by (simp add: naive_time_from_binary_def be_exact_int_bytes USECS_PER_SEC_def Let_def s_def n_def)
  have parts: "uint (s z) = z div 1000000" "uint (n z) = z mod 1000000 * 1000" "z mod 1000000 < 1000000"
    if "0 \<le> z" "z \<le> 86400 * 10 ^ 6" for z
  proof -
    show "z mod 1000000 < 1000000" by simp
    have "z div 1000000 \<le> 86400" "0 \<le> z div 1000000"
      using that by (simp_all add: pos_imp_zdiv_nonneg_iff)
    then show "uint (s z) = z div 1000000" unfolding s_def by (intro cast_small(1)) simp_all
    have "z mod 1000000 < 1000000" "0 \<le> z mod 1000000" by simp_all
    then have "0 \<le> z mod 1000000 * 1000" "z mod 1000000 * 1000 < 2 ^ 32" by simp_all
    then show "uint (n z) = z mod 1000000 * 1000" unfolding n_def by (rule cast_small(1))
  qed
  have put: "naive_time_encode T t oid_TIME b = (Ok (), b @ to_be_bytes (8 :: i32) @ int_bytes 8 z)"
    if "0 \<le> z" "z < 86400 * 10 ^ 6" "ct_seconds T t = s z" "ct_nanosecond T t = n z" for z t b
  proof -
    have z: "0 \<le> z" "z \<le> 86400 * 10 ^ 6" using that by simp_all
    have n: "ucast (n z) = (word_of_int (z mod 1000000 * 1000) :: i64)"
      "ucast (s z) = (word_of_int (z div 1000000) :: i64)"
      by (simp_all only: widen parts [OF z])
    have "0 \<le> z mod 1000000 * 1000" "z mod 1000000 * 1000 < 2 ^ 63"
      using parts(3) [OF z] pos_mod_sign [of 1000000 z] by simp_all
    then have "i64_div (ucast (n z)) 1000 = word_of_int (z mod 1000000)"
      using nonneg_split(1) [of "z mod 1000000 * 1000" 1000] unfolding n by simp
    moreover have "(ucast (s z) :: i64) * USECS_PER_SEC = word_of_int (z div 1000000 * 1000000)"
      unfolding n USECS_PER_SEC_def by simp
    ultimately have "ucast (s z) * USECS_PER_SEC + i64_div (ucast (n z)) 1000 =
        word_of_int (z div 1000000 * 1000000 + z mod 1000000)"
      by (simp only: wi_hom_add)
    then show ?thesis
      using that by (simp add: naive_time_encode_def put_def int_bytes_words del: wi_hom_syms)
  qed
  show ?thesis unfolding exact_time_def
  proof (intro conjI allI impI)
    fix z :: int and b assume z: "0 \<le> z \<and> z < 86400 * 10 ^ 6"
    have "z div 1000000 < 86400" by (rule quotient_less) (use z in simp_all)
    moreover have le: "0 \<le> z" "z \<le> 86400 * 10 ^ 6" using z by simp_all
    ultimately have "uint (s z) < 86400" "uint (n z) < 10 ^ 9" using parts [OF le] by simp_all
    with assms obtain t where t: "ct_from_seconds T (s z) (n z) = Some t"
        "ct_seconds T t = s z" "ct_nanosecond T t = n z"
      unfolding chrono_time_laws_def by blast
    have "chrono_time_nanos T t = z div 1000000 * 10 ^ 9 + z mod 1000000 * 1000"
      unfolding chrono_time_nanos_def t parts(1,2) [OF le] ..
    also have "\<dots> = 1000 * (z div 1000000 * 1000000 + z mod 1000000)"
      by (simp only: distrib_left) simp
    also have "\<dots> = 1000 * z" by (simp only: div_mult_mod_eq)
    finally have "chrono_time_nanos T t = 1000 * z" .
    moreover have "naive_time_from_binary T oid_TIME (int_bytes 8 z) = Ok t"
      using z decode [of z] by (simp add: t(1))
    ultimately show "\<exists>t. naive_time_from_binary T oid_TIME (int_bytes 8 z) = Ok t \<and>
        chrono_time_nanos T t = 1000 * z \<and>
        naive_time_encode T t oid_TIME b = (Ok (), b @ to_be_bytes (8 :: i32) @ int_bytes 8 z)"
      using put [of z t b] z t(2,3) by blast
  next
    have "ct_from_seconds T (s (86400 * 10 ^ 6)) (n (86400 * 10 ^ 6)) = None"
      using assms parts [of "86400 * 10 ^ 6"] by (simp add: chrono_time_laws_def)
    then show "\<exists>e. naive_time_from_binary T oid_TIME (int_bytes 8 (86400 * 10 ^ 6)) = Err e"
      using decode [of "86400 * 10 ^ 6"] by simp
  qed
qed

text \<open>Hours, minutes, seconds and microseconds.\<close>

lemma hms_bounds:
  fixes z :: int
  assumes "0 \<le> z" and "z \<le> 86400 * 10 ^ 6"
  shows "0 \<le> z div 3600000000" "z div 3600000000 \<le> 24"
    "0 \<le> z mod 3600000000 div 60000000" "z mod 3600000000 div 60000000 < 60"
    "0 \<le> z mod 3600000000 mod 60000000 div 1000000" "z mod 3600000000 mod 60000000 div 1000000 < 60"
    "0 \<le> z mod 3600000000 mod 60000000 mod 1000000" "z mod 3600000000 mod 60000000 mod 1000000 < 1000000"
proof -
  show "z div 3600000000 \<le> 24" using quotient_less [of z 25 3600000000] assms by simp
  show "z mod 3600000000 div 60000000 < 60" by (rule quotient_less) simp_all
  show "z mod 3600000000 mod 60000000 div 1000000 < 60" by (rule quotient_less) simp_all
qed (use assms in \<open>simp_all add: pos_imp_zdiv_nonneg_iff\<close>)

lemma hms_sum:
  fixes z :: int
  shows "z div 3600000000 * 3600000000 + z mod 3600000000 div 60000000 * 60000000 +
    z mod 3600000000 mod 60000000 div 1000000 * 1000000 + z mod 3600000000 mod 60000000 mod 1000000 = z"
  using div_mult_mod_eq [of z 3600000000] div_mult_mod_eq [of "z mod 3600000000" 60000000]
    div_mult_mod_eq [of "z mod 3600000000 mod 60000000" 1000000]
  by linarith

lemma time_times_exact:
  assumes "time_time_laws T"
  shows "exact_time (time_time_from_binary T oid_TIME) (\<lambda>t. time_time_encode T t oid_TIME) (time_time_nanos T)"
proof -
  define h m s us where "h z = (ucast (word_of_int (z div 3600000000) :: i64) :: byte)"
    and "m z = (ucast (word_of_int (z mod 3600000000 div 60000000) :: i64) :: byte)"
    and "s z = (ucast (word_of_int (z mod 3600000000 mod 60000000 div 1000000) :: i64) :: byte)"
    and "us z = (ucast (word_of_int (z mod 3600000000 mod 60000000 mod 1000000) :: i64) :: u32)" for z
  have parts: "uint (h z) = z div 3600000000" "uint (m z) = z mod 3600000000 div 60000000"
    "uint (s z) = z mod 3600000000 mod 60000000 div 1000000"
    "uint (us z) = z mod 3600000000 mod 60000000 mod 1000000" if "0 \<le> z" "z \<le> 86400 * 10 ^ 6" for z
  proof -
    note b = hms_bounds [OF that]
    show "uint (h z) = z div 3600000000" unfolding h_def
      by (rule cast_small(2) [OF b(1) le_less_trans [OF b(2)]]) simp
    show "uint (m z) = z mod 3600000000 div 60000000" unfolding m_def
      by (rule cast_small(2) [OF b(3) less_trans [OF b(4)]]) simp
    show "uint (s z) = z mod 3600000000 mod 60000000 div 1000000" unfolding s_def
      by (rule cast_small(2) [OF b(5) less_trans [OF b(6)]]) simp
    show "uint (us z) = z mod 3600000000 mod 60000000 mod 1000000" unfolding us_def
      by (rule cast_small(1) [OF b(7) less_trans [OF b(8)]]) simp
  qed
  have decode: "time_time_from_binary T oid_TIME (int_bytes 8 z) =
      ok_or (tm_from_hms_micro T (h z) (m z) (s z) (us z)) (Decode ''invalid time: {}'')"
    if "0 \<le> z" "z < 2 ^ 63" for z
  proof -
    have "0 \<le> z mod 3600000000" "z mod 3600000000 < 2 ^ 63" "0 \<le> z mod 3600000000 mod 60000000"
      "z mod 3600000000 mod 60000000 < 2 ^ 63"
      using pos_mod_bound [of 3600000000 z] pos_mod_bound [of 60000000 "z mod 3600000000"] by simp_all
    note steps = nonneg_split [OF that, of 3600000000] nonneg_split [OF this(1,2), of 60000000]
      nonneg_split [OF this(3,4), of 1000000]
    show ?thesis
      unfolding time_time_from_binary_def be_exact_int_bytes Let_def h_def m_def s_def us_def
      by (simp add: steps [simplified])
  qed
  have encode: "time_time_encode T t oid_TIME b = (Ok (), b @ to_be_bytes (8 :: i32) @ int_bytes 8 z)"
    if z: "0 \<le> z" "z \<le> 86400 * 10 ^ 6" and t: "tm_as_hms_nano T t = (h z, m z, s z, us z * 1000)" for z t b
  proof -
    have u: "0 \<le> uint (us z)" "uint (us z) < 1000000"
      unfolding parts(4) [OF z] by simp_all
    then have "uint (us z * 1000) = uint (us z) * 1000"
      using uint_mult_lem [of "us z" 1000] by simp
    then have "ucast (us z * 1000) = (word_of_int (uint (us z) * 1000) :: i64)" by (simp only: widen)
    moreover have "0 \<le> uint (us z) * 1000" "uint (us z) * 1000 < 2 ^ 63" using u by simp_all
    ultimately have "i64_div (ucast (us z * 1000)) 1000 = word_of_int (uint (us z))"
      using nonneg_split(1) [of "uint (us z) * 1000" 1000] by simp
    then have "(ucast (h z) :: i64) * 3600000000 + ucast (m z) * 60000000 + ucast (s z) * 1000000 +
        i64_div (ucast (us z * 1000)) 1000 = word_of_int z"
      unfolding widen [of "h z"] widen [of "m z"] widen [of "s z"] parts [OF z]
      by (subst (5) hms_sum [of z, symmetric]) (simp only: wi_hom_add [symmetric] wi_hom_mult [symmetric] word_of_int_numeral)
    then show ?thesis by (simp add: time_time_encode_def t put_def int_bytes_words)
  qed
  show ?thesis unfolding exact_time_def
  proof (intro conjI allI impI)
    fix z :: int and b assume z: "0 \<le> z \<and> z < 86400 * 10 ^ 6"
    then have le: "0 \<le> z" "z \<le> 86400 * 10 ^ 6" by simp_all
    have "z div 3600000000 < 24" by (rule quotient_less) (use z in simp_all)
    then have "uint (h z) < 24" "uint (m z) < 60" "uint (s z) < 60" "uint (us z) < 10 ^ 6"
      using hms_bounds(4,6,8) [OF le] unfolding parts [OF le] by simp_all
    with assms obtain t where t: "tm_from_hms_micro T (h z) (m z) (s z) (us z) = Some t"
        "tm_as_hms_nano T t = (h z, m z, s z, us z * 1000)"
      unfolding time_time_laws_def by blast
    moreover have "uint (us z * 1000) = uint (us z) * 1000"
      using uint_mult_lem [of "us z" 1000] \<open>uint (us z) < 10 ^ 6\<close> by simp
    ultimately have "time_time_nanos T t = 1000 * (uint (h z) * 3600000000 + uint (m z) * 60000000 +
        uint (s z) * 1000000 + uint (us z))"
      by (simp add: time_time_nanos_def)
    then have "time_time_nanos T t = 1000 * z" unfolding parts [OF le] hms_sum .
    moreover have "time_time_from_binary T oid_TIME (int_bytes 8 z) = Ok t"
      using z decode [of z] by (simp add: t(1))
    ultimately show "\<exists>t. time_time_from_binary T oid_TIME (int_bytes 8 z) = Ok t \<and>
        time_time_nanos T t = 1000 * z \<and>
        time_time_encode T t oid_TIME b = (Ok (), b @ to_be_bytes (8 :: i32) @ int_bytes 8 z)"
      using encode [OF le t(2)] by blast
  next
    have "uint (h (86400 * 10 ^ 6)) = 24" using parts [of "86400 * 10 ^ 6"] by simp
    with assms have "tm_from_hms_micro T (h z0) (m z0) (s z0) (us z0) = None" if "z0 = 86400 * 10 ^ 6" for z0
      using that unfolding time_time_laws_def by simp
    then show "\<exists>e. time_time_from_binary T oid_TIME (int_bytes 8 (86400 * 10 ^ 6)) = Err e"
      using decode [of "86400 * 10 ^ 6"] by simp
  qed
qed

text \<open>
  C35: times of day of both crates. Every microsecond from 00:00:00 up to but not including 24:00:00
  decodes to exactly that time and is written back as the bytes it came from; 24:00:00, which a
  PostgreSQL \<open>time\<close> may hold, is refused by both.
\<close>

theorem times_of_day_exact:
  assumes "chrono_time_laws T" and "time_time_laws S"
  shows "exact_time (naive_time_from_binary T oid_TIME) (\<lambda>t. naive_time_encode T t oid_TIME) (chrono_time_nanos T) \<and>
    exact_time (time_time_from_binary S oid_TIME) (\<lambda>t. time_time_encode S t oid_TIME) (time_time_nanos S)"
  using assms by (intro conjI chrono_times_exact time_times_exact)

definition seconds_time :: "(u32 \<times> u32) chrono_time" where
  "seconds_time =
     \<lparr>ct_parse = (\<lambda>s f. None),
      ct_from_seconds = (\<lambda>s n. if uint s < 86400 \<and> uint n < 10 ^ 9 then Some (s, n) else None),
      ct_seconds = fst, ct_nanosecond = snd\<rparr>"

definition hms_time :: "(byte \<times> byte \<times> byte \<times> u32, unit) time_time" where
  "hms_time =
     \<lparr>tm_parse_time = (\<lambda>s f. None),
      tm_from_hms_micro = (\<lambda>h m s us.
        if uint h < 24 \<and> uint m < 60 \<and> uint s < 60 \<and> uint us < 10 ^ 6 then Some (h, m, s, us * 1000) else None),
      tm_as_hms_nano = id\<rparr>"

lemma times_of_day_exact_witness:
  "(\<exists>t. naive_time_from_binary seconds_time oid_TIME (int_bytes 8 37845123456) = Ok t \<and>
      chrono_time_nanos seconds_time t = 37845123456000) \<and>
   (\<exists>e. time_time_from_binary hms_time oid_TIME (int_bytes 8 86400000000) = Err e)"
proof -
  have "chrono_time_laws seconds_time" "time_time_laws hms_time"
    by (simp_all add: chrono_time_laws_def seconds_time_def time_time_laws_def hms_time_def)
  note exact = times_of_day_exact [OF this, unfolded exact_time_def]
  obtain t where "naive_time_from_binary seconds_time oid_TIME (int_bytes 8 37845123456) = Ok t"
      "chrono_time_nanos seconds_time t = 37845123456000"
    using exact [THEN conjunct1, THEN conjunct1, rule_format, of 37845123456 "[]"] by auto
  then show ?thesis using exact [THEN conjunct2, THEN conjunct2] by auto
qed

section \<open>Dates\<close>

text \<open>
  A date is its number of days from 2000-01-01. PostgreSQL sends it as an \<open>i32\<close>, with the two
  extreme values for \<open>-infinity\<close> and \<open>infinity\<close>.
\<close>

definition chrono_date_laws ::
    "('d, 'u) chrono_date \<Rightarrow> ('u \<Rightarrow> int) \<Rightarrow> ('d \<Rightarrow> int) \<Rightarrow> int \<Rightarrow> int \<Rightarrow> bool" where
  "chrono_date_laws D du day lo hi \<longleftrightarrow>
     lo \<le> 0 \<and> 0 \<le> hi \<and> day (cd_epoch D) = 0 \<and> (\<forall>d. fits 4 (day d)) \<and>
     (\<forall>d n. lands (\<lambda>_. True) day lo hi (cd_add_days D d n) (day d + uint n)) \<and>
     (\<forall>d n. lands (\<lambda>_. True) day lo hi (cd_sub_days D d n) (day d - uint n)) \<and>
     (\<forall>d e. du (cd_since D d e) = 86400 * 10 ^ 9 * (day d - day e))"

text \<open>Dates of the time crate, within a million years: Julian day 2451545 is 2000-01-01.\<close>

definition time_date_laws :: "('d, 'f) time_date \<Rightarrow> ('d \<Rightarrow> int) \<Rightarrow> int \<Rightarrow> int \<Rightarrow> bool" where
  "time_date_laws D day lo hi \<longleftrightarrow>
     - (2 ^ 30) \<le> lo \<and> hi \<le> 2 ^ 30 \<and>
     (\<forall>j. lands (\<lambda>_. True) day lo hi (tm_from_julian D j) (sint j - 2451545)) \<and>
     (\<forall>d. sint (tm_to_julian D d) = day d + 2451545)"

lemma days_cast:
  assumes "fits 4 z"
  shows "uint (scast (i32_max_0 (word_of_int z)) :: u64) = max 0 z"
    "0 \<le> z \<Longrightarrow> uint (scast (i32_max_0 (- word_of_int z)) :: u64) = 0"
proof -
  have s: "sint (word_of_int z :: i32) = z" by (rule fits_scast(2) [OF assms])
  have "z < 2 ^ 31" using assms by (simp add: fits_def)
  then have "uint (word_of_int z :: u64) = z" if "0 \<le> z"
    using that by (simp add: unsigned_of_int take_bit_int_eq_self)
  moreover have "(scast (word_of_int z :: i32) :: u64) = word_of_int z" by (simp only: scast_eq s)
  ultimately show "uint (scast (i32_max_0 (word_of_int z)) :: u64) = max 0 z"
    by (simp add: i32_max_0_def s max_def)
  assume "0 \<le> z"
  then have "fits 4 (- z)" using \<open>z < 2 ^ 31\<close> by (simp add: fits_def)
  then have "sint (- word_of_int z :: i32) = - z"
    using fits_scast(2) [of "- z"] by simp
  with \<open>0 \<le> z\<close> show "uint (scast (i32_max_0 (- word_of_int z)) :: u64) = 0"
    by (simp add: i32_max_0_def)
qed

lemma chrono_date_decoded:
  assumes D: "chrono_date_laws D du day lo hi" and z: "fits 4 z"
  shows "\<exists>d. naive_date_from_binary D oid_DATE (int_bytes 4 z) = Ok d \<and>
      day d = (if 0 < z \<and> z \<le> hi then z else 0)"
proof -
  define add sub where "add = cd_add_days D (cd_epoch D) (scast (i32_max_0 (word_of_int z)))"
    and "sub = cd_sub_days D (cd_epoch D) (scast (i32_max_0 (- word_of_int z)))"
  have run: "naive_date_from_binary D oid_DATE (int_bytes 4 z) =
      ok_or (or_else add sub) (Decode ''date overflow'')"
    by (simp add: naive_date_from_binary_def be_exact_int_bytes add_def sub_def)
  have epoch: "day (cd_epoch D) = 0" "lo \<le> 0" "0 \<le> hi"
    using D by (auto simp: chrono_date_laws_def)
  have "lands (\<lambda>_. True) day lo hi add (day (cd_epoch D) + uint (scast (i32_max_0 (word_of_int z)) :: u64))"
    using D unfolding chrono_date_laws_def add_def by blast
  then have add: "lands (\<lambda>_. True) day lo hi add (max 0 z)" by (simp add: epoch days_cast(1) [OF z])
  have "lands (\<lambda>_. True) day lo hi sub (day (cd_epoch D) - uint (scast (i32_max_0 (- word_of_int z)) :: u64))"
    using D unfolding chrono_date_laws_def sub_def by blast
  then have sub: "0 \<le> z \<Longrightarrow> lands (\<lambda>_. True) day lo hi sub 0" by (simp add: epoch days_cast(2) [OF z])
  show ?thesis
    using add sub epoch unfolding run lands_def
    by (cases "0 \<le> z"; cases "z \<le> hi") (auto split: if_splits)
qed

lemma ucast_64_32: "ucast (word_of_int z :: i64) = (word_of_int z :: i32)"
  by (rule bit_word_eqI) (auto simp: bit_simps)

lemma chrono_date_encoded:
  assumes "chrono_delta_laws U du" and "chrono_date_laws D du day lo hi"
  shows "naive_date_encode D U d oid_DATE b = (Ok (), b @ to_be_bytes (4 :: i32) @ int_bytes 4 (day d))"
proof -
  have "fits 4 (day d)" and since: "du (cd_since D d (cd_epoch D)) = 86400 * 10 ^ 9 * day d"
    using assms(2) by (simp_all add: chrono_date_laws_def)
  then have "fits 8 (day d)" by (simp add: fits_def)
  with assms(1) since have "td_num_days U (cd_since D d (cd_epoch D)) = word_of_int (day d)"
    unfolding chrono_delta_laws_def by blast
  then show ?thesis
    by (simp add: naive_date_encode_def put_def ucast_64_32 int_bytes_words)
qed

lemma time_date_exact:
  assumes D: "time_date_laws D day lo hi" and z: "fits 4 z"
  shows "if lo \<le> z \<and> z \<le> hi
    then \<exists>d. time_date_from_binary checks D oid_DATE (int_bytes 4 z) = Ok d \<and> day d = z \<and>
      time_date_encode D d oid_DATE b = (Ok (), b @ to_be_bytes (4 :: i32) @ int_bytes 4 z)
    else time_date_from_binary checks D oid_DATE (int_bytes 4 z) =
      (if checks \<and> \<not> fits 4 (z + 2451545) then Panic else Err (Decode ''invalid date: {}''))"
proof -
  define j where "j = (word_of_int z + PG_EPOCH_JULIAN_DAY :: i32)"
  have j: "j = word_of_int (z + 2451545)" by (simp add: j_def PG_EPOCH_JULIAN_DAY_def)
  have bounds: "- (2 ^ 30) \<le> lo" "hi \<le> 2 ^ 30" using D by (auto simp: time_date_laws_def)
  have sj: "sint j = (if z + 2451545 < 2 ^ 31 then z + 2451545 else z + 2451545 - 2 ^ 32)"
  proof (cases "z + 2451545 < 2 ^ 31")
    case True
    then have "fits 4 (z + 2451545)" using z by (simp add: fits_def)
    with True show ?thesis by (simp only: j fits_scast if_True)
  next
    case False
    then have "fits 4 (z + 2451545 - 2 ^ 32)" using z by (simp add: fits_def)
    moreover have "(word_of_int (2 ^ 32) :: i32) = 0" by simp
    then have "j = word_of_int (z + 2451545 - 2 ^ 32)"
      unfolding j wi_hom_sub [symmetric, of "z + 2451545" "2 ^ 32"] by simp
    ultimately show ?thesis using False by (simp only: fits_scast if_False)
  qed
  have land: "lands (\<lambda>_. True) day lo hi (tm_from_julian D j) (sint j - 2451545)"
    using D unfolding time_date_laws_def by blast
  have no: "sint (word_of_int z + PG_EPOCH_JULIAN_DAY :: i32) \<noteq> sint (word_of_int z :: i32) + sint PG_EPOCH_JULIAN_DAY
      \<longleftrightarrow> \<not> fits 4 (z + 2451545)"
    using z sj unfolding j_def [symmetric] by (auto simp: fits_scast PG_EPOCH_JULIAN_DAY_def fits_def)
  have run: "time_date_from_binary checks D oid_DATE (int_bytes 4 z) =
      (if checks \<and> \<not> fits 4 (z + 2451545) then Panic
       else ok_or (tm_from_julian D j) (Decode ''invalid date: {}''))"
    by (simp add: time_date_from_binary_def be_exact_int_bytes add_i32_def no j_def)
  show ?thesis
  proof (cases "lo \<le> z \<and> z \<le> hi")
    case True
    then have "sint j = z + 2451545" "fits 4 (z + 2451545)" using bounds sj by (simp_all add: fits_def)
    with land True obtain d where d: "tm_from_julian D j = Some d" "day d = z" by (auto simp: lands_def)
    then have "sint (tm_to_julian D d) = z + 2451545" using D by (simp add: time_date_laws_def)
    then have "word_of_int (sint (tm_to_julian D d)) = (word_of_int (z + 2451545) :: i32)" by (rule arg_cong)
    then have "tm_to_julian D d = word_of_int (z + 2451545)" by (simp only: of_int_sint scast_id)
    then have "tm_to_julian D d - PG_EPOCH_JULIAN_DAY = word_of_int z" by (simp add: PG_EPOCH_JULIAN_DAY_def)
    with True d \<open>fits 4 (z + 2451545)\<close> run show ?thesis
      by (auto simp: time_date_encode_def put_def int_bytes_words)
  next
    case False
    then have "\<not> (lo \<le> sint j - 2451545 \<and> sint j - 2451545 \<le> hi)"
      using bounds sj z by (auto simp: fits_def split: if_splits)
    with land have "tm_from_julian D j = None" by (simp add: lands_def)
    with False run show ?thesis by simp
  qed
qed

text \<open>
  C34: dates of both crates. The time crate decodes exactly the dates it can represent and writes them
  back; any other day is an error, except that a sum beyond \<open>i32\<close>, as for \<open>infinity\<close>, panics in a
  build with overflow checks. The chrono crate's encoder is exact, but its decoder never fails and
  gives 2000-01-01 for every date before it, for \<open>-infinity\<close> and for \<open>infinity\<close>.
\<close>

theorem dates_exact:
  assumes "chrono_delta_laws U du" and "chrono_date_laws D du day lo hi"
    and "time_date_laws E day' lo' hi'" and "fits 4 z"
  shows "(\<exists>d. naive_date_from_binary D oid_DATE (int_bytes 4 z) = Ok d \<and>
      day d = (if 0 < z \<and> z \<le> hi then z else 0)) \<and>
    naive_date_encode D U e oid_DATE b = (Ok (), b @ to_be_bytes (4 :: i32) @ int_bytes 4 (day e)) \<and>
    (if lo' \<le> z \<and> z \<le> hi'
     then \<exists>d. time_date_from_binary checks E oid_DATE (int_bytes 4 z) = Ok d \<and> day' d = z \<and>
       time_date_encode E d oid_DATE b = (Ok (), b @ to_be_bytes (4 :: i32) @ int_bytes 4 z)
     else time_date_from_binary checks E oid_DATE (int_bytes 4 z) =
       (if checks \<and> \<not> fits 4 (z + 2451545) then Panic else Err (Decode ''invalid date: {}'')))"
  by (intro conjI chrono_date_decoded [OF assms(2,4)] chrono_date_encoded [OF assms(1,2)]
      time_date_exact [OF assms(3,4)])

definition within :: "int \<Rightarrow> int \<Rightarrow> int option" where
  "within n v = (if - n \<le> v \<and> v \<le> n then Some v else None)"

text \<open>Dates as the numbers of their days; those of chrono are kept in a word.\<close>

definition days_date :: "(i32, int) chrono_date" where
  "days_date =
     \<lparr>cd_parse = (\<lambda>s f. None), cd_epoch = 0,
      cd_add_days = (\<lambda>d n. map_option word_of_int (within 95000000 (sint d + uint n))),
      cd_sub_days = (\<lambda>d n. map_option word_of_int (within 95000000 (sint d - uint n))),
      cd_since = (\<lambda>d e. 86400 * 10 ^ 9 * (sint d - sint e))\<rparr>"

definition julian_date :: "(i32, unit) time_date" where
  "julian_date =
     \<lparr>tm_parse_date = (\<lambda>s f. None),
      tm_from_julian = (\<lambda>j. map_option (\<lambda>_. j) (within 2900000 (sint j - 2451545))),
      tm_to_julian = id\<rparr>"

lemma date_laws:
  "chrono_date_laws days_date id sint (- 95000000) 95000000"
  "time_date_laws julian_date (\<lambda>j. sint j - 2451545) (- 2900000) 2900000"
proof -
  have "fits 4 (sint d)" for d :: i32 by (rule fits_width)
  moreover have "sint (word_of_int v :: i32) = v" if "- 95000000 \<le> v" "v \<le> 95000000" for v
    using that by (intro fits_scast) (simp add: fits_def)
  then have "lands (\<lambda>_. True) sint (- 95000000) 95000000 (map_option (word_of_int :: int \<Rightarrow> i32) (within 95000000 v)) v" for v
    by (simp add: lands_def within_def)
  ultimately show "chrono_date_laws days_date id sint (- 95000000) 95000000"
    by (simp add: chrono_date_laws_def days_date_def)
  show "time_date_laws julian_date (\<lambda>j. sint j - 2451545) (- 2900000) 2900000"
    by (simp add: time_date_laws_def julian_date_def lands_def within_def)
qed

text \<open>Day -36525, 1900-01-01, and \<open>infinity\<close>.\<close>

lemma dates_exact_witness:
  "(\<exists>d. naive_date_from_binary days_date oid_DATE (int_bytes 4 (- 36525)) = Ok d \<and> sint d = 0) \<and>
   time_date_from_binary True julian_date oid_DATE (int_bytes 4 (2 ^ 31 - 1)) = Panic"
proof -
  have "fits 4 (- 36525)" "fits 4 (2 ^ 31 - 1)" "\<not> fits 4 (2 ^ 31 - 1 + 2451545)"
    by (simp_all add: fits_def)
  with dates_exact [OF nanos_laws(1) date_laws, of "- 36525"]
    dates_exact [OF nanos_laws(1) date_laws, of "2 ^ 31 - 1"]
  show ?thesis by simp
qed

section \<open>Text\<close>

text \<open>
  The suffix that a \<open>timestamptz\<close> has as text is meant to be removed before a timestamp without
  time zone is parsed. The search finds the hyphen of the date first, so nothing is removed.
\<close>

lemma find_sign_first: "find_sign s = Some n \<Longrightarrow> c \<in> set (take k s) \<Longrightarrow> c = 43 \<or> c = 45 \<Longrightarrow> n < k"
  by (induction s arbitrary: n k) (auto simp: take_Cons split: if_splits nat.splits)

lemma timezone_kept: "45 \<in> set (take 11 s) \<Longrightarrow> strip_timezone s = s"
  using find_sign_first [of s _ 45 11] by (auto simp: strip_timezone_def split: option.splits)

end
