(* ===== verification/Connecting.thy ===== *)
theory Connecting
  imports SyncConn WireValue
begin

text \<open>
  The rest of \<open>src/sync/conn.rs\<close> about connecting: \<open>Conn::new\<close>, the upgrade to a Unix socket at
  the end of \<open>new_with_stream\<close>, and the destructor. The operating system is a parameter: the
  streams that connecting to an address or to a socket path gives, and whether the peer of the
  stream is a loopback address. A connection that is dropped on the way is returned as it was left.
\<close>

section \<open>Trimming\<close>

text \<open>\<open>s.trim()\<close>\<close>

lemma ws_len_Nil: "ws_len s \<noteq> 0 \<Longrightarrow> s \<noteq> []"
  by (auto simp: ws_len_def)

function trim_start :: "str \<Rightarrow> str" where
  "trim_start s = (if ws_len s = 0 then s else trim_start (drop (ws_len s) s))"
  by pat_completeness auto
termination by (relation "measure length") (use ws_len_Nil in \<open>simp_all add: diff_less\<close>)

fun trim_end :: "str \<Rightarrow> str" where
  "trim_end [] = []"
| "trim_end (b # s) = (if trim_start (b # s) = [] then [] else b # trim_end s)"

definition trim :: "str \<Rightarrow> str" where
  "trim s = trim_end (trim_start s)"

declare trim_start.simps [simp del]

section \<open>The destructor\<close>

definition conn_drop :: "conn \<Rightarrow> conn" where
  "conn_drop c =
     (let bs = (c_bufs c)\<lparr>write_buffer := write_terminate []\<rparr>; c1 = c\<lparr>c_bufs := bs\<rparr>;
          (_, s1) = stream_write_all (write_buffer bs) (c_stream c1);
          (_, s2) = stream_flush s1
      in c1\<lparr>c_stream := s2\<rparr>)"

section \<open>Connecting\<close>

record net =
  net_tcp :: "str \<Rightarrow> u16 \<Rightarrow> stream res"
  net_unix :: "str \<Rightarrow> stream res"
  net_loopback :: bool

text \<open>The build's features, the TLS library and the nonce, as \<open>new_with_stream\<close> takes them.\<close>

record build =
  b_tls :: bool
  b_sync_tls :: bool
  b_upgrade :: "stream \<Rightarrow> stream res"
  b_nonce :: bytes

definition start_session :: "ext \<Rightarrow> build \<Rightarrow> stream \<Rightarrow> opts \<Rightarrow> conn res option" where
  "start_session X B s options =
     new_with_stream X (b_tls B) (b_sync_tls B) (b_upgrade B) (b_nonce B) s options"

text \<open>The row type \<open>(String,)\<close> of the query.\<close>

definition string_row :: "ext \<Rightarrow> row_description \<Rightarrow> data_row \<Rightarrow> str res" where
  "string_row X cols row =
     rmap hd (tuple_from_row [decode_column_text (string_from_wire X)] cols row)"

text \<open>
  \<open>try_upgrade_to_unix_socket\<close>: the connection to use and, when it is a new one, the dropped
  old one. \<open>None\<close> is a call that does not return.
\<close>

definition try_upgrade_to_unix_socket ::
    "ext \<Rightarrow> build \<Rightarrow> net \<Rightarrow> opts \<Rightarrow> conn \<Rightarrow> (conn \<times> conn option) res option" where
  "try_upgrade_to_unix_socket X B N options c =
     (case conn_query X (first_row_handler (string_row X)) None
         (ascii ''SHOW unix_socket_directories'') c of
        None \<Rightarrow> None
      | Some (Panic, h, c1) \<Rightarrow> Some Panic
      | Some (Err e, h, c1) \<Rightarrow> Some (Ok (c1, None))
      | Some (Ok _, None, c1) \<Rightarrow> Some (Ok (c1, None))
      | Some (Ok _, Some dirs, c1) \<Rightarrow>
          (let d = trim (hd (split_on 44 dirs)) in
           if d = [] then Some (Ok (c1, None))
           else case net_unix N (d @ ascii ''/.s.PGSQL.'' @ show_nat (unat (o_port options))) of
               Err e \<Rightarrow> Some (Ok (c1, None))
             | Panic \<Rightarrow> Some Panic
             | Ok s \<Rightarrow> map_option (\<lambda>r. case r of
                   Ok c2 \<Rightarrow> Ok (c2, Some (conn_drop c1))
                 | Err e \<Rightarrow> Ok (c1, None)
                 | Panic \<Rightarrow> Panic)
                 (start_session X B s (options\<lparr>o_upgrade_to_unix_socket := False\<rparr>))))"

text \<open>\<open>new_with_stream\<close>, with the upgrade. A Unix socket is not a loopback address.\<close>

definition connect_stream ::
    "ext \<Rightarrow> build \<Rightarrow> net \<Rightarrow> bool \<Rightarrow> stream \<Rightarrow> opts \<Rightarrow> (conn \<times> conn option) res option" where
  "connect_stream X B N loopback s options =
     (case start_session X B s options of
        None \<Rightarrow> None
      | Some (Err e) \<Rightarrow> Some (Err e)
      | Some Panic \<Rightarrow> Some Panic
      | Some (Ok c) \<Rightarrow>
          if o_upgrade_to_unix_socket options \<and> loopback
          then try_upgrade_to_unix_socket X B N options c
          else Some (Ok (c, None)))"

definition conn_new :: "ext \<Rightarrow> build \<Rightarrow> net \<Rightarrow> opts \<Rightarrow> (conn \<times> conn option) res option" where
  "conn_new X B N options =
     (case o_socket options of
        Some path \<Rightarrow> (case net_unix N path of
            Ok s \<Rightarrow> connect_stream X B N False s options
          | Err e \<Rightarrow> Some (Err e)
          | Panic \<Rightarrow> Some Panic)
      | None \<Rightarrow>
          if o_host options = [] then Some (Err (InvalidUsage ''host is empty''))
          else (case net_tcp N (o_host options) (o_port options) of
              Ok s \<Rightarrow> connect_stream X B N (net_loopback N) s options
            | Err e \<Rightarrow> Some (Err e)
            | Panic \<Rightarrow> Some Panic))"

end
