(* ===== verification/Pool.thy ===== *)
theory Pool
  imports Connecting
begin

text \<open>
  \<open>src/buffer_pool.rs\<close> and \<open>src/sync/pool.rs\<close>.

  A pool is shared by threads. What the threads share is a bounded queue of idle connections and
  a semaphore, whose operations are atomic; everything else works on a connection that one thread
  owns. So a call of \<open>get\<close>, and the drop of a \<open>PooledConn\<close>, is a sequence of atomic steps, and
  the pool is a step relation in which the threads interleave in any order. A \<open>client\<close> is how far
  one thread is with one \<open>get\<close>.
\<close>

section \<open>Queues and semaphores\<close>

text \<open>
  The queue is \<open>ArrayQueue\<close> of the crossbeam crate, the semaphore that of std-semaphore: parameters,
  records of the functions the code calls. \<open>push\<close> hands the element back when the queue is full,
  and the code drops it; \<open>sl_acquire\<close> is \<open>None\<close> while \<open>acquire\<close> blocks.
\<close>

record ('a, 'q) queue_lib =
  ql_new :: "nat \<Rightarrow> 'q res"
  ql_push :: "'a \<Rightarrow> 'q \<Rightarrow> 'q"
  ql_pop :: "'q \<Rightarrow> ('a \<times> 'q) option"

record 's semaphore_lib =
  sl_new :: "i64 \<Rightarrow> 's"
  sl_acquire :: "'s \<Rightarrow> 's option"
  sl_release :: "'s \<Rightarrow> 's"

text \<open>
  What their documentation promises: a queue holds at most its capacity, which is not zero, first
  in first out; a semaphore counts.
\<close>

definition queue_laws :: "('a, 'q) queue_lib \<Rightarrow> ('q \<Rightarrow> nat) \<Rightarrow> ('q \<Rightarrow> 'a list) \<Rightarrow> bool" where
  "queue_laws Q cap items \<longleftrightarrow>
     (\<forall>n. if n = 0 then ql_new Q n = Panic
          else \<exists>q. ql_new Q n = Ok q \<and> cap q = n \<and> items q = []) \<and>
     (\<forall>x q. cap (ql_push Q x q) = cap q \<and>
        items (ql_push Q x q) = (if length (items q) < cap q then items q @ [x] else items q)) \<and>
     (\<forall>q. case items q of
        [] \<Rightarrow> ql_pop Q q = None
      | x # xs \<Rightarrow> \<exists>q'. ql_pop Q q = Some (x, q') \<and> cap q' = cap q \<and> items q' = xs)"

definition semaphore_laws :: "'s semaphore_lib \<Rightarrow> ('s \<Rightarrow> int) \<Rightarrow> bool" where
  "semaphore_laws S count \<longleftrightarrow>
     (\<forall>n. count (sl_new S n) = sint n) \<and>
     (\<forall>s. if 0 < count s then \<exists>s'. sl_acquire S s = Some s' \<and> count s' = count s - 1
          else sl_acquire S s = None) \<and>
     (\<forall>s. count (sl_release S s) = count s + 1)"

lemma queue_new:
  assumes "queue_laws Q cap items" and "ql_new Q n = Ok q"
  shows "cap q = n \<and> items q = []"
proof -
  from assms(1) have "if n = 0 then ql_new Q n = Panic
      else \<exists>q. ql_new Q n = Ok q \<and> cap q = n \<and> items q = []"
    unfolding queue_laws_def by blast
  with assms(2) show ?thesis by (auto split: if_splits)
qed

lemma queue_push:
  "queue_laws Q cap items \<Longrightarrow> cap (ql_push Q x q) = cap q \<and>
     items (ql_push Q x q) = (if length (items q) < cap q then items q @ [x] else items q)"
  by (simp add: queue_laws_def)

lemma queue_pop:
  assumes "queue_laws Q cap items"
  shows "ql_pop Q q = Some (x, q') \<Longrightarrow> items q = x # items q' \<and> cap q' = cap q"
    "ql_pop Q q = None \<longleftrightarrow> items q = []"
proof -
  from assms have "case items q of
      [] \<Rightarrow> ql_pop Q q = None
    | x # xs \<Rightarrow> \<exists>q'. ql_pop Q q = Some (x, q') \<and> cap q' = cap q \<and> items q' = xs"
    unfolding queue_laws_def by blast
  then show "ql_pop Q q = Some (x, q') \<Longrightarrow> items q = x # items q' \<and> cap q' = cap q"
    "ql_pop Q q = None \<longleftrightarrow> items q = []"
    by (auto split: list.splits)
qed

lemma semaphore_facts:
  assumes "semaphore_laws S count"
  shows "count (sl_new S n) = sint n" "count (sl_release S s) = count s + 1"
    "sl_acquire S s = Some s' \<Longrightarrow> 0 < count s \<and> count s' = count s - 1"
    "sl_acquire S s = None \<longleftrightarrow> count s \<le> 0"
proof -
  from assms have "if 0 < count s then \<exists>s'. sl_acquire S s = Some s' \<and> count s' = count s - 1
      else sl_acquire S s = None"
    unfolding semaphore_laws_def by blast
  then show "sl_acquire S s = Some s' \<Longrightarrow> 0 < count s \<and> count s' = count s - 1"
    "sl_acquire S s = None \<longleftrightarrow> count s \<le> 0"
    by (auto split: if_splits)
qed (use assms in \<open>simp_all add: semaphore_laws_def\<close>)

section \<open>Buffers (buffer_pool.rs)\<close>

definition POOL_CAPACITY :: nat where "POOL_CAPACITY = 128"

definition buffer_pool_new :: "(buffer_set, 'q) queue_lib \<Rightarrow> nat \<Rightarrow> 'q res" where
  "buffer_pool_new Q capacity = ql_new Q capacity"

definition buffer_pool_default :: "(buffer_set, 'q) queue_lib \<Rightarrow> 'q res" where
  "buffer_pool_default Q = buffer_pool_new Q POOL_CAPACITY"

text \<open>\<open>self.buffer_sets.pop().unwrap_or_default()\<close>\<close>

definition get_buffer_set :: "(buffer_set, 'q) queue_lib \<Rightarrow> 'q \<Rightarrow> buffer_set \<times> 'q" where
  "get_buffer_set Q p = (case ql_pop Q p of Some r \<Rightarrow> r | None \<Rightarrow> (buffer_set_new, p))"

definition return_buffer_set :: "(buffer_set, 'q) queue_lib \<Rightarrow> buffer_set \<Rightarrow> 'q \<Rightarrow> 'q" where
  "return_buffer_set Q bs p =
     ql_push Q (bs\<lparr>read_buffer := [], write_buffer := [], column_buffer := [], type_byte := 0\<rparr>) p"

text \<open>Whatever is returned, only empty buffer sets are handed out, as \<open>new_with_stream\<close> expects.\<close>

lemma buffer_pool_empty:
  assumes "queue_laws Q cap items"
  shows "buffer_pool_new Q n = Ok p \<Longrightarrow> set (items p) \<subseteq> {buffer_set_new}"
    "set (items p) \<subseteq> {buffer_set_new} \<Longrightarrow> set (items (return_buffer_set Q bs p)) \<subseteq> {buffer_set_new}"
    "set (items p) \<subseteq> {buffer_set_new} \<Longrightarrow> get_buffer_set Q p = (bs, p') \<Longrightarrow>
       bs = buffer_set_new \<and> set (items p') \<subseteq> {buffer_set_new}"
  using queue_new [OF assms, of n p] queue_push [OF assms] queue_pop [OF assms, of p]
  by (auto simp: buffer_pool_new_def return_buffer_set_def get_buffer_set_def buffer_set_new_def
      split: if_splits option.splits)

section \<open>The connection pool (sync/pool.rs)\<close>

text \<open>The semaphore counts in \<open>isize\<close>; \<open>Pool::new\<close> casts the limit.\<close>

record ('q, 's) pool =
  p_opts :: opts
  p_conns :: 'q
  p_semaphore :: "'s option"

definition pool_new :: "(conn, 'q) queue_lib \<Rightarrow> 's semaphore_lib \<Rightarrow> opts \<Rightarrow> ('q, 's) pool res" where
  "pool_new Q S options =
     rmap (\<lambda>q. \<lparr>p_opts = options, p_conns = q,
         p_semaphore = map_option (\<lambda>n. sl_new S (word_of_nat n)) (o_pool_max_concurrency options)\<rparr>)
       (ql_new Q (o_pool_max_idle_conn options))"

text \<open>
  How far a client is: waiting in \<open>get\<close> for a permit; about to pop; pinging what it popped;
  connecting; the \<open>PooledConn\<close> is out; \<open>drop\<close> is checking the connection in, pushes it, is about
  to release the permit, has finished. \<open>GetFailed\<close> is a \<open>get\<close> that returned an error, \<open>Panicked\<close>
  a thread that unwound from \<open>get\<close> or from \<open>drop\<close>.
\<close>

datatype client =
    Waiting
  | Taking
  | Pinging conn
  | Connecting
  | Using conn
  | CheckingIn conn
  | Pushing conn
  | Releasing
  | Finished_client
  | GetFailed error
  | Panicked

text \<open>\<open>if let Some(sem) = &self.semaphore { sem.acquire(); }\<close>, and \<open>release\<close>\<close>

definition acquire :: "'s semaphore_lib \<Rightarrow> ('q, 's) pool \<Rightarrow> ('q, 's) pool option" where
  "acquire S p = (case p_semaphore p of
     None \<Rightarrow> Some p
   | Some s \<Rightarrow> map_option (\<lambda>s'. p\<lparr>p_semaphore := Some s'\<rparr>) (sl_acquire S s))"

definition release :: "'s semaphore_lib \<Rightarrow> ('q, 's) pool \<Rightarrow> ('q, 's) pool" where
  "release S p = p\<lparr>p_semaphore := map_option (sl_release S) (p_semaphore p)\<rparr>"

text \<open>\<open>match self.conns.pop()\<close>\<close>

definition take_idle :: "(conn, 'q) queue_lib \<Rightarrow> ('q, 's) pool \<Rightarrow> client \<times> ('q, 's) pool" where
  "take_idle Q p = (case ql_pop Q (p_conns p) of
     Some (c, q) \<Rightarrow> (Pinging c, p\<lparr>p_conns := q\<rparr>)
   | None \<Rightarrow> (Connecting, p))"

text \<open>\<open>if c.ping().is_ok() { break c; }\<close>: a dead connection is dropped and the loop goes on.\<close>

definition ping_client :: "ext \<Rightarrow> conn \<Rightarrow> client option" where
  "ping_client X c = map_option (\<lambda>(r, c'). case r of
     Ok _ \<Rightarrow> Using c' | Err e \<Rightarrow> Taking | Panic \<Rightarrow> Panicked) (conn_ping X c)"

text \<open>\<open>None => break Conn::new(self.opts.clone())?\<close>\<close>

definition connect_client :: "ext \<Rightarrow> build \<Rightarrow> net \<Rightarrow> ('q, 's) pool \<Rightarrow> client option" where
  "connect_client X B N p = map_option (\<lambda>r. case r of
     Ok (c, _) \<Rightarrow> Using c | Err e \<Rightarrow> GetFailed e | Panic \<Rightarrow> Panicked) (conn_new X B N (p_opts p))"

text \<open>\<open>check_in\<close> up to the push\<close>

definition check_in :: "ext \<Rightarrow> conn \<Rightarrow> client option" where
  "check_in X c =
     (if c_broken c then Some Releasing
      else map_option (\<lambda>(r, c'). case r of
          Ok _ \<Rightarrow> Pushing c' | Err e \<Rightarrow> Releasing | Panic \<Rightarrow> Panicked)
        (query_drop X (ascii ''DISCARD ALL'') c))"

definition push_idle :: "(conn, 'q) queue_lib \<Rightarrow> conn \<Rightarrow> ('q, 's) pool \<Rightarrow> ('q, 's) pool" where
  "push_idle Q c p = p\<lparr>p_conns := ql_push Q c (p_conns p)\<rparr>"

text \<open>
  The parameters of a pool: the third-party functions, the build, the queue and the semaphore.
  One step of a client. Only \<open>acquire\<close>, \<open>take_idle\<close>, \<open>push_idle\<close> and \<open>release\<close> touch the pool.
  The network may answer differently each time. While the connection is out, its user may
  do anything with it, and drops it in the end.
\<close>

record ('q, 's) pool_env =
  e_ext :: ext
  e_build :: build
  e_queue :: "(conn, 'q) queue_lib"
  e_sem :: "'s semaphore_lib"

inductive client_step ::
    "('q, 's) pool_env \<Rightarrow> ('q, 's) pool \<times> client \<Rightarrow> ('q, 's) pool \<times> client \<Rightarrow> bool" for E where
  acquire: "acquire (e_sem E) p = Some p' \<Longrightarrow> client_step E (p, Waiting) (p', Taking)"
| take: "take_idle (e_queue E) p = (k, p') \<Longrightarrow> client_step E (p, Taking) (p', k)"
| ping: "ping_client (e_ext E) c = Some k \<Longrightarrow> client_step E (p, Pinging c) (p, k)"
| connect: "connect_client (e_ext E) (e_build E) N p = Some k \<Longrightarrow> client_step E (p, Connecting) (p, k)"
| use: "client_step E (p, Using c) (p, Using c')"
| drop: "client_step E (p, Using c) (p, CheckingIn c)"
| check: "check_in (e_ext E) c = Some k \<Longrightarrow> client_step E (p, CheckingIn c) (p, k)"
| push: "client_step E (p, Pushing c) (push_idle (e_queue E) c p, Releasing)"
| release: "client_step E (p, Releasing) (release (e_sem E) p, Finished_client)"

text \<open>A pool and its clients; any number of clients may come.\<close>

type_synonym ('q, 's) world = "('q, 's) pool \<times> client list"

inductive pool_step :: "('q, 's) pool_env \<Rightarrow> ('q, 's) world \<Rightarrow> ('q, 's) world \<Rightarrow> bool" for E where
  come: "pool_step E (p, ks) (p, ks @ [Waiting])"
| go: "i < length ks \<Longrightarrow> client_step E (p, ks ! i) (p', k) \<Longrightarrow> pool_step E (p, ks) (p', ks[i := k])"

definition pool_reachable :: "('q, 's) pool_env \<Rightarrow> opts \<Rightarrow> ('q, 's) world \<Rightarrow> bool" where
  "pool_reachable E options w \<longleftrightarrow>
     (\<exists>p. pool_new (e_queue E) (e_sem E) options = Ok p \<and> (pool_step E)\<^sup>*\<^sup>* (p, []) w)"

end
