(* ===== verification/PoolFacts.thy ===== *)
theory PoolFacts
  imports Pool SimpleExchange StartupExchange Samples
begin

text \<open>
  The connection pool, whatever the interleaving of its clients: the books of permits and
  connections, what state an idle connection is in, and when a waiting client gets its turn.
\<close>

section \<open>Counting clients\<close>

text \<open>
  A client owns a permit from \<open>acquire\<close> to \<open>release\<close>; one that failed or panicked in between
  keeps it. It has a connection open, or is opening one, in the phases of \<open>open_conn\<close>.
\<close>

fun holds_permit :: "client \<Rightarrow> bool" where
  "holds_permit Waiting = False"
| "holds_permit Finished_client = False"
| "holds_permit _ = True"

fun open_conn :: "client \<Rightarrow> bool" where
  "open_conn (Pinging _) = True"
| "open_conn Connecting = True"
| "open_conn (Using _) = True"
| "open_conn (CheckingIn _) = True"
| "open_conn (Pushing _) = True"
| "open_conn _ = False"

fun leaked :: "client \<Rightarrow> bool" where
  "leaked (GetFailed _) = True"
| "leaked Panicked = True"
| "leaked _ = False"

definition many :: "('a \<Rightarrow> bool) \<Rightarrow> 'a list \<Rightarrow> int" where
  "many P ks = int (length (filter P ks))"

lemma many_simps [simp]:
  "many P [] = 0" "many P (k # ks) = of_bool (P k) + many P ks"
  "many P (ks @ ls) = many P ks + many P ls" "0 \<le> many P ks"
  by (simp_all add: many_def)

lemma many_update:
  "i < length ks \<Longrightarrow> many P (ks[i := k]) = many P ks - of_bool (P (ks ! i)) + of_bool (P k)"
proof (induction ks arbitrary: i)
  case (Cons l ks)
  then show ?case by (cases i) simp_all
qed simp

lemma many_le:
  assumes "\<And>k. P k \<Longrightarrow> Q k"
  shows "many P ks \<le> many Q ks"
    "i < length ks \<Longrightarrow> Q (ks ! i) \<Longrightarrow> \<not> P (ks ! i) \<Longrightarrow> many P ks < many Q ks"
proof -
  show le: "many P ks \<le> many Q ks" for ks
    by (induction ks) (auto simp: assms add_mono)
  show "i < length ks \<Longrightarrow> Q (ks ! i) \<Longrightarrow> \<not> P (ks ! i) \<Longrightarrow> many P ks < many Q ks"
  proof (induction ks arbitrary: i)
    case (Cons k ks)
    show ?case
    proof (cases i)
      case 0
      with Cons le [of ks] show ?thesis by simp
    next
      case (Suc j)
      with Cons.IH [of j] Cons.prems show ?thesis using assms [of k] by auto
    qed
  qed simp
qed

lemma open_holds: "open_conn k \<Longrightarrow> holds_permit k" "leaked k \<Longrightarrow> holds_permit k"
  by (cases k; simp)+

section \<open>The invariant\<close>

text \<open>
  An idle connection is not broken, and the last thing that happened to it is a DISCARD ALL that
  the server carried out, which left it at a message boundary.
\<close>

definition idle_ok :: "ext \<Rightarrow> conn \<Rightarrow> bool" where
  "idle_ok X c \<longleftrightarrow> \<not> c_broken c \<and>
     (\<exists>c0 n. query_drop X (ascii ''DISCARD ALL'') c0 = Some (Ok n, c) \<and>
        at_boundary (inp (c_stream c0)) (inp (c_stream c)) (c_tx c))"

definition pool_inv ::
    "ext \<Rightarrow> ('q \<Rightarrow> nat) \<Rightarrow> ('q \<Rightarrow> conn list) \<Rightarrow> ('s \<Rightarrow> int) \<Rightarrow> opts \<Rightarrow> ('q, 's) world \<Rightarrow> bool" where
  "pool_inv X cap items count options w \<longleftrightarrow> (case w of (p, ks) \<Rightarrow>
     let idle = items (p_conns p) in
     cap (p_conns p) = o_pool_max_idle_conn options \<and>
     length idle \<le> o_pool_max_idle_conn options \<and>
     (\<forall>c \<in> set idle. idle_ok X c) \<and> (\<forall>c. Pushing c \<in> set ks \<longrightarrow> idle_ok X c) \<and>
     (case o_pool_max_concurrency options of
        None \<Rightarrow> p_semaphore p = None
      | Some n \<Rightarrow> n < 2 ^ 63 \<longrightarrow>
          (\<exists>s. p_semaphore p = Some s \<and> count s = int n - many holds_permit ks) \<and>
          many holds_permit ks \<le> int n \<and> int (length idle) + many open_conn ks \<le> int n))"

text \<open>The laws of the queue and of the semaphore.\<close>

definition env_laws ::
    "('q, 's) pool_env \<Rightarrow> ('q \<Rightarrow> nat) \<Rightarrow> ('q \<Rightarrow> conn list) \<Rightarrow> ('s \<Rightarrow> int) \<Rightarrow> bool" where
  "env_laws E cap items count \<longleftrightarrow> queue_laws (e_queue E) cap items \<and> semaphore_laws (e_sem E) count"

lemma check_in_pushes:
  assumes "check_in X c = Some (Pushing c')"
  shows "idle_ok X c'"
proof -
  obtain n where q: "query_drop X (ascii ''DISCARD ALL'') c = Some (Ok n, c')" and b: "\<not> c_broken c"
  proof (cases "query_drop X (ascii ''DISCARD ALL'') c")
    case (Some rc)
    with assms that show thesis
      by (cases rc; cases "fst rc") (auto simp: check_in_def split: if_splits)
  qed (use assms in \<open>auto simp: check_in_def split: if_splits\<close>)
  then have "\<not> c_broken c'"
    using conn_query_ok by (fastforce simp: query_drop_def rmap_eq_Ok)
  moreover from query_drop_boundary [OF q _ this]
  have "at_boundary (inp (c_stream c)) (inp (c_stream c')) (c_tx c')" by simp
  ultimately show ?thesis using q by (auto simp: idle_ok_def)
qed

lemma pool_new_inv:
  assumes "env_laws E cap items count" and "pool_new (e_queue E) (e_sem E) options = Ok p"
  shows "pool_inv X cap items count options (p, [])"
proof -
  have "n < 2 ^ 63 \<Longrightarrow> sint (word_of_nat n :: i64) = int n" for n
  proof -
    assume "n < 2 ^ 63"
    then have "int n < 2 ^ 63" by simp
    then show ?thesis by (simp add: signed_of_nat signed_take_bit_int_eq_self)
  qed
  moreover obtain q where "ql_new (e_queue E) (o_pool_max_idle_conn options) = Ok q"
    using assms(2) by (auto simp: pool_new_def rmap_eq_Ok)
  ultimately show ?thesis
    using assms queue_new [of "e_queue E" cap items "o_pool_max_idle_conn options" q]
      semaphore_facts(1) [of "e_sem E" count]
    by (auto simp: pool_new_def env_laws_def pool_inv_def split: option.splits)
qed

lemma set_update: "x \<in> set (ks[i := k]) \<Longrightarrow> x = k \<or> x \<in> set ks"
  using set_update_subset_insert by fastforce

lemma open_less:
  "i < length ks \<Longrightarrow> ks ! i = k \<Longrightarrow> holds_permit k \<Longrightarrow> \<not> open_conn k \<Longrightarrow> many open_conn ks < many holds_permit ks"
  by (rule many_le(2)) (auto simp: open_holds)

lemma client_outcomes:
  "ping_client X c = Some k \<Longrightarrow> k = Panicked \<or> k = Taking \<or> (\<exists>c'. k = Using c')"
  "connect_client X B N p = Some k \<Longrightarrow> k = Panicked \<or> (\<exists>e. k = GetFailed e) \<or> (\<exists>c. k = Using c)"
  "check_in X c = Some k \<Longrightarrow> k = Releasing \<or> k = Panicked \<or> (\<exists>c'. k = Pushing c')"
proof -
  show "k = Panicked \<or> k = Taking \<or> (\<exists>c'. k = Using c')" if "ping_client X c = Some k"
  proof -
    from that obtain r c' where "conn_ping X c = Some (r, c')" by (auto simp: ping_client_def)
    with that show ?thesis by (cases r) (auto simp: ping_client_def)
  qed
  show "k = Panicked \<or> (\<exists>e. k = GetFailed e) \<or> (\<exists>c. k = Using c)" if "connect_client X B N p = Some k"
  proof -
    from that obtain r where "conn_new X B N (p_opts p) = Some r" by (auto simp: connect_client_def)
    with that show ?thesis by (cases r) (auto simp: connect_client_def)
  qed
  show "k = Releasing \<or> k = Panicked \<or> (\<exists>c'. k = Pushing c')" if "check_in X c = Some k"
  proof (cases "c_broken c")
    case False
    with that obtain r c' where "query_drop X (ascii ''DISCARD ALL'') c = Some (r, c')"
      by (auto simp: check_in_def)
    with False that show ?thesis by (cases r) (auto simp: check_in_def)
  qed (use that in \<open>simp add: check_in_def\<close>)
qed

text \<open>A step of one client keeps the invariant; the shared part of every case.\<close>

lemma inv_local:
  assumes "pool_inv X cap items count options (p, ks)" and "i < length ks"
    and "holds_permit (ks ! i)" and "holds_permit k" and "open_conn k \<longrightarrow> open_conn (ks ! i)"
    and "\<And>c. k = Pushing c \<Longrightarrow> idle_ok X c"
  shows "pool_inv X cap items count options (p, ks[i := k])"
  using assms
  by (auto simp: pool_inv_def Let_def many_update dest: set_update split: option.splits)

lemma pool_step_inv:
  assumes laws: "env_laws E cap items count" and "pool_step E w w'"
    and "pool_inv (e_ext E) cap items count options w"
  shows "pool_inv (e_ext E) cap items count options w'"
  using assms(2)
proof cases
  case (come p ks)
  with assms(3) show ?thesis by (auto simp: pool_inv_def Let_def split: option.splits)
next
  case (go i ks p p' k)
  note inv = assms(3)[unfolded go(1)]
  have Q: "queue_laws (e_queue E) cap items" and S: "semaphore_laws (e_sem E) count"
    using laws by (simp_all add: env_laws_def)
  from go(4) show ?thesis
  proof cases
    case acquire
    with inv go semaphore_facts(3) [OF S] show ?thesis
      by (fastforce simp: pool_inv_def Let_def acquire_def many_update dest: set_update
          split: option.splits)
  next
    case take
    have less: "many open_conn ks < many holds_permit ks"
      using open_less [OF go(3) take(1)] by simp
    show ?thesis
    proof (cases "ql_pop (e_queue E) (p_conns p)")
      case None
      with take have "p' = p" "k = Connecting" by (auto simp: take_idle_def)
      moreover have "items (p_conns p) = []" using queue_pop(2) [OF Q] None by simp
      ultimately show ?thesis
        using inv go take less
        by (auto simp: pool_inv_def Let_def many_update dest: set_update split: option.splits)
    next
      case (Some cq)
      then obtain c q where pop: "ql_pop (e_queue E) (p_conns p) = Some (c, q)" by (cases cq) auto
      with take have "k = Pinging c" "p' = p\<lparr>p_conns := q\<rparr>" by (auto simp: take_idle_def)
      with inv go take queue_pop(1) [OF Q pop] show ?thesis
        by (auto simp: pool_inv_def Let_def many_update dest: set_update split: option.splits)
    qed
  next
    case (ping c)
    with client_outcomes(1) [of "e_ext E" c k] go inv show ?thesis by (auto intro!: inv_local)
  next
    case (connect N)
    with client_outcomes(2) [of "e_ext E" "e_build E" N p k] go inv show ?thesis
      by (auto intro!: inv_local)
  next
    case (use c c')
    with go inv show ?thesis by (auto intro!: inv_local)
  next
    case (drop c)
    with go inv show ?thesis by (auto intro!: inv_local)
  next
    case (check c)
    with client_outcomes(3) [of "e_ext E" c k] check_in_pushes [of "e_ext E" c] go inv show ?thesis
      by (auto intro!: inv_local)
  next
    case (push c)
    then have "Pushing c \<in> set ks" using go(3) nth_mem by metis
    with inv push go queue_push [OF Q, of c "p_conns p"] show ?thesis
      by (auto simp: pool_inv_def Let_def push_idle_def many_update dest: set_update
          split: option.splits if_splits)
  next
    case release
    with inv go semaphore_facts(2) [OF S] show ?thesis
      by (auto simp: pool_inv_def Let_def release_def many_update dest: set_update split: option.splits)
  qed
qed

lemma pool_reachable_inv:
  assumes "env_laws E cap items count" and "pool_reachable E options w"
  shows "pool_inv (e_ext E) cap items count options w"
proof -
  obtain p where p: "pool_new (e_queue E) (e_sem E) options = Ok p" "(pool_step E)\<^sup>*\<^sup>* (p, []) w"
    using assms(2) by (auto simp: pool_reachable_def)
  from p(2) show ?thesis
    by (induction rule: rtranclp_induct)
      (auto intro: pool_new_inv [OF assms(1) p(1)] pool_step_inv [OF assms(1)])
qed

text \<open>
  C29: The pool keeps its limits, however its clients interleave: at most \<open>pool_max_idle_conn\<close>
  connections are idle; with a limit on concurrency, the semaphore and the clients that own a
  permit add up to the limit, and the idle connections together with those in use, being pinged,
  opened or checked in are never more than the limit. Every idle connection is unbroken and at
  a message boundary, the last exchange on it being a DISCARD ALL that succeeded.
\<close>

theorem pool_bounded:
  assumes "env_laws E cap items count" and "pool_reachable E options (p, ks)"
  shows "length (items (p_conns p)) \<le> o_pool_max_idle_conn options \<and>
    (\<forall>n. o_pool_max_concurrency options = Some n \<and> n < 2 ^ 63 \<longrightarrow>
       (\<exists>s. p_semaphore p = Some s \<and> count s = int n - many holds_permit ks) \<and>
       many holds_permit ks \<le> int n \<and>
       int (length (items (p_conns p))) + many open_conn ks \<le> int n) \<and>
    (\<forall>c \<in> set (items (p_conns p)). idle_ok (e_ext E) c)"
  using pool_reachable_inv [OF assms] by (auto simp: pool_inv_def Let_def)

text \<open>
  A list as queue, a number as semaphore. A pool of one connection whose options name no host:
  the first client's \<open>get\<close> fails and keeps the only permit, the second client waits.
\<close>

definition list_queue :: "('a, nat \<times> 'a list) queue_lib" where
  "list_queue =
     \<lparr>ql_new = (\<lambda>n. if n = 0 then Panic else Ok (n, [])),
      ql_push = (\<lambda>x (n, xs). (n, if length xs < n then xs @ [x] else xs)),
      ql_pop = (\<lambda>(n, xs). case xs of [] \<Rightarrow> None | x # xs \<Rightarrow> Some (x, (n, xs)))\<rparr>"

definition int_semaphore :: "int semaphore_lib" where
  "int_semaphore = \<lparr>sl_new = sint, sl_acquire = (\<lambda>n. if 0 < n then Some (n - 1) else None), sl_release = (\<lambda>n. n + 1)\<rparr>"

definition env0 :: "(nat \<times> conn list, int) pool_env" where
  "env0 = \<lparr>e_ext = ext0, e_build = \<lparr>b_tls = True, b_sync_tls = True, b_upgrade = Ok, b_nonce = [120]\<rparr>,
     e_queue = list_queue, e_sem = int_semaphore\<rparr>"

definition pool_opts0 :: opts where
  "pool_opts0 = opts_default\<lparr>o_pool_max_concurrency := Some 1\<rparr>"

definition pool0 :: "int \<Rightarrow> (nat \<times> conn list, int) pool" where
  "pool0 n = \<lparr>p_opts = pool_opts0, p_conns = (100, []), p_semaphore = Some n\<rparr>"

definition leaked0 :: "client list" where
  "leaked0 = [GetFailed (InvalidUsage ''host is empty''), Waiting]"

lemma env0_laws: "env_laws env0 fst snd id"
  by (auto simp: env_laws_def env0_def queue_laws_def list_queue_def semaphore_laws_def int_semaphore_def
      split: list.splits)

lemma pool0_reachable: "pool_reachable env0 pool_opts0 (pool0 0, leaked0)"
proof -
  have new: "pool_new (e_queue env0) (e_sem env0) pool_opts0 = Ok (pool0 1)"
    by (simp add: pool_new_def env0_def list_queue_def int_semaphore_def pool_opts0_def pool0_def opts_default_def)
  have c1: "client_step env0 (pool0 1, Waiting) (pool0 0, Taking)"
    by (rule client_step.acquire) (simp add: acquire_def pool0_def env0_def int_semaphore_def)
  have c2: "client_step env0 (pool0 0, Taking) (pool0 0, Connecting)"
    by (rule client_step.take) (simp add: take_idle_def pool0_def env0_def list_queue_def)
  have "connect_client (e_ext env0) (e_build env0) undefined (pool0 0) =
      Some (GetFailed (InvalidUsage ''host is empty''))"
    by (simp add: connect_client_def conn_new_def pool0_def pool_opts0_def opts_default_def)
  then have c3: "client_step env0 (pool0 0, Connecting) (pool0 0, GetFailed (InvalidUsage ''host is empty''))"
    by (rule client_step.connect)
  note s = pool_step.come [of env0 "pool0 1" "[]"] pool_step.come [of env0 "pool0 1" "[Waiting]"]
    pool_step.go [of 0 "[Waiting, Waiting]", simplified, OF c1]
    pool_step.go [of 0 "[Taking, Waiting]", simplified, OF c2]
    pool_step.go [of 0 "[Connecting, Waiting]", simplified, OF c3]
  have "(pool_step env0)\<^sup>*\<^sup>* (pool0 1, []) (pool0 0, leaked0)"
    using s by (simp add: leaked0_def)
  with new show ?thesis by (auto simp: pool_reachable_def)
qed

lemma pool_bounded_witness:
  "many holds_permit leaked0 \<le> 1 \<and> int (length (snd (p_conns (pool0 0)))) + many open_conn leaked0 \<le> 1"
  using pool_bounded [OF env0_laws pool0_reachable] by (simp add: pool_opts0_def)

section \<open>Waiting\<close>

lemma conn_new_total: "\<exists>r. conn_new X B N options = Some r"
proof -
  have start: "\<exists>r. start_session X B s o1 = Some r" for s o1
    using startup_loop_total by (auto simp: start_session_def new_with_stream_def)
  have "\<exists>r. try_upgrade_to_unix_socket X B N o1 c = Some r" for o1 c
  proof -
    obtain r h c1 where "conn_query X (first_row_handler (string_row X)) None
        (ascii ''SHOW unix_socket_directories'') c = Some (r, h, c1)"
      using conn_query_total by fastforce
    with start show ?thesis
      by (cases r; cases h) (auto simp: try_upgrade_to_unix_socket_def Let_def split: res.split)
  qed
  then have "\<exists>r. connect_stream X B N l s o1 = Some r" for l s o1
    using start [of s o1] by (auto simp: connect_stream_def split: res.split)
  then show ?thesis by (auto simp: conn_new_def split: option.split res.split)
qed

text \<open>A client that owns a permit and has not failed can always go on.\<close>

lemma holder_steps:
  assumes "holds_permit k" and "\<not> leaked k"
  shows "\<exists>p' k'. client_step E (p, k) (p', k')"
proof (cases k)
  case (Pinging c)
  obtain r where "query_drop (e_ext E) [] c = Some r"
    using conn_query_total by (fastforce simp: query_drop_def)
  then obtain k' where "ping_client (e_ext E) c = Some k'"
    by (cases r) (simp add: ping_client_def conn_ping_def)
  then show ?thesis using Pinging client_step.ping by blast
next
  case Connecting
  obtain r where "conn_new (e_ext E) (e_build E) undefined (p_opts p) = Some r"
    using conn_new_total by blast
  then obtain k' where "connect_client (e_ext E) (e_build E) undefined p = Some k'"
    by (simp add: connect_client_def)
  then show ?thesis using Connecting client_step.connect by blast
next
  case (CheckingIn c)
  obtain r where "query_drop (e_ext E) (ascii ''DISCARD ALL'') c = Some r"
    using conn_query_total by (fastforce simp: query_drop_def)
  then have "check_in (e_ext E) c \<noteq> None" by (simp add: check_in_def)
  then obtain k' where "check_in (e_ext E) c = Some k'" by blast
  then show ?thesis using CheckingIn client_step.check by blast
next
  case Taking
  then show ?thesis using client_step.take by (metis surj_pair)
qed (use assms client_step.drop client_step.push client_step.release in \<open>auto, blast+\<close>)

text \<open>When every permit has leaked, no step of any client gives one back.\<close>

lemma leaked_forever:
  assumes "env_laws E cap items count" and "pool_step E (p, ks) (p', ks')"
    and "pool_inv (e_ext E) cap items count options (p, ks)"
    and "o_pool_max_concurrency options = Some n" and "n < 2 ^ 63" and "many leaked ks = int n"
  shows "many leaked ks' = int n \<and> (\<forall>i < length ks. ks ! i = Waiting \<longrightarrow> i < length ks' \<and> ks' ! i = Waiting)"
  using assms(2)
proof cases
  case come
  with assms(6) show ?thesis by (simp add: nth_append)
next
  case (go i k)
  obtain s where full: "many holds_permit ks \<le> int n" "p_semaphore p = Some s"
      "count s = int n - many holds_permit ks"
    using assms(3-5) by (auto simp: pool_inv_def Let_def)
  have all: "holds_permit (ks ! i) \<Longrightarrow> leaked (ks ! i)"
    using many_le(2) [of leaked holds_permit i ks] go(2) full(1) assms(6) by (auto simp: open_holds)
  have "count s \<le> 0"
    using full many_le(1) [of leaked holds_permit ks] assms(6) by (auto simp: open_holds)
  then have "acquire (e_sem E) p = None"
    using semaphore_facts(4) [of "e_sem E" count s] assms(1) full(2) by (simp add: acquire_def env_laws_def)
  with go(3) all show ?thesis by cases auto
qed

text \<open>
  C30: When a waiting client gets on. As long as some permit has not leaked, it can acquire one now,
  or a client that owns one can take a step. Once every permit has leaked, to a \<open>get\<close> that
  could not connect or to a thread that panicked, it waits forever, whatever the others do.
\<close>

theorem pool_waiting:
  assumes "env_laws E cap items count" and "pool_reachable E options (p, ks)"
    and "o_pool_max_concurrency options = Some n" and "n < 2 ^ 63" and "i < length ks" and "ks ! i = Waiting"
  shows "(many leaked ks < int n \<longrightarrow>
      (\<exists>p'. client_step E (p, ks ! i) (p', Taking)) \<or>
      (\<exists>j < length ks. holds_permit (ks ! j) \<and> (\<exists>p' k. client_step E (p, ks ! j) (p', k)))) \<and>
    (many leaked ks = int n \<longrightarrow>
      (\<forall>p' ks'. (pool_step E)\<^sup>*\<^sup>* (p, ks) (p', ks') \<longrightarrow> i < length ks' \<and> ks' ! i = Waiting))"
proof (intro conjI impI allI)
  have inv: "pool_inv (e_ext E) cap items count options (p, ks)"
    by (rule pool_reachable_inv [OF assms(1,2)])
  then obtain s where sem: "p_semaphore p = Some s" "count s = int n - many holds_permit ks"
    using assms(3,4) by (auto simp: pool_inv_def Let_def)
  show "(\<exists>p'. client_step E (p, ks ! i) (p', Taking)) \<or>
      (\<exists>j < length ks. holds_permit (ks ! j) \<and> (\<exists>p' k. client_step E (p, ks ! j) (p', k)))"
    if few: "many leaked ks < int n"
  proof (cases "many holds_permit ks < int n")
    case True
    with sem semaphore_facts(4) [of "e_sem E" count s] assms(1)
    have "\<exists>p'. acquire (e_sem E) p = Some p'" by (auto simp: acquire_def env_laws_def)
    with assms(6) show ?thesis using client_step.acquire by metis
  next
    case False
    have "\<exists>j < length ks. holds_permit (ks ! j) \<and> \<not> leaked (ks ! j)"
    proof (rule ccontr)
      assume "\<not> ?thesis"
      then have "filter holds_permit ks = filter leaked ks"
        using open_holds(2) by (intro filter_cong refl) (metis in_set_conv_nth)
      with few False show False by (simp add: many_def)
    qed
    then show ?thesis using holder_steps by blast
  qed
  fix p' ks'
  assume full: "many leaked ks = int n" and steps: "(pool_step E)\<^sup>*\<^sup>* (p, ks) (p', ks')"
  have "pool_inv (e_ext E) cap items count options w \<and> many leaked (snd w) = int n \<and>
      i < length (snd w) \<and> snd w ! i = Waiting"
    if "(pool_step E)\<^sup>*\<^sup>* (p, ks) w" for w
    using that
  proof (induction rule: rtranclp_induct)
    case base
    show ?case using inv full assms(5,6) by simp
  next
    case (step v w)
    then show ?case
      using pool_step_inv [OF assms(1) step.hyps(2), of options]
        leaked_forever [OF assms(1), of "fst v" "snd v" "fst w" "snd w" options n] assms(3,4) by auto
  qed
  from this [OF steps] show "i < length ks'" "ks' ! i = Waiting" by simp_all
qed

lemma pool_waiting_witness:
  "\<not> (\<exists>p' ks'. (pool_step env0)\<^sup>*\<^sup>* (pool0 0, leaked0) (p', ks') \<and> ks' ! 1 \<noteq> Waiting)"
  using pool_waiting [OF env0_laws pool0_reachable, of 1 1]
  by (auto simp: pool_opts0_def leaked0_def)

end
