(* ===== verification/TokioConn.thy ===== *)
theory TokioConn
  imports SyncPortal
begin

text \<open>
  \<open>src/tokio/conn.rs\<close> and \<open>src/tokio/stream.rs\<close>: the asynchronous connection, whose futures may
  be dropped (cancelled) at any suspension.

  A future runs with a budget: how much I/O its executor lets it do before dropping it, one unit
  per byte transferred and per flush. A run ends \<open>Returned\<close>, or \<open>Dropped\<close> when the budget is
  spent, with the bytes transferred so far: so every budget is one point of cancellation, and
  all of them are covered. The contents of the read buffer after an interrupted read are left
  as they were set before it. \<open>fut_bind\<close> is \<open>.await?\<close>.
\<close>

section \<open>Futures\<close>

record tconn =
  t_base :: conn
  t_exchange :: bool
  t_scope :: bool

datatype 'a outcome = Returned "'a res" | Dropped

type_synonym ('s, 'a) run = "nat \<times> 's \<Rightarrow> 'a outcome \<times> nat \<times> 's"

type_synonym 'a fut = "(tconn, 'a) run"

fun outcome_map :: "('a \<Rightarrow> 'b) \<Rightarrow> 'a outcome \<Rightarrow> 'b outcome" where
  "outcome_map f (Returned r) = Returned (rmap f r)"
| "outcome_map f Dropped = Dropped"

definition fut_bind :: "('s, 'a) run \<Rightarrow> ('a \<Rightarrow> ('s, 'b) run) \<Rightarrow> ('s, 'b) run" where
  "fut_bind m f s = (case m s of
     (Returned (Ok x), s1) \<Rightarrow> f x s1
   | (Returned (Err e), s1) \<Rightarrow> (Returned (Err e), s1)
   | (Returned Panic, s1) \<Rightarrow> (Returned Panic, s1)
   | (Dropped, s1) \<Rightarrow> (Dropped, s1))"

definition fut_lift :: "('s \<Rightarrow> 'a res \<times> 's) \<Rightarrow> ('s, 'a) run" where
  "fut_lift f = (\<lambda>(n, t). let (r, t1) = f t in (Returned r, n, t1))"

definition t_stream :: "tconn \<Rightarrow> stream" where
  "t_stream t = c_stream (t_base t)"

definition set_stream :: "stream \<Rightarrow> tconn \<Rightarrow> tconn" where
  "set_stream s t = t\<lparr>t_base := (t_base t)\<lparr>c_stream := s\<rparr>\<rparr>"

definition t_bufs :: "tconn \<Rightarrow> buffer_set" where
  "t_bufs t = c_bufs (t_base t)"

definition set_bufs :: "buffer_set \<Rightarrow> tconn \<Rightarrow> tconn" where
  "set_bufs bs t = t\<lparr>t_base := (t_base t)\<lparr>c_bufs := bs\<rparr>\<rparr>"

section \<open>The stream\<close>

definition a_write_all :: "bytes \<Rightarrow> unit fut" where
  "a_write_all data = (\<lambda>(n, t). let s = t_stream t in
     if \<not> writable s then (Returned (Err (Io WriteFailed)), n, t)
     else if length data \<le> n
     then (Returned (Ok ()), n - length data, set_stream (s\<lparr>out := out s @ data\<rparr>) t)
     else (Dropped, 0, set_stream (s\<lparr>out := out s @ take n data\<rparr>) t))"

definition a_flush :: "unit fut" where
  "a_flush = (\<lambda>(n, t).
     if \<not> writable (t_stream t) then (Returned (Err (Io WriteFailed)), n, t)
     else if n = 0 then (Dropped, 0, t) else (Returned (Ok ()), n - 1, t))"

definition a_read_exact :: "nat \<Rightarrow> bytes fut" where
  "a_read_exact k = (\<lambda>(n, t). let s = t_stream t; data = inp s in
     if n < min k (length data) then (Dropped, 0, set_stream (s\<lparr>inp := drop n data\<rparr>) t)
     else if k \<le> length data
     then (Returned (Ok (take k data)), n - k, set_stream (s\<lparr>inp := drop k data\<rparr>) t)
     else (Returned (Err (Io UnexpectedEof)), n - length data, set_stream (s\<lparr>inp := []\<rparr>) t))"

definition a_read_u8 :: "byte fut" where
  "a_read_u8 = fut_bind (a_read_exact 1) (\<lambda>b. fut_lift (\<lambda>t. (Ok (hd b), t)))"

definition a_read_message :: "unit fut" where
  "a_read_message =
     fut_bind a_read_u8 (\<lambda>ty.
     fut_bind (fut_lift (\<lambda>t. (Ok (), set_bufs ((t_bufs t)\<lparr>type_byte := ty\<rparr>) t))) (\<lambda>_.
     fut_bind (a_read_exact 4) (\<lambda>length_bytes.
       let payload_len = unat (from_be_bytes length_bytes :: u32) - 4 in
     fut_bind (fut_lift (\<lambda>t. (Ok (),
       set_bufs ((t_bufs t)\<lparr>read_buffer := replicate payload_len 0\<rparr>) t))) (\<lambda>_.
     fut_bind (a_read_exact payload_len) (\<lambda>payload.
     fut_lift (\<lambda>t. (Ok (), set_bufs ((t_bufs t)\<lparr>read_buffer := payload\<rparr>) t)))))))"

text \<open>\<open>write_all(&write_buffer).await?; flush().await?\<close>\<close>

definition a_write_flush :: "unit fut" where
  "a_write_flush = (\<lambda>(n, t).
     fut_bind (a_write_all (write_buffer (t_bufs t))) (\<lambda>_. a_flush) (n, t))"

section \<open>Exchanges\<close>

text \<open>The public \<open>is_broken()\<close> and the guards of every entry point.\<close>

definition t_is_broken :: "tconn \<Rightarrow> bool" where
  "t_is_broken t \<longleftrightarrow> c_broken (t_base t) \<or> t_exchange t \<or> t_scope t"

definition ensure_usable :: "tconn \<Rightarrow> unit res" where
  "ensure_usable t = (if t_is_broken t then Err ConnectionBroken else Ok ())"

definition ensure_exchange_ready :: "tconn \<Rightarrow> unit res" where
  "ensure_exchange_ready t =
     (if c_broken (t_base t) \<or> t_exchange t then Err ConnectionBroken else Ok ())"

definition begin_exchange :: "tconn \<Rightarrow> unit res \<times> tconn" where
  "begin_exchange t = rtry (ensure_exchange_ready t) t (\<lambda>_. (Ok (), t\<lparr>t_exchange := True\<rparr>))"

definition finish_exchange :: "tconn \<Rightarrow> tconn" where
  "finish_exchange t = t\<lparr>t_exchange := False\<rparr>"

text \<open>\<open>if let Err(e) = &result && e.is_connection_broken() { self.is_broken = true; }\<close>\<close>

definition t_mark :: "'a outcome \<Rightarrow> tconn \<Rightarrow> tconn" where
  "t_mark q t = (case q of Returned r \<Rightarrow> t\<lparr>t_base := mark_broken r (t_base t)\<rparr> | Dropped \<Rightarrow> t)"

definition fut_mark :: "'a fut \<Rightarrow> 'a fut" where
  "fut_mark m s = (let (q, n, t) = m s in (q, n, t_mark q t))"

text \<open>An entry point: \<open>self.ensure_usable()?\<close> first.\<close>

definition usable :: "'a fut \<Rightarrow> 'a fut" where
  "usable m = (\<lambda>(n, t). case ensure_usable t of
     Ok _ \<Rightarrow> m (n, t) | Err e \<Rightarrow> (Returned (Err e), n, t) | Panic \<Rightarrow> (Returned Panic, n, t))"

section \<open>Driving a machine\<close>

definition t_set_tx :: "tx_status \<Rightarrow> tconn \<Rightarrow> tconn" where
  "t_set_tx x t = t\<lparr>t_base := (t_base t)\<lparr>c_tx := x\<rparr>\<rparr>"

text \<open>One round of the loop of \<open>drive\<close>. \<open>Inl\<close> leaves the loop.\<close>

definition a_drive_iter ::
    "('m \<Rightarrow> buffer_set \<Rightarrow> action res \<times> 'm \<times> buffer_set) \<Rightarrow> ('m \<Rightarrow> tx_status) \<Rightarrow> 'm \<Rightarrow>
       nat \<times> tconn \<Rightarrow> (unit outcome \<times> 'm \<times> nat \<times> tconn) + ('m \<times> nat \<times> tconn)" where
  "a_drive_iter step tx m = (\<lambda>(n, t).
     let (r, m1, bs) = step m (t_bufs t); t1 = set_bufs bs t;
         go_on = (\<lambda>(q, s). case q of Returned (Ok _) \<Rightarrow> Inr (m1, s) | _ \<Rightarrow> Inl (q, m1, s))
     in case r of
          Err e \<Rightarrow> Inl (Returned (Err e), m1, n, t1)
        | Panic \<Rightarrow> Inl (Returned Panic, m1, n, t1)
        | Ok WriteAndReadByte \<Rightarrow> Inl (Returned (Err (LibraryBug
            ''Unexpected WriteAndReadByte in query state machine'')), m1, n, t1)
        | Ok ReadMessage \<Rightarrow> go_on (a_read_message (n, t1))
        | Ok Write \<Rightarrow> go_on (a_write_flush (n, t1))
        | Ok WriteAndReadMessage \<Rightarrow> go_on (fut_bind a_write_flush (\<lambda>_. a_read_message) (n, t1))
        | Ok TlsHandshake \<Rightarrow> Inl (Returned (Err (LibraryBug
            ''Unexpected TlsHandshake in query state machine'')), m1, n, t1)
        | Ok (HandleAsyncMessageAndReadMessage am) \<Rightarrow>
            go_on (a_read_message (n, t1\<lparr>t_base := conn_handle_async am (t_base t1)\<rparr>))
        | Ok (ActionError server_error) \<Rightarrow>
            Inl (Returned (Err (Server server_error)), m1, n, finish_exchange (t_set_tx (tx m1) t1))
        | Ok Finished \<Rightarrow> Inl (Returned (Ok ()), m1, n, t_set_tx (tx m1) (finish_exchange t1)))"

text \<open>A round that goes on has transferred something, so a budget bounds the loop.\<close>

lemma fut_bind_Ok:
  "fut_bind m f s = (Returned (Ok y), s') \<longleftrightarrow>
     (\<exists>x s1. m s = (Returned (Ok x), s1) \<and> f x s1 = (Returned (Ok y), s'))"
  by (auto simp: fut_bind_def split: prod.splits outcome.splits res.splits)

lemma a_read_exact_Ok:
  "a_read_exact k (n, t) = (Returned (Ok b), n', t') \<Longrightarrow> k \<le> n \<and> n' = n - k"
  by (auto simp: a_read_exact_def Let_def split: if_splits)

lemma a_read_message_less: "a_read_message (n, t) = (Returned (Ok u), n', t') \<Longrightarrow> n' < n"
  by (auto simp: a_read_message_def a_read_u8_def fut_bind_Ok fut_lift_def Let_def
      dest!: a_read_exact_Ok)

lemma a_write_flush_less: "a_write_flush (n, t) = (Returned (Ok u), n', t') \<Longrightarrow> n' < n"
  by (auto simp: a_write_flush_def a_write_all_def a_flush_def fut_bind_Ok Let_def
      split: if_splits)

lemma a_drive_iter_less:
  assumes "a_drive_iter step tx m (n, t) = Inr (m', n', t')"
  shows "n' < n"
proof -
  obtain r m1 bs where s: "step m (t_bufs t) = (r, m1, bs)" by (metis prod_cases3)
  with assms obtain a where r: "r = Ok a" by (cases r) (auto simp: a_drive_iter_def Let_def)
  show ?thesis
    using assms s r
    by (cases a)
      (auto simp: a_drive_iter_def Let_def fut_bind_Ok split: outcome.splits res.splits prod.splits
        dest!: a_read_message_less a_write_flush_less)
qed

function a_drive_loop ::
    "('m \<Rightarrow> buffer_set \<Rightarrow> action res \<times> 'm \<times> buffer_set) \<Rightarrow> ('m \<Rightarrow> tx_status) \<Rightarrow> 'm \<Rightarrow>
       nat \<times> tconn \<Rightarrow> unit outcome \<times> 'm \<times> nat \<times> tconn" where
  "a_drive_loop step tx m s = (case a_drive_iter step tx m s of
     Inl r \<Rightarrow> r | Inr (m', s') \<Rightarrow> a_drive_loop step tx m' s')"
  by pat_completeness auto
termination
  by (relation "measure (\<lambda>(step, tx, m, s). fst s)") (auto intro: a_drive_iter_less)

declare a_drive_loop.simps [simp del]

definition a_drive ::
    "('m \<Rightarrow> buffer_set \<Rightarrow> action res \<times> 'm \<times> buffer_set) \<Rightarrow> ('m \<Rightarrow> tx_status) \<Rightarrow> 'm \<Rightarrow>
       nat \<times> tconn \<Rightarrow> unit outcome \<times> 'm \<times> nat \<times> tconn" where
  "a_drive step tx m = (\<lambda>(n, t). case begin_exchange t of
     (Ok _, t1) \<Rightarrow> a_drive_loop step tx m (n, t1)
   | (Err e, t1) \<Rightarrow> (Returned (Err e), m, n, t1)
   | (Panic, t1) \<Rightarrow> (Returned Panic, m, n, t1))"

section \<open>Simple queries\<close>

text \<open>Entry points with a handler return it as well.\<close>

definition t_query ::
    "ext \<Rightarrow> 'h handler \<Rightarrow> 'h \<Rightarrow> str \<Rightarrow> nat \<times> tconn \<Rightarrow> unit outcome \<times> 'h \<times> nat \<times> tconn" where
  "t_query X H h sql = (\<lambda>(n, t). case ensure_usable t of
     Ok _ \<Rightarrow> (let (q, sm, n1, t1) = a_drive (sq_step X H) sq_tx (sq_new h sql) (n, t)
              in (q, sq_handler sm, n1, t_mark q t1))
   | Err e \<Rightarrow> (Returned (Err e), h, n, t)
   | Panic \<Rightarrow> (Returned Panic, h, n, t))"

definition with_rows :: "unit outcome \<times> 'h \<times> nat \<times> tconn \<Rightarrow> 'h outcome \<times> nat \<times> tconn" where
  "with_rows = (\<lambda>(q, h, s). (outcome_map (\<lambda>_. h) q, s))"

definition t_query_drop :: "ext \<Rightarrow> str \<Rightarrow> nat option fut" where
  "t_query_drop X sql s = with_rows (t_query X drop_handler None sql s)"

definition t_query_collect ::
    "ext \<Rightarrow> (row_description \<Rightarrow> data_row \<Rightarrow> 'a res) \<Rightarrow> str \<Rightarrow> 'a list fut" where
  "t_query_collect X from_row sql s = with_rows (t_query X (collect_handler from_row) [] sql s)"

definition t_query_first ::
    "ext \<Rightarrow> (row_description \<Rightarrow> data_row \<Rightarrow> 'a res) \<Rightarrow> str \<Rightarrow> 'a option fut" where
  "t_query_first X from_row sql s = with_rows (t_query X (first_row_handler from_row) None sql s)"

definition t_query_foreach ::
    "ext \<Rightarrow> (row_description \<Rightarrow> data_row \<Rightarrow> 'a res) \<Rightarrow> ('s \<Rightarrow> 'a \<Rightarrow> unit res \<times> 's) \<Rightarrow> 's \<Rightarrow> str \<Rightarrow>
       nat \<times> tconn \<Rightarrow> unit outcome \<times> 's \<times> nat \<times> tconn" where
  "t_query_foreach X from_row f st sql s = t_query X (for_each_handler from_row f) st sql s"

definition t_ping :: "ext \<Rightarrow> unit fut" where
  "t_ping X = fut_bind (t_query_drop X []) (\<lambda>_. fut_lift (\<lambda>t. (Ok (), t)))"

text \<open>\<open>close(mut self)\<close>\<close>

definition t_close :: "unit fut" where
  "t_close = usable (\<lambda>(n, t).
     a_write_flush (n, set_bufs ((t_bufs t)\<lparr>write_buffer := write_terminate []\<rparr>) t))"

section \<open>Prepared statements and execution\<close>

definition t_prepare_inner :: "ext \<Rightarrow> u64 \<Rightarrow> str \<Rightarrow> oid list \<Rightarrow> prepared_statement fut" where
  "t_prepare_inner X idx query param_oids = (\<lambda>(n, t).
     let (sm, bs) = eq_prepare None (t_bufs t) idx query param_oids;
         (q, sm1, n1, t1) = a_drive (eq_step X drop_handler) eq_tx sm (n, set_bufs bs t)
     in (case q of
           Returned r \<Rightarrow> Returned (rbind r (\<lambda>_.
             ok_or (eq_prepared sm1) (LibraryBug ''No prepared statement'')))
         | Dropped \<Rightarrow> Dropped, n1, t1))"

definition t_prepare_typed :: "ext \<Rightarrow> str \<Rightarrow> oid list \<Rightarrow> prepared_statement fut" where
  "t_prepare_typed X query param_oids = usable (\<lambda>(n, t).
     let idx = c_counter (t_base t) + 1 in
     fut_mark (t_prepare_inner X idx query param_oids)
       (n, t\<lparr>t_base := (t_base t)\<lparr>c_counter := idx\<rparr>\<rparr>))"

definition t_prepare :: "ext \<Rightarrow> str \<Rightarrow> prepared_statement fut" where
  "t_prepare X query = t_prepare_typed X query []"

definition t_close_statement :: "ext \<Rightarrow> prepared_statement \<Rightarrow> unit fut" where
  "t_close_statement X stmt = usable (fut_mark (\<lambda>(n, t).
     let (sm, bs) = eq_close_statement None (t_bufs t) (wire_name stmt);
         (q, sm1, s) = a_drive (eq_step X drop_handler) eq_tx sm (n, set_bufs bs t)
     in (q, s)))"

definition t_exec ::
    "ext \<Rightarrow> 'h handler \<Rightarrow> 'h \<Rightarrow> statement_ref \<Rightarrow> to_params \<Rightarrow>
       nat \<times> tconn \<Rightarrow> unit outcome \<times> 'h \<times> nat \<times> tconn" where
  "t_exec X H h statement params = (\<lambda>(n, t). case ensure_usable t of
     Err e \<Rightarrow> (Returned (Err e), h, n, t)
   | Panic \<Rightarrow> (Returned Panic, h, n, t)
   | Ok _ \<Rightarrow>
      (let (r, bs) = exec_start h (t_bufs t) statement params; t1 = set_bufs bs t in
       case r of
         Ok sm \<Rightarrow>
           (let (q, sm1, n2, t2) = a_drive (eq_step X H) eq_tx sm (n, t1)
            in (q, eq_handler sm1, n2, t_mark q t2))
       | Err e \<Rightarrow> (Returned (Err e), h, n, t_mark (Returned (Err e) :: unit outcome) t1)
       | Panic \<Rightarrow> (Returned Panic, h, n, t1)))"

definition t_exec_drop :: "ext \<Rightarrow> statement_ref \<Rightarrow> to_params \<Rightarrow> nat option fut" where
  "t_exec_drop X statement params s = with_rows (t_exec X drop_handler None statement params s)"

definition t_exec_collect ::
    "ext \<Rightarrow> (row_description \<Rightarrow> data_row \<Rightarrow> 'a res) \<Rightarrow> statement_ref \<Rightarrow> to_params \<Rightarrow> 'a list fut" where
  "t_exec_collect X from_row statement params s =
     with_rows (t_exec X (collect_handler from_row) [] statement params s)"

definition t_exec_first ::
    "ext \<Rightarrow> (row_description \<Rightarrow> data_row \<Rightarrow> 'a res) \<Rightarrow> statement_ref \<Rightarrow> to_params \<Rightarrow> 'a option fut" where
  "t_exec_first X from_row statement params s =
     with_rows (t_exec X (first_row_handler from_row) None statement params s)"

definition t_exec_foreach ::
    "ext \<Rightarrow> (row_description \<Rightarrow> data_row \<Rightarrow> 'a res) \<Rightarrow> ('s \<Rightarrow> 'a \<Rightarrow> unit res \<times> 's) \<Rightarrow> 's \<Rightarrow>
       statement_ref \<Rightarrow> to_params \<Rightarrow> nat \<times> tconn \<Rightarrow> unit outcome \<times> 's \<times> nat \<times> tconn" where
  "t_exec_foreach X from_row f st statement params s =
     t_exec X (for_each_handler from_row f) st statement params s"

section \<open>Low-level messages\<close>

text \<open>Fill the write buffer, begin an exchange and send it.\<close>

definition a_send :: "bytes \<Rightarrow> unit fut" where
  "a_send w = (\<lambda>(n, t).
     fut_bind (fut_lift begin_exchange) (\<lambda>_. a_write_flush)
       (n, set_bufs ((t_bufs t)\<lparr>write_buffer := w\<rparr>) t))"

definition t_lowlevel_flush :: "unit fut" where
  "t_lowlevel_flush = usable (fut_bind (a_send (write_flush [])) (\<lambda>_.
     fut_lift (\<lambda>t. (Ok (), finish_exchange t))))"

text \<open>The head of each loop: read a message, \<open>continue\<close> when it is asynchronous.\<close>

function a_next_message :: "unit fut" where
  "a_next_message s = (case a_read_message s of
     (Returned (Ok _), s1) \<Rightarrow>
       if is_async_type (type_byte (t_bufs (snd s1))) then a_next_message s1 else (Returned (Ok ()), s1)
   | (q, s1) \<Rightarrow> (q, s1))"
  by pat_completeness auto
termination
  by (relation "measure fst") (auto dest!: a_read_message_less [OF sym])

declare a_next_message.simps [simp del]

definition a_await_complete :: "ext \<Rightarrow> byte \<Rightarrow> string \<Rightarrow> unit fut" where
  "a_await_complete X ty msg = fut_bind a_next_message (\<lambda>_. fut_lift (\<lambda>t.
     if type_byte (t_bufs t) = ty then (Ok (), finish_exchange t)
     else if type_byte (t_bufs t) = ERROR_RESPONSE then (server_err X (read_buffer (t_bufs t)), t)
     else (Err (LibraryBug msg), t)))"

definition t_lowlevel_bind :: "ext \<Rightarrow> str \<Rightarrow> str \<Rightarrow> to_params \<Rightarrow> unit fut" where
  "t_lowlevel_bind X portal statement_name params = usable (fut_mark (\<lambda>(n, t).
     let (r, w) = write_bind [] portal statement_name params (natural_oids params) in
     case r of
       Ok _ \<Rightarrow> fut_bind (a_send (write_flush w)) (\<lambda>_. a_await_complete X BIND_COMPLETE
         ''Expected BindComplete or ErrorResponse, got {}'') (n, t)
     | Err e \<Rightarrow> (Returned (Err e), n, set_bufs ((t_bufs t)\<lparr>write_buffer := w\<rparr>) t)
     | Panic \<Rightarrow> (Returned Panic, n, set_bufs ((t_bufs t)\<lparr>write_buffer := w\<rparr>) t)))"

definition t_lowlevel_close_portal :: "ext \<Rightarrow> str \<Rightarrow> unit fut" where
  "t_lowlevel_close_portal X portal = usable (fut_mark (
     fut_bind (a_send (write_flush (write_close_portal [] portal))) (\<lambda>_.
       a_await_complete X CLOSE_COMPLETE ''Expected CloseComplete or ErrorResponse, got {}'')))"

lemma a_next_message_less: "a_next_message s = (Returned (Ok u), s') \<Longrightarrow> fst s' < fst s"
proof (induction s rule: a_next_message.induct)
  case (1 s)
  obtain q s1 where rd: "a_read_message s = (q, s1)" by (cases "a_read_message s")
  show ?case
  proof (cases "q = Returned (Ok ())")
    case True
    with rd have "fst s1 < fst s" by (cases s; cases s1) (auto dest: a_read_message_less)
    with rd 1 True show ?thesis
      by (fastforce simp: a_next_message.simps [of s] split: if_splits)
  qed (use rd 1(2) in \<open>auto simp: a_next_message.simps [of s] split: outcome.splits res.splits\<close>)
qed

text \<open>The loop of \<open>lowlevel_execute_inner\<close>, with the local column buffer.\<close>

function a_execute_loop ::
    "ext \<Rightarrow> 'h handler \<Rightarrow> 'h \<Rightarrow> bytes \<Rightarrow> nat \<times> tconn \<Rightarrow> bool outcome \<times> 'h \<times> nat \<times> tconn" where
  "a_execute_loop X H h cbuf s = (case a_next_message s of
     (Returned (Err e), s1) \<Rightarrow> (Returned (Err e), h, s1)
   | (Returned Panic, s1) \<Rightarrow> (Returned Panic, h, s1)
   | (Dropped, s1) \<Rightarrow> (Dropped, h, s1)
   | (Returned (Ok _), s1) \<Rightarrow>
      (let (n1, t1) = s1; ty = type_byte (t_bufs t1); payload = read_buffer (t_bufs t1) in
       if ty = ROW_DESCRIPTION then
         (case row_description_parse X payload of
            Err e \<Rightarrow> (Returned (Err e), h, s1)
          | Panic \<Rightarrow> (Returned Panic, h, s1)
          | Ok cols \<Rightarrow> (case h_result_start H h cols of
               (Ok _, h1) \<Rightarrow> a_execute_loop X H h1 payload s1
             | (Err e, h1) \<Rightarrow> (Returned (Err e), h1, s1)
             | (Panic, h1) \<Rightarrow> (Returned Panic, h1, s1)))
       else if ty = NO_DATA then a_execute_loop X H h cbuf s1
       else if ty = DATA_ROW then
         (case rbind (row_description_parse X cbuf) (\<lambda>cols.
                 rmap (\<lambda>row. (cols, row)) (data_row_parse payload)) of
            Err e \<Rightarrow> (Returned (Err e), h, s1)
          | Panic \<Rightarrow> (Returned Panic, h, s1)
          | Ok (cols, row) \<Rightarrow> (case h_row H h cols row of
               (Ok _, h1) \<Rightarrow> a_execute_loop X H h1 cbuf s1
             | (Err e, h1) \<Rightarrow> (Returned (Err e), h1, s1)
             | (Panic, h1) \<Rightarrow> (Returned Panic, h1, s1)))
       else if ty = COMMAND_COMPLETE then
         (case command_complete_parse X payload of
            Err e \<Rightarrow> (Returned (Err e), h, s1)
          | Panic \<Rightarrow> (Returned Panic, h, s1)
          | Ok complete \<Rightarrow> (case h_result_end H h complete of
               (Ok _, h1) \<Rightarrow> (Returned (Ok False), h1, n1, finish_exchange t1)
             | (Err e, h1) \<Rightarrow> (Returned (Err e), h1, s1)
             | (Panic, h1) \<Rightarrow> (Returned Panic, h1, s1)))
       else if ty = PORTAL_SUSPENDED then (Returned (Ok True), h, n1, finish_exchange t1)
       else if ty = ERROR_RESPONSE then (Returned (server_err X payload), h, s1)
       else (Returned (Err (LibraryBug ''Unexpected message in execute: {}'')), h, s1)))"
  by pat_completeness auto
termination
  by (relation "measure (\<lambda>(X, H, h, b, s). fst s)") (auto dest!: a_next_message_less [OF sym])

declare a_execute_loop.simps [simp del]

definition t_execute_inner ::
    "ext \<Rightarrow> 'h handler \<Rightarrow> 'h \<Rightarrow> str \<Rightarrow> u32 \<Rightarrow> nat \<times> tconn \<Rightarrow> bool outcome \<times> 'h \<times> nat \<times> tconn" where
  "t_execute_inner X H h portal max_rows s =
     (let w = write_flush (write_execute (write_describe_portal [] portal) portal max_rows) in
      case a_send w s of
        (Returned (Ok _), s1) \<Rightarrow> a_execute_loop X H h [] s1
      | (q, s1) \<Rightarrow> (outcome_map (\<lambda>_. False) q, h, s1))"

definition t_lowlevel_execute ::
    "ext \<Rightarrow> 'h handler \<Rightarrow> 'h \<Rightarrow> str \<Rightarrow> u32 \<Rightarrow> nat \<times> tconn \<Rightarrow> bool outcome \<times> 'h \<times> nat \<times> tconn" where
  "t_lowlevel_execute X H h portal max_rows = (\<lambda>(n, t). case ensure_usable t of
     Ok _ \<Rightarrow> (let (q, h1, n1, t1) = t_execute_inner X H h portal max_rows (n, t)
              in (q, h1, n1, t_mark q t1))
   | Err e \<Rightarrow> (Returned (Err e), h, n, t)
   | Panic \<Rightarrow> (Returned Panic, h, n, t))"

text \<open>The loop of \<open>lowlevel_sync_inner\<close>: an error that breaks the connection ends it at once.\<close>

function a_sync_loop :: "ext \<Rightarrow> server_error option \<Rightarrow> unit fut" where
  "a_sync_loop X pending_error s = (case a_next_message s of
     (Returned (Ok _), s1) \<Rightarrow>
      (let (n1, t1) = s1; ty = type_byte (t_bufs t1); payload = read_buffer (t_bufs t1) in
       if ty = READY_FOR_QUERY then
         (case ready_for_query_parse payload of
            Err e \<Rightarrow> (Returned (Err e), s1)
          | Panic \<Rightarrow> (Returned Panic, s1)
          | Ok st \<Rightarrow> (Returned (case pending_error of Some e \<Rightarrow> Err (Server e) | None \<Rightarrow> Ok ()),
                       n1, finish_exchange (t_set_tx (tx_or_default st) t1)))
       else if ty = ERROR_RESPONSE then
         (case error_response_parse X payload of
            Err e \<Rightarrow> (Returned (Err e), s1)
          | Panic \<Rightarrow> (Returned Panic, s1)
          | Ok e \<Rightarrow>
              if is_connection_broken (Server e)
              then (Returned (Err (Server e)), n1, t1\<lparr>t_base := (t_base t1)\<lparr>c_broken := True\<rparr>\<rparr>)
              else a_sync_loop X (Some e) s1)
       else a_sync_loop X pending_error s1)
   | (q, s1) \<Rightarrow> (q, s1))"
  by pat_completeness auto
termination
  by (relation "measure (\<lambda>(X, p, s). fst s)") (auto dest!: a_next_message_less [OF sym])

declare a_sync_loop.simps [simp del]

definition t_sync_inner :: "ext \<Rightarrow> unit fut" where
  "t_sync_inner X = fut_bind (a_send (write_sync [])) (\<lambda>_. a_sync_loop X None)"

definition t_lowlevel_sync :: "ext \<Rightarrow> unit fut" where
  "t_lowlevel_sync X = usable (fut_mark (t_sync_inner X))"

section \<open>Portals\<close>

definition a_bind_iter ::
    "ext \<Rightarrow> bind_machine \<Rightarrow> nat \<times> tconn \<Rightarrow> (unit outcome \<times> nat \<times> tconn) + (bind_machine \<times> nat \<times> tconn)" where
  "a_bind_iter X m = (\<lambda>(n, t).
     let (r, m1, bs) = bind_step X m (t_bufs t); t1 = set_bufs bs t;
         go_on = (\<lambda>(q, s). case q of Returned (Ok _) \<Rightarrow> Inr (m1, s) | _ \<Rightarrow> Inl (q, s))
     in case r of
          Err e \<Rightarrow> Inl (Returned (Err e), n, t1)
        | Panic \<Rightarrow> Inl (Returned Panic, n, t1)
        | Ok ReadMessage \<Rightarrow> go_on (a_read_message (n, t1))
        | Ok Write \<Rightarrow> go_on (a_write_flush (n, t1))
        | Ok WriteAndReadMessage \<Rightarrow> go_on (fut_bind a_write_flush (\<lambda>_. a_read_message) (n, t1))
        | Ok Finished \<Rightarrow> Inl (Returned (Ok ()), n, finish_exchange t1)
        | Ok _ \<Rightarrow> Inl (Returned (Err (LibraryBug ''Unexpected action in bind'')), n, t1))"

lemma a_bind_iter_less:
  assumes "a_bind_iter X m (n, t) = Inr (m', n', t')"
  shows "n' < n"
proof -
  obtain r m1 bs where s: "bind_step X m (t_bufs t) = (r, m1, bs)" by (metis prod_cases3)
  with assms obtain a where r: "r = Ok a" by (cases r) (auto simp: a_bind_iter_def Let_def)
  show ?thesis
    using assms s r
    by (cases a)
      (auto simp: a_bind_iter_def Let_def fut_bind_Ok split: outcome.splits res.splits prod.splits
        dest!: a_read_message_less a_write_flush_less)
qed

function a_bind_loop :: "ext \<Rightarrow> bind_machine \<Rightarrow> unit fut" where
  "a_bind_loop X m s = (case a_bind_iter X m s of
     Inl r \<Rightarrow> r | Inr (m', s') \<Rightarrow> a_bind_loop X m' s')"
  by pat_completeness auto
termination
  by (relation "measure (\<lambda>(X, m, s). fst s)") (auto intro: a_bind_iter_less)

declare a_bind_loop.simps [simp del]

text \<open>The machine of \<open>create_named_portal\<close> and \<open>exec_portal\<close>.\<close>

definition bind_start ::
    "str \<Rightarrow> statement_ref \<Rightarrow> to_params \<Rightarrow> buffer_set \<Rightarrow> bind_machine res \<times> buffer_set" where
  "bind_start portal statement params bs = (case statement of
     Sql sql \<Rightarrow> bind_sql bs portal sql params
   | Prepared stmt \<Rightarrow> bind_prepared bs portal (wire_name stmt) (ps_param_oids stmt) params)"

definition t_create_portal :: "ext \<Rightarrow> str \<Rightarrow> statement_ref \<Rightarrow> to_params \<Rightarrow> unit fut" where
  "t_create_portal X portal statement params = usable (\<lambda>(n, t).
     let (r, bs) = bind_start portal statement params (t_bufs t); t1 = set_bufs bs t in
     case r of
       Ok sm \<Rightarrow> fut_bind (fut_lift begin_exchange) (\<lambda>_. a_bind_loop X sm) (n, t1)
     | Err e \<Rightarrow> (Returned (Err e), n, t1)
     | Panic \<Rightarrow> (Returned Panic, n, t1))"

text \<open>The second half of \<open>exec_portal_inner\<close>, after the closure has ended with \<open>result\<close>.\<close>

definition t_portal_end :: "ext \<Rightarrow> 'a res \<Rightarrow> 'a fut" where
  "t_portal_end X result s =
     (let (sync_result, n, t) = t_sync_inner X s in
      case sync_result of
        Dropped \<Rightarrow> (Dropped, n, t)
      | Returned Panic \<Rightarrow> (Returned Panic, n, t)
      | Returned sr \<Rightarrow>
         (let t1 = (if ensure_exchange_ready t = Ok () then t\<lparr>t_scope := False\<rparr> else t) in
          (Returned (case (result, sr) of
             (Ok v, Ok _) \<Rightarrow> Ok v | (Err e, _) \<Rightarrow> Err e | (Ok _, Err e) \<Rightarrow> Err e
           | _ \<Rightarrow> Panic), n, t1)))"

definition t_exec_portal_inner ::
    "ext \<Rightarrow> statement_ref \<Rightarrow> to_params \<Rightarrow> 'a fut \<Rightarrow> 'a fut" where
  "t_exec_portal_inner X statement params f = (\<lambda>(n, t).
     let (r, bs) = bind_start [] statement params (t_bufs t); t1 = set_bufs bs t in
     case r of
       Err e \<Rightarrow> (Returned (Err e), n, t1)
     | Panic \<Rightarrow> (Returned Panic, n, t1)
     | Ok sm \<Rightarrow>
        fut_bind (fut_lift begin_exchange) (\<lambda>_. fut_bind (a_bind_loop X sm) (\<lambda>_ s.
          case f s of
            (Dropped, s1) \<Rightarrow> (Dropped, s1)
          | (Returned Panic, s1) \<Rightarrow> (Returned Panic, s1)
          | (Returned result, s1) \<Rightarrow> t_portal_end X result s1))
        (n, t1\<lparr>t_scope := True\<rparr>))"

definition t_exec_portal ::
    "ext \<Rightarrow> statement_ref \<Rightarrow> to_params \<Rightarrow> 'a fut \<Rightarrow> 'a fut" where
  "t_exec_portal X statement params f = usable (fut_mark (t_exec_portal_inner X statement params f))"

section \<open>Transactions\<close>

definition t_transaction :: "ext \<Rightarrow> (u32 \<Rightarrow> 'a fut) \<Rightarrow> 'a fut" where
  "t_transaction X f = (\<lambda>(n, t).
     if conn_in_transaction (t_base t)
     then (Returned (Err (InvalidUsage ''nested transactions are not supported'')), n, t)
     else fut_bind (t_query_drop X (ascii ''BEGIN'')) (\<lambda>_ (n1, t1).
       case f (conn_id (t_base t1)) (n1, t1) of
         (Dropped, s2) \<Rightarrow> (Dropped, s2)
       | (Returned Panic, s2) \<Rightarrow> (Returned Panic, s2)
       | (Returned result, s2) \<Rightarrow>
           (if conn_in_transaction (t_base (snd s2)) then
              (case result of
                 Ok _ \<Rightarrow> fut_bind (t_query_drop X (ascii ''COMMIT'')) (\<lambda>_ s3. (Returned result, s3)) s2
               | _ \<Rightarrow> (case t_query_drop X (ascii ''ROLLBACK'') s2 of
                    (Dropped, s3) \<Rightarrow> (Dropped, s3)
                  | (Returned Panic, s3) \<Rightarrow> (Returned Panic, s3)
                  | (_, s3) \<Rightarrow> (Returned result, s3)))
            else (Returned result, s2))) (n, t))"

section \<open>The handler of asynchronous messages\<close>

definition t_set_async_message_handler :: "tconn \<Rightarrow> tconn" where
  "t_set_async_message_handler t = t\<lparr>t_base := set_async_message_handler (t_base t)\<rparr>"

definition t_clear_async_message_handler :: "tconn \<Rightarrow> tconn" where
  "t_clear_async_message_handler t = t\<lparr>t_base := clear_async_message_handler (t_base t)\<rparr>"

end
