(* ===== verification/TokioConnect.thy ===== *)
theory TokioConnect
  imports TokioConn Connecting
begin

text \<open>
  Connecting in \<open>src/tokio/conn.rs\<close>: \<open>Conn::new\<close>, \<open>new_with_stream\<close> and the upgrade to a Unix
  socket, as futures. The stream and the buffers of a connection that is not finished are those
  of a blank \<open>tconn\<close>. A future that is dropped drops the unfinished connection. Connecting a socket
  and the TLS handshake, which are the runtime's, take one unit of the budget. In the record
  \<open>build\<close>, \<open>b_sync_tls\<close> is here the feature \<open>tokio-tls\<close>.
\<close>

definition blank_tconn :: "stream \<Rightarrow> tconn" where
  "blank_tconn s =
     \<lparr>t_base = \<lparr>c_stream = s, c_bufs = buffer_set_new, c_key = None, c_params = [], c_tx = Idle,
        c_broken = False, c_counter = 0, c_async = None\<rparr>, t_exchange = False, t_scope = False\<rparr>"

text \<open>One suspension of the runtime: it goes on when the budget is not spent.\<close>

definition runtime :: "'a res \<Rightarrow> nat \<Rightarrow> 'a outcome \<times> nat" where
  "runtime r n = (if n = 0 then (Dropped, 0) else (Returned r, n - 1))"

section \<open>The startup loop\<close>

definition a_startup_iter ::
    "ext \<Rightarrow> build \<Rightarrow> connection_machine \<Rightarrow> nat \<times> tconn \<Rightarrow>
       (unit outcome \<times> connection_machine \<times> nat \<times> tconn) + (connection_machine \<times> nat \<times> tconn)" where
  "a_startup_iter X B cm = (\<lambda>(n, t).
     let (r, cm1, bs) = cm_step X (b_tls B) (b_nonce B) cm (t_bufs t); t1 = set_bufs bs t;
         go_on = (\<lambda>(q, s). case q of Returned (Ok _) \<Rightarrow> Inr (cm1, s) | _ \<Rightarrow> Inl (q, cm1, s))
     in case r of
          Err e \<Rightarrow> Inl (Returned (Err e), cm1, n, t1)
        | Panic \<Rightarrow> Inl (Returned Panic, cm1, n, t1)
        | Ok WriteAndReadByte \<Rightarrow>
            (case fut_bind a_write_flush (\<lambda>_. a_read_u8) (n, t1) of
               (Returned (Ok byte), s) \<Rightarrow> Inr (set_ssl_response byte cm1, s)
             | (q, s) \<Rightarrow> Inl (outcome_map (\<lambda>_. ()) q, cm1, s))
        | Ok ReadMessage \<Rightarrow> go_on (a_read_message (n, t1))
        | Ok Write \<Rightarrow> go_on (a_write_flush (n, t1))
        | Ok WriteAndReadMessage \<Rightarrow> go_on (fut_bind a_write_flush (\<lambda>_. a_read_message) (n, t1))
        | Ok TlsHandshake \<Rightarrow>
            (if b_sync_tls B
             then (case runtime (b_upgrade B (t_stream t1)) n of
                 (Returned (Ok s), n1) \<Rightarrow> Inr (cm1, n1, set_stream s t1)
               | (q, n1) \<Rightarrow> Inl (outcome_map (\<lambda>_. ()) q, cm1, n1, t1))
             else Inl (Returned (Err (Unsupported ''TLS requested but tokio-tls feature not enabled'')),
                       cm1, n, t1))
        | Ok (HandleAsyncMessageAndReadMessage _) \<Rightarrow> go_on (a_read_message (n, t1))
        | Ok (ActionError _) \<Rightarrow>
            Inl (Returned (Err (LibraryBug ''unexpected server error during connection startup'')),
                 cm1, n, t1)
        | Ok Finished \<Rightarrow> Inl (Returned (Ok ()), cm1, n, t1))"

lemma a_startup_iter_less:
  assumes "a_startup_iter X B cm (n, t) = Inr (cm', n', t')"
  shows "n' < n"
proof -
  obtain r cm1 bs where s: "cm_step X (b_tls B) (b_nonce B) cm (t_bufs t) = (r, cm1, bs)"
    by (metis prod_cases3)
  with assms obtain a where r: "r = Ok a" by (cases r) (auto simp: a_startup_iter_def Let_def)
  show ?thesis
    using assms s r
    by (cases a)
      (auto simp: a_startup_iter_def Let_def fut_bind_Ok runtime_def a_read_u8_def fut_lift_def
        split: outcome.splits res.splits prod.splits if_splits
        dest!: a_read_message_less a_write_flush_less a_read_exact_Ok)
qed

function a_startup_loop ::
    "ext \<Rightarrow> build \<Rightarrow> connection_machine \<Rightarrow> nat \<times> tconn \<Rightarrow>
       unit outcome \<times> connection_machine \<times> nat \<times> tconn" where
  "a_startup_loop X B cm s = (case a_startup_iter X B cm s of
     Inl r \<Rightarrow> r | Inr (cm', s') \<Rightarrow> a_startup_loop X B cm' s')"
  by pat_completeness auto
termination
  by (relation "measure (\<lambda>(X, B, cm, s). fst s)") (auto intro: a_startup_iter_less)

declare a_startup_loop.simps [simp del]

text \<open>\<open>new_with_stream\<close> up to the upgrade.\<close>

definition a_start_session :: "ext \<Rightarrow> build \<Rightarrow> stream \<Rightarrow> opts \<Rightarrow> nat \<Rightarrow> tconn outcome \<times> nat" where
  "a_start_session X B s options n =
     (case a_startup_loop X B (connection_new options) (n, blank_tconn s) of
        (q, cm, n1, t) \<Rightarrow>
          (outcome_map (\<lambda>_. \<lparr>t_base = (t_base t)\<lparr>c_key := cm_backend_key cm,
               c_params := cm_server_params cm, c_tx := cm_tx cm, c_broken := False,
               c_counter := 0, c_async := None\<rparr>, t_exchange = False, t_scope = False\<rparr>) q, n1))"

section \<open>The upgrade to a Unix socket\<close>

definition a_try_upgrade :: "ext \<Rightarrow> build \<Rightarrow> net \<Rightarrow> opts \<Rightarrow> tconn \<Rightarrow> nat \<Rightarrow> tconn outcome \<times> nat" where
  "a_try_upgrade X B N options t n =
     (case t_query X (first_row_handler (string_row X)) None
         (ascii ''SHOW unix_socket_directories'') (n, t) of
        (Dropped, h, n1, t1) \<Rightarrow> (Dropped, n1)
      | (Returned Panic, h, n1, t1) \<Rightarrow> (Returned Panic, n1)
      | (Returned (Err e), h, n1, t1) \<Rightarrow> (Returned (Ok t1), n1)
      | (Returned (Ok _), None, n1, t1) \<Rightarrow> (Returned (Ok t1), n1)
      | (Returned (Ok _), Some dirs, n1, t1) \<Rightarrow>
          (let d = trim (hd (split_on 44 dirs)) in
           if d = [] then (Returned (Ok t1), n1)
           else case runtime (net_unix N (d @ ascii ''/.s.PGSQL.'' @ show_nat (unat (o_port options)))) n1 of
               (Dropped, n2) \<Rightarrow> (Dropped, n2)
             | (Returned Panic, n2) \<Rightarrow> (Returned Panic, n2)
             | (Returned (Err e), n2) \<Rightarrow> (Returned (Ok t1), n2)
             | (Returned (Ok s), n2) \<Rightarrow>
                 (case a_start_session X B s (options\<lparr>o_upgrade_to_unix_socket := False\<rparr>) n2 of
                    (Returned (Err e), n3) \<Rightarrow> (Returned (Ok t1), n3)
                  | r \<Rightarrow> r)))"

definition a_connect_stream ::
    "ext \<Rightarrow> build \<Rightarrow> net \<Rightarrow> bool \<Rightarrow> stream \<Rightarrow> opts \<Rightarrow> nat \<Rightarrow> tconn outcome \<times> nat" where
  "a_connect_stream X B N loopback s options n =
     (case a_start_session X B s options n of
        (Returned (Ok t), n1) \<Rightarrow>
          if o_upgrade_to_unix_socket options \<and> loopback
          then a_try_upgrade X B N options t n1 else (Returned (Ok t), n1)
      | r \<Rightarrow> r)"

definition a_conn_new :: "ext \<Rightarrow> build \<Rightarrow> net \<Rightarrow> opts \<Rightarrow> nat \<Rightarrow> tconn outcome \<times> nat" where
  "a_conn_new X B N options n =
     (let go = (\<lambda>r loopback. case runtime r n of
          (Dropped, n1) \<Rightarrow> (Dropped, n1)
        | (Returned (Ok s), n1) \<Rightarrow> a_connect_stream X B N loopback s options n1
        | (Returned (Err e), n1) \<Rightarrow> (Returned (Err e), n1)
        | (Returned Panic, n1) \<Rightarrow> (Returned Panic, n1))
      in case o_socket options of
           Some path \<Rightarrow> go (net_unix N path) False
         | None \<Rightarrow>
             if o_host options = [] then (Returned (Err (InvalidUsage ''host is empty'')), n)
             else go (net_tcp N (o_host options) (o_port options)) (net_loopback N))"

end
