(* ===== verification/TokioPool.thy ===== *)
theory TokioPool
  imports TokioConnect Pool
begin

text \<open>
  \<open>src/tokio/pool.rs\<close>. As in \<open>Pool\<close>, a world is a pool and its clients, interleaved in any order.
  A client is a task; an await that is cancelled ends it. The permit is a value owned by the future
  of \<open>get\<close> and then by the \<open>PooledConn\<close>: it goes back whenever its owner is dropped. The
  destructor spawns a task of its own for \<open>check_in\<close>.
\<close>

text \<open>
  \<open>tokio::sync::Semaphore\<close>, a parameter: \<open>acquire_owned\<close> is \<open>None\<close> while it waits, and an error
  once the semaphore is closed; \<open>ts_release\<close> is the drop of a permit.
\<close>

record 's tokio_semaphore_lib =
  ts_new :: "nat \<Rightarrow> 's res"
  ts_acquire :: "'s \<Rightarrow> 's option option"
  ts_release :: "'s \<Rightarrow> 's"

definition tokio_semaphore_laws :: "'s tokio_semaphore_lib \<Rightarrow> ('s \<Rightarrow> nat) \<Rightarrow> bool" where
  "tokio_semaphore_laws S count \<longleftrightarrow>
     (\<forall>n s. ts_new S n = Ok s \<longrightarrow> count s = n) \<and>
     (\<forall>s. if 0 < count s then \<exists>s'. ts_acquire S s = Some (Some s') \<and> count s' = count s - 1
          else ts_acquire S s = None) \<and>
     (\<forall>s. count (ts_release S s) = count s + 1)"

lemma tokio_semaphore_facts:
  assumes "tokio_semaphore_laws S count"
  shows "ts_new S n = Ok s \<Longrightarrow> count s = n" "count (ts_release S s) = count s + 1"
    "ts_acquire S s = Some (Some s') \<Longrightarrow> count s = count s' + 1"
    "ts_acquire S s \<noteq> Some None"
    "0 < count s \<Longrightarrow> \<exists>s'. ts_acquire S s = Some (Some s')"
proof -
  from assms have "if 0 < count s then \<exists>s'. ts_acquire S s = Some (Some s') \<and> count s' = count s - 1
      else ts_acquire S s = None"
    unfolding tokio_semaphore_laws_def by blast
  then show "ts_acquire S s = Some (Some s') \<Longrightarrow> count s = count s' + 1" "ts_acquire S s \<noteq> Some None"
    "0 < count s \<Longrightarrow> \<exists>s'. ts_acquire S s = Some (Some s')"
    by (auto split: if_splits)
qed (use assms in \<open>simp_all add: tokio_semaphore_laws_def\<close>)

section \<open>The pool\<close>

record ('q, 's) t_pool =
  tp_opts :: opts
  tp_conns :: 'q
  tp_semaphore :: "'s option"

record ('q, 's) t_pool_env =
  te_ext :: ext
  te_build :: build
  te_queue :: "(tconn, 'q) queue_lib"
  te_sem :: "'s tokio_semaphore_lib"

definition t_pool_new :: "('q, 's) t_pool_env \<Rightarrow> opts \<Rightarrow> ('q, 's) t_pool res" where
  "t_pool_new E options =
     rbind (case o_pool_max_concurrency options of
         None \<Rightarrow> Ok None | Some n \<Rightarrow> rmap Some (ts_new (te_sem E) n)) (\<lambda>semaphore.
     rmap (\<lambda>q. \<lparr>tp_opts = options, tp_conns = q, tp_semaphore = semaphore\<rparr>)
       (ql_new (te_queue E) (o_pool_max_idle_conn options)))"

text \<open>
  A task in \<open>get\<close>: waiting for a permit, about to pop, pinging, connecting; the \<open>PooledConn\<close> is out;
  its destructor has spawned the check-in and drops the permit; it has ended, with an error or not.
  A check-in task: before the ping, before the push.
\<close>

datatype t_client =
    TWaiting
  | TTaking
  | TPinging tconn
  | TConnecting
  | TUsing tconn
  | TReleasing
  | TEnded "error option"
  | TCheckingIn tconn
  | TPushing tconn

definition t_release :: "('q, 's) t_pool_env \<Rightarrow> ('q, 's) t_pool \<Rightarrow> ('q, 's) t_pool" where
  "t_release E p = p\<lparr>tp_semaphore := map_option (ts_release (te_sem E)) (tp_semaphore p)\<rparr>"

text \<open>\<open>Some(Arc::clone(sem).acquire_owned().await.map_err(..)?)\<close>\<close>

definition t_acquire ::
    "('q, 's) t_pool_env \<Rightarrow> ('q, 's) t_pool \<Rightarrow> (('q, 's) t_pool \<times> t_client) option" where
  "t_acquire E p = (case tp_semaphore p of
     None \<Rightarrow> Some (p, TTaking)
   | Some s \<Rightarrow> map_option (\<lambda>r. case r of
         Some s' \<Rightarrow> (p\<lparr>tp_semaphore := Some s'\<rparr>, TTaking)
       | None \<Rightarrow> (p, TEnded (Some (LibraryBug ''pool semaphore is closed''))))
       (ts_acquire (te_sem E) s))"

definition t_take_idle ::
    "('q, 's) t_pool_env \<Rightarrow> ('q, 's) t_pool \<Rightarrow> ('q, 's) t_pool \<times> t_client" where
  "t_take_idle E p = (case ql_pop (te_queue E) (tp_conns p) of
     Some (c, q) \<Rightarrow> (p\<lparr>tp_conns := q\<rparr>, TPinging c)
   | None \<Rightarrow> (p, TConnecting))"

text \<open>\<open>c.ping().await.is_ok()\<close> with a budget; cancelled or unwinding, the permit is dropped.\<close>

definition t_ping_client ::
    "('q, 's) t_pool_env \<Rightarrow> nat \<Rightarrow> tconn \<Rightarrow> ('q, 's) t_pool \<Rightarrow> ('q, 's) t_pool \<times> t_client" where
  "t_ping_client E n c p = (case t_ping (te_ext E) (n, c) of
     (Returned (Ok _), _, c') \<Rightarrow> (p, TUsing c')
   | (Returned (Err e), _, _) \<Rightarrow> (p, TTaking)
   | (Returned Panic, _, _) \<Rightarrow> (t_release E p, TEnded None)
   | (Dropped, _, _) \<Rightarrow> (t_release E p, TEnded None))"

text \<open>\<open>None => break Conn::new(self.opts.clone()).await?\<close>: an error drops the permit too.\<close>

definition t_connect_client ::
    "('q, 's) t_pool_env \<Rightarrow> net \<Rightarrow> nat \<Rightarrow> ('q, 's) t_pool \<Rightarrow> ('q, 's) t_pool \<times> t_client" where
  "t_connect_client E N n p = (case fst (a_conn_new (te_ext E) (te_build E) N (tp_opts p) n) of
     Returned (Ok c) \<Rightarrow> (p, TUsing c)
   | Returned (Err e) \<Rightarrow> (t_release E p, TEnded (Some e))
   | Returned Panic \<Rightarrow> (t_release E p, TEnded None)
   | Dropped \<Rightarrow> (t_release E p, TEnded None))"

text \<open>\<open>check_in\<close> up to the push; the runtime may drop the task.\<close>

definition t_check_in :: "('q, 's) t_pool_env \<Rightarrow> nat \<Rightarrow> tconn \<Rightarrow> t_client" where
  "t_check_in E n c =
     (if t_is_broken c then TEnded None
      else case t_query_drop (te_ext E) (ascii ''DISCARD ALL'') (n, c) of
          (Returned (Ok _), _, c') \<Rightarrow> TPushing c'
        | _ \<Rightarrow> TEnded None)"

definition t_push_idle :: "('q, 's) t_pool_env \<Rightarrow> tconn \<Rightarrow> ('q, 's) t_pool \<Rightarrow> ('q, 's) t_pool" where
  "t_push_idle E c p = p\<lparr>tp_conns := ql_push (te_queue E) c (tp_conns p)\<rparr>"

inductive t_client_step ::
    "('q, 's) t_pool_env \<Rightarrow> ('q, 's) t_pool \<times> t_client \<Rightarrow> ('q, 's) t_pool \<times> t_client \<Rightarrow> bool" for E where
  acquire: "t_acquire E p = Some r \<Longrightarrow> t_client_step E (p, TWaiting) r"
| give_up: "t_client_step E (p, TWaiting) (p, TEnded None)"
| take: "t_client_step E (p, TTaking) (t_take_idle E p)"
| ping: "t_client_step E (p, TPinging c) (t_ping_client E n c p)"
| connect: "t_client_step E (p, TConnecting) (t_connect_client E N n p)"
| use: "t_client_step E (p, TUsing c) (p, TUsing c')"
| release: "t_client_step E (p, TReleasing) (t_release E p, TEnded None)"
| check: "t_client_step E (p, TCheckingIn c) (p, t_check_in E n c)"
| push: "t_client_step E (p, TPushing c) (t_push_idle E c p, TEnded None)"

text \<open>The destructor is the step of the world that adds a task.\<close>

type_synonym ('q, 's) t_world = "('q, 's) t_pool \<times> t_client list"

inductive t_pool_step :: "('q, 's) t_pool_env \<Rightarrow> ('q, 's) t_world \<Rightarrow> ('q, 's) t_world \<Rightarrow> bool" for E where
  come: "t_pool_step E (p, ks) (p, ks @ [TWaiting])"
| go: "i < length ks \<Longrightarrow> t_client_step E (p, ks ! i) (p', k) \<Longrightarrow> t_pool_step E (p, ks) (p', ks[i := k])"
| drop: "i < length ks \<Longrightarrow> ks ! i = TUsing c \<Longrightarrow>
    t_pool_step E (p, ks) (p, ks[i := TReleasing] @ [TCheckingIn c])"

definition t_pool_reachable :: "('q, 's) t_pool_env \<Rightarrow> opts \<Rightarrow> ('q, 's) t_world \<Rightarrow> bool" where
  "t_pool_reachable E options w \<longleftrightarrow>
     (\<exists>p. t_pool_new E options = Ok p \<and> (t_pool_step E)\<^sup>*\<^sup>* (p, []) w)"

end
