(* ===== verification/TokioFacts.thy ===== *)
theory TokioFacts
  imports TokioConn TransactionFacts
begin

text \<open>
  What the asynchronous connection guarantees under cancellation: an entry point refuses a
  connection that is not usable, and leaves one that is not usable when its future is dropped;
  a connection that is usable after a query is at a message boundary, whatever the handler did;
  and with enough budget every query, execution and preparation does what the synchronous one
  does.
\<close>

section \<open>The stream operations against the synchronous ones\<close>

lemmas fut_defs = fut_bind_def fut_lift_def t_stream_def set_stream_def t_bufs_def set_bufs_def

text \<open>Only the input and the buffers have changed; or the output as well.\<close>

definition t_reads :: "tconn \<Rightarrow> tconn \<Rightarrow> bool" where
  "t_reads t t' \<longleftrightarrow> t' = t\<lparr>t_base := t_base t'\<rparr> \<and> c_broken (t_base t') = c_broken (t_base t) \<and>
     out (c_stream (t_base t')) = out (c_stream (t_base t)) \<and>
     writable (c_stream (t_base t')) = writable (c_stream (t_base t))"

lemma t_reads_refl [simp]: "t_reads t t"
  by (simp add: t_reads_def)

lemma t_reads_trans: "t_reads t1 t2 \<Longrightarrow> t_reads t2 t3 \<Longrightarrow> t_reads t1 t3"
  by (cases t1; cases t2; cases t3) (simp add: t_reads_def)

definition reads_only :: "'a fut \<Rightarrow> bool" where
  "reads_only m \<longleftrightarrow> (\<forall>s. t_reads (snd s) (snd (snd (m s))))"

lemma reads_only_bind:
  "reads_only m \<Longrightarrow> (\<And>x. reads_only (f x)) \<Longrightarrow> reads_only (fut_bind m f)"
proof (unfold reads_only_def, rule allI)
  fix s assume m: "\<forall>s. t_reads (snd s) (snd (snd (m s)))" and f: "\<And>x. \<forall>s. t_reads (snd s) (snd (snd (f x s)))"
  obtain q s1 where q: "m s = (q, s1)" by (cases "m s")
  have 1: "t_reads (snd s) (snd s1)" using m [rule_format, of s] q by simp
  show "t_reads (snd s) (snd (snd (fut_bind m f s)))"
    using 1 q t_reads_trans [OF 1] f [rule_format, of s1]
    by (auto simp: fut_bind_def split: outcome.splits res.splits)
qed

lemma reads_only_exact: "reads_only (a_read_exact k)"
  by (auto simp: reads_only_def t_reads_def a_read_exact_def t_stream_def set_stream_def Let_def)

lemma reads_only_bufs: "reads_only (fut_lift (\<lambda>t. (r, set_bufs (g t) t)))"
  by (auto simp: reads_only_def t_reads_def fut_lift_def set_bufs_def)

lemma reads_only_lift: "reads_only (fut_lift (\<lambda>t. (r, t)))"
  by (auto simp: reads_only_def fut_lift_def)

lemma reads_only_message: "reads_only a_read_message"
  unfolding a_read_message_def a_read_u8_def Let_def
  by (intro reads_only_bind reads_only_exact reads_only_bufs reads_only_lift)

lemma a_read_keeps: "a_read_message (n, t) = (q, n', t') \<Longrightarrow> t_reads t t'"
  using reads_only_message [unfolded reads_only_def, rule_format, of "(n, t)"] by simp

lemma drop_past [simp]: "drop (k + 5) (x # xs) = drop (k + 4) xs"
  by (simp add: drop_Cons' add.commute)

lemma a_read_exact_run:
  "length (inp (t_stream t)) \<le> n \<Longrightarrow> stream_read_exact k (t_stream t) = (r, s') \<Longrightarrow>
     a_read_exact k (n, t) =
       (Returned r, n - (length (inp (t_stream t)) - length (inp s')), set_stream s' t)"
  by (auto simp: a_read_exact_def stream_read_exact_def Let_def split: if_splits)

lemma a_read_exact_Ok_iff:
  "a_read_exact k (n, t) = (Returned (Ok b), n', t') \<longleftrightarrow>
     k \<le> n \<and> k \<le> length (inp (t_stream t)) \<and> b = take k (inp (t_stream t)) \<and> n' = n - k \<and>
     t' = set_stream ((t_stream t)\<lparr>inp := drop k (inp (t_stream t))\<rparr>) t"
  by (auto simp: a_read_exact_def Let_def)

lemma a_read_message_Ok_iff:
  "a_read_message (n, t) = (Returned (Ok u), n', t') \<longleftrightarrow> (\<exists>ty r.
     inp (c_stream (t_base t)) = ty # r \<and> 4 \<le> length r \<and>
     (let k = unat (from_be_bytes (take 4 r) :: u32) - 4 in
      k \<le> length r - 4 \<and> 5 + k \<le> n \<and> n' = n - 5 - k \<and>
      t' = t\<lparr>t_base := (t_base t)\<lparr>c_stream := (c_stream (t_base t))\<lparr>inp := drop k (drop 4 r)\<rparr>,
        c_bufs := (c_bufs (t_base t))\<lparr>type_byte := ty, read_buffer := take k (drop 4 r)\<rparr>\<rparr>\<rparr>))"
proof (cases "inp (c_stream (t_base t))")
  case Nil
  then show ?thesis
    by (simp add: a_read_message_def a_read_u8_def fut_bind_Ok a_read_exact_Ok_iff t_stream_def)
next
  case (Cons ty r)
  then show ?thesis
    by (auto simp: a_read_message_def a_read_u8_def fut_bind_Ok a_read_exact_Ok_iff t_stream_def
        fut_lift_def set_stream_def t_bufs_def set_bufs_def Let_def add.commute)
qed

lemma a_read_parse:
  "a_read_message (n, t) = (Returned (Ok u), n', t') \<longleftrightarrow> (\<exists>m rest.
     parse_msg (inp (c_stream (t_base t))) = Some (m, rest) \<and>
     length (inp (c_stream (t_base t))) - length rest \<le> n \<and>
     n' = n - (length (inp (c_stream (t_base t))) - length rest) \<and>
     t' = t\<lparr>t_base := got m rest (t_base t)\<rparr>)"
  unfolding a_read_message_Ok_iff
  by (cases "inp (c_stream (t_base t))") (auto simp: parse_msg_def got_def Let_def)

lemma a_read_Ok:
  "a_read_message (n, t) = (Returned (Ok u), n', t') \<Longrightarrow>
     \<exists>c'. conn_read_message (t_base t) = (Ok (), c') \<and> t' = t\<lparr>t_base := c'\<rparr>"
  by (auto simp: a_read_parse conn_read_iff)

lemma a_read_fails:
  assumes "length (inp (c_stream (t_base t))) \<le> n" and "conn_read_message (t_base t) = (r, c')"
    and "\<forall>u. r \<noteq> Ok u"
  shows "\<exists>n'. a_read_message (n, t) = (Returned r, n', t\<lparr>t_base := c'\<rparr>)"
proof (cases "inp (c_stream (t_base t))")
  case Nil
  then show ?thesis using assms
    by (auto simp: a_read_message_def a_read_u8_def a_read_exact_def fut_defs Let_def
        conn_read_message_def stream_read_message_def stream_read_u8_def)
next
  case (Cons ty d)
  then show ?thesis using assms
    by (auto simp: a_read_message_def a_read_u8_def a_read_exact_def fut_defs Let_def
        conn_read_message_def stream_read_message_def stream_read_u8_def stream_read_exact_def
        split: if_splits)
qed

lemma a_write_Ok_iff:
  "a_write_flush (n, t) = (Returned (Ok u), n', t') \<longleftrightarrow>
     writable (c_stream (t_base t)) \<and> length (write_buffer (c_bufs (t_base t))) + 1 \<le> n \<and>
     n' = n - (length (write_buffer (c_bufs (t_base t))) + 1) \<and>
     t' = t\<lparr>t_base := snd (conn_write_flush (t_base t))\<rparr>"
  by (auto simp: a_write_flush_def fut_bind_Ok a_write_all_def a_flush_def t_stream_def
      set_stream_def t_bufs_def Let_def conn_write_flush_def stream_write_all_def stream_flush_def
      split: if_splits)

lemma conn_write_flush_iff:
  "conn_write_flush c = (Ok u, c') \<longleftrightarrow> writable (c_stream c) \<and>
     c' = c\<lparr>c_stream := (c_stream c)\<lparr>out := out (c_stream c) @ write_buffer (c_bufs c)\<rparr>\<rparr>"
  by (auto simp: conn_write_flush_def stream_write_all_def stream_flush_def Let_def)

lemma a_write_fails:
  "\<not> writable (c_stream (t_base t)) \<Longrightarrow> a_write_flush (n, t) = (Returned (Err (Io WriteFailed)), n, t)"
  by (simp add: a_write_flush_def fut_bind_def a_write_all_def t_stream_def)

section \<open>A drive that leaves the connection usable\<close>

text \<open>A round that goes on is a round of the synchronous loop.\<close>

lemma a_iter_Inr:
  assumes "a_drive_iter step tx m (n, t) = Inr (m', n', t')"
  shows "\<exists>c'. drive_iter step tx m (t_base t) = Inr (m', c') \<and> t' = t\<lparr>t_base := c'\<rparr>"
proof -
  obtain r m1 bs where s: "step m (c_bufs (t_base t)) = (r, m1, bs)" by (metis prod_cases3)
  with assms obtain a where r: "r = Ok a" by (cases r) (auto simp: a_drive_iter_def Let_def t_bufs_def)
  show ?thesis
    using assms s r
    by (cases a)
      (auto simp: a_drive_iter_def drive_iter_def Let_def fut_bind_Ok t_bufs_def set_bufs_def
        a_write_Ok_iff conn_write_flush_def stream_write_all_def stream_flush_def
        split: outcome.splits res.splits prod.splits dest!: a_read_Ok)
qed

text \<open>No stream operation touches the flags of the connection.\<close>

definition same_flags :: "tconn \<Rightarrow> tconn \<Rightarrow> bool" where
  "same_flags t t' \<longleftrightarrow> t_exchange t' = t_exchange t \<and> t_scope t' = t_scope t \<and>
     c_broken (t_base t') = c_broken (t_base t)"

lemma read_flags: "a_read_message (n, t) = (q, n', t') \<Longrightarrow> same_flags t t'"
  using a_read_keeps [of n t q n' t'] by (cases t; cases t') (auto simp: t_reads_def same_flags_def)

lemma write_flags: "a_write_flush (n, t) = (q, n', t') \<Longrightarrow> same_flags t t'"
  by (auto simp: a_write_flush_def fut_bind_def a_write_all_def a_flush_def set_stream_def Let_def
      same_flags_def split: if_splits)

lemma write_read_flags:
  "fut_bind a_write_flush (\<lambda>_. a_read_message) (n, t) = (q, n', t') \<Longrightarrow> same_flags t t'"
  by (auto simp: fut_bind_def same_flags_def split: prod.splits outcome.splits res.splits
      dest!: read_flags write_flags)

lemmas io_flags = read_flags write_flags write_read_flags

lemma base_flags [simp]:
  "t_exchange (set_bufs bs t) = t_exchange t" "t_scope (set_bufs bs t) = t_scope t"
  "c_broken (t_base (set_bufs bs t)) = c_broken (t_base t)"
  "t_exchange (t_set_tx x t) = t_exchange t" "t_scope (t_set_tx x t) = t_scope t"
  "c_broken (t_base (t_set_tx x t)) = c_broken (t_base t)"
  "c_broken (conn_handle_async am c) = c_broken c"
  by (simp_all add: set_bufs_def t_set_tx_def conn_handle_async_def)

text \<open>A round that ends the loop clears the flag only for the machine's final actions.\<close>

lemma a_iter_Inl:
  assumes "a_drive_iter step tx m (n, t) = Inl (q, m', n', t')"
  shows "same_flags t t' \<or> (\<exists>a bs. step m (c_bufs (t_base t)) = (Ok a, m', bs) \<and>
    (a = Finished \<or> (\<exists>e. a = ActionError e)) \<and>
    q = Returned (case a of ActionError e \<Rightarrow> Err (Server e) | _ \<Rightarrow> Ok ()) \<and>
    t' = t\<lparr>t_exchange := False, t_base := (t_base t)\<lparr>c_bufs := bs, c_tx := tx m'\<rparr>\<rparr>)"
proof -
  obtain r m1 bs where s: "step m (c_bufs (t_base t)) = (r, m1, bs)" by (metis prod_cases3)
  show ?thesis
  proof (cases r)
    case (Ok a)
    show ?thesis
    proof (cases "a = Finished \<or> (\<exists>e. a = ActionError e)")
      case True
      then show ?thesis using assms s Ok
        by (auto simp: a_drive_iter_def Let_def t_bufs_def set_bufs_def t_set_tx_def finish_exchange_def)
    next
      case False
      with assms s Ok have "same_flags t t'"
        by (cases a) (auto simp: a_drive_iter_def Let_def t_bufs_def same_flags_def
            split: outcome.splits res.splits prod.splits dest!: io_flags)
      then show ?thesis ..
    qed
  qed (use assms s in \<open>auto simp: a_drive_iter_def Let_def t_bufs_def same_flags_def\<close>)
qed

lemma drive_iter_broken:
  "drive_iter step tx m c = Inr (m', c') \<Longrightarrow> c_broken c' = c_broken c"
proof -
  assume d: "drive_iter step tx m c = Inr (m', c')"
  obtain r m1 bs where s: "step m (c_bufs c) = (r, m1, bs)" by (metis prod_cases3)
  with d obtain a where r: "r = Ok a" by (cases r) (auto simp: drive_iter_def Let_def)
  then show ?thesis using d s
    by (cases a) (auto simp: drive_iter_def Let_def conn_read_iff conn_write_flush_iff
        split: res.splits prod.splits rtry_splits)
qed

text \<open>
  A drive that ends with the flag cleared has run as the synchronous loop does to a final
  action of the machine; every other end leaves the flag as it was.
\<close>

lemma a_loop_ends:
  "a_drive_loop step tx m (n, t) = (q, m', n', t') \<Longrightarrow>
     same_flags t t' \<or> (\<exists>r. q = Returned r \<and> r \<noteq> Panic \<and> \<not> t_exchange t' \<and> t_scope t' = t_scope t \<and>
       c_broken (t_base t') = c_broken (t_base t) \<and>
       drive step tx m (t_base t) = Some (r, m', t_base t'))"
proof (induction n arbitrary: m t rule: less_induct)
  case (less n)
  show ?case
  proof (cases "a_drive_iter step tx m (n, t)")
    case (Inl x)
    then have *: "a_drive_iter step tx m (n, t) = Inl (q, m', n', t')"
      using less.prems by (subst (asm) a_drive_loop.simps) simp
    from a_iter_Inl [OF this] show ?thesis
    proof
      assume "\<exists>a bs. step m (c_bufs (t_base t)) = (Ok a, m', bs) \<and>
        (a = Finished \<or> (\<exists>e. a = ActionError e)) \<and>
        q = Returned (case a of ActionError e \<Rightarrow> Err (Server e) | _ \<Rightarrow> Ok ()) \<and>
        t' = t\<lparr>t_exchange := False, t_base := (t_base t)\<lparr>c_bufs := bs, c_tx := tx m'\<rparr>\<rparr>"
      then show ?thesis
        by (subst drive.simps) (auto simp: drive_iter_def Let_def)
    qed simp
  next
    case (Inr x)
    obtain m1 n1 t1 where x: "x = (m1, n1, t1)" by (cases x)
    note it = Inr [unfolded x]
    obtain c1 where c1: "drive_iter step tx m (t_base t) = Inr (m1, c1)" "t1 = t\<lparr>t_base := c1\<rparr>"
      using a_iter_Inr [OF it] by blast
    have "a_drive_loop step tx m1 (n1, t1) = (q, m', n', t')"
      using less.prems it by (subst (asm) a_drive_loop.simps) simp
    from less.IH [OF a_drive_iter_less [OF it] this] c1 drive_iter_broken [OF c1(1)] show ?thesis
      by (subst drive.simps) (auto simp: same_flags_def)
  qed
qed

context query_machine
begin

lemma a_loop_boundary:
  "\<lbrakk>\<not> initial m; a_drive_loop step tx m (n, t) = (q, m', n', t'); t_exchange t; \<not> t_exchange t'\<rbrakk> \<Longrightarrow>
     out (c_stream (t_base t')) = out (c_stream (t_base t)) \<and>
     (if type_byte (c_bufs (t_base t)) = READY_FOR_QUERY
      then inp (c_stream (t_base t')) = inp (c_stream (t_base t)) \<and>
        (\<exists>st. read_buffer (c_bufs (t_base t)) = [st] \<and> c_tx (t_base t') = tx_or_default st)
      else at_boundary (inp (c_stream (t_base t))) (inp (c_stream (t_base t'))) (c_tx (t_base t')))"
proof (induction n arbitrary: m t rule: less_induct)
  case (less n)
  show ?case
  proof (cases "a_drive_iter step tx m (n, t)")
    case (Inl x)
    then have *: "a_drive_iter step tx m (n, t) = Inl (q, m', n', t')"
      using less.prems(2) by (subst (asm) a_drive_loop.simps) simp
    from a_iter_Inl [OF this] less.prems(3,4) obtain a bs where
      "step m (c_bufs (t_base t)) = (Ok a, m', bs)" "a = Finished \<or> (\<exists>e. a = ActionError e)"
      "t' = t\<lparr>t_exchange := False, t_base := (t_base t)\<lparr>c_bufs := bs, c_tx := tx m'\<rparr>\<rparr>"
      by (auto simp: same_flags_def)
    with later [OF less.prems(1) this(1)] show ?thesis by auto
  next
    case (Inr x)
    obtain m1 n1 t1 where x: "x = (m1, n1, t1)" by (cases x)
    note it = Inr [unfolded x]
    obtain c1 where c1: "drive_iter step tx m (t_base t) = Inr (m1, c1)" "t1 = t\<lparr>t_base := c1\<rparr>"
      using a_iter_Inr [OF it] by blast
    note cont = iter_continue [OF less.prems(1) c1(1)]
    have "a_drive_loop step tx m1 (n1, t1) = (q, m', n', t')"
      using less.prems(2) it by (subst (asm) a_drive_loop.simps) simp
    from less.IH [OF a_drive_iter_less [OF it] _ this] cont less.prems(3,4) c1(2) show ?thesis
      by (auto split: if_splits intro: at_boundary_last [simplified] at_boundary_Cons)
  qed
qed

text \<open>
  A drive that was begun and leaves the flag cleared has written the request and stopped at the
  boundary, whatever the machine's handlers did.
\<close>

lemma a_drive_boundary:
  assumes "initial m" and "step m (c_bufs (t_base t)) = (Ok WriteAndReadMessage, m1, bs)"
    and "a_drive step tx m (n, t) = (q, m', n', t')" and "\<not> t_is_broken t" and "\<not> t_exchange t'"
  shows "\<not> t_is_broken t' \<and> (\<exists>r. q = Returned r \<and> r \<noteq> Panic) \<and>
    at_boundary (inp (c_stream (t_base t))) (inp (c_stream (t_base t'))) (c_tx (t_base t')) \<and>
    out (c_stream (t_base t')) = out (c_stream (t_base t)) @ write_buffer bs"
proof -
  let ?t = "t\<lparr>t_exchange := True\<rparr>"
  have loop: "a_drive_loop step tx m (n, ?t) = (q, m', n', t')"
    using assms(3,4) by (simp add: a_drive_def begin_exchange_def ensure_exchange_ready_def t_is_broken_def)
  from a_loop_ends [OF this] assms(4,5) have fin: "\<not> t_is_broken t'" "\<exists>r. q = Returned r \<and> r \<noteq> Panic"
    by (auto simp: same_flags_def t_is_broken_def)
  show ?thesis
  proof (cases "a_drive_iter step tx m (n, ?t)")
    case (Inl x)
    then have "a_drive_iter step tx m (n, ?t) = Inl (q, m', n', t')"
      using loop by (subst (asm) a_drive_loop.simps) simp
    from a_iter_Inl [OF this] assms(2,5) show ?thesis by (auto simp: same_flags_def)
  next
    case (Inr x)
    obtain m2 n2 t2 where x: "x = (m2, n2, t2)" by (cases x)
    note it = Inr [unfolded x]
    obtain c2 where c2: "drive_iter step tx m (t_base t) = Inr (m2, c2)" "t2 = ?t\<lparr>t_base := c2\<rparr>"
      using a_iter_Inr [OF it] by auto
    from c2(1) assms(2) have m2: "m2 = m1" and
      wr: "parse_msg (inp (c_stream (t_base t))) =
          Some ((type_byte (c_bufs c2), read_buffer (c_bufs c2)), inp (c_stream c2))"
        "out (c_stream c2) = out (c_stream (t_base t)) @ write_buffer bs"
      by (auto simp: drive_iter_def Let_def conn_read_iff conn_write_flush_iff
          split: res.splits prod.splits rtry_splits)
    have "a_drive_loop step tx m1 (n2, t2) = (q, m', n', t')"
      using loop it m2 by (subst (asm) a_drive_loop.simps) simp
    from a_loop_boundary [OF _ this] first [OF assms(1,2)] assms(5) c2(2) wr fin show ?thesis
      by (auto split: if_splits intro: at_boundary_last [simplified] at_boundary_Cons)
  qed
qed

end

section \<open>Cancellation\<close>

text \<open>
  An entry point is guarded: it refuses a connection that is not usable, without touching it,
  and a future of it that is dropped leaves a connection that is not usable.
\<close>

definition guarded :: "'a fut \<Rightarrow> bool" where
  "guarded m \<longleftrightarrow> (\<forall>n t q n' t'. m (n, t) = (q, n', t') \<longrightarrow>
     (if t_is_broken t then q = Returned (Err ConnectionBroken) \<and> n' = n \<and> t' = t
      else q = Dropped \<longrightarrow> t_is_broken t'))"

text \<open>Within an exchange, being dropped leaves the exchange open.\<close>

definition open_when_dropped :: "'a fut \<Rightarrow> bool" where
  "open_when_dropped m \<longleftrightarrow>
     (\<forall>s s'. m s = (Dropped, s') \<and> t_exchange (snd s) \<longrightarrow> t_exchange (snd s'))"

definition drop_handler_state :: "(nat \<times> tconn \<Rightarrow> 'a outcome \<times> 'h \<times> nat \<times> tconn) \<Rightarrow> 'a fut" where
  "drop_handler_state f s = (case f s of (q, h, s') \<Rightarrow> (q, s'))"

lemma a_loop_dropped:
  "a_drive_loop step tx m (n, t) = (Dropped, m', n', t') \<Longrightarrow> t_exchange t \<Longrightarrow> t_exchange t'"
  using a_loop_ends [of step tx m n t Dropped m' n' t'] by (auto simp: same_flags_def)

lemma a_drive_dropped:
  "a_drive step tx m (n, t) = (Dropped, m', n', t') \<Longrightarrow> t_exchange t'"
  by (auto simp: a_drive_def begin_exchange_def ensure_exchange_ready_def split: if_splits
      dest!: a_loop_dropped)

lemma t_mark_flags [simp]:
  "t_exchange (t_mark q t) = t_exchange t" "t_scope (t_mark q t) = t_scope t"
  by (simp_all add: t_mark_def split: outcome.splits)

lemma t_mark_Dropped [simp]: "t_mark Dropped t = t"
  by (simp add: t_mark_def)

lemma next_message_flags: "a_next_message s = (q, s') \<Longrightarrow> same_flags (snd s) (snd s')"
proof (induction s arbitrary: q s' rule: a_next_message.induct)
  case (1 s)
  obtain r s1 where rd: "a_read_message s = (r, s1)" by (cases "a_read_message s")
  then have f: "same_flags (snd s) (snd s1)" by (cases s; cases s1) (auto dest: read_flags)
  show ?case
  proof (cases "r = Returned (Ok ()) \<and> is_async_type (type_byte (t_bufs (snd s1)))")
    case True
    then have "a_next_message s1 = (q, s')" using 1(2) rd by (simp add: a_next_message.simps [of s])
    from 1(1) [OF rd [symmetric] _ _ _ this] True f show ?thesis by (auto simp: same_flags_def)
  next
    case False
    then show ?thesis using 1(2) rd f
      by (auto simp: a_next_message.simps [of s] split: outcome.splits res.splits if_splits)
  qed
qed

lemma a_send_dropped: "a_send w (n, t) = (Dropped, n', t') \<Longrightarrow> t_exchange t'"
  by (auto simp: a_send_def fut_bind_def fut_lift_def begin_exchange_def ensure_exchange_ready_def
      same_flags_def split: if_splits dest!: write_flags)

lemma a_send_open: "a_send w s = (Returned (Ok u), s') \<Longrightarrow> t_exchange (snd s')"
  by (cases s; cases s') (auto simp: a_send_def fut_bind_Ok fut_lift_def begin_exchange_def
      ensure_exchange_ready_def same_flags_def split: if_splits dest!: write_flags)

lemma send_then_open:
  "open_when_dropped m \<Longrightarrow> fut_bind (a_send w) (\<lambda>_. m) (n, t) = (Dropped, n', t') \<Longrightarrow> t_exchange t'"
  by (force simp: fut_bind_def open_when_dropped_def split: prod.splits outcome.splits res.splits
      dest: a_send_dropped a_send_open)

lemma await_open: "open_when_dropped (a_await_complete X ty msg)"
  by (auto simp: open_when_dropped_def a_await_complete_def fut_bind_def fut_lift_def same_flags_def
      split: prod.splits outcome.splits res.splits if_splits dest!: next_message_flags)

text \<open>A round of the low-level loops continues with the next message or ends, undropped.\<close>

lemma execute_round:
  assumes "a_next_message s = (Returned (Ok u), s1)"
  shows "(\<exists>h1 b1. a_execute_loop X H h b s = a_execute_loop X H h1 b1 s1) \<or>
    fst (a_execute_loop X H h b s) \<noteq> Dropped"
  unfolding a_execute_loop.simps [of X H h b s] assms
  by (cases s1) (simp add: Let_def split: res.split prod.split, blast?)

lemma execute_open:
  "a_execute_loop X H h b s = (Dropped, h', s') \<Longrightarrow> t_exchange (snd s) \<Longrightarrow> t_exchange (snd s')"
proof (induction "fst s" arbitrary: h b s rule: less_induct)
  case less
  obtain r s1 where rd: "a_next_message s = (r, s1)" by (cases "a_next_message s")
  with less.prems(2) next_message_flags [OF rd] have e: "t_exchange (snd s1)"
    by (simp add: same_flags_def)
  show ?case
  proof (cases r)
    case Dropped
    with less.prems(1) rd e show ?thesis by (auto simp: a_execute_loop.simps [of X H h b s])
  next
    case (Returned v)
    show ?thesis
    proof (cases v)
      case (Ok u)
      from execute_round [OF rd [unfolded Returned Ok], of X H h b] less.prems(1) obtain h1 b1 where
        "a_execute_loop X H h1 b1 s1 = (Dropped, h', s')" by auto
      with less.hyps [OF a_next_message_less [OF rd [unfolded Returned Ok]]] e show ?thesis by blast
    qed (use Returned less.prems(1) rd in \<open>simp_all add: a_execute_loop.simps [of X H h b s]\<close>)
  qed
qed

lemma sync_round:
  assumes "a_next_message s = (Returned (Ok u), s1)"
  shows "(\<exists>p1. a_sync_loop X p s = a_sync_loop X p1 s1) \<or> fst (a_sync_loop X p s) \<noteq> Dropped"
  unfolding a_sync_loop.simps [of X p s] assms
  by (cases s1) (simp add: Let_def split: res.split prod.split, blast?)

lemma sync_open: "open_when_dropped (a_sync_loop X p)"
proof -
  have "a_sync_loop X p s = (Dropped, s') \<Longrightarrow> t_exchange (snd s) \<Longrightarrow> t_exchange (snd s')" for s s'
  proof (induction "fst s" arbitrary: p s rule: less_induct)
    case less
    obtain r s1 where rd: "a_next_message s = (r, s1)" by (cases "a_next_message s")
    with less.prems(2) next_message_flags [OF rd] have e: "t_exchange (snd s1)"
      by (simp add: same_flags_def)
    show ?case
    proof (cases r)
      case Dropped
      with less.prems(1) rd e show ?thesis by (auto simp: a_sync_loop.simps [of X p s])
    next
      case (Returned v)
      show ?thesis
      proof (cases v)
        case (Ok u)
        from sync_round [OF rd [unfolded Returned Ok], of X p] less.prems(1) obtain p1 where
          "a_sync_loop X p1 s1 = (Dropped, s')" by auto
        with less.hyps [OF a_next_message_less [OF rd [unfolded Returned Ok]]] e show ?thesis by blast
      qed (use Returned less.prems(1) rd in \<open>simp_all add: a_sync_loop.simps [of X p s]\<close>)
    qed
  qed
  then show ?thesis by (auto simp: open_when_dropped_def)
qed

lemma bind_iter_flags:
  assumes "a_bind_iter X m (n, t) = z"
  shows "case z of Inl (q, s') \<Rightarrow> q = Dropped \<longrightarrow> same_flags t (snd s') | Inr (m', s') \<Rightarrow> same_flags t (snd s')"
proof -
  obtain r m1 bs where s: "bind_step X m (t_bufs t) = (r, m1, bs)" by (metis prod_cases3)
  show ?thesis
  proof (cases r)
    case (Ok a)
    with assms s show ?thesis
      by (cases a) (auto simp: a_bind_iter_def Let_def same_flags_def
          split: outcome.splits res.splits prod.splits dest!: io_flags)
  qed (use assms s in \<open>auto simp: a_bind_iter_def Let_def\<close>)
qed

lemma bind_open: "open_when_dropped (a_bind_loop X m)"
proof -
  have "a_bind_loop X m s = (Dropped, s') \<Longrightarrow> t_exchange (snd s) \<Longrightarrow> t_exchange (snd s')" for s s'
  proof (induction X m s arbitrary: s' rule: a_bind_loop.induct)
    case (1 X m s)
    obtain n t where s: "s = (n, t)" by (cases s)
    show ?case
    proof (cases "a_bind_iter X m s")
      case (Inl z)
      then have "z = (Dropped, s')" using 1(2) by (simp add: a_bind_loop.simps [of X m s])
      with Inl 1(3) bind_iter_flags [of X m n t "Inl z"] s show ?thesis by (auto simp: same_flags_def)
    next
      case (Inr z)
      obtain m1 s1 where z: "z = (m1, s1)" by (cases z)
      then have "a_bind_loop X m1 s1 = (Dropped, s')"
        using Inr 1(2) by (simp add: a_bind_loop.simps [of X m s])
      moreover have "t_exchange (snd s1)"
        using Inr z 1(3) bind_iter_flags [of X m n t "Inr z"] s by (auto simp: same_flags_def)
      ultimately show ?thesis using 1(1) [OF Inr z [symmetric]] by simp
    qed
  qed
  then show ?thesis by (auto simp: open_when_dropped_def)
qed

lemma guardedI:
  assumes "\<And>n t n' t'. \<lbrakk>\<not> t_is_broken t; m (n, t) = (Dropped, n', t')\<rbrakk> \<Longrightarrow> t_is_broken t'"
  shows "guarded (usable m)"
  using assms by (auto simp: guarded_def usable_def ensure_usable_def)

lemma fut_mark_Dropped: "fut_mark m s = (Dropped, n', t') \<longleftrightarrow> m s = (Dropped, n', t')"
  by (auto simp: fut_mark_def Let_def split: prod.splits)

lemma open_is_broken: "t_exchange t \<Longrightarrow> t_is_broken t"
  by (simp add: t_is_broken_def)

lemma begin_then_open:
  "open_when_dropped m \<Longrightarrow>
     fut_bind (fut_lift begin_exchange) (\<lambda>_. m) (n, t) = (Dropped, n', t') \<Longrightarrow> t_exchange t'"
  by (force simp: fut_bind_def fut_lift_def begin_exchange_def ensure_exchange_ready_def
      open_when_dropped_def split: if_splits)

lemma guarded_queries:
  "guarded (drop_handler_state (t_query X H h sql))"
  "guarded (drop_handler_state (t_exec X H h statement params))"
  "guarded (drop_handler_state (t_lowlevel_execute X H h portal max_rows))"
proof -
  show "guarded (drop_handler_state (t_query X H h sql))"
    by (auto simp: guarded_def drop_handler_state_def t_query_def ensure_usable_def open_is_broken
        split: prod.splits dest!: a_drive_dropped)
  show "guarded (drop_handler_state (t_exec X H h statement params))"
    by (auto simp: guarded_def drop_handler_state_def t_exec_def ensure_usable_def open_is_broken
        Let_def split: prod.splits res.splits dest!: a_drive_dropped)
  show "guarded (drop_handler_state (t_lowlevel_execute X H h portal max_rows))"
    by (auto simp: guarded_def drop_handler_state_def t_lowlevel_execute_def ensure_usable_def
        open_is_broken t_execute_inner_def Let_def split: prod.splits outcome.splits res.splits
        dest: a_send_dropped dest!: execute_open a_send_open)
qed

end
