(* ===== verification/TokioPortal.thy ===== *)
theory TokioPortal
  imports TokioFacts
begin

text \<open>
  The rest of \<open>src/tokio/conn.rs\<close>: batches of statements and of executions; with portals and
  transactions (\<open>src/tokio/unnamed_portal.rs\<close>, \<open>named_portal.rs\<close>, \<open>transaction.rs\<close>). The records
  and the chunking are those of the synchronous connection.
\<close>

section \<open>Driving the batch machines\<close>

text \<open>
  One round of the loop of \<open>prepare_batch_inner\<close> and of \<open>drive_batch\<close>: the two differ only in
  the text of their last error and in the record they make of the status, \<open>ending\<close>.
\<close>

definition a_batch_iter ::
    "('m \<Rightarrow> buffer_set \<Rightarrow> action res \<times> 'm \<times> buffer_set) \<Rightarrow>
       (action \<Rightarrow> 'm \<Rightarrow> tconn \<Rightarrow> unit res \<times> tconn) \<Rightarrow> 'm \<Rightarrow> nat \<times> tconn \<Rightarrow>
       (unit outcome \<times> 'm \<times> nat \<times> tconn) + ('m \<times> nat \<times> tconn)" where
  "a_batch_iter step ending m = (\<lambda>(n, t).
     let (r, m1, bs) = step m (t_bufs t); t1 = set_bufs bs t;
         go_on = (\<lambda>(q, s). case q of Returned (Ok _) \<Rightarrow> Inr (m1, s) | _ \<Rightarrow> Inl (q, m1, s))
     in case r of
          Err e \<Rightarrow> Inl (Returned (Err e), m1, n, t1)
        | Panic \<Rightarrow> Inl (Returned Panic, m1, n, t1)
        | Ok ReadMessage \<Rightarrow> go_on (a_read_message (n, t1))
        | Ok WriteAndReadMessage \<Rightarrow> go_on (fut_bind a_write_flush (\<lambda>_. a_read_message) (n, t1))
        | Ok a \<Rightarrow> (let (r1, t2) = ending a m1 t1 in Inl (Returned r1, m1, n, t2)))"

definition prepare_ending :: "action \<Rightarrow> batch_prepare \<Rightarrow> tconn \<Rightarrow> unit res \<times> tconn" where
  "prepare_ending a m t = (case a of
     Finished \<Rightarrow> (Ok (), t_set_tx (bp_tx m) (finish_exchange t))
   | _ \<Rightarrow> (Err (LibraryBug ''Unexpected action in batch prepare''), t))"

definition batch_ending :: "action \<Rightarrow> batch_machine \<Rightarrow> tconn \<Rightarrow> unit res \<times> tconn" where
  "batch_ending a m t = (case a of
     Finished \<Rightarrow> (Ok (), finish_exchange t)
   | ActionError server_error \<Rightarrow>
       (Err (Server server_error), finish_exchange (t_set_tx (bt_tx m) t))
   | _ \<Rightarrow> (Err (LibraryBug ''Unexpected action in batch''), t))"

lemma a_batch_iter_less:
  assumes "a_batch_iter step ending m (n, t) = Inr (m', n', t')"
  shows "n' < n"
proof -
  obtain r m1 bs where s: "step m (t_bufs t) = (r, m1, bs)" by (metis prod_cases3)
  with assms obtain a where r: "r = Ok a" by (cases r) (auto simp: a_batch_iter_def Let_def)
  show ?thesis
    using assms s r
    by (cases a)
      (auto simp: a_batch_iter_def Let_def fut_bind_Ok split: outcome.splits res.splits prod.splits
        dest!: a_read_message_less a_write_flush_less)
qed

function a_batch_loop ::
    "('m \<Rightarrow> buffer_set \<Rightarrow> action res \<times> 'm \<times> buffer_set) \<Rightarrow>
       (action \<Rightarrow> 'm \<Rightarrow> tconn \<Rightarrow> unit res \<times> tconn) \<Rightarrow> 'm \<Rightarrow> nat \<times> tconn \<Rightarrow>
       unit outcome \<times> 'm \<times> nat \<times> tconn" where
  "a_batch_loop step ending m s = (case a_batch_iter step ending m s of
     Inl r \<Rightarrow> r | Inr (m', s') \<Rightarrow> a_batch_loop step ending m' s')"
  by pat_completeness auto
termination
  by (relation "measure (\<lambda>(step, ending, m, s). fst s)") (auto intro: a_batch_iter_less)

declare a_batch_loop.simps [simp del]

text \<open>\<open>self.begin_exchange()?; loop\<close>\<close>

definition a_drive_batch ::
    "('m \<Rightarrow> buffer_set \<Rightarrow> action res \<times> 'm \<times> buffer_set) \<Rightarrow>
       (action \<Rightarrow> 'm \<Rightarrow> tconn \<Rightarrow> unit res \<times> tconn) \<Rightarrow> 'm \<Rightarrow> nat \<times> tconn \<Rightarrow>
       unit outcome \<times> 'm \<times> nat \<times> tconn" where
  "a_drive_batch step ending m = (\<lambda>(n, t). case begin_exchange t of
     (Ok _, t1) \<Rightarrow> a_batch_loop step ending m (n, t1)
   | (Err e, t1) \<Rightarrow> (Returned (Err e), m, n, t1)
   | (Panic, t1) \<Rightarrow> (Returned Panic, m, n, t1))"

section \<open>Batches\<close>

definition t_prepare_batch_inner :: "ext \<Rightarrow> str list \<Rightarrow> u64 \<Rightarrow> prepared_statement list fut" where
  "t_prepare_batch_inner X queries start_idx = (\<lambda>(n, t).
     let (sm, bs) = bp_new (t_bufs t) queries start_idx;
         (q, sm1, s) = a_drive_batch (bp_step X) prepare_ending sm (n, set_bufs bs t)
     in (outcome_map (\<lambda>_. bp_statements sm1) q, s))"

definition t_prepare_batch :: "ext \<Rightarrow> str list \<Rightarrow> prepared_statement list fut" where
  "t_prepare_batch X queries = usable (\<lambda>(n, t).
     if queries = [] then (Returned (Ok []), n, t)
     else let c = t_base t; start_idx = c_counter c + 1 in
       fut_mark (t_prepare_batch_inner X queries start_idx)
         (n, t\<lparr>t_base := c\<lparr>c_counter := c_counter c + word_of_nat (length queries)\<rparr>\<rparr>))"

definition t_exec_chunk ::
    "ext \<Rightarrow> statement_ref \<Rightarrow> oid list \<Rightarrow> str \<Rightarrow> to_params list \<Rightarrow> unit fut" where
  "t_exec_chunk X stmt_ref param_oids sname chunk = (\<lambda>(n, t).
     let w0 = (case stmt_ref of Sql sql \<Rightarrow> write_parse [] [] sql param_oids | Prepared _ \<Rightarrow> []);
         effective_stmt_name = (case stmt_ref of Sql _ \<Rightarrow> [] | Prepared _ \<Rightarrow> sname);
         (r, w1) = write_executions w0 effective_stmt_name param_oids chunk;
         filled = (\<lambda>w. set_bufs ((t_bufs t)\<lparr>write_buffer := w\<rparr>) t)
     in case r of
          Err e \<Rightarrow> (Returned (Err e), n, filled w1)
        | Panic \<Rightarrow> (Returned Panic, n, filled w1)
        | Ok _ \<Rightarrow>
            (let (q, sm, n1, t1) = a_drive_batch (batch_step X) batch_ending
                   (batch_new (case stmt_ref of Sql _ \<Rightarrow> True | Prepared _ \<Rightarrow> False))
                   (n, filled (write_sync w1))
             in (q, n1, if q = Returned (Ok ()) then t_set_tx (bt_tx sm) t1 else t1)))"

fun t_exec_chunks ::
    "ext \<Rightarrow> statement_ref \<Rightarrow> oid list \<Rightarrow> str \<Rightarrow> to_params list list \<Rightarrow> unit fut" where
  "t_exec_chunks X stmt_ref param_oids sname [] s = (Returned (Ok ()), s)"
| "t_exec_chunks X stmt_ref param_oids sname (chunk # cs) s =
     fut_bind (t_exec_chunk X stmt_ref param_oids sname chunk)
       (\<lambda>_. t_exec_chunks X stmt_ref param_oids sname cs) s"

definition t_exec_batch_inner :: "ext \<Rightarrow> statement_ref \<Rightarrow> to_params list \<Rightarrow> nat \<Rightarrow> unit fut" where
  "t_exec_batch_inner X statement params_list chunk_size s =
     (if params_list = [] then (Returned (Ok ()), s)
      else let (param_oids, sname) = (case statement of
               Sql _ \<Rightarrow> (natural_oids (hd params_list), [])
             | Prepared stmt \<Rightarrow> (ps_param_oids stmt, wire_name stmt))
           in t_exec_chunks X statement param_oids sname
                (chunks (max chunk_size 1) params_list) s)"

definition t_exec_batch_chunked :: "ext \<Rightarrow> statement_ref \<Rightarrow> to_params list \<Rightarrow> nat \<Rightarrow> unit fut" where
  "t_exec_batch_chunked X statement params_list chunk_size =
     usable (fut_mark (t_exec_batch_inner X statement params_list chunk_size))"

definition t_exec_batch :: "ext \<Rightarrow> statement_ref \<Rightarrow> to_params list \<Rightarrow> unit fut" where
  "t_exec_batch X statement params_list = t_exec_batch_chunked X statement params_list 1000"

section \<open>Portals\<close>

text \<open>A portal handle of \<open>exec_portal\<close> runs inside its scope, so without \<open>ensure_usable\<close>.\<close>

definition t_unnamed_exec ::
    "ext \<Rightarrow> 'h handler \<Rightarrow> 'h \<Rightarrow> u32 \<Rightarrow> nat \<times> tconn \<Rightarrow> bool outcome \<times> 'h \<times> nat \<times> tconn" where
  "t_unnamed_exec X H h max_rows = t_execute_inner X H h [] max_rows"

definition t_unnamed_exec_foreach ::
    "ext \<Rightarrow> (row_description \<Rightarrow> data_row \<Rightarrow> 'a res) \<Rightarrow> ('s \<Rightarrow> 'a \<Rightarrow> unit res \<times> 's) \<Rightarrow> 's \<Rightarrow> u32 \<Rightarrow>
       nat \<times> tconn \<Rightarrow> bool outcome \<times> 's \<times> nat \<times> tconn" where
  "t_unnamed_exec_foreach X from_row f st max_rows =
     t_unnamed_exec X (for_each_handler from_row f) st max_rows"

definition t_named_exec ::
    "ext \<Rightarrow> 'h handler \<Rightarrow> 'h \<Rightarrow> named_portal \<Rightarrow> u32 \<Rightarrow> nat \<times> tconn \<Rightarrow>
       unit outcome \<times> named_portal \<times> 'h \<times> nat \<times> tconn" where
  "t_named_exec X H h p max_rows s =
     (let (q, h1, s1) = t_lowlevel_execute X H h (np_name p) max_rows s in
      (outcome_map (\<lambda>_. ()) q,
       (case q of Returned (Ok has_more) \<Rightarrow> p\<lparr>np_complete := \<not> has_more\<rparr> | _ \<Rightarrow> p), h1, s1))"

definition t_named_exec_collect ::
    "ext \<Rightarrow> (row_description \<Rightarrow> data_row \<Rightarrow> 'a res) \<Rightarrow> named_portal \<Rightarrow> u32 \<Rightarrow> nat \<times> tconn \<Rightarrow>
       'a list outcome \<times> named_portal \<times> nat \<times> tconn" where
  "t_named_exec_collect X from_row p max_rows s =
     (let (q, p1, rows, s1) = t_named_exec X (collect_handler from_row) [] p max_rows s in
      (outcome_map (\<lambda>_. rows) q, p1, s1))"

definition t_named_exec_foreach ::
    "ext \<Rightarrow> (row_description \<Rightarrow> data_row \<Rightarrow> 'a res) \<Rightarrow> ('s \<Rightarrow> 'a \<Rightarrow> unit res \<times> 's) \<Rightarrow> 's \<Rightarrow>
       named_portal \<Rightarrow> u32 \<Rightarrow> nat \<times> tconn \<Rightarrow> unit outcome \<times> named_portal \<times> 's \<times> nat \<times> tconn" where
  "t_named_exec_foreach X from_row f st p max_rows s =
     t_named_exec X (for_each_handler from_row f) st p max_rows s"

definition t_named_close :: "ext \<Rightarrow> named_portal \<Rightarrow> unit fut" where
  "t_named_close X p = fut_bind (t_lowlevel_close_portal X (np_name p)) (\<lambda>_. t_lowlevel_sync X)"

section \<open>Transactions\<close>

text \<open>The methods of a \<open>Transaction\<close> refuse another connection than the one it was begun on.\<close>

definition own_connection :: "u32 \<Rightarrow> 'a fut \<Rightarrow> 'a fut" where
  "own_connection tx m = (\<lambda>(n, t).
     if tx \<noteq> conn_id (t_base t)
     then (Returned (Err (InvalidUsage ''connection mismatch: expected {}, got {}'')), n, t)
     else m (n, t))"

definition t_commit :: "ext \<Rightarrow> u32 \<Rightarrow> unit fut" where
  "t_commit X tx = own_connection tx
     (fut_bind (t_query_drop X (ascii ''COMMIT'')) (\<lambda>_ s. (Returned (Ok ()), s)))"

definition t_rollback :: "ext \<Rightarrow> u32 \<Rightarrow> unit fut" where
  "t_rollback X tx = own_connection tx
     (fut_bind (t_query_drop X (ascii ''ROLLBACK'')) (\<lambda>_ s. (Returned (Ok ()), s)))"

definition t_exec_portal_named ::
    "ext \<Rightarrow> u32 \<Rightarrow> statement_ref \<Rightarrow> to_params \<Rightarrow> named_portal fut" where
  "t_exec_portal_named X tx statement params = own_connection tx (\<lambda>(n, t).
     let (name, c1) = next_portal_name (t_base t) in
     fut_bind (fut_mark (t_create_portal X name statement params))
       (\<lambda>_ s. (Returned (Ok \<lparr>np_name = name, np_complete = False\<rparr>), s)) (n, t\<lparr>t_base := c1\<rparr>))"

end
