(* ===== verification/CancelFacts.thy ===== *)
theory CancelFacts
  imports TokioPortal Samples
begin

text \<open>
  The asynchronous connection as a whole: cancellation at every entry point, and what a
  connection that is usable after a query has done.
\<close>

section \<open>Every entry point is guarded\<close>

lemma guarded_prepare: "guarded (t_prepare_typed X query param_oids)"
  unfolding t_prepare_typed_def
  by (rule guardedI) (auto simp: fut_mark_Dropped t_prepare_inner_def Let_def open_is_broken
      split: prod.splits outcome.splits dest!: a_drive_dropped)

lemma guarded_close_statement: "guarded (t_close_statement X stmt)"
  unfolding t_close_statement_def
  by (rule guardedI) (auto simp: fut_mark_Dropped Let_def open_is_broken
      split: prod.splits dest!: a_drive_dropped)

lemma finish_open: "open_when_dropped (fut_lift (\<lambda>t. (Ok (), finish_exchange t)))"
  by (simp add: open_when_dropped_def fut_lift_def split: prod.splits)

lemma guarded_flush: "guarded t_lowlevel_flush"
  unfolding t_lowlevel_flush_def
  by (rule guardedI) (blast intro: open_is_broken send_then_open [OF finish_open])

lemma guarded_bind: "guarded (t_lowlevel_bind X portal statement_name params)"
  unfolding t_lowlevel_bind_def
  by (rule guardedI) (auto simp: fut_mark_Dropped Let_def split: prod.splits res.splits
      intro: open_is_broken send_then_open [OF await_open])

lemma guarded_close_portal: "guarded (t_lowlevel_close_portal X portal)"
  unfolding t_lowlevel_close_portal_def
  by (rule guardedI) (auto simp: fut_mark_Dropped intro: open_is_broken send_then_open [OF await_open])

lemma sync_inner_dropped: "t_sync_inner X (n, t) = (Dropped, n', t') \<Longrightarrow> t_exchange t'"
  unfolding t_sync_inner_def by (rule send_then_open [OF sync_open])

lemma guarded_sync: "guarded (t_lowlevel_sync X)"
  unfolding t_lowlevel_sync_def
  by (rule guardedI) (auto simp: fut_mark_Dropped intro: open_is_broken sync_inner_dropped)

lemma guarded_create_portal: "guarded (t_create_portal X portal statement params)"
  unfolding t_create_portal_def
  by (rule guardedI) (auto simp: Let_def split: prod.splits res.splits
      intro: open_is_broken begin_then_open [OF bind_open])

lemma batch_iter_open:
  assumes "a_batch_iter step ending m (n, t) = z"
  shows "case z of Inl (q, m', s') \<Rightarrow> q = Dropped \<longrightarrow> same_flags t (snd s')
    | Inr (m', s') \<Rightarrow> same_flags t (snd s')"
proof -
  obtain r m1 bs where s: "step m (t_bufs t) = (r, m1, bs)" by (metis prod_cases3)
  show ?thesis
  proof (cases r)
    case (Ok a)
    with assms s show ?thesis
      by (cases a) (auto simp: a_batch_iter_def Let_def same_flags_def
          split: outcome.splits res.splits prod.splits dest!: io_flags)
  qed (use assms s in \<open>auto simp: a_batch_iter_def Let_def\<close>)
qed

lemma batch_loop_open:
  "a_batch_loop step ending m s = (Dropped, m', s') \<Longrightarrow> t_exchange (snd s) \<Longrightarrow> t_exchange (snd s')"
proof (induction step ending m s arbitrary: s' rule: a_batch_loop.induct)
  case (1 step ending m s)
  obtain n t where s: "s = (n, t)" by (cases s)
  show ?case
  proof (cases "a_batch_iter step ending m s")
    case (Inl z)
    then have "z = (Dropped, m', s')" using 1(2) by (simp add: a_batch_loop.simps [of step ending m s])
    with Inl 1(3) batch_iter_open [of step ending m n t "Inl z"] s show ?thesis
      by (auto simp: same_flags_def)
  next
    case (Inr z)
    obtain m1 s1 where z: "z = (m1, s1)" by (cases z)
    then have "a_batch_loop step ending m1 s1 = (Dropped, m', s')"
      using Inr 1(2) by (simp add: a_batch_loop.simps [of step ending m s])
    moreover have "t_exchange (snd s1)"
      using Inr z 1(3) batch_iter_open [of step ending m n t "Inr z"] s by (auto simp: same_flags_def)
    ultimately show ?thesis using 1(1) [OF Inr z [symmetric]] by simp
  qed
qed

lemma drive_batch_dropped:
  "a_drive_batch step ending m (n, t) = (Dropped, m', n', t') \<Longrightarrow> t_exchange t'"
  by (auto simp: a_drive_batch_def begin_exchange_def ensure_exchange_ready_def split: if_splits
      dest!: batch_loop_open)

lemma outcome_map_Dropped [simp]:
  "outcome_map f q = Dropped \<longleftrightarrow> q = Dropped" "Dropped = outcome_map f q \<longleftrightarrow> q = Dropped"
  by (cases q; simp)+

lemma guarded_prepare_batch: "guarded (t_prepare_batch X queries)"
  unfolding t_prepare_batch_def
  by (rule guardedI) (auto simp: fut_mark_Dropped t_prepare_batch_inner_def Let_def open_is_broken
      split: prod.splits if_splits dest!: drive_batch_dropped)

lemma exec_chunk_dropped:
  "t_exec_chunk X statement oids name chunk (n, t) = (Dropped, n', t') \<Longrightarrow> t_exchange t'"
  by (auto simp: t_exec_chunk_def Let_def split: prod.splits res.splits if_splits
      dest!: drive_batch_dropped)

lemma exec_chunks_dropped:
  "t_exec_chunks X statement oids name cs s = (Dropped, n', t') \<Longrightarrow> t_exchange t'"
proof (induction cs arbitrary: s)
  case (Cons chunk cs)
  then show ?case
    by (cases s) (auto simp: fut_bind_def split: prod.splits outcome.splits res.splits
        dest: exec_chunk_dropped)
qed simp

lemma guarded_exec_batch: "guarded (t_exec_batch_chunked X statement params_list chunk_size)"
  unfolding t_exec_batch_chunked_def
  by (rule guardedI) (auto simp: fut_mark_Dropped t_exec_batch_inner_def Let_def open_is_broken
      split: if_splits statement_ref.splits dest!: exec_chunks_dropped)

text \<open>A closure of \<open>exec_portal\<close> has the portal handle only, which leaves the scope as it is.\<close>

definition keeps_scope :: "'a fut \<Rightarrow> bool" where
  "keeps_scope f \<longleftrightarrow> (\<forall>s q s'. f s = (q, s') \<longrightarrow> t_scope (snd s') = t_scope (snd s))"

lemma bind_loop_scope:
  "a_bind_loop X m s = (q, s') \<Longrightarrow> t_scope (snd s') = t_scope (snd s)"
proof (induction X m s arbitrary: s' rule: a_bind_loop.induct)
  case (1 X m s)
  have it: "case a_bind_iter X m s of Inl (q, s') \<Rightarrow> t_scope (snd s') = t_scope (snd s)
    | Inr (m', s') \<Rightarrow> t_scope (snd s') = t_scope (snd s)"
  proof -
    obtain n t where s: "s = (n, t)" by (cases s)
    obtain r m1 bs where b: "bind_step X m (t_bufs t) = (r, m1, bs)" by (metis prod_cases3)
    show ?thesis
    proof (cases r)
      case (Ok a)
      with s b show ?thesis
        by (cases a) (auto simp: a_bind_iter_def Let_def same_flags_def finish_exchange_def
            split: outcome.splits res.splits prod.splits sum.splits dest!: io_flags)
    qed (use s b in \<open>auto simp: a_bind_iter_def Let_def\<close>)
  qed
  show ?case
  proof (cases "a_bind_iter X m s")
    case (Inl z)
    then show ?thesis using 1(2) it by (simp add: a_bind_loop.simps [of X m s])
  next
    case (Inr z)
    then show ?thesis using 1(2) it 1(1) [OF Inr, of "fst z" "snd z" s']
      by (simp add: a_bind_loop.simps [of X m s] split: prod.splits)
  qed
qed

lemma guarded_exec_portal:
  assumes "keeps_scope f"
  shows "guarded (t_exec_portal X statement params f)"
  unfolding t_exec_portal_def
proof (rule guardedI)
  fix n t n' t'
  assume d: "fut_mark (t_exec_portal_inner X statement params f) (n, t) = (Dropped, n', t')"
  obtain r bs where b: "bind_start [] statement params (t_bufs t) = (r, bs)"
    by (cases "bind_start [] statement params (t_bufs t)")
  let ?t = "set_bufs bs t\<lparr>t_scope := True\<rparr>"
  from d b obtain sm where r: "r = Ok sm"
    by (cases r) (auto simp: fut_mark_Dropped t_exec_portal_inner_def Let_def)
  show "t_is_broken t'"
  proof (cases "ensure_exchange_ready ?t = Ok ()")
    case False
    with d b r show ?thesis
      by (auto simp: fut_mark_Dropped t_exec_portal_inner_def Let_def fut_bind_def fut_lift_def
          begin_exchange_def ensure_exchange_ready_def split: if_splits)
  next
    case True
    obtain q s1 where l: "a_bind_loop X sm (n, ?t\<lparr>t_exchange := True\<rparr>) = (q, s1)"
      by (cases "a_bind_loop X sm (n, ?t\<lparr>t_exchange := True\<rparr>)")
    from bind_loop_scope [OF this] have sc: "t_scope (snd s1)" by simp
    have bo: "q = Dropped \<Longrightarrow> t_exchange (snd s1)"
      using l bind_open [of X sm, unfolded open_when_dropped_def, rule_format,
          of "(n, ?t\<lparr>t_exchange := True\<rparr>)" s1] by simp
    from assms have fs: "f s1 = (p, s2) \<Longrightarrow> t_scope (snd s2)" for p s2
      using sc unfolding keeps_scope_def by metis
    from d b r True l bo show ?thesis
      by (auto simp: fut_mark_Dropped t_exec_portal_inner_def Let_def fut_bind_def fut_lift_def
          begin_exchange_def t_is_broken_def t_portal_end_def
          split: prod.splits outcome.splits res.splits dest: fs sync_inner_dropped)
  qed
qed

lemma execute_round_scope:
  assumes "a_next_message s = (Returned (Ok u), s1)"
  shows "(\<exists>h1 b1. a_execute_loop X H h b s = a_execute_loop X H h1 b1 s1) \<or>
    t_scope (snd (snd (snd (a_execute_loop X H h b s)))) = t_scope (snd s1)"
  unfolding a_execute_loop.simps [of X H h b s] assms
  by (cases s1) (simp add: Let_def finish_exchange_def split: res.split prod.split, blast?)

lemma execute_loop_scope:
  "a_execute_loop X H h b s = (q, h', s') \<Longrightarrow> t_scope (snd s') = t_scope (snd s)"
proof (induction "fst s" arbitrary: h b s rule: less_induct)
  case less
  obtain r s1 where rd: "a_next_message s = (r, s1)" by (cases "a_next_message s")
  with next_message_flags [OF rd] have e: "t_scope (snd s1) = t_scope (snd s)"
    by (simp add: same_flags_def)
  show ?case
  proof (cases "\<exists>u. r = Returned (Ok u)")
    case True
    then obtain u where ok: "a_next_message s = (Returned (Ok u), s1)" using rd by blast
    from execute_round_scope [OF ok, of X H h b] show ?thesis
    proof
      assume "\<exists>h1 b1. a_execute_loop X H h b s = a_execute_loop X H h1 b1 s1"
      then obtain h1 b1 where "a_execute_loop X H h1 b1 s1 = (q, h', s')" using less.prems by auto
      from less.hyps [OF a_next_message_less [OF ok] this] e show ?thesis by simp
    qed (use less.prems e in simp)
  next
    case False
    with less.prems rd e show ?thesis
      by (simp add: a_execute_loop.simps [of X H h b s] split: outcome.splits res.splits)
  qed
qed

lemma portal_keeps_scope: "keeps_scope (drop_handler_state (t_unnamed_exec X H h max_rows))"
proof -
  have send: "a_send w s = (q, s') \<Longrightarrow> t_scope (snd s') = t_scope (snd s)" for w s q s'
    by (cases s; cases s') (auto simp: a_send_def fut_bind_def fut_lift_def begin_exchange_def
        ensure_exchange_ready_def same_flags_def split: if_splits dest!: write_flags)
  show ?thesis
    by (auto simp: keeps_scope_def drop_handler_state_def t_unnamed_exec_def t_execute_inner_def
        Let_def split: prod.splits outcome.splits res.splits dest!: execute_loop_scope send)
qed

text \<open>
  C13: Cancelling a future at any point cannot hide an unfinished exchange. Every entry point of
  the asynchronous connection (queries, prepares, executions, batches, the low-level messages,
  portals) refuses a connection that is not usable without touching it, and leaves one that is
  not usable when it is dropped before it returned, wherever the transfer stood; \<open>exec_portal\<close>
  does so for every closure that leaves the scope alone, as the portal handle's methods do.
\<close>

theorem entry_points_cancel_safe:
  "guarded (drop_handler_state (t_query X H h sql)) \<and>
   guarded (t_prepare_typed X query param_oids) \<and>
   guarded (t_prepare_batch X queries) \<and>
   guarded (drop_handler_state (t_exec X H h statement params)) \<and>
   guarded (t_exec_batch_chunked X statement params_list chunk_size) \<and>
   guarded (t_close_statement X stmt) \<and>
   guarded t_lowlevel_flush \<and>
   guarded (t_lowlevel_sync X) \<and>
   guarded (t_lowlevel_bind X portal statement_name params) \<and>
   guarded (drop_handler_state (t_lowlevel_execute X H h portal max_rows)) \<and>
   guarded (t_lowlevel_close_portal X portal) \<and>
   guarded (t_create_portal X portal statement params) \<and>
   (keeps_scope f \<longrightarrow> guarded (t_exec_portal X statement params f))"
  by (simp add: guarded_queries guarded_prepare guarded_prepare_batch guarded_exec_batch
      guarded_close_statement guarded_flush guarded_sync guarded_bind guarded_close_portal
      guarded_create_portal guarded_exec_portal)

definition tconn0 :: "bytes \<Rightarrow> tconn" where
  "tconn0 d = \<lparr>t_base = conn0 d, t_exchange = False, t_scope = False\<rparr>"

lemma dropped0:
  "fst (t_exec_portal ext0 (Sql [97]) params0
     (drop_handler_state (t_unnamed_exec ext0 drop_handler None 10)) (3, tconn0 [])) = Dropped"
  by code_simp

theorem entry_points_cancel_safe_witness:
  "\<exists>n' t'. t_exec_portal ext0 (Sql [97]) params0
     (drop_handler_state (t_unnamed_exec ext0 drop_handler None 10)) (3, tconn0 []) =
       (Dropped, n', t') \<and> t_is_broken t'"
proof -
  let ?f = "drop_handler_state (t_unnamed_exec ext0 drop_handler None 10)"
  obtain n' t' where r: "t_exec_portal ext0 (Sql [97]) params0 ?f (3, tconn0 []) = (Dropped, n', t')"
    using dropped0 by (metis prod_cases3 fst_conv)
  have "guarded (t_exec_portal ext0 (Sql [97]) params0 ?f)"
    using entry_points_cancel_safe [where X = ext0 and H = drop_handler and h = None
      and statement = "Sql [97]" and params = params0 and f = ?f]
    by (simp add: portal_keeps_scope)
  with r have "t_is_broken t'"
    unfolding guarded_def by (cases "t_is_broken (tconn0 [])") fastforce+
  with r show ?thesis by blast
qed

section \<open>A connection that is usable after a query\<close>

lemma query_at_boundary:
  assumes "t_query X H h sql (n, t) = (q, h', n', t')" and "\<not> t_is_broken t'"
  shows "\<not> t_is_broken t \<and> (\<exists>r. q = Returned r \<and> r \<noteq> Panic) \<and>
    at_boundary (inp (c_stream (t_base t))) (inp (c_stream (t_base t'))) (c_tx (t_base t')) \<and>
    out (c_stream (t_base t')) = out (c_stream (t_base t)) @ F_QUERY # framed (sql @ [0])"
proof -
  have u: "\<not> t_is_broken t"
    using assms by (auto simp: t_query_def ensure_usable_def split: if_splits)
  then obtain m' t1 where d: "a_drive (sq_step X H) sq_tx (sq_new h sql) (n, t) = (q, m', n', t1)"
      "t' = t_mark q t1"
    using assms(1) by (auto simp: t_query_def ensure_usable_def split: prod.splits)
  from assms(2) d(2) have "\<not> t_exchange t1" by (auto simp: t_is_broken_def)
  from sq.a_drive_boundary [OF sq_new_initial sq_new_step d(1) u this] u d(2) show ?thesis
    by (auto simp: t_mark_def mark_broken_def split: res.splits)
qed

text \<open>
  C14: A connection that is usable after an asynchronous query is in step with the server, for
  any handler, any bytes the peer sends and any point of cancellation: it was usable before, the
  query ran to an end, exactly the messages up to the first ReadyForQuery have been read and
  its status recorded, and exactly one Query message has been written. (The synchronous query
  lacks this for handlers that fail.)
\<close>

theorem usable_after_query_at_boundary:
  assumes "t_query X H h sql (n, t) = (q, h', n', t')" and "\<not> t_is_broken t'"
  shows "\<not> t_is_broken t \<and> (\<exists>r. q = Returned r \<and> r \<noteq> Panic) \<and>
    at_boundary (inp (c_stream (t_base t))) (inp (c_stream (t_base t'))) (c_tx (t_base t')) \<and>
    out (c_stream (t_base t')) = out (c_stream (t_base t)) @ F_QUERY # framed (sql @ [0])"
  by (rule query_at_boundary [OF assms])

lemma usable0:
  "case t_query ext0 drop_handler None [97]
      (100, tconn0 (90 # 0 # 0 # 0 # 5 # 84 # [78])) of (q, h, n', t') \<Rightarrow>
     q = Returned (Ok ()) \<and> h = None \<and> \<not> t_is_broken t'"
  by code_simp

theorem usable_after_query_at_boundary_witness:
  "\<exists>n' t'. t_query ext0 drop_handler None [97]
      (100, tconn0 (90 # 0 # 0 # 0 # 5 # 84 # [78])) = (Returned (Ok ()), None, n', t') \<and>
     at_boundary (90 # 0 # 0 # 0 # 5 # 84 # [78]) (inp (c_stream (t_base t'))) (c_tx (t_base t'))"
proof -
  obtain n' t' where r: "t_query ext0 drop_handler None [97]
      (100, tconn0 (90 # 0 # 0 # 0 # 5 # 84 # [78])) = (Returned (Ok ()), None, n', t')"
     "\<not> t_is_broken t'"
    using usable0 by (auto split: prod.splits)
  from usable_after_query_at_boundary [OF r] r(1) show ?thesis by (simp add: tconn0_def)
qed

end
