(* ===== verification/TokioPoolFacts.thy ===== *)
theory TokioPoolFacts
  imports TokioPool PoolFacts CancelFacts
begin

text \<open>
  The asynchronous pool, whatever the interleaving of its tasks and wherever they are cancelled:
  permits are never lost, what state an idle connection is in, and that a waiting task can
  always get its turn.
\<close>

section \<open>A query that succeeded\<close>

lemma a_drive_iter_Ok:
  assumes "a_drive_iter step tx m (n, t) = Inl (Returned (Ok u), m', n', t')"
  shows "\<not> t_exchange t'"
proof -
  obtain r m1 bs where s: "step m (t_bufs t) = (r, m1, bs)" by (metis prod_cases3)
  with assms obtain a where "r = Ok a" by (cases r) (auto simp: a_drive_iter_def Let_def)
  with assms s show ?thesis
    by (cases a) (auto simp: a_drive_iter_def Let_def t_set_tx_def finish_exchange_def
        split: outcome.splits res.splits prod.splits)
qed

lemma a_drive_loop_Ok:
  "a_drive_loop step tx m s = (Returned (Ok u), m', s') \<Longrightarrow> \<not> t_exchange (snd s')"
proof (induction step tx m s rule: a_drive_loop.induct)
  case (1 step tx m s)
  show ?case
  proof (cases "a_drive_iter step tx m s")
    case (Inl z)
    with 1(2) a_drive_iter_Ok [of step tx m "fst s" "snd s" u m' "fst s'" "snd s'"] show ?thesis
      by (simp add: a_drive_loop.simps [of step tx m s])
  next
    case (Inr z)
    with 1 show ?thesis by (cases z) (simp add: a_drive_loop.simps [of step tx m s])
  qed
qed

lemma query_ok_usable:
  assumes "t_query X H h sql (n, t) = (Returned (Ok u), h', n', t')"
  shows "\<not> t_is_broken t' \<and>
    at_boundary (inp (c_stream (t_base t))) (inp (c_stream (t_base t'))) (c_tx (t_base t'))"
proof -
  have u: "\<not> t_is_broken t"
    using assms by (auto simp: t_query_def ensure_usable_def split: if_splits)
  then obtain m' where d: "a_drive (sq_step X H) sq_tx (sq_new h sql) (n, t) = (Returned (Ok u), m', n', t')"
    using assms
    by (auto simp: t_query_def ensure_usable_def t_mark_def mark_broken_def split: prod.splits)
  then have "\<not> t_exchange t'"
    by (auto simp: a_drive_def begin_exchange_def ensure_exchange_ready_def split: if_splits
        dest: a_drive_loop_Ok)
  from sq.a_drive_boundary [OF sq_new_initial sq_new_step d u this] show ?thesis by simp
qed

section \<open>The invariant\<close>

text \<open>A task owns a permit from the end of the wait to the end of the destructor.\<close>

fun t_holds :: "t_client \<Rightarrow> bool" where
  "t_holds TTaking = True"
| "t_holds (TPinging _) = True"
| "t_holds TConnecting = True"
| "t_holds (TUsing _) = True"
| "t_holds TReleasing = True"
| "t_holds _ = False"

definition t_idle_ok :: "ext \<Rightarrow> tconn \<Rightarrow> bool" where
  "t_idle_ok X c \<longleftrightarrow> \<not> t_is_broken c \<and>
     (\<exists>c0 n n' k. t_query_drop X (ascii ''DISCARD ALL'') (n, c0) = (Returned (Ok k), n', c) \<and>
        at_boundary (inp (c_stream (t_base c0))) (inp (c_stream (t_base c))) (c_tx (t_base c)))"

definition t_pool_inv ::
    "ext \<Rightarrow> ('q \<Rightarrow> nat) \<Rightarrow> ('q \<Rightarrow> tconn list) \<Rightarrow> ('s \<Rightarrow> nat) \<Rightarrow> opts \<Rightarrow> ('q, 's) t_world \<Rightarrow> bool" where
  "t_pool_inv X cap items count options w \<longleftrightarrow> (case w of (p, ks) \<Rightarrow>
     cap (tp_conns p) = o_pool_max_idle_conn options \<and>
     length (items (tp_conns p)) \<le> o_pool_max_idle_conn options \<and>
     (\<forall>c \<in> set (items (tp_conns p)). t_idle_ok X c) \<and> (\<forall>c. TPushing c \<in> set ks \<longrightarrow> t_idle_ok X c) \<and>
     (case o_pool_max_concurrency options of
        None \<Rightarrow> tp_semaphore p = None
      | Some n \<Rightarrow> \<exists>s. tp_semaphore p = Some s \<and> int (count s) = int n - many t_holds ks))"

definition t_env_laws ::
    "('q, 's) t_pool_env \<Rightarrow> ('q \<Rightarrow> nat) \<Rightarrow> ('q \<Rightarrow> tconn list) \<Rightarrow> ('s \<Rightarrow> nat) \<Rightarrow> bool" where
  "t_env_laws E cap items count \<longleftrightarrow>
     queue_laws (te_queue E) cap items \<and> tokio_semaphore_laws (te_sem E) count"

lemma t_check_in_pushes:
  assumes "t_check_in E n c = TPushing c'"
  shows "t_idle_ok (te_ext E) c'"
proof -
  obtain k n' where q: "t_query_drop (te_ext E) (ascii ''DISCARD ALL'') (n, c) = (Returned (Ok k), n', c')"
    using assms by (auto simp: t_check_in_def split: if_splits outcome.splits res.splits prod.splits)
  obtain r h m t where t: "t_query (te_ext E) drop_handler None (ascii ''DISCARD ALL'') (n, c) = (r, h, m, t)"
    by (metis prod_cases4)
  with q obtain u where "r = Returned (Ok u)" "m = n'" "t = c'"
    by (cases r rule: outcome.exhaust; cases "case r of Returned z \<Rightarrow> z | Dropped \<Rightarrow> Panic")
      (auto simp: t_query_drop_def with_rows_def)
  with t have "t_query (te_ext E) drop_handler None (ascii ''DISCARD ALL'') (n, c) = (Returned (Ok u), h, n', c')"
    by simp
  from query_ok_usable [OF this] q show ?thesis by (auto simp: t_idle_ok_def)
qed

lemma t_pool_new_inv:
  assumes "t_env_laws E cap items count" and "t_pool_new E options = Ok p"
  shows "t_pool_inv X cap items count options (p, [])"
proof -
  from assms(2) obtain sem q where new: "ql_new (te_queue E) (o_pool_max_idle_conn options) = Ok q"
      "p = \<lparr>tp_opts = options, tp_conns = q, tp_semaphore = sem\<rparr>"
      "(case o_pool_max_concurrency options of
         None \<Rightarrow> Ok None | Some n \<Rightarrow> rmap Some (ts_new (te_sem E) n)) = Ok sem"
    by (auto simp: t_pool_new_def rmap_eq_Ok rbind_eq_Ok)
  with assms(1) queue_new [of "te_queue E" cap items "o_pool_max_idle_conn options" q]
    tokio_semaphore_facts(1) [of "te_sem E" count]
  show ?thesis by (auto simp: t_env_laws_def t_pool_inv_def rmap_eq_Ok split: option.splits)
qed


text \<open>A task that keeps its permit and queues nothing keeps the invariant; so does one that returns it.\<close>

lemma t_inv_local:
  assumes "t_pool_inv X cap items count options (p, ks)" and "i < length ks"
    and "t_holds k = t_holds (ks ! i)" and "\<And>c. k = TPushing c \<Longrightarrow> t_idle_ok X c"
  shows "t_pool_inv X cap items count options (p, ks[i := k])"
  using assms by (auto simp: t_pool_inv_def many_update dest: set_update split: option.splits)

lemma t_inv_release:
  assumes "t_env_laws E cap items count" and "t_pool_inv X cap items count options (p, ks)"
    and "i < length ks" and "t_holds (ks ! i)"
  shows "t_pool_inv X cap items count options (t_release E p, ks[i := TEnded e])"
  using assms tokio_semaphore_facts(2) [of "te_sem E" count]
  by (auto simp: t_pool_inv_def t_release_def t_env_laws_def many_update dest: set_update
      split: option.splits)

lemma t_client_outcomes:
  "t_ping_client E n c p = (p', k) \<Longrightarrow>
     p' = p \<and> (k = TTaking \<or> (\<exists>c'. k = TUsing c')) \<or> p' = t_release E p \<and> (\<exists>e. k = TEnded e)"
  "t_connect_client E N n p = (p', k) \<Longrightarrow>
     p' = p \<and> (\<exists>c'. k = TUsing c') \<or> p' = t_release E p \<and> (\<exists>e. k = TEnded e)"
  "(\<exists>e. t_check_in E n c = TEnded e) \<or> (\<exists>c'. t_check_in E n c = TPushing c')"
  by (auto simp: t_ping_client_def t_connect_client_def t_check_in_def
      split: outcome.splits res.splits prod.splits)

lemma t_pool_step_inv:
  assumes laws: "t_env_laws E cap items count" and "t_pool_step E w w'"
    and "t_pool_inv (te_ext E) cap items count options w"
  shows "t_pool_inv (te_ext E) cap items count options w'"
  using assms(2)
proof cases
  case (come p ks)
  with assms(3) show ?thesis by (auto simp: t_pool_inv_def split: option.splits)
next
  case (drop i ks c p)
  with assms(3) show ?thesis
    by (auto simp: t_pool_inv_def many_update dest: set_update split: option.splits)
next
  case (go i ks p p' k)
  note inv = assms(3)[unfolded go(1)]
  have Q: "queue_laws (te_queue E) cap items" and S: "tokio_semaphore_laws (te_sem E) count"
    using laws by (simp_all add: t_env_laws_def)
  from go(4) show ?thesis
  proof cases
    case acquire
    with inv go tokio_semaphore_facts(3,4) [OF S] show ?thesis
      by (fastforce simp: t_pool_inv_def t_acquire_def many_update dest: set_update split: option.splits)
  next
    case give_up
    with inv go show ?thesis by (auto intro!: t_inv_local)
  next
    case take
    show ?thesis
    proof (cases "ql_pop (te_queue E) (tp_conns p)")
      case None
      with inv go take show ?thesis by (auto simp: t_take_idle_def intro!: t_inv_local)
    next
      case (Some cq)
      then obtain c q where pop: "ql_pop (te_queue E) (tp_conns p) = Some (c, q)" by (cases cq) auto
      with take have "k = TPinging c" "p' = p\<lparr>tp_conns := q\<rparr>" by (auto simp: t_take_idle_def)
      with inv go take queue_pop(1) [OF Q pop] show ?thesis
        by (auto simp: t_pool_inv_def many_update dest: set_update split: option.splits)
    qed
  next
    case (ping c n)
    with t_client_outcomes(1) [of E n c p p' k] go inv show ?thesis
      by (auto intro!: t_inv_local t_inv_release [OF laws])
  next
    case (connect N n)
    with t_client_outcomes(2) [of E N n p p' k] go inv show ?thesis
      by (auto intro!: t_inv_local t_inv_release [OF laws])
  next
    case (use c c')
    with go inv show ?thesis by (auto intro!: t_inv_local)
  next
    case release
    with go inv show ?thesis by (auto intro!: t_inv_release [OF laws])
  next
    case (check c n)
    with t_client_outcomes(3) [of E n c] t_check_in_pushes [of E n c] go inv show ?thesis
      by (auto intro!: t_inv_local)
  next
    case (push c)
    then have "TPushing c \<in> set ks" using go(3) nth_mem by metis
    with inv push go queue_push [OF Q, of c "tp_conns p"] show ?thesis
      by (auto simp: t_pool_inv_def t_push_idle_def many_update dest: set_update
          split: option.splits if_splits)
  qed
qed

lemma t_pool_reachable_inv:
  assumes "t_env_laws E cap items count" and "t_pool_reachable E options w"
  shows "t_pool_inv (te_ext E) cap items count options w"
proof -
  obtain p where p: "t_pool_new E options = Ok p" "(t_pool_step E)\<^sup>*\<^sup>* (p, []) w"
    using assms(2) by (auto simp: t_pool_reachable_def)
  from p(2) show ?thesis
    by (induction rule: rtranclp_induct)
      (auto intro: t_pool_new_inv [OF assms(1) p(1)] t_pool_step_inv [OF assms(1)])
qed


text \<open>
  C31: The asynchronous pool never loses a permit, however its tasks interleave and wherever each of
  them is cancelled, fails or panics: the semaphore and the tasks that own a permit always add
  up to the limit. At most \<open>pool_max_idle_conn\<close> connections are idle, and every idle connection
  is usable and at a message boundary, the last exchange on it being a DISCARD ALL that succeeded.
\<close>

theorem tokio_pool_bounded:
  assumes "t_env_laws E cap items count" and "t_pool_reachable E options (p, ks)"
  shows "length (items (tp_conns p)) \<le> o_pool_max_idle_conn options \<and>
    (\<forall>n. o_pool_max_concurrency options = Some n \<longrightarrow>
       (\<exists>s. tp_semaphore p = Some s \<and> int (count s) + many t_holds ks = int n)) \<and>
    (\<forall>c \<in> set (items (tp_conns p)). t_idle_ok (te_ext E) c)"
  using t_pool_reachable_inv [OF assms] by (auto simp: t_pool_inv_def)

text \<open>
  A list as queue, a number as semaphore. A pool of one connection whose options name no host:
  the first task's \<open>get\<close> fails and gives the permit back, the second task waits.
\<close>

definition nat_semaphore :: "nat tokio_semaphore_lib" where
  "nat_semaphore = \<lparr>ts_new = Ok,
     ts_acquire = (\<lambda>n. if n = 0 then None else Some (Some (n - 1))), ts_release = Suc\<rparr>"

definition t_env0 :: "(nat \<times> tconn list, nat) t_pool_env" where
  "t_env0 = \<lparr>te_ext = ext0, te_build = \<lparr>b_tls = True, b_sync_tls = True, b_upgrade = Ok, b_nonce = [120]\<rparr>,
     te_queue = list_queue, te_sem = nat_semaphore\<rparr>"

definition t_pool0 :: "nat \<Rightarrow> (nat \<times> tconn list, nat) t_pool" where
  "t_pool0 n = \<lparr>tp_opts = pool_opts0, tp_conns = (100, []), tp_semaphore = Some n\<rparr>"

definition refused0 :: "t_client list" where
  "refused0 = [TEnded (Some (InvalidUsage ''host is empty'')), TWaiting]"

lemma t_env0_laws: "t_env_laws t_env0 fst snd id"
  by (auto simp: t_env_laws_def t_env0_def queue_laws_def list_queue_def tokio_semaphore_laws_def
      nat_semaphore_def split: list.splits)

lemma t_pool0_reachable: "t_pool_reachable t_env0 pool_opts0 (t_pool0 1, refused0)"
proof -
  have new: "t_pool_new t_env0 pool_opts0 = Ok (t_pool0 1)"
    by (simp add: t_pool_new_def t_env0_def list_queue_def nat_semaphore_def pool_opts0_def
        t_pool0_def opts_default_def)
  have c1: "t_client_step t_env0 (t_pool0 1, TWaiting) (t_pool0 0, TTaking)"
    by (rule t_client_step.acquire) (simp add: t_acquire_def t_pool0_def t_env0_def nat_semaphore_def)
  have "t_take_idle t_env0 (t_pool0 0) = (t_pool0 0, TConnecting)"
    by (simp add: t_take_idle_def t_pool0_def t_env0_def list_queue_def)
  with t_client_step.take [of t_env0 "t_pool0 0"]
  have c2: "t_client_step t_env0 (t_pool0 0, TTaking) (t_pool0 0, TConnecting)" by simp
  have "t_connect_client t_env0 undefined 9 (t_pool0 0) =
      (t_pool0 1, TEnded (Some (InvalidUsage ''host is empty'')))"
    by (simp add: t_connect_client_def a_conn_new_def t_release_def t_env0_def nat_semaphore_def
        t_pool0_def pool_opts0_def opts_default_def)
  with t_client_step.connect [of t_env0 "t_pool0 0" undefined 9]
  have c3: "t_client_step t_env0 (t_pool0 0, TConnecting)
      (t_pool0 1, TEnded (Some (InvalidUsage ''host is empty'')))" by simp
  note s = t_pool_step.come [of t_env0 "t_pool0 1" "[]"] t_pool_step.come [of t_env0 "t_pool0 1" "[TWaiting]"]
    t_pool_step.go [of 0 "[TWaiting, TWaiting]", simplified, OF c1]
    t_pool_step.go [of 0 "[TTaking, TWaiting]", simplified, OF c2]
    t_pool_step.go [of 0 "[TConnecting, TWaiting]", simplified, OF c3]
  have "(t_pool_step t_env0)\<^sup>*\<^sup>* (t_pool0 1, []) (t_pool0 1, refused0)"
    using s by (simp add: refused0_def)
  with new show ?thesis by (auto simp: t_pool_reachable_def)
qed

lemma tokio_pool_bounded_witness:
  "\<exists>s. tp_semaphore (t_pool0 1) = Some s \<and> int s + many t_holds refused0 = 1"
  using tokio_pool_bounded [OF t_env0_laws t_pool0_reachable] by (simp add: pool_opts0_def)

section \<open>Waiting\<close>

text \<open>
  What a task \<open>i\<close> that owns a permit can do without any other task: get to its end, with the
  permit given back.
\<close>

definition gives_back :: "('q, 's) t_pool_env \<Rightarrow> nat \<Rightarrow> ('q, 's) t_world \<Rightarrow> bool" where
  "gives_back E i w \<longleftrightarrow> (\<exists>p ks. (t_pool_step E)\<^sup>*\<^sup>* w (p, ks) \<and> length (snd w) \<le> length ks \<and>
     (\<forall>j < length (snd w). j \<noteq> i \<longrightarrow> ks ! j = snd w ! j) \<and> many t_holds ks = many t_holds (snd w) - 1)"

lemma gives_back_end:
  "t_pool_step E (p, ks) (p', ks[i := TEnded e]) \<Longrightarrow> i < length ks \<Longrightarrow> t_holds (ks ! i) \<Longrightarrow>
     gives_back E i (p, ks)"
  unfolding gives_back_def
  by (rule exI [of _ p'], rule exI [of _ "ks[i := TEnded e]"]) (auto simp: many_update)

lemma gives_back_step:
  assumes "t_pool_step E (p, ks) (p', ks[i := k] @ ls)" and "i < length ks"
    and "t_holds k = t_holds (ks ! i)" and "many t_holds ls = 0" and "gives_back E i (p', ks[i := k] @ ls)"
  shows "gives_back E i (p, ks)"
proof -
  obtain q js where *: "(t_pool_step E)\<^sup>*\<^sup>* (p', ks[i := k] @ ls) (q, js)" "length ks \<le> length js"
      "\<forall>j < length ks. j \<noteq> i \<longrightarrow> js ! j = ks ! j" "many t_holds js = many t_holds ks - 1"
    using assms(2-5) by (fastforce simp: gives_back_def many_update nth_append)
  from converse_rtranclp_into_rtranclp [of "t_pool_step E", OF assms(1) *(1)] *(2-4) show ?thesis
    unfolding gives_back_def by auto
qed

lemma gives_back_using:
  assumes "i < length ks" and "ks ! i = TUsing c"
  shows "gives_back E i (p, ks)"
proof (rule gives_back_step [OF t_pool_step.drop [OF assms]])
  let ?ks = "ks[i := TReleasing] @ [TCheckingIn c]"
  have "t_pool_step E (p, ?ks) (t_release E p, ?ks[i := TEnded None])"
    by (rule t_pool_step.go) (use assms t_client_step.release in \<open>simp_all add: nth_append\<close>)
  from gives_back_end [OF this] assms show "gives_back E i (p, ?ks)" by (simp add: nth_append)
qed (use assms in simp_all)

lemma gives_back_go:
  assumes "i < length ks" and "t_holds (ks ! i)" and "t_client_step E (p, ks ! i) (p', k)"
    and "(\<exists>c. k = TUsing c) \<or> (\<exists>e. k = TEnded e) \<or> t_holds k \<and> gives_back E i (p', ks[i := k])"
  shows "gives_back E i (p, ks)"
proof -
  note go = t_pool_step.go [OF assms(1,3)]
  show ?thesis
  proof (cases "\<exists>e. k = TEnded e")
    case True
    with gives_back_end assms(1,2) go show ?thesis by blast
  next
    case False
    then have "t_holds k" "gives_back E i (p', ks[i := k] @ [])"
      using assms(1,4) gives_back_using [of i "ks[i := k]" _ E p'] by auto
    with gives_back_step [of E p ks p' i k "[]"] assms(1,2) go show ?thesis by simp
  qed
qed

lemma gives_back_connecting:
  assumes "i < length ks" and "ks ! i = TConnecting"
  shows "gives_back E i (p, ks)"
proof -
  obtain p' k where "t_connect_client E undefined 0 p = (p', k)" by fastforce
  with t_client_step.connect [of E p undefined 0] t_client_outcomes(2) [of E undefined 0 p p' k]
    gives_back_go [OF assms(1), of E p p' k] assms(2) show ?thesis by auto
qed

lemma gives_back_holder:
  assumes "queue_laws (te_queue E) cap items"
  shows "i < length ks \<Longrightarrow> t_holds (ks ! i) \<Longrightarrow> gives_back E i (p, ks)"
proof (induction "length (items (tp_conns p))" arbitrary: p ks rule: less_induct)
  case less
  have taking: "gives_back E i (p1, ks1)"
    if "length (items (tp_conns p1)) \<le> length (items (tp_conns p))" "i < length ks1" "ks1 ! i = TTaking"
    for p1 ks1
  proof (cases "ql_pop (te_queue E) (tp_conns p1)")
    case None
    then have "t_client_step E (p1, ks1 ! i) (p1, TConnecting)"
      using t_client_step.take [of E p1] that(3) by (simp add: t_take_idle_def)
    from gives_back_go [OF that(2) _ this] that gives_back_connecting [of i "ks1[i := TConnecting]" E p1]
    show ?thesis by simp
  next
    case (Some cq)
    then obtain c q where pop: "ql_pop (te_queue E) (tp_conns p1) = Some (c, q)" by (cases cq) auto
    then have "t_client_step E (p1, ks1 ! i) (p1\<lparr>tp_conns := q\<rparr>, TPinging c)"
      using t_client_step.take [of E p1] that(3) by (simp add: t_take_idle_def)
    from gives_back_go [OF that(2) _ this] that queue_pop(1) [OF assms pop]
      less.hyps [of "p1\<lparr>tp_conns := q\<rparr>" "ks1[i := TPinging c]"]
    show ?thesis by simp
  qed
  show ?case
  proof (cases "ks ! i")
    case (TPinging c)
    obtain p' k where ping: "t_ping_client E 0 c p = (p', k)" by fastforce
    then have st: "t_client_step E (p, ks ! i) (p', k)"
      using t_client_step.ping [of E p c 0] TPinging by simp
    from t_client_outcomes(1) [OF ping] taking [of p "ks[i := TTaking]"] gives_back_go [OF less.prems st]
      less.prems show ?thesis by auto
  next
    case TReleasing
    with t_client_step.release [of E p] gives_back_go [OF less.prems] show ?thesis by metis
  qed (use less.prems taking gives_back_connecting gives_back_using in auto)
qed

text \<open>
  C32: A task that waits for a permit can always get one. From every reachable world, unless the limit
  is zero, there is a continuation in which the waiting task has its permit, whatever became of
  the tasks before it: dropped in mid-transfer, failed to connect, or panicked. (In the
  synchronous pool a \<open>get\<close> that failed keeps its permit, and others can wait forever.)
\<close>

theorem tokio_pool_no_starvation:
  assumes "t_env_laws E cap items count" and "t_pool_reachable E options (p, ks)"
    and "o_pool_max_concurrency options \<noteq> Some 0" and "i < length ks" and "ks ! i = TWaiting"
  shows "\<exists>p' ks'. (t_pool_step E)\<^sup>*\<^sup>* (p, ks) (p', ks') \<and> i < length ks' \<and> ks' ! i = TTaking"
proof -
  have S: "tokio_semaphore_laws (te_sem E) count" and Q: "queue_laws (te_queue E) cap items"
    using assms(1) by (simp_all add: t_env_laws_def)
  have reach: "t_pool_reachable E options w" if "(t_pool_step E)\<^sup>*\<^sup>* (p, ks) w" for w
    using assms(2) that rtranclp_trans by (fastforce simp: t_pool_reachable_def)
  have turn: "\<exists>p' ks'. (t_pool_step E)\<^sup>*\<^sup>* (q, js) (p', ks') \<and> i < length ks' \<and> ks' ! i = TTaking"
    if "t_acquire E q = Some (q', TTaking)" "i < length js" "js ! i = TWaiting" for q q' js
    using t_pool_step.go [OF that(2), of E q q' TTaking] t_client_step.acquire [OF that(1)] that(2,3)
    by (intro exI [of _ q'] exI [of _ "js[i := TTaking]"]) (auto intro: r_into_rtranclp)
  have permit: "\<exists>q'. t_acquire E q = Some (q', TTaking)"
    if ok: "t_pool_inv (te_ext E) cap items count options (q, js)"
      "\<forall>n. o_pool_max_concurrency options = Some n \<longrightarrow> many t_holds js < int n" for q js
  proof (cases "o_pool_max_concurrency options")
    case (Some n)
    then obtain s where "tp_semaphore q = Some s" "0 < count s"
      using ok by (auto simp: t_pool_inv_def)
    with tokio_semaphore_facts(5) [OF S, of s] show ?thesis by (auto simp: t_acquire_def)
  qed (use ok in \<open>simp add: t_pool_inv_def t_acquire_def\<close>)
  note inv = t_pool_reachable_inv [OF assms(1) reach]
  show ?thesis
  proof (cases "\<forall>n. o_pool_max_concurrency options = Some n \<longrightarrow> many t_holds ks < int n")
    case True
    with permit inv turn assms(4,5) show ?thesis by blast
  next
    case False
    then obtain n where n: "o_pool_max_concurrency options = Some n" "int n \<le> many t_holds ks" by auto
    with assms(3) have "filter t_holds ks \<noteq> []" by (auto simp: many_def)
    then obtain j where j: "j < length ks" "t_holds (ks ! j)"
      by (metis filter_False in_set_conv_nth)
    from gives_back_holder [OF Q this, of p] obtain q js where
      run: "(t_pool_step E)\<^sup>*\<^sup>* (p, ks) (q, js)" "length ks \<le> length js"
        "\<forall>l < length ks. l \<noteq> j \<longrightarrow> js ! l = ks ! l" "many t_holds js = many t_holds ks - 1"
      unfolding gives_back_def by auto
    have "many t_holds ks \<le> int n"
      using inv [OF rtranclp.rtrancl_refl] n(1) by (auto simp: t_pool_inv_def)
    with run n inv [OF run(1)] permit [of q js] have "\<exists>q'. t_acquire E q = Some (q', TTaking)" by auto
    then obtain q' where "t_acquire E q = Some (q', TTaking)" by blast
    moreover have "i < length js" "js ! i = TWaiting" using run(2,3) assms(4,5) j(2) by auto
    ultimately show ?thesis using turn run(1) rtranclp_trans [of "t_pool_step E"] by meson
  qed
qed

lemma tokio_pool_no_starvation_witness:
  "\<exists>p' ks'. (t_pool_step t_env0)\<^sup>*\<^sup>* (t_pool0 1, refused0) (p', ks') \<and> ks' ! 1 = TTaking"
  using tokio_pool_no_starvation [OF t_env0_laws t_pool0_reachable, of 1]
  by (auto simp: pool_opts0_def refused0_def)

text \<open>
  The limit counts permits, not connections. A \<open>PooledConn\<close> that is dropped gives the permit back
  before the task it has spawned has finished with the connection, so that the next client can
  open one more: here the connection of the first client is still open.
\<close>

lemma t_dropped_still_open:
  assumes "t_pool_reachable E options (p, ks)" and "i < length ks" and "ks ! i = TUsing c"
  shows "t_pool_reachable E options (t_release E p, ks[i := TEnded None] @ [TCheckingIn c])"
proof -
  let ?ks = "ks[i := TReleasing] @ [TCheckingIn c]"
  have "t_pool_step E (p, ks) (p, ?ks)" by (rule t_pool_step.drop [OF assms(2,3)])
  moreover have "t_pool_step E (p, ?ks) (t_release E p, ?ks[i := TEnded None])"
    by (rule t_pool_step.go) (use assms t_client_step.release in \<open>simp_all add: nth_append\<close>)
  ultimately have "(t_pool_step E)\<^sup>*\<^sup>* (p, ks) (t_release E p, ks[i := TEnded None] @ [TCheckingIn c])"
    using assms(2) by (simp add: list_update_append)
  with assms(1) show ?thesis
    unfolding t_pool_reachable_def using rtranclp_trans [of "t_pool_step E"] by blast
qed

end
