(* ===== verification/AsyncRefines.thy ===== *)
theory AsyncRefines
  imports CancelFacts
begin

text \<open>
  The asynchronous query that is given enough budget against the synchronous one.
\<close>

section \<open>The synchronous connection refined\<close>

text \<open>
  \<open>runs m f\<close>: given enough budget \<open>m\<close> returns what \<open>f\<close> returns, at a bounded cost.
\<close>

definition runs_at :: "nat \<Rightarrow> 'a fut \<Rightarrow> tconn \<Rightarrow> 'a res \<Rightarrow> conn \<Rightarrow> bool" where
  "runs_at k m t r c' \<longleftrightarrow> (\<forall>n \<ge> k. \<exists>n'. m (n, t) = (Returned r, n', t\<lparr>t_base := c'\<rparr>) \<and>
     ((\<exists>x. r = Ok x) \<longrightarrow> n - k \<le> n'))"

definition runs :: "'a fut \<Rightarrow> (conn \<Rightarrow> 'a res \<times> conn) \<Rightarrow> bool" where
  "runs m f \<longleftrightarrow> (\<forall>t r c'. f (t_base t) = (r, c') \<longrightarrow> (\<exists>k. runs_at k m t r c'))"

lemma runs_read: "runs a_read_message conn_read_message"
  unfolding runs_def
proof (intro allI impI)
  fix t :: tconn and r c' assume rd: "conn_read_message (t_base t) = (r, c')"
  let ?d = "length (inp (c_stream (t_base t)))"
  have "\<exists>n'. a_read_message (n, t) = (Returned r, n', t\<lparr>t_base := c'\<rparr>) \<and> ((\<exists>x. r = Ok x) \<longrightarrow> n - ?d \<le> n')"
    if n: "?d \<le> n" for n
  proof (cases "\<exists>u. r = Ok u")
    case True
    with rd obtain m rest where "parse_msg (inp (c_stream (t_base t))) = Some (m, rest)"
        "c' = got m rest (t_base t)" "r = Ok ()"
      by (auto simp: conn_read_iff got_def)
    with n a_read_parse [of n t "()"] show ?thesis by fastforce
  next
    case False
    with a_read_fails [OF n rd] n show ?thesis by auto
  qed
  then show "\<exists>k. runs_at k a_read_message t r c'" by (auto simp: runs_at_def)
qed

lemma runs_write: "runs a_write_flush conn_write_flush"
  unfolding runs_def
proof (intro allI impI)
  fix t :: tconn and r c' assume wr: "conn_write_flush (t_base t) = (r, c')"
  let ?k = "length (write_buffer (c_bufs (t_base t))) + 1"
  have "runs_at ?k a_write_flush t r c'"
  proof (cases "writable (c_stream (t_base t))")
    case True
    with wr a_write_Ok_iff [of _ t "()"] show ?thesis
      by (auto simp: runs_at_def conn_write_flush_def stream_write_all_def stream_flush_def Let_def)
  next
    case False
    with wr a_write_fails [OF this] show ?thesis
      by (auto simp: runs_at_def conn_write_flush_def stream_write_all_def)
  qed
  then show "\<exists>k. runs_at k a_write_flush t r c'" ..
qed

lemma runs_both:
  "runs (fut_bind a_write_flush (\<lambda>_. a_read_message))
     (\<lambda>c. let (w, c2) = conn_write_flush c in rtry w c2 (\<lambda>_. conn_read_message c2))"
  unfolding runs_def
proof (intro allI impI)
  fix t :: tconn and r c'
  assume b: "(let (w, c2) = conn_write_flush (t_base t) in rtry w c2 (\<lambda>_. conn_read_message c2)) = (r, c')"
  obtain w c2 where wr: "conn_write_flush (t_base t) = (w, c2)" by (cases "conn_write_flush (t_base t)")
  then obtain k where k: "runs_at k a_write_flush t w c2" using runs_write unfolding runs_def by blast
  show "\<exists>k. runs_at k (fut_bind a_write_flush (\<lambda>_. a_read_message)) t r c'"
  proof (cases w)
    case (Ok u)
    with b wr have "conn_read_message (t_base (t\<lparr>t_base := c2\<rparr>)) = (r, c')" by simp
    then obtain k2 where k2: "runs_at k2 a_read_message (t\<lparr>t_base := c2\<rparr>) r c'"
      using runs_read unfolding runs_def by blast
    have "runs_at (k + k2) (fut_bind a_write_flush (\<lambda>_. a_read_message)) t r c'"
      unfolding runs_at_def
    proof (intro allI impI)
      fix n assume n: "k + k2 \<le> n"
      then obtain n1 where 1: "a_write_flush (n, t) = (Returned (Ok u), n1, t\<lparr>t_base := c2\<rparr>)" "n - k \<le> n1"
        using k Ok unfolding runs_at_def by (metis add_leD1)
      moreover from 1(2) n have "k2 \<le> n1" by simp
      then obtain n2 where "a_read_message (n1, t\<lparr>t_base := c2\<rparr>) = (Returned r, n2, t\<lparr>t_base := c'\<rparr>)"
          "(\<exists>x. r = Ok x) \<longrightarrow> n1 - k2 \<le> n2"
        using k2 unfolding runs_at_def by fastforce
      ultimately show "\<exists>n'. fut_bind a_write_flush (\<lambda>_. a_read_message) (n, t) =
          (Returned r, n', t\<lparr>t_base := c'\<rparr>) \<and> ((\<exists>x. r = Ok x) \<longrightarrow> n - (k + k2) \<le> n')"
        by (auto simp: fut_bind_def split: res.splits)
    qed
    then show ?thesis ..
  next
    case (Err e)
    with b wr k have "runs_at k (fut_bind a_write_flush (\<lambda>_. a_read_message)) t r c'"
      by (fastforce simp: runs_at_def fut_bind_def)
    then show ?thesis ..
  next
    case Panic
    with b wr k have "runs_at k (fut_bind a_write_flush (\<lambda>_. a_read_message)) t r c'"
      by (fastforce simp: runs_at_def fut_bind_def)
    then show ?thesis ..
  qed
qed

text \<open>With enough budget a round of the loop is a round of the synchronous loop.\<close>

definition round_runs ::
    "nat \<Rightarrow> (nat \<times> tconn \<Rightarrow> (unit outcome \<times> 'm \<times> nat \<times> tconn) + ('m \<times> nat \<times> tconn)) \<Rightarrow> tconn \<Rightarrow>
       (unit res \<times> 'm \<times> conn) + ('m \<times> conn) \<Rightarrow> bool" where
  "round_runs k f t z \<longleftrightarrow> (\<forall>n \<ge> k. case z of
     Inl (r, m', c') \<Rightarrow> \<exists>n' t'. f (n, t) = Inl (Returned r, m', n', t') \<and> t_base t' = c'
   | Inr (m', c') \<Rightarrow> \<exists>n'. f (n, t) = Inr (m', n', t\<lparr>t_base := c'\<rparr>) \<and> n - k \<le> n')"

lemma io_round:
  assumes "runs m f" and "f (t_base t1) = (r, c')" and "t1 = t\<lparr>t_base := c1\<rparr>"
    and "\<And>n. it (n, t) = (case m (n, t1) of (Returned (Ok _), s) \<Rightarrow> Inr (mm, s) | (q, s) \<Rightarrow> Inl (q, mm, s))"
  shows "\<exists>k. round_runs k it t (case r of
      Ok _ \<Rightarrow> Inr (mm, c') | Err e \<Rightarrow> Inl (Err e, mm, c') | Panic \<Rightarrow> Inl (Panic, mm, c'))"
proof -
  from assms(1,2) obtain k where k: "runs_at k m t1 r c'" unfolding runs_def by blast
  have "round_runs k it t (case r of
      Ok _ \<Rightarrow> Inr (mm, c') | Err e \<Rightarrow> Inl (Err e, mm, c') | Panic \<Rightarrow> Inl (Panic, mm, c'))"
    unfolding round_runs_def
  proof (intro allI impI)
    fix n assume "k \<le> n"
    with k obtain n' where "m (n, t1) = (Returned r, n', t\<lparr>t_base := c'\<rparr>)" "(\<exists>x. r = Ok x) \<longrightarrow> n - k \<le> n'"
      unfolding runs_at_def assms(3) by auto
    then show "case (case r of
        Ok _ \<Rightarrow> Inr (mm, c') | Err e \<Rightarrow> Inl (Err e, mm, c') | Panic \<Rightarrow> Inl (Panic, mm, c')) of
        Inl (r, m', c') \<Rightarrow> \<exists>n' t'. it (n, t) = Inl (Returned r, m', n', t') \<and> t_base t' = c'
      | Inr (m', c') \<Rightarrow> \<exists>n'. it (n, t) = Inr (m', n', t\<lparr>t_base := c'\<rparr>) \<and> n - k \<le> n'"
      by (cases r) (auto simp: assms(4))
  qed
  then show ?thesis ..
qed

text \<open>The rounds that read, write, or do both.\<close>

lemma io_round_via:
  assumes "runs m f"
    and "\<And>n. it (n, t) = (let (q, s) = m (n, t\<lparr>t_base := c1\<rparr>) in
           case q of Returned (Ok _) \<Rightarrow> Inr (mm, s) | _ \<Rightarrow> Inl (q, mm, s))"
    and "z = (let (r, c) = f c1 in case r of
           Ok _ \<Rightarrow> Inr (mm, c) | Err e \<Rightarrow> Inl (Err e, mm, c) | Panic \<Rightarrow> Inl (Panic, mm, c))"
  shows "\<exists>k. round_runs k it t z"
proof -
  obtain r c' where f: "f (t_base (t\<lparr>t_base := c1\<rparr>)) = (r, c')" by (cases "f c1") simp
  have "it (n, t) = (case m (n, t\<lparr>t_base := c1\<rparr>) of
      (Returned (Ok _), s) \<Rightarrow> Inr (mm, s) | (q, s) \<Rightarrow> Inl (q, mm, s))" for n
    using assms(2) [of n] by (auto split: prod.splits outcome.splits res.splits)
  from io_round [where it = it, OF assms(1) f refl this] f show ?thesis by (simp add: assms(3))
qed

lemma a_iter_runs: "\<exists>k. round_runs k (a_drive_iter step tx m) t (drive_iter step tx m (t_base t))"
proof -
  obtain r m1 bs where s: "step m (c_bufs (t_base t)) = (r, m1, bs)" by (metis prod_cases3)
  note defs = a_drive_iter_def drive_iter_def Let_def t_bufs_def set_bufs_def s
  show ?thesis
  proof (cases r)
    case (Ok a)
    show ?thesis
    proof (cases a)
      case ReadMessage
      show ?thesis
        by (rule io_round_via [OF runs_read, where mm = m1]) (simp_all add: defs Ok ReadMessage)
    next
      case Write
      show ?thesis
        by (rule io_round_via [OF runs_write, where mm = m1]) (simp_all add: defs Ok Write)
    next
      case WriteAndReadMessage
      show ?thesis
        by (rule io_round_via [OF runs_both, where mm = m1])
          (simp_all add: defs Ok WriteAndReadMessage)
    next
      case (HandleAsyncMessageAndReadMessage am)
      show ?thesis
        by (rule io_round_via [OF runs_read, where mm = m1])
          (simp_all add: defs Ok HandleAsyncMessageAndReadMessage)
    qed (auto simp: round_runs_def defs Ok finish_exchange_def t_set_tx_def)
  qed (use s in \<open>auto simp: round_runs_def defs\<close>)
qed

definition loop_runs ::
    "('m \<Rightarrow> buffer_set \<Rightarrow> action res \<times> 'm \<times> buffer_set) \<Rightarrow> ('m \<Rightarrow> tx_status) \<Rightarrow> 'm \<Rightarrow> conn \<Rightarrow>
       unit res \<times> 'm \<times> conn \<Rightarrow> bool" where
  "loop_runs step tx m c z \<longleftrightarrow> (\<forall>t. t_base t = c \<longrightarrow> (\<exists>k. \<forall>n \<ge> k. \<exists>n' t'.
     a_drive_loop step tx m (n, t) = (Returned (fst z), fst (snd z), n', t') \<and>
     t_base t' = snd (snd z)))"

lemma loop_runs_step:
  assumes IH: "\<And>m1 c1. drive_iter step tx m c = Inr (m1, c1) \<Longrightarrow> loop_runs step tx m1 c1 z"
    and Inl: "\<And>q. drive_iter step tx m c = Inl q \<Longrightarrow> q = z"
  shows "loop_runs step tx m c z"
  unfolding loop_runs_def
proof (intro allI impI)
  fix t :: tconn assume t: "t_base t = c"
  from a_iter_runs [of step tx m t] obtain k where
    k: "round_runs k (a_drive_iter step tx m) t (drive_iter step tx m c)" unfolding t by blast
  show "\<exists>k. \<forall>n \<ge> k. \<exists>n' t'. a_drive_loop step tx m (n, t) =
      (Returned (fst z), fst (snd z), n', t') \<and> t_base t' = snd (snd z)"
  proof (cases "drive_iter step tx m c")
    case (Inl q)
    obtain r m' c' where "z = (r, m', c')" by (cases z)
    with assms(2) [OF Inl] k Inl show ?thesis
      by (intro exI [of _ k]) (fastforce simp: round_runs_def a_drive_loop.simps [of step tx m])
  next
    case (Inr mc)
    obtain m1 c1 where mc: "mc = (m1, c1)" by (cases mc)
    from IH [OF Inr [unfolded mc]] obtain k2 where
      k2: "\<forall>n \<ge> k2. \<exists>n' t'. a_drive_loop step tx m1 (n, t\<lparr>t_base := c1\<rparr>) =
        (Returned (fst z), fst (snd z), n', t') \<and> t_base t' = snd (snd z)"
      unfolding loop_runs_def by force
    have "\<exists>n' t'. a_drive_loop step tx m (n, t) =
        (Returned (fst z), fst (snd z), n', t') \<and> t_base t' = snd (snd z)" if "k + k2 \<le> n" for n
    proof -
      from that have "k \<le> n" by simp
      with k Inr mc obtain n1 where
        "a_drive_iter step tx m (n, t) = Inr (m1, n1, t\<lparr>t_base := c1\<rparr>)" "n - k \<le> n1"
        by (fastforce simp: round_runs_def)
      with k2 that show ?thesis by (simp add: a_drive_loop.simps [of step tx m])
    qed
    then show ?thesis by blast
  qed
qed

lemma a_loop_runs: "drive step tx m c = Some z \<Longrightarrow> loop_runs step tx m c z"
proof (rule drive.raw_induct [where P = loop_runs, rotated])
  fix drv :: "('m \<Rightarrow> buffer_set \<Rightarrow> action res \<times> 'm \<times> buffer_set) \<Rightarrow> ('m \<Rightarrow> tx_status) \<Rightarrow> 'm \<Rightarrow> conn \<Rightarrow>
      (unit res \<times> 'm \<times> conn) option"
    and step :: "'m \<Rightarrow> buffer_set \<Rightarrow> action res \<times> 'm \<times> buffer_set" and tx m c z
  assume IH: "\<And>step tx m c z. drv step tx m c = Some z \<Longrightarrow> loop_runs step tx m c z"
    and d: "(case drive_iter step tx m c of Inl r \<Rightarrow> Some r | Inr (m', c') \<Rightarrow> drv step tx m' c') = Some z"
  show "loop_runs step tx m c z"
  proof (rule loop_runs_step)
    fix m1 c1 assume "drive_iter step tx m c = Inr (m1, c1)"
    with d have "drv step tx m1 c1 = Some z" by simp
    then show "loop_runs step tx m1 c1 z" by (rule IH)
  next
    fix q assume "drive_iter step tx m c = Inl q"
    with d show "q = z" by simp
  qed
qed

text \<open>
  C15: The asynchronous query refines the synchronous one: on a usable connection, a future that
  is given enough budget returns exactly the result of the synchronous query, and leaves the
  same handler, buffers, stream, status and broken mark behind.
\<close>

theorem async_query_refines_sync:
  assumes "\<not> t_is_broken t"
  shows "\<exists>r h' c' k. conn_query X H h sql (t_base t) = Some (r, h', c') \<and>
    (\<forall>n \<ge> k. \<exists>n' t'. t_query X H h sql (n, t) = (Returned r, h', n', t') \<and> t_base t' = c')"
proof -
  obtain r sm c1 where d: "drive (sq_step X H) sq_tx (sq_new h sql) (t_base t) = Some (r, sm, c1)"
    using sq.drive_total [of X H "sq_new h sql" "t_base t"] by (metis prod_cases3)
  from a_loop_runs [OF d] obtain k where
    k: "\<forall>n \<ge> k. \<exists>n' t'. a_drive_loop (sq_step X H) sq_tx (sq_new h sql) (n, t\<lparr>t_exchange := True\<rparr>) =
      (Returned r, sm, n', t') \<and> t_base t' = c1"
    unfolding loop_runs_def by force
  have "\<exists>n' t'. t_query X H h sql (n, t) = (Returned r, sq_handler sm, n', t') \<and>
      t_base t' = mark_broken r c1" if "k \<le> n" for n
    using k [rule_format, OF that] assms
    by (fastforce simp: t_query_def ensure_usable_def a_drive_def begin_exchange_def
        ensure_exchange_ready_def t_is_broken_def t_mark_def)
  with d show ?thesis by (auto simp: conn_query_def)
qed

theorem async_query_refines_sync_witness:
  "\<exists>c' k. conn_query ext0 drop_handler None [97] (conn0 (wire (READY_FOR_QUERY, [84]) @ [90])) =
     Some (Ok (), None, c') \<and>
     (\<forall>n \<ge> k. \<exists>n' t'. t_query ext0 drop_handler None [97] (n, tconn0 (wire (READY_FOR_QUERY, [84]) @ [90])) =
        (Returned (Ok ()), None, n', t') \<and> t_base t' = c')"
proof -
  let ?d = "wire (READY_FOR_QUERY, [84]) @ [90]"
  have "\<not> t_is_broken (tconn0 ?d)" by (simp add: tconn0_def t_is_broken_def)
  from async_query_refines_sync [OF this, of ext0 drop_handler None "[97]"] obtain r h' c' k where
    r: "conn_query ext0 drop_handler None [97] (conn0 ?d) = Some (r, h', c')"
      "\<forall>n \<ge> k. \<exists>n' t'. t_query ext0 drop_handler None [97] (n, tconn0 ?d) =
         (Returned r, h', n', t') \<and> t_base t' = c'"
    by (auto simp: tconn0_def)
  have "\<exists>c'. conn_query ext0 drop_handler None [97] (conn0 ?d) = Some (Ok (), None, c')"
  proof -
    obtain c' where "query_drop ext0 [97] (conn0 ?d) = Some (Ok None, c')" using query_drop0 by blast
    then show ?thesis by (auto simp: query_drop_def res_simps)
  qed
  with r show ?thesis by auto
qed

end
