(* ===== verification/TokioPipeline.thy ===== *)
theory TokioPipeline
  imports TokioPortal Pipeline
begin

text \<open>
  \<open>src/tokio/pipeline/mod.rs\<close> and \<open>Conn::pipeline\<close>: the asynchronous pipeline. As in \<open>Pipeline\<close> a
  pipeline is the record of its fields with the connection it borrows; its methods are futures
  on it. Tickets and expectations are those of \<open>Pipeline\<close>.
\<close>

section \<open>State\<close>

record tpipe =
  tp_conn :: tconn
  tp_queue_seq :: nat
  tp_claim_seq :: nat
  tp_aborted :: bool
  tp_column :: bytes
  tp_expectations :: "expectation list"

definition tp_write :: "tpipe \<Rightarrow> bytes" where
  "tp_write p = write_buffer (t_bufs (tp_conn p))"

definition set_tp_write :: "bytes \<Rightarrow> tpipe \<Rightarrow> tpipe" where
  "set_tp_write w p =
     p\<lparr>tp_conn := set_bufs ((t_bufs (tp_conn p))\<lparr>write_buffer := w\<rparr>) (tp_conn p)\<rparr>"

definition set_tp_scope :: "bool \<Rightarrow> tpipe \<Rightarrow> tpipe" where
  "set_tp_scope b p = p\<lparr>tp_conn := (tp_conn p)\<lparr>t_scope := b\<rparr>\<rparr>"

definition t_break :: "tconn \<Rightarrow> tconn" where
  "t_break t = t\<lparr>t_base := (t_base t)\<lparr>c_broken := True\<rparr>\<rparr>"

definition tp_push :: "expectation \<Rightarrow> tpipe \<Rightarrow> tpipe" where
  "tp_push e p = p\<lparr>tp_expectations := tp_expectations p @ [e]\<rparr>"

text \<open>\<open>Pipeline::new_inner\<close> and \<open>Drop for Pipeline\<close>.\<close>

definition p_new :: "tconn \<Rightarrow> tpipe" where
  "p_new t =
     \<lparr>tp_conn = (if ensure_usable t \<noteq> Ok () then t_break t
                 else set_bufs ((t_bufs t)\<lparr>write_buffer := []\<rparr>) t),
      tp_queue_seq = 0, tp_claim_seq = 0, tp_aborted = False, tp_column = [],
      tp_expectations = []\<rparr>"

definition p_drop :: "tpipe \<Rightarrow> tconn" where
  "p_drop p = (if t_scope (tp_conn p) then t_break (tp_conn p) else tp_conn p)"

text \<open>A future on the connection, as one on the pipeline; an update; \<open>ensure_exchange_ready()?\<close>.\<close>

definition on_conn :: "'a fut \<Rightarrow> (tpipe, 'a) run" where
  "on_conn m = (\<lambda>(n, p). let (q, n1, t1) = m (n, tp_conn p) in (q, n1, p\<lparr>tp_conn := t1\<rparr>))"

definition upd :: "(tpipe \<Rightarrow> tpipe) \<Rightarrow> (tpipe, unit) run" where
  "upd f = fut_lift (\<lambda>p. (Ok (), f p))"

definition p_ready :: "(tpipe, 'a) run \<Rightarrow> (tpipe, 'a) run" where
  "p_ready m = (\<lambda>(n, p). case ensure_exchange_ready (tp_conn p) of
     Ok _ \<Rightarrow> m (n, p) | Err e \<Rightarrow> (Returned (Err e), n, p) | Panic \<Rightarrow> (Returned Panic, n, p))"

definition p_begin :: "(tpipe, unit) run" where
  "p_begin = on_conn (fut_lift begin_exchange)"

definition p_finish :: "(tpipe, unit) run" where
  "p_finish = upd (\<lambda>p. p\<lparr>tp_conn := finish_exchange (tp_conn p)\<rparr>)"

definition p_mark :: "(tpipe, 'a) run \<Rightarrow> (tpipe, 'a) run" where
  "p_mark m s = (let (q, n, p) = m s in (q, n, p\<lparr>tp_conn := t_mark q (tp_conn p)\<rparr>))"

section \<open>Queueing\<close>

definition p_exec_sql_inner :: "str \<Rightarrow> to_params \<Rightarrow> tpipe \<Rightarrow> unit res \<times> tpipe" where
  "p_exec_sql_inner sql params p =
     (let param_oids = natural_oids params;
          w1 = write_parse (tp_write p) [] sql param_oids;
          (r, w2) = write_bind w1 [] [] params param_oids
      in rtry r (set_tp_write w2 p) (\<lambda>_.
        (Ok (), tp_push ParseBindExecute
          (set_tp_write (write_execute (write_describe_portal w2 []) [] 0) p))))"

definition p_exec_prepared_inner ::
    "str \<Rightarrow> oid list \<Rightarrow> to_params \<Rightarrow> tpipe \<Rightarrow> unit res \<times> tpipe" where
  "p_exec_prepared_inner name param_oids params p =
     (let (r, w) = write_bind (tp_write p) [] name params param_oids in
      rtry r (set_tp_write w p) (\<lambda>_.
        (Ok (), tp_push BindExecute (set_tp_write (write_execute w [] 0) p))))"

definition p_exec :: "statement_ref \<Rightarrow> to_params \<Rightarrow> tpipe \<Rightarrow> ticket res \<times> tpipe" where
  "p_exec statement params p = rtry (ensure_exchange_ready (tp_conn p)) p (\<lambda>_.
     let seq = tp_queue_seq p; p1 = p\<lparr>tp_queue_seq := seq + 1\<rparr> in
     case statement of
       Sql sql \<Rightarrow>
         (let (r, p2) = p_exec_sql_inner sql params p1 in
          rtry r p2 (\<lambda>_. (Ok \<lparr>t_seq = seq, t_stmt = None\<rparr>, p2)))
     | Prepared stmt \<Rightarrow>
         (let (r, p2) = p_exec_prepared_inner (wire_name stmt) (ps_param_oids stmt) params p1 in
          rtry r p2 (\<lambda>_. (Ok \<lparr>t_seq = seq, t_stmt = Some stmt\<rparr>, p2))))"

text \<open>Write and flush; the write buffer is cleared only when that succeeded.\<close>

definition p_send :: "(tpipe, unit) run" where
  "p_send = fut_bind (on_conn a_write_flush) (\<lambda>_. upd (set_tp_write []))"

definition p_flush :: "(tpipe, unit) run" where
  "p_flush = p_ready (fut_bind p_begin (\<lambda>_. fut_bind
     (\<lambda>(n, p). if tp_write p \<noteq> []
        then p_send (n, set_tp_write (write_flush (tp_write p)) (set_tp_scope True p))
        else (Returned (Ok ()), n, p))
     (\<lambda>_. p_finish)))"

definition p_sync_inner :: "(tpipe, unit) run" where
  "p_sync_inner = fut_bind p_begin (\<lambda>_. fut_bind
     (\<lambda>(n, p). p_send
        (n, tp_push Sync (set_tp_write (write_sync (tp_write p)) (set_tp_scope True p))))
     (\<lambda>_. p_finish))"

definition p_sync :: "(tpipe, unit) run" where
  "p_sync = p_ready (p_mark p_sync_inner)"

section \<open>Reading\<close>

text \<open>
  An ErrorResponse in the read buffer: a fatal one marks the connection broken, \<open>g\<close> is what
  another one does.
\<close>

definition p_server_error :: "ext \<Rightarrow> (tpipe \<Rightarrow> tpipe) \<Rightarrow> tpipe \<Rightarrow> unit res \<times> tpipe" where
  "p_server_error X g p =
     (case error_response_parse X (read_buffer (t_bufs (tp_conn p))) of
        Ok e \<Rightarrow> (Err (Server e), if is_connection_broken (Server e)
                  then p\<lparr>tp_conn := t_break (tp_conn p)\<rparr> else g p)
      | Err e \<Rightarrow> (Err e, p)
      | Panic \<Rightarrow> (Panic, p))"

definition p_type :: "tpipe \<Rightarrow> byte" where
  "p_type p = type_byte (t_bufs (tp_conn p))"

definition p_payload :: "tpipe \<Rightarrow> bytes" where
  "p_payload p = read_buffer (t_bufs (tp_conn p))"

definition p_read_next_message :: "ext \<Rightarrow> (tpipe, unit) run" where
  "p_read_next_message X = fut_bind (on_conn a_next_message) (\<lambda>_. fut_lift (\<lambda>p.
     if p_type p = ERROR_RESPONSE then p_server_error X (\<lambda>p. p\<lparr>tp_aborted := True\<rparr>) p
     else (Ok (), p)))"

lemma on_conn_next_less:
  "on_conn a_next_message (n, p) = (Returned (Ok u), n', p') \<Longrightarrow> n' < n"
  by (auto simp: on_conn_def split: prod.splits dest: a_next_message_less)

function p_consume_ready :: "ext \<Rightarrow> (tpipe, unit) run" where
  "p_consume_ready X s = (case on_conn a_next_message s of
     (Returned (Ok _), n1, p1) \<Rightarrow>
       (if p_type p1 = ERROR_RESPONSE
        then (let (r, p2) = p_server_error X (\<lambda>p. p) p1 in (Returned r, n1, p2))
        else if p_type p1 = READY_FOR_QUERY then
          (case ready_for_query_parse (p_payload p1) of
             Ok st \<Rightarrow> (Returned (Ok ()), n1, set_tp_scope (tp_expectations p1 \<noteq> [])
               (p1\<lparr>tp_conn := t_set_tx (tx_or_default st) (tp_conn p1)\<rparr>))
           | Err e \<Rightarrow> (Returned (Err e), n1, p1)
           | Panic \<Rightarrow> (Returned Panic, n1, p1))
        else p_consume_ready X (n1, p1))
   | (q, s1) \<Rightarrow> (q, s1))"
  by pat_completeness auto
termination
  by (relation "measure (\<lambda>(X, s). fst s)") (auto dest!: on_conn_next_less [OF sym] simp del: split_paired_All)

declare p_consume_ready.simps [simp del]

lemma p_read_next_less: "p_read_next_message X (n, p) = (Returned (Ok u), n', p') \<Longrightarrow> n' < n"
  by (auto simp: p_read_next_message_def fut_bind_Ok fut_lift_def Let_def case_prod_beta
      dest: on_conn_next_less)

text \<open>Continue with \<open>f\<close> after a read, keeping the handler on an error.\<close>

definition ptry ::
    "unit outcome \<times> nat \<times> tpipe \<Rightarrow> 'h \<Rightarrow> (nat \<times> tpipe \<Rightarrow> unit outcome \<times> 'h \<times> nat \<times> tpipe) \<Rightarrow>
       unit outcome \<times> 'h \<times> nat \<times> tpipe" where
  "ptry qs h f = (case qs of (Returned (Ok _), s) \<Rightarrow> f s | (q, s) \<Rightarrow> (q, h, s))"

text \<open>The end of a result: CommandComplete, an empty query, or an unexpected message.\<close>

definition p_rows_end ::
    "ext \<Rightarrow> 'h handler \<Rightarrow> 'h \<Rightarrow> nat \<times> tpipe \<Rightarrow> unit outcome \<times> 'h \<times> nat \<times> tpipe" where
  "p_rows_end X H h s =
     (let p = snd s; ty = p_type p in
      if ty = COMMAND_COMPLETE then
        (case command_complete_parse X (p_payload p) of
           Err e \<Rightarrow> (Returned (Err e), h, s)
         | Panic \<Rightarrow> (Returned Panic, h, s)
         | Ok cmd \<Rightarrow> (let (r, h1) = h_result_end H h cmd in (Returned r, h1, s)))
      else if ty = EMPTY_QUERY_RESPONSE then (Returned (Ok ()), h, s)
      else (Returned (Err (LibraryBug ''unexpected message type in pipeline claim: {}'')), h, s))"

text \<open>The loop of \<open>claim_rows_inner\<close>, after RowDescription or NoData.\<close>

function p_rows_loop ::
    "ext \<Rightarrow> 'h handler \<Rightarrow> 'h \<Rightarrow> bool \<Rightarrow> nat \<times> tpipe \<Rightarrow> unit outcome \<times> 'h \<times> nat \<times> tpipe" where
  "p_rows_loop X H h has_rows s = (case p_read_next_message X s of
     (Returned (Ok _), s1) \<Rightarrow>
       (if p_type (snd s1) = DATA_ROW then
          (if \<not> has_rows
           then (Returned (Err (LibraryBug ''received DataRow but no RowDescription'')), h, s1)
           else (case rbind (row_description_parse X (tp_column (snd s1))) (\<lambda>cols.
                   rmap (\<lambda>row. (cols, row)) (data_row_parse (p_payload (snd s1)))) of
               Err e \<Rightarrow> (Returned (Err e), h, s1)
             | Panic \<Rightarrow> (Returned Panic, h, s1)
             | Ok (cols, row) \<Rightarrow> (case h_row H h cols row of
                 (Ok _, h1) \<Rightarrow> p_rows_loop X H h1 has_rows s1
               | (Err e, h1) \<Rightarrow> (Returned (Err e), h1, s1)
               | (Panic, h1) \<Rightarrow> (Returned Panic, h1, s1))))
        else p_rows_end X H h s1)
   | (q, s1) \<Rightarrow> (q, h, s1))"
  by pat_completeness auto
termination
  by (relation "measure (\<lambda>(X, H, h, b, s). fst s)") (auto dest!: p_read_next_less [OF sym])

declare p_rows_loop.simps [simp del]

function p_rows_cached ::
    "ext \<Rightarrow> 'h handler \<Rightarrow> 'h \<Rightarrow> bytes option \<Rightarrow> nat \<times> tpipe \<Rightarrow>
       unit outcome \<times> 'h \<times> nat \<times> tpipe" where
  "p_rows_cached X H h row_desc s = (case p_read_next_message X s of
     (Returned (Ok _), s1) \<Rightarrow>
       (if p_type (snd s1) = DATA_ROW then
          (case rbind (ok_or row_desc (LibraryBug ''received DataRow but no RowDescription cached''))
                  (\<lambda>rd. rbind (row_description_parse X rd) (\<lambda>cols.
                   rmap (\<lambda>row. (cols, row)) (data_row_parse (p_payload (snd s1))))) of
              Err e \<Rightarrow> (Returned (Err e), h, s1)
            | Panic \<Rightarrow> (Returned Panic, h, s1)
            | Ok (cols, row) \<Rightarrow> (case h_row H h cols row of
                (Ok _, h1) \<Rightarrow> p_rows_cached X H h1 row_desc s1
              | (Err e, h1) \<Rightarrow> (Returned (Err e), h1, s1)
              | (Panic, h1) \<Rightarrow> (Returned Panic, h1, s1)))
        else p_rows_end X H h s1)
   | (q, s1) \<Rightarrow> (q, h, s1))"
  by pat_completeness auto
termination
  by (relation "measure (\<lambda>(X, H, h, b, s). fst s)") (auto dest!: p_read_next_less [OF sym])

declare p_rows_cached.simps [simp del]

definition p_claim_rows ::
    "ext \<Rightarrow> 'h handler \<Rightarrow> 'h \<Rightarrow> nat \<times> tpipe \<Rightarrow> unit outcome \<times> 'h \<times> nat \<times> tpipe" where
  "p_claim_rows X H h s = ptry (p_read_next_message X s) h (\<lambda>(n, p).
     if p_type p = ROW_DESCRIPTION
     then p_rows_loop X H h True (n, p\<lparr>tp_column := p_payload p\<rparr>)
     else if p_type p = NO_DATA then p_rows_loop X H h False (n, p)
     else (Returned (Err (LibraryBug ''expected RowDescription or NoData, got {}'')), h, n, p))"

definition p_claim_parse_bind_exec ::
    "ext \<Rightarrow> 'h handler \<Rightarrow> 'h \<Rightarrow> nat \<times> tpipe \<Rightarrow> unit outcome \<times> 'h \<times> nat \<times> tpipe" where
  "p_claim_parse_bind_exec X H h s = ptry (p_read_next_message X s) h (\<lambda>s1.
     if p_type (snd s1) \<noteq> PARSE_COMPLETE
     then (Returned (Err (LibraryBug ''expected {}, got {}'')), h, s1)
     else ptry (p_read_next_message X s1) h (\<lambda>s2.
       if p_type (snd s2) \<noteq> BIND_COMPLETE
       then (Returned (Err (LibraryBug ''expected {}, got {}'')), h, s2)
       else p_claim_rows X H h s2))"

definition p_claim_bind_exec ::
    "ext \<Rightarrow> 'h handler \<Rightarrow> 'h \<Rightarrow> prepared_statement option \<Rightarrow> nat \<times> tpipe \<Rightarrow>
       unit outcome \<times> 'h \<times> nat \<times> tpipe" where
  "p_claim_bind_exec X H h stmt s = ptry (p_read_next_message X s) h (\<lambda>s1.
     if p_type (snd s1) \<noteq> BIND_COMPLETE
     then (Returned (Err (LibraryBug ''expected {}, got {}'')), h, s1)
     else p_rows_cached X H h (Option.bind stmt ps_row_desc) s1)"

section \<open>Claiming\<close>

text \<open>\<open>consume_pending_syncs\<close>, on the queue of the pipeline.\<close>

fun p_consume_syncs :: "ext \<Rightarrow> expectation list \<Rightarrow> (tpipe, unit) run" where
  "p_consume_syncs X (Sync # es) (n, p) =
     fut_bind (p_consume_ready X) (\<lambda>_ (n1, p1).
       p_consume_syncs X es (n1, p1\<lparr>tp_aborted := False\<rparr>)) (n, p\<lparr>tp_expectations := es\<rparr>)"
| "p_consume_syncs X es s = (Returned (Ok ()), s)"

definition p_check_sequence :: "nat \<Rightarrow> tpipe \<Rightarrow> unit res" where
  "p_check_sequence seq p =
     (if seq \<noteq> tp_claim_seq p
      then Err (InvalidUsage ''claim out of order: expected seq {}, got {}'') else Ok ())"

text \<open>The end of a claim: count it, consume the pending syncs, finish the exchange.\<close>

definition p_claim_end :: "ext \<Rightarrow> unit res \<Rightarrow> (tpipe, unit) run" where
  "p_claim_end X result = (\<lambda>(n, p).
     fut_bind (p_consume_syncs X (tp_expectations p)) (\<lambda>_. fut_bind p_finish (\<lambda>_ s. (Returned result, s)))
       (n, p\<lparr>tp_claim_seq := tp_claim_seq p + 1\<rparr>))"

definition p_claim_front ::
    "ext \<Rightarrow> 'h handler \<Rightarrow> 'h \<Rightarrow> ticket \<Rightarrow> expectation list \<Rightarrow> nat \<times> tpipe \<Rightarrow>
       unit outcome \<times> 'h \<times> nat \<times> tpipe" where
  "p_claim_front X H h ticket es s = (case es of
     ParseBindExecute # _ \<Rightarrow> p_claim_parse_bind_exec X H h s
   | BindExecute # _ \<Rightarrow> p_claim_bind_exec X H h (t_stmt ticket) s
   | Sync # _ \<Rightarrow> (Returned (Err (LibraryBug ''unexpected Sync expectation'')), h, s)
   | [] \<Rightarrow> (Returned (Err (LibraryBug ''no expectation in queue'')), h, s))"

text \<open>The claim once the exchange is begun.\<close>

definition p_claim_begun ::
    "ext \<Rightarrow> 'h handler \<Rightarrow> 'h \<Rightarrow> ticket \<Rightarrow> nat \<times> tpipe \<Rightarrow> unit outcome \<times> 'h \<times> nat \<times> tpipe" where
  "p_claim_begun X H h ticket = (\<lambda>(n, p).
     let es = tp_expectations p; p1 = p\<lparr>tp_expectations := tl es\<rparr> in
     if tp_aborted p then
       (let (q, s) = p_claim_end X (Err (LibraryBug ''pipeline aborted due to earlier error'')) (n, p1)
        in (q, h, s))
     else
       (let (result, h1, n2, p2) = p_claim_front X H h ticket es (n, p1) in
        case result of
          Returned (Err e) \<Rightarrow>
            (if c_broken (t_base (tp_conn p2)) \<or> \<not> tp_aborted p2
             then (Returned (Err e), h1, n2, p2)
             else (let (q, s) = p_claim_end X (Err e) (n2, p2) in (q, h1, s)))
        | Returned (Ok u) \<Rightarrow> (let (q, s) = p_claim_end X (Ok u) (n2, p2) in (q, h1, s))
        | _ \<Rightarrow> (result, h1, n2, p2)))"

definition p_claim ::
    "ext \<Rightarrow> 'h handler \<Rightarrow> 'h \<Rightarrow> ticket \<Rightarrow> nat \<times> tpipe \<Rightarrow> unit outcome \<times> 'h \<times> nat \<times> tpipe" where
  "p_claim X H h ticket = (\<lambda>(n, p).
     ptry (p_ready (fut_lift (\<lambda>p. (p_check_sequence (t_seq ticket) p, p))) (n, p)) h (\<lambda>s.
     ptry (if tp_write p \<noteq> [] then p_sync s else (Returned (Ok ()), s)) h (\<lambda>s1.
     ptry (p_begin s1) h (p_claim_begun X H h ticket))))"

definition p_with_rows :: "unit outcome \<times> 'h \<times> nat \<times> tpipe \<Rightarrow> 'h outcome \<times> nat \<times> tpipe" where
  "p_with_rows = (\<lambda>(q, h, s). (outcome_map (\<lambda>_. h) q, s))"

definition p_claim_collect ::
    "ext \<Rightarrow> (row_description \<Rightarrow> data_row \<Rightarrow> 'a res) \<Rightarrow> ticket \<Rightarrow> (tpipe, 'a list) run" where
  "p_claim_collect X from_row ticket s = p_with_rows (p_claim X (collect_handler from_row) [] ticket s)"

definition p_claim_one ::
    "ext \<Rightarrow> (row_description \<Rightarrow> data_row \<Rightarrow> 'a res) \<Rightarrow> ticket \<Rightarrow> (tpipe, 'a option) run" where
  "p_claim_one X from_row ticket s =
     p_with_rows (p_claim X (first_row_handler from_row) None ticket s)"

definition p_claim_drop :: "ext \<Rightarrow> ticket \<Rightarrow> (tpipe, unit) run" where
  "p_claim_drop X ticket s = (let (q, h, s1) = p_claim X drop_handler None ticket s in (q, s1))"

definition p_pending_count :: "tpipe \<Rightarrow> nat" where
  "p_pending_count p = tp_queue_seq p - tp_claim_seq p"

section \<open>Cleaning up\<close>

text \<open>The loop of \<open>drain_expectation\<close>, which discards rows without decoding them.\<close>

function p_drain_rows :: "ext \<Rightarrow> (tpipe, unit) run" where
  "p_drain_rows X s = (case p_read_next_message X s of
     (Returned (Ok _), s1) \<Rightarrow>
       (let ty = p_type (snd s1) in
        if ty = COMMAND_COMPLETE then
          (Returned (rmap (\<lambda>_. ()) (command_complete_parse X (p_payload (snd s1)))), s1)
        else if ty = EMPTY_QUERY_RESPONSE then (Returned (Ok ()), s1)
        else if ty \<in> {PARSE_COMPLETE, BIND_COMPLETE, ROW_DESCRIPTION, NO_DATA, DATA_ROW}
        then p_drain_rows X s1
        else (Returned (Err (LibraryBug ''expected {}, got {}'')), s1))
   | (q, s1) \<Rightarrow> (q, s1))"
  by pat_completeness auto
termination
  by (relation "measure (\<lambda>(X, s). fst s)") (auto dest!: p_read_next_less [OF sym])

declare p_drain_rows.simps [simp del]

definition p_drain_expectation :: "ext \<Rightarrow> expectation \<Rightarrow> (tpipe, unit) run" where
  "p_drain_expectation X e = (if e = Sync then p_consume_ready X else p_drain_rows X)"

text \<open>The draining loop. \<open>False\<close> is the early return of \<open>cleanup_inner\<close>.\<close>

fun p_cleanup_loop :: "ext \<Rightarrow> expectation list \<Rightarrow> (tpipe, bool) run" where
  "p_cleanup_loop X [] s = (Returned (Ok True), s)"
| "p_cleanup_loop X (e # es) (n, p) =
     (let p0 = p\<lparr>tp_expectations := es\<rparr> in
      if tp_aborted p \<and> e \<noteq> Sync then p_cleanup_loop X es (n, p0)
      else (case p_drain_expectation X e (n, p0) of
          (Dropped, s) \<Rightarrow> (Dropped, s)
        | (Returned Panic, s) \<Rightarrow> (Returned Panic, s)
        | (Returned (Err _), n1, p1) \<Rightarrow>
            (if \<not> tp_aborted p1 \<or> e = Sync then (Returned (Ok False), n1, p1)
             else p_cleanup_loop X es (n1, p1))
        | (Returned (Ok _), n1, p1) \<Rightarrow>
            p_cleanup_loop X es (n1, if e = Sync then p1\<lparr>tp_aborted := False\<rparr> else p1)))"

text \<open>From \<open>begin_exchange\<close> on.\<close>

definition p_cleanup_drain :: "ext \<Rightarrow> (tpipe, unit) run" where
  "p_cleanup_drain X = (\<lambda>(n, p). case begin_exchange (tp_conn p) of
     (Ok _, t) \<Rightarrow>
       fut_bind (p_cleanup_loop X (tp_expectations p)) (\<lambda>drained.
         if drained
         then fut_bind (upd (\<lambda>p. p\<lparr>tp_queue_seq := 0, tp_claim_seq := 0, tp_aborted := False\<rparr>))
                (\<lambda>_. p_finish)
         else (\<lambda>s. (Returned (Ok ()), s))) (n, p\<lparr>tp_conn := t\<rparr>)
   | _ \<Rightarrow> (Returned (Ok ()), n, p))"

definition p_cleanup :: "ext \<Rightarrow> (tpipe, unit) run" where
  "p_cleanup X = (\<lambda>(n, p).
     if ensure_exchange_ready (tp_conn p) \<noteq> Ok () then (Returned (Ok ()), n, p)
     else if tp_expectations p = [] \<and> \<not> t_scope (tp_conn p)
     then (Returned (Ok ()), n, set_tp_write [] p)
     else if tp_write p \<noteq> [] \<or> Sync \<notin> set (tp_expectations p)
     then (case p_sync (n, p) of
         (Returned (Ok _), s) \<Rightarrow> p_cleanup_drain X s
       | (Returned (Err _), s) \<Rightarrow> (Returned (Ok ()), s)
       | (q, s) \<Rightarrow> (q, s))
     else p_cleanup_drain X (n, p))"

text \<open>
  \<open>Conn::pipeline\<close>: run the closure, then clean up whatever it left. The pipeline is dropped on
  every path, when the future is dropped or unwinds as well.
\<close>

definition t_pipeline :: "ext \<Rightarrow> (tpipe, 'a) run \<Rightarrow> 'a fut" where
  "t_pipeline X f = usable (\<lambda>(n, t). case f (n, p_new t) of
     (Dropped, n1, p1) \<Rightarrow> (Dropped, n1, p_drop p1)
   | (Returned Panic, n1, p1) \<Rightarrow> (Returned Panic, n1, p_drop p1)
   | (Returned result, n1, p1) \<Rightarrow> (case p_cleanup X (n1, p1) of
       (Dropped, n2, p2) \<Rightarrow> (Dropped, n2, p_drop p2)
     | (Returned Panic, n2, p2) \<Rightarrow> (Returned Panic, n2, p_drop p2)
     | (_, n2, p2) \<Rightarrow> (Returned result, n2, p_drop p2)))"

end
