(* ===== verification/TokioPipelineFacts.thy ===== *)
theory TokioPipelineFacts
  imports TokioPipeline TokioFacts Samples
begin

text \<open>
  The asynchronous pipeline keeps its exchanges in step with the server: on a connection that is
  usable afterwards, as many ReadyForQuery messages have been read as Sync messages written.
\<close>

section \<open>What is read and what is written\<close>

text \<open>Whole messages have been read, \<open>k\<close> of them ReadyForQuery.\<close>

definition consumed :: "nat \<Rightarrow> bytes \<Rightarrow> bytes \<Rightarrow> bool" where
  "consumed k data rest \<longleftrightarrow>
     (\<exists>ms. reads data ms rest \<and> length (filter (\<lambda>m. fst m = READY_FOR_QUERY) ms) = k)"

lemma consumed_refl [intro, simp]: "consumed 0 data data"
  by (auto simp: consumed_def intro: exI [of _ "[]"])

lemma reads_trans: "reads a ms b \<Longrightarrow> reads b ms' c \<Longrightarrow> reads a (ms @ ms') c"
  by (auto simp: reads_append)

lemma consumed_trans: "consumed j a b \<Longrightarrow> consumed k b c \<Longrightarrow> consumed (j + k) a c"
proof -
  assume "consumed j a b" "consumed k b c"
  then obtain ms ms' where "reads a ms b" "length (filter (\<lambda>m. fst m = READY_FOR_QUERY) ms) = j"
    "reads b ms' c" "length (filter (\<lambda>m. fst m = READY_FOR_QUERY) ms') = k"
    unfolding consumed_def by blast
  then show ?thesis
    unfolding consumed_def by (intro exI [of _ "ms @ ms'"]) (simp add: reads_trans)
qed

lemma consumed_one:
  "parse_msg a = Some (m, b) \<Longrightarrow> consumed (if fst m = READY_FOR_QUERY then 1 else 0) a b"
  by (auto simp: consumed_def intro!: exI [of _ "[m]"])

text \<open>Writes that end in \<open>j\<close> Sync messages and any number of Flush messages.\<close>

inductive sent :: "nat \<Rightarrow> bytes \<Rightarrow> bytes \<Rightarrow> bool" where
  nothing: "sent 0 d d"
| sync: "sent j d d' \<Longrightarrow> sent (Suc j) d (d' @ w @ F_SYNC # framed [])"
| flush: "sent j d d' \<Longrightarrow> sent j d (d' @ w @ F_FLUSH # framed [])"

declare sent.nothing [intro, simp]

lemma sent_trans: "sent k b c \<Longrightarrow> sent j a b \<Longrightarrow> sent (j + k) a c"
proof (induction rule: sent.induct)
  case (sync k d d' w)
  then show ?case using sent.sync [of "j + k" a d' w] by simp
next
  case (flush k d d' w)
  then show ?case using sent.flush [of "j + k" a d' w] by simp
qed simp

section \<open>Reading within an exchange\<close>

definition p_inp :: "tpipe \<Rightarrow> bytes" where
  "p_inp p = inp (c_stream (t_base (tp_conn p)))"

definition p_out :: "tpipe \<Rightarrow> bytes" where
  "p_out p = out (c_stream (t_base (tp_conn p)))"

definition p_broken :: "tpipe \<Rightarrow> bool" where
  "p_broken p = c_broken (t_base (tp_conn p))"

definition p_open :: "tpipe \<Rightarrow> bool" where
  "p_open p = t_exchange (tp_conn p)"

lemmas p_defs = p_inp_def p_out_def p_broken_def p_open_def p_type_def

text \<open>What no read touches.\<close>

definition p_frame :: "tpipe \<Rightarrow> tpipe \<Rightarrow> bool" where
  "p_frame p p' \<longleftrightarrow> tp_expectations p' = tp_expectations p \<and> p_open p' = p_open p \<and>
     p_out p' = p_out p \<and> (p_broken p \<longrightarrow> p_broken p')"

lemma p_frame_refl [simp]: "p_frame p p"
  by (simp add: p_frame_def)

lemma p_frame_trans: "p_frame p1 p2 \<Longrightarrow> p_frame p2 p3 \<Longrightarrow> p_frame p1 p3"
  by (simp add: p_frame_def)

lemma a_next_message_reads:
  "a_next_message s = (q, s') \<Longrightarrow> t_reads (snd s) (snd s') \<and>
     (q = Returned (Ok u) \<longrightarrow> consumed (if type_byte (t_bufs (snd s')) = READY_FOR_QUERY then 1 else 0)
       (inp (c_stream (t_base (snd s)))) (inp (c_stream (t_base (snd s')))))"
proof (induction s arbitrary: q s' rule: a_next_message.induct)
  case (1 s)
  obtain r n1 t1 where rd: "a_read_message s = (r, n1, t1)" by (cases "a_read_message s")
  obtain n t where s: "s = (n, t)" by (cases s)
  have f: "t_reads t t1" using rd s a_read_keeps by blast
  show ?case
  proof (cases "r = Returned (Ok ())")
    case True
    with rd s a_read_parse [of n t "()" n1 t1] obtain m rest where
      m: "parse_msg (inp (c_stream (t_base t))) = Some (m, rest)" "t1 = t\<lparr>t_base := got m rest (t_base t)\<rparr>"
      by auto
    have c: "consumed (if type_byte (t_bufs t1) = READY_FOR_QUERY then 1 else 0)
        (inp (c_stream (t_base t))) (inp (c_stream (t_base t1)))"
      using consumed_one [OF m(1)] m(2) by (simp add: got_def t_bufs_def)
    show ?thesis
    proof (cases "is_async_type (type_byte (t_bufs t1))")
      case async: True
      then have "a_next_message (n1, t1) = (q, s')"
        using 1(2) rd True by (simp add: a_next_message.simps [of s])
      from 1(1) [OF rd [symmetric] True _ _ this] async f s c
      have "t_reads t (snd s')" "q = Returned (Ok u) \<longrightarrow>
          consumed (if type_byte (t_bufs (snd s')) = READY_FOR_QUERY then 1 else 0)
            (inp (c_stream (t_base t1))) (inp (c_stream (t_base (snd s'))))"
        by (auto intro: t_reads_trans)
      moreover have "type_byte (t_bufs t1) \<noteq> READY_FOR_QUERY"
        using async by (auto simp: is_async_type_def)
      ultimately show ?thesis using c s consumed_trans [of 0] by fastforce
    next
      case False
      then have "q = Returned (Ok ())" "s' = (n1, t1)"
        using 1(2) rd True by (auto simp: a_next_message.simps [of s])
      then show ?thesis using f c s by simp
    qed
  next
    case False
    then have "q = r" "s' = (n1, t1)"
      using 1(2) rd by (auto simp: a_next_message.simps [of s] split: outcome.splits res.splits)
    then show ?thesis using f s False by (cases u) simp
  qed
qed

text \<open>
  A read of an operation's answer: it touches nothing else, and when it succeeded, or ended in
  an error the pipeline goes on after, whole messages without a ReadyForQuery have been read.
\<close>

definition p_read_ok :: "tpipe \<Rightarrow> 'a outcome \<Rightarrow> tpipe \<Rightarrow> bool" where
  "p_read_ok p q p' \<longleftrightarrow> p_frame p p' \<and> t_scope (tp_conn p') = t_scope (tp_conn p) \<and>
     (\<not> tp_aborted p \<and> ((\<exists>u. q = Returned (Ok u)) \<or> tp_aborted p') \<longrightarrow>
       consumed 0 (p_inp p) (p_inp p'))"

definition p_read_one :: "tpipe \<Rightarrow> tpipe \<Rightarrow> bool" where
  "p_read_one p p' \<longleftrightarrow> p_frame p p' \<and> t_scope (tp_conn p') = t_scope (tp_conn p) \<and>
     tp_aborted p' = tp_aborted p \<and>
     consumed (if p_type p' = READY_FOR_QUERY then 1 else 0) (p_inp p) (p_inp p')"

lemma read_one_then:
  "p_read_one p p1 \<Longrightarrow> p_type p1 \<noteq> READY_FOR_QUERY \<Longrightarrow> p_read_ok p1 q p' \<Longrightarrow> p_read_ok p q p'"
  using consumed_trans [of 0 "p_inp p" "p_inp p1" 0 "p_inp p'"]
  by (auto simp: p_read_one_def p_read_ok_def p_frame_def)

lemma read_ok_refl [simp]: "p_read_ok p q p"
  by (simp add: p_read_ok_def)

lemma on_conn_next:
  assumes "on_conn a_next_message (n, p) = (q, n', p')"
  shows "p_frame p p' \<and> t_scope (tp_conn p') = t_scope (tp_conn p) \<and> tp_aborted p' = tp_aborted p \<and>
    (q = Returned (Ok u) \<longrightarrow> p_read_one p p')"
proof -
  obtain t where t: "a_next_message (n, tp_conn p) = (q, n', t)" "p' = p\<lparr>tp_conn := t\<rparr>"
    using assms by (auto simp: on_conn_def split: prod.splits)
  from a_next_message_reads [OF t(1), of u] have r: "t_reads (tp_conn p) t" "q = Returned (Ok u) \<longrightarrow>
      consumed (if type_byte (t_bufs t) = READY_FOR_QUERY then 1 else 0)
        (inp (c_stream (t_base (tp_conn p)))) (inp (c_stream (t_base t)))"
    by simp_all
  from r(1) have "t_exchange t = t_exchange (tp_conn p)" "t_scope t = t_scope (tp_conn p)"
    by (cases t; cases "tp_conn p"; auto simp: t_reads_def)+
  with r t(2) show ?thesis
    by (auto simp: p_frame_def p_read_one_def p_defs t_reads_def)
qed

lemma read_next_Ok:
  assumes "p_read_next_message X s = (Returned (Ok u), s1)"
  shows "p_read_one (snd s) (snd s1) \<and> p_type (snd s1) \<noteq> ERROR_RESPONSE"
proof -
  obtain n p n1 p1 where s: "s = (n, p)" "s1 = (n1, p1)" by (cases s; cases s1)
  with assms have "on_conn a_next_message (n, p) = (Returned (Ok ()), n1, p1)" "p_type p1 \<noteq> ERROR_RESPONSE"
    by (auto simp: p_read_next_message_def fut_bind_Ok fut_lift_def p_server_error_def Let_def
        case_prod_beta split: if_splits res.splits)
  with on_conn_next [of n p _ n1 p1 "()"] s show ?thesis by auto
qed

lemma read_next_fails:
  assumes "p_read_next_message X s = (q, s1)" and "\<forall>u. q \<noteq> Returned (Ok u)"
  shows "p_read_ok (snd s) q (snd s1)"
proof -
  obtain n p n1 p1 where s: "s = (n, p)" "s1 = (n1, p1)" by (cases s; cases s1)
  obtain q0 n0 p0 where m: "on_conn a_next_message (n, p) = (q0, n0, p0)" by (metis prod_cases3)
  note f = on_conn_next [OF m, of "()"]
  show ?thesis
  proof (cases "q0 = Returned (Ok ()) \<and> p_type p0 = ERROR_RESPONSE")
    case True
    with assms s m have "(q, p1) = (let (r, p2) = p_server_error X (\<lambda>p. p\<lparr>tp_aborted := True\<rparr>) p0
        in (Returned r, p2))"
      by (auto simp: p_read_next_message_def fut_bind_def fut_lift_def Let_def case_prod_beta)
    with f True s show ?thesis
      by (auto simp: p_server_error_def p_read_ok_def p_read_one_def p_frame_def p_defs t_break_def
          split: res.splits if_splits)
  next
    case False
    with assms s m have "p1 = p0" "q = q0"
      by (auto simp: p_read_next_message_def fut_bind_def fut_lift_def Let_def
          split: outcome.splits res.splits if_splits)
    with f assms(2) s show ?thesis by (auto simp: p_read_ok_def)
  qed
qed

lemma read_one_stop:
  "p_read_one p p' \<Longrightarrow> p_type p' \<noteq> READY_FOR_QUERY \<or> (\<forall>u. q \<noteq> Returned (Ok u)) \<Longrightarrow> p_read_ok p q p'"
  by (auto simp: p_read_one_def p_read_ok_def)

lemma rows_end_ok:
  "p_read_one p (snd s1) \<Longrightarrow> p_rows_end X H h s1 = (q, h', s') \<Longrightarrow> p_read_ok p q (snd s')"
  by (rule read_one_stop)
    (auto simp: p_rows_end_def Let_def split: if_splits res.splits prod.splits)

text \<open>A round of the row loops goes on from the message just read or stops there.\<close>

lemma rows_round:
  assumes "p_read_next_message X s = (Returned (Ok u), s1)" and "p_type (snd s1) = DATA_ROW"
  shows "(\<exists>h1. p_rows_loop X H h b s = p_rows_loop X H h1 b s1) \<or>
    snd (snd (p_rows_loop X H h b s)) = s1"
  unfolding p_rows_loop.simps [of X H h b s] assms(1)
  by (simp add: assms(2) split: res.split prod.split) blast?

lemma rows_loop_ok:
  "p_rows_loop X H h b s = (q, h', s') \<Longrightarrow> p_read_ok (snd s) q (snd s')"
proof (induction "fst s" arbitrary: h s rule: less_induct)
  case less
  obtain r s1 where rd: "p_read_next_message X s = (r, s1)" by (cases "p_read_next_message X s")
  show ?case
  proof (cases "\<exists>u. r = Returned (Ok u)")
    case True
    then obtain u where ok: "p_read_next_message X s = (Returned (Ok u), s1)" using rd by blast
    then have lt: "fst s1 < fst s" by (cases s; cases s1) (auto dest: p_read_next_less)
    note one = read_next_Ok [OF ok, THEN conjunct1]
    show ?thesis
    proof (cases "p_type (snd s1) = DATA_ROW")
      case data: True
      from rows_round [OF ok data, of H h b] show ?thesis
      proof
        assume "\<exists>h1. p_rows_loop X H h b s = p_rows_loop X H h1 b s1"
        then obtain h1 where "p_rows_loop X H h1 b s1 = (q, h', s')" using less.prems by metis
        note rest = less.hyps [OF lt this]
        show ?thesis using read_one_then [OF one _ rest] data by simp
      next
        assume "snd (snd (p_rows_loop X H h b s)) = s1"
        then have "s' = s1" using less.prems by simp
        with read_one_stop [OF one] data show ?thesis by simp
      qed
    next
      case False
      with less.prems ok show ?thesis
        by (intro rows_end_ok [OF one]) (simp add: p_rows_loop.simps [of X H h b s])
    qed
  next
    case False
    with less.prems rd have "q = r" "s' = s1"
      by (auto simp: p_rows_loop.simps [of X H h b s] split: outcome.splits res.splits)
    with read_next_fails [OF rd] False show ?thesis by simp
  qed
qed

lemma cached_round:
  assumes "p_read_next_message X s = (Returned (Ok u), s1)" and "p_type (snd s1) = DATA_ROW"
  shows "(\<exists>h1. p_rows_cached X H h b s = p_rows_cached X H h1 b s1) \<or>
    snd (snd (p_rows_cached X H h b s)) = s1"
  unfolding p_rows_cached.simps [of X H h b s] assms(1)
  by (simp add: assms(2) split: res.split prod.split) blast?

lemma rows_cached_ok:
  "p_rows_cached X H h b s = (q, h', s') \<Longrightarrow> p_read_ok (snd s) q (snd s')"
proof (induction "fst s" arbitrary: h s rule: less_induct)
  case less
  obtain r s1 where rd: "p_read_next_message X s = (r, s1)" by (cases "p_read_next_message X s")
  show ?case
  proof (cases "\<exists>u. r = Returned (Ok u)")
    case True
    then obtain u where ok: "p_read_next_message X s = (Returned (Ok u), s1)" using rd by blast
    then have lt: "fst s1 < fst s" by (cases s; cases s1) (auto dest: p_read_next_less)
    note one = read_next_Ok [OF ok, THEN conjunct1]
    show ?thesis
    proof (cases "p_type (snd s1) = DATA_ROW")
      case data: True
      from cached_round [OF ok data, of H h b] show ?thesis
      proof
        assume "\<exists>h1. p_rows_cached X H h b s = p_rows_cached X H h1 b s1"
        then obtain h1 where "p_rows_cached X H h1 b s1 = (q, h', s')" using less.prems by metis
        note rest = less.hyps [OF lt this]
        show ?thesis using read_one_then [OF one _ rest] data by simp
      next
        assume "snd (snd (p_rows_cached X H h b s)) = s1"
        then have "s' = s1" using less.prems by simp
        with read_one_stop [OF one] data show ?thesis by simp
      qed
    next
      case False
      with less.prems ok show ?thesis
        by (intro rows_end_ok [OF one]) (simp add: p_rows_cached.simps [of X H h b s])
    qed
  next
    case False
    with less.prems rd have "q = r" "s' = s1"
      by (auto simp: p_rows_cached.simps [of X H h b s] split: outcome.splits res.splits)
    with read_next_fails [OF rd] False show ?thesis by simp
  qed
qed

lemma ptry_read:
  assumes "ptry (p_read_next_message X s) h f = (q, h', s')"
    and "\<And>s1. \<lbrakk>p_read_one (snd s) (snd s1); f s1 = (q, h', s')\<rbrakk> \<Longrightarrow> p_read_ok (snd s) q (snd s')"
  shows "p_read_ok (snd s) q (snd s')"
proof -
  obtain r s1 where rd: "p_read_next_message X s = (r, s1)" by (cases "p_read_next_message X s")
  show ?thesis
  proof (cases "\<exists>u. r = Returned (Ok u)")
    case True
    then obtain u where "p_read_next_message X s = (Returned (Ok u), s1)" using rd by blast
    from assms(1) assms(2) [of s1] read_next_Ok [OF this] this show ?thesis by (simp add: ptry_def)
  next
    case False
    with assms(1) rd have "q = r" "s' = s1"
      by (auto simp: ptry_def split: outcome.splits res.splits)
    with read_next_fails [OF rd] False show ?thesis by simp
  qed
qed

lemma claim_rows_ok: "p_claim_rows X H h s = (q, h', s') \<Longrightarrow> p_read_ok (snd s) q (snd s')"
  unfolding p_claim_rows_def
proof (erule ptry_read)
  fix s1
  assume one: "p_read_one (snd s) (snd s1)"
    and run: "(case s1 of (n, p) \<Rightarrow> if p_type p = ROW_DESCRIPTION
        then p_rows_loop X H h True (n, p\<lparr>tp_column := p_payload p\<rparr>)
        else if p_type p = NO_DATA then p_rows_loop X H h False (n, p)
        else (Returned (Err (LibraryBug ''expected RowDescription or NoData, got {}'')), h, n, p)) = (q, h', s')"
  obtain n p where s1: "s1 = (n, p)" by (cases s1)
  show "p_read_ok (snd s) q (snd s')"
  proof (cases "p_type p = ROW_DESCRIPTION")
    case True
    with run s1 have "p_rows_loop X H h True (n, p\<lparr>tp_column := p_payload p\<rparr>) = (q, h', s')" by simp
    from rows_loop_ok [OF this] have "p_read_ok p q (snd s')"
      by (simp add: p_read_ok_def p_frame_def p_defs)
    with one s1 True show ?thesis by (auto intro: read_one_then)
  next
    case rd: False
    show ?thesis
    proof (cases "p_type p = NO_DATA")
      case True
      with run s1 have "p_rows_loop X H h False (n, p) = (q, h', s')" by simp
      from rows_loop_ok [OF this] one s1 True show ?thesis by (auto intro: read_one_then)
    next
      case False
      with rd run s1 have "q = Returned (Err (LibraryBug ''expected RowDescription or NoData, got {}''))"
        "snd s' = p" by auto
      with one s1 show ?thesis by (simp add: read_one_stop)
    qed
  qed
qed

lemma claim_bind_ok: "p_claim_bind_exec X H h stmt s = (q, h', s') \<Longrightarrow> p_read_ok (snd s) q (snd s')"
  unfolding p_claim_bind_exec_def
proof (erule ptry_read)
  fix s1
  assume one: "p_read_one (snd s) (snd s1)"
    and run: "(if p_type (snd s1) \<noteq> BIND_COMPLETE
       then (Returned (Err (LibraryBug ''expected {}, got {}'')), h, s1)
       else p_rows_cached X H h (Option.bind stmt ps_row_desc) s1) = (q, h', s')"
  show "p_read_ok (snd s) q (snd s')"
  proof (cases "p_type (snd s1) = BIND_COMPLETE")
    case True
    with run have "p_rows_cached X H h (Option.bind stmt ps_row_desc) s1 = (q, h', s')" by simp
    from rows_cached_ok [OF this] one True show ?thesis by (auto intro: read_one_then)
  next
    case False
    with run have "q = Returned (Err (LibraryBug ''expected {}, got {}''))" "s' = s1" by auto
    with one show ?thesis by (simp add: read_one_stop)
  qed
qed

lemma claim_parse_bind_ok:
  "p_claim_parse_bind_exec X H h s = (q, h', s') \<Longrightarrow> p_read_ok (snd s) q (snd s')"
  unfolding p_claim_parse_bind_exec_def
proof (erule ptry_read)
  fix s1
  assume one: "p_read_one (snd s) (snd s1)"
    and run: "(if p_type (snd s1) \<noteq> PARSE_COMPLETE
       then (Returned (Err (LibraryBug ''expected {}, got {}'')), h, s1)
       else ptry (p_read_next_message X s1) h (\<lambda>s2.
         if p_type (snd s2) \<noteq> BIND_COMPLETE
         then (Returned (Err (LibraryBug ''expected {}, got {}'')), h, s2)
         else p_claim_rows X H h s2)) = (q, h', s')"
  show "p_read_ok (snd s) q (snd s')"
  proof (cases "p_type (snd s1) = PARSE_COMPLETE")
    case True
    with run have "ptry (p_read_next_message X s1) h (\<lambda>s2.
         if p_type (snd s2) \<noteq> BIND_COMPLETE
         then (Returned (Err (LibraryBug ''expected {}, got {}'')), h, s2)
         else p_claim_rows X H h s2) = (q, h', s')" by simp
    then have "p_read_ok (snd s1) q (snd s')"
    proof (rule ptry_read)
      fix s2
      assume two: "p_read_one (snd s1) (snd s2)"
        and run2: "(if p_type (snd s2) \<noteq> BIND_COMPLETE
           then (Returned (Err (LibraryBug ''expected {}, got {}'')), h, s2)
           else p_claim_rows X H h s2) = (q, h', s')"
      show "p_read_ok (snd s1) q (snd s')"
      proof (cases "p_type (snd s2) = BIND_COMPLETE")
        case True
        with run2 have "p_claim_rows X H h s2 = (q, h', s')" by simp
        from claim_rows_ok [OF this] two True show ?thesis by (auto intro: read_one_then)
      next
        case False
        with run2 have "q = Returned (Err (LibraryBug ''expected {}, got {}''))" "s' = s2" by auto
        with two show ?thesis by (simp add: read_one_stop)
      qed
    qed
    with one True show ?thesis by (auto intro: read_one_then)
  next
    case False
    with run have "q = Returned (Err (LibraryBug ''expected {}, got {}''))" "s' = s1" by auto
    with one show ?thesis by (simp add: read_one_stop)
  qed
qed

lemma drain_rows_ok: "p_drain_rows X s = (q, s') \<Longrightarrow> p_read_ok (snd s) q (snd s')"
proof (induction "fst s" arbitrary: s rule: less_induct)
  case less
  obtain r s1 where rd: "p_read_next_message X s = (r, s1)" by (cases "p_read_next_message X s")
  show ?case
  proof (cases "\<exists>u. r = Returned (Ok u)")
    case True
    then obtain u where ok: "p_read_next_message X s = (Returned (Ok u), s1)" using rd by blast
    then have lt: "fst s1 < fst s" by (cases s; cases s1) (auto dest: p_read_next_less)
    note one = read_next_Ok [OF ok, THEN conjunct1]
    note unfolded = p_drain_rows.simps [of X s, unfolded ok, simplified, unfolded Let_def]
    show ?thesis
    proof (cases "p_type (snd s1) \<in> {PARSE_COMPLETE, BIND_COMPLETE, ROW_DESCRIPTION, NO_DATA, DATA_ROW}")
      case True
      then have "p_drain_rows X s1 = (q, s')" using less.prems unfolded by auto
      note rest = less.hyps [OF lt this]
      show ?thesis using read_one_then [OF one _ rest] True by auto
    next
      case False
      then have "s' = s1" "p_type (snd s1) = READY_FOR_QUERY \<longrightarrow> (\<forall>u. q \<noteq> Returned (Ok u))"
        using less.prems unfolded by (auto split: if_splits)
      with read_one_stop [OF one] show ?thesis by blast
    qed
  next
    case False
    with less.prems rd have "q = r" "s' = s1"
      by (auto simp: p_drain_rows.simps [of X s] split: outcome.splits res.splits)
    with read_next_fails [OF rd] False show ?thesis by simp
  qed
qed

text \<open>\<open>consume_ready_for_query\<close> reads one ReadyForQuery, or stops.\<close>

lemma p_consume_ready_ok:
  "p_consume_ready X s = (q, s') \<Longrightarrow> p_frame (snd s) (snd s') \<and>
     tp_aborted (snd s') = tp_aborted (snd s) \<and>
     (q = Returned (Ok ()) \<longrightarrow> consumed 1 (p_inp (snd s)) (p_inp (snd s')) \<and>
       t_scope (tp_conn (snd s')) = (tp_expectations (snd s) \<noteq> []))"
proof (induction "fst s" arbitrary: s rule: less_induct)
  case less
  obtain n p where s: "s = (n, p)" by (cases s)
  obtain r n1 p1 where rd: "on_conn a_next_message (n, p) = (r, n1, p1)" by (metis prod_cases3)
  note one = on_conn_next [OF rd, of "()"]
  note unfolded = p_consume_ready.simps [of X s, unfolded s rd]
  show ?case
  proof (cases "r = Returned (Ok ())")
    case False
    then have "q = r" "s' = (n1, p1)"
      using less.prems unfolded s by (auto split: outcome.splits res.splits)
    with one False s show ?thesis by simp
  next
    case True
    with one have fr: "p_frame p p1" "tp_aborted p1 = tp_aborted p"
      and c: "consumed (if p_type p1 = READY_FOR_QUERY then 1 else 0) (p_inp p) (p_inp p1)"
      by (simp_all add: p_read_one_def)
    consider (error) "p_type p1 = ERROR_RESPONSE" | (ready) "p_type p1 = READY_FOR_QUERY"
      | (other) "p_type p1 \<noteq> ERROR_RESPONSE" "p_type p1 \<noteq> READY_FOR_QUERY" by blast
    then show ?thesis
    proof cases
      case error
      with less.prems unfolded s True have "(q, snd s') = (let (r, p2) = p_server_error X (\<lambda>p. p) p1
          in (Returned r, p2))"
        by (auto simp: Let_def split: prod.splits)
      with fr s show ?thesis
        by (auto simp: p_server_error_def p_frame_def p_defs t_break_def split: res.splits if_splits)
    next
      case ready
      with less.prems unfolded s True fr c show ?thesis
        by (auto simp: p_frame_def p_defs set_tp_scope_def t_set_tx_def split: res.splits)
    next
      case other
      with less.prems unfolded s True have "p_consume_ready X (n1, p1) = (q, s')" by simp
      with less.hyps [of "(n1, p1)"] on_conn_next_less [of n p "()"] rd s True
      have "p_frame p1 (snd s')" "tp_aborted (snd s') = tp_aborted p1"
        "q = Returned (Ok ()) \<longrightarrow> consumed 1 (p_inp p1) (p_inp (snd s')) \<and>
          t_scope (tp_conn (snd s')) = (tp_expectations p1 \<noteq> [])" by auto
      with fr c other s consumed_trans [of 0 "p_inp p" "p_inp p1" 1 "p_inp (snd s')"] show ?thesis
        by (auto simp: p_frame_def)
    qed
  qed
qed

section \<open>Bookkeeping\<close>

definition stuck :: "tpipe \<Rightarrow> bool" where
  "stuck p \<longleftrightarrow> p_open p \<or> p_broken p"

definition syncs :: "tpipe \<Rightarrow> nat" where
  "syncs p = length (filter (\<lambda>e. e = Sync) (tp_expectations p))"

text \<open>
  Every ReadyForQuery read answers a Sync expected, every Sync written is expected; and nothing
  is expected from a server that owes nothing.
\<close>

definition counted :: "tpipe \<Rightarrow> tpipe \<Rightarrow> bool" where
  "counted p p' \<longleftrightarrow> (\<exists>k j. consumed k (p_inp p) (p_inp p') \<and> sent j (p_out p) (p_out p') \<and>
     syncs p + j = syncs p' + k)"

definition quiet :: "tpipe \<Rightarrow> bool" where
  "quiet p \<longleftrightarrow> t_scope (tp_conn p) \<or> syncs p = 0"

definition in_step :: "tpipe \<Rightarrow> tpipe \<Rightarrow> bool" where
  "in_step p p' \<longleftrightarrow> stuck p' \<or> \<not> stuck p \<and> counted p p' \<and> (quiet p \<longrightarrow> quiet p')"

lemma counted_trans: "counted p1 p2 \<Longrightarrow> counted p2 p3 \<Longrightarrow> counted p1 p3"
proof -
  assume "counted p1 p2" "counted p2 p3"
  then obtain k j k' j' where "consumed k (p_inp p1) (p_inp p2)" "consumed k' (p_inp p2) (p_inp p3)"
    "sent j (p_out p1) (p_out p2)" "sent j' (p_out p2) (p_out p3)"
    "syncs p1 + j = syncs p2 + k" "syncs p2 + j' = syncs p3 + k'"
    unfolding counted_def by blast
  moreover from this have "syncs p1 + (j + j') = syncs p3 + (k + k')" by simp
  ultimately show ?thesis unfolding counted_def by (metis consumed_trans sent_trans)
qed

lemma in_step_trans: "in_step p1 p2 \<Longrightarrow> in_step p2 p3 \<Longrightarrow> in_step p1 p3"
  by (auto simp: in_step_def intro: counted_trans)

lemma counted_refl [simp]: "counted p p"
  unfolding counted_def by (intro exI [of _ 0]) simp

lemma in_step_refl [simp]: "in_step p p"
  by (simp add: in_step_def)

section \<open>Writing\<close>

lemma send_ok:
  assumes "p_send (n, p) = (q, n', p')"
  shows "p_open p' = p_open p \<and> tp_aborted p' = tp_aborted p \<and>
    (q = Returned (Ok ()) \<longrightarrow> p_out p' = p_out p @ tp_write p \<and>
    p_inp p' = p_inp p \<and> p_broken p' = p_broken p \<and> tp_expectations p' = tp_expectations p \<and>
    t_scope (tp_conn p') = t_scope (tp_conn p))"
proof -
  obtain r n1 t1 where w: "a_write_flush (n, tp_conn p) = (r, n1, t1)" by (metis prod_cases3)
  from write_flags [OF w] have f: "t_exchange t1 = t_exchange (tp_conn p)" by (simp add: same_flags_def)
  show ?thesis
  proof (cases "r = Returned (Ok ())")
    case True
    with assms w have "p' = set_tp_write [] (p\<lparr>tp_conn := t1\<rparr>)"
      by (auto simp: p_send_def fut_bind_def on_conn_def upd_def fut_lift_def)
    moreover from w True a_write_Ok_iff [of n "tp_conn p" "()" n1 t1]
    have "writable (c_stream (t_base (tp_conn p)))"
      "t1 = (tp_conn p)\<lparr>t_base := snd (conn_write_flush (t_base (tp_conn p)))\<rparr>" by auto
    ultimately show ?thesis
      by (simp add: set_tp_write_def p_defs conn_write_flush_def stream_write_all_def
          stream_flush_def set_bufs_def tp_write_def t_bufs_def)
  next
    case False
    with assms w have "p' = p\<lparr>tp_conn := t1\<rparr>" "q = r"
      by (auto simp: p_send_def fut_bind_def on_conn_def split: outcome.splits res.splits)
    with f False show ?thesis by (simp add: p_defs)
  qed
qed

lemma ready_cases:
  "p_ready m (n, p) = (if stuck p then (Returned (Err ConnectionBroken), n, p) else m (n, p))"
  by (auto simp: p_ready_def ensure_exchange_ready_def stuck_def p_defs)

lemma begin_cases:
  "p_begin (n, p) = (if stuck p then (Returned (Err ConnectionBroken), n, p)
     else (Returned (Ok ()), n, p\<lparr>tp_conn := (tp_conn p)\<lparr>t_exchange := True\<rparr>\<rparr>))"
  by (auto simp: p_begin_def on_conn_def fut_lift_def begin_exchange_def ensure_exchange_ready_def
      stuck_def p_defs)

lemma finish_run: "p_finish (n, p) = (Returned (Ok ()), n, p\<lparr>tp_conn := finish_exchange (tp_conn p)\<rparr>)"
  by (simp add: p_finish_def upd_def fut_lift_def)

text \<open>Begin, send \<open>w\<close> on a pipeline prepared as \<open>p1\<close>, finish.\<close>

lemma sent_between:
  assumes "fut_bind p_send (\<lambda>_. p_finish) (n, p1) = (q, n', p')" and "p_open p1"
  shows "tp_aborted p' = tp_aborted p1 \<and> (p_open p' \<or> q = Returned (Ok ()) \<and>
    p_out p' = p_out p1 @ tp_write p1 \<and> p_inp p' = p_inp p1 \<and> p_broken p' = p_broken p1 \<and>
    tp_expectations p' = tp_expectations p1 \<and> t_scope (tp_conn p') = t_scope (tp_conn p1))"
proof -
  obtain r n2 p2 where w: "p_send (n, p1) = (r, n2, p2)" by (metis prod_cases3)
  note f = send_ok [OF w]
  show ?thesis
  proof (cases "r = Returned (Ok ())")
    case True
    with assms(1) w have "p' = p2\<lparr>tp_conn := finish_exchange (tp_conn p2)\<rparr>" "q = Returned (Ok ())"
      by (auto simp: fut_bind_def finish_run)
    with f True show ?thesis by (simp add: p_defs finish_exchange_def)
  next
    case False
    with assms(1) w have "p' = p2" by (auto simp: fut_bind_def split: outcome.splits res.splits)
    with f assms(2) show ?thesis by simp
  qed
qed

text \<open>A method that begins, prepares the pipeline with \<open>g\<close> and sends.\<close>

definition opened :: "tpipe \<Rightarrow> tpipe" where
  "opened p = p\<lparr>tp_conn := (tp_conn p)\<lparr>t_exchange := True\<rparr>\<rparr>"

lemma opened_simps [simp]:
  "p_open (opened p)" "p_out (opened p) = p_out p" "p_inp (opened p) = p_inp p"
  "p_broken (opened p) = p_broken p" "tp_expectations (opened p) = tp_expectations p"
  "t_scope (tp_conn (opened p)) = t_scope (tp_conn p)" "tp_write (opened p) = tp_write p"
  "tp_aborted (opened p) = tp_aborted p" "syncs (opened p) = syncs p"
  by (simp_all add: opened_def p_defs tp_write_def t_bufs_def syncs_def)

lemma prepared_simps [simp]:
  "p_open (set_tp_write w p) = p_open p" "p_out (set_tp_write w p) = p_out p"
  "p_inp (set_tp_write w p) = p_inp p" "p_broken (set_tp_write w p) = p_broken p"
  "tp_expectations (set_tp_write w p) = tp_expectations p" "tp_write (set_tp_write w p) = w"
  "t_scope (tp_conn (set_tp_write w p)) = t_scope (tp_conn p)"
  "p_open (set_tp_scope b p) = p_open p" "p_out (set_tp_scope b p) = p_out p"
  "p_inp (set_tp_scope b p) = p_inp p" "p_broken (set_tp_scope b p) = p_broken p"
  "tp_expectations (set_tp_scope b p) = tp_expectations p" "t_scope (tp_conn (set_tp_scope b p)) = b"
  "tp_write (set_tp_scope b p) = tp_write p"
  "p_open (tp_push e p) = p_open p" "p_out (tp_push e p) = p_out p"
  "p_inp (tp_push e p) = p_inp p" "p_broken (tp_push e p) = p_broken p"
  "tp_expectations (tp_push e p) = tp_expectations p @ [e]" "tp_write (tp_push e p) = tp_write p"
  "t_scope (tp_conn (tp_push e p)) = t_scope (tp_conn p)"
  "tp_aborted (set_tp_write w p) = tp_aborted p" "tp_aborted (set_tp_scope b p) = tp_aborted p"
  "tp_aborted (tp_push e p) = tp_aborted p"
  by (simp_all add: set_tp_write_def set_tp_scope_def tp_push_def p_defs set_bufs_def tp_write_def t_bufs_def)

lemma mark_keeps: "p_open (p\<lparr>tp_conn := t_mark q (tp_conn p)\<rparr>) = p_open p"
  by (simp add: p_defs)

lemma mark_Ok [simp]: "t_mark (Returned (Ok u)) t = t"
  by (simp add: t_mark_def mark_broken_def)

lemma sync_sends:
  assumes "\<not> stuck p" and "p_sync (n, p) = (q, n', p')"
  shows "tp_aborted p' = tp_aborted p \<and> (p_open p' \<or> q = Returned (Ok ()) \<and>
    p_out p' = p_out p @ write_sync (tp_write p) \<and> p_inp p' = p_inp p \<and>
    p_broken p' = p_broken p \<and> tp_expectations p' = tp_expectations p @ [Sync] \<and>
    t_scope (tp_conn p'))"
proof -
  let ?g = "tp_push Sync (set_tp_write (write_sync (tp_write p)) (set_tp_scope True (opened p)))"
  obtain r n1 p1 where run: "fut_bind p_send (\<lambda>_. p_finish) (n, ?g) = (r, n1, p1)" by (metis prod_cases3)
  have "p_sync_inner (n, p) = (r, n1, p1)"
    using assms(1) run unfolding p_sync_inner_def
    by (simp add: fut_bind_def begin_cases flip: opened_def)
  with assms have q: "q = r" "p' = p1\<lparr>tp_conn := t_mark r (tp_conn p1)\<rparr>"
    by (auto simp: p_sync_def ready_cases p_mark_def)
  from sent_between [OF run] q show ?thesis by (auto simp: mark_keeps)
qed

lemma sync_in_step: "p_sync (n, p) = (q, n', p') \<Longrightarrow> in_step p p'"
proof (cases "stuck p")
  case True
  moreover assume "p_sync (n, p) = (q, n', p')"
  ultimately show ?thesis by (simp add: p_sync_def ready_cases)
next
  case False
  assume "p_sync (n, p) = (q, n', p')"
  from sync_sends [OF False this, THEN conjunct2] show ?thesis
  proof
    assume "p_open p'"
    then show ?thesis by (simp add: in_step_def stuck_def)
  next
    assume a: "q = Returned (Ok ()) \<and> p_out p' = p_out p @ write_sync (tp_write p) \<and>
      p_inp p' = p_inp p \<and> p_broken p' = p_broken p \<and>
      tp_expectations p' = tp_expectations p @ [Sync] \<and> t_scope (tp_conn p')"
    have "sent 1 (p_out p) (p_out p @ write_sync (tp_write p))"
      using sent.sync [of 0 "p_out p" "p_out p" "tp_write p"] by (simp add: frontend_framed)
    with a have "counted p p'"
      unfolding counted_def by (intro exI [of _ 0] exI [of _ 1]) (simp add: syncs_def)
    with a False show ?thesis by (simp add: in_step_def quiet_def)
  qed
qed

lemma flush_in_step: "p_flush (n, p) = (q, n', p') \<Longrightarrow> in_step p p'"
proof (cases "stuck p")
  case True
  moreover assume "p_flush (n, p) = (q, n', p')"
  ultimately show ?thesis by (simp add: p_flush_def ready_cases)
next
  case False
  assume run: "p_flush (n, p) = (q, n', p')"
  let ?g = "set_tp_write (write_flush (tp_write p)) (set_tp_scope True (opened p))"
  show ?thesis
  proof (cases "tp_write p = []")
    case True
    with run False have "p' = (opened p)\<lparr>tp_conn := finish_exchange (tp_conn (opened p))\<rparr>"
      by (simp add: p_flush_def ready_cases fut_bind_def begin_cases finish_run flip: opened_def)
    then have "p_inp p' = p_inp p" "p_out p' = p_out p" "tp_expectations p' = tp_expectations p"
      "t_scope (tp_conn p') = t_scope (tp_conn p)"
      by (simp_all add: opened_def p_defs finish_exchange_def)
    then have "counted p p'" "quiet p' = quiet p"
      unfolding counted_def quiet_def by (auto simp: syncs_def intro!: exI [of _ 0])
    with False show ?thesis by (simp add: in_step_def)
  next
    case wr: False
    with run False have "fut_bind p_send (\<lambda>_. p_finish) (n, ?g) = (q, n', p')"
      by (simp add: p_flush_def ready_cases fut_bind_def begin_cases flip: opened_def)
    from sent_between [OF this, THEN conjunct2] show ?thesis
    proof (simp, elim disjE)
      assume "p_open p'"
      then show ?thesis by (simp add: in_step_def stuck_def)
    next
      assume a: "q = Returned (Ok ()) \<and> p_out p' = p_out p @ write_flush (tp_write p) \<and>
        p_inp p' = p_inp p \<and> p_broken p' = p_broken p \<and> tp_expectations p' = tp_expectations p \<and>
        t_scope (tp_conn p')"
      have "sent 0 (p_out p) (p_out p @ write_flush (tp_write p))"
        using sent.flush [of 0 "p_out p" "p_out p" "tp_write p"] by (simp add: frontend_framed)
      with a have "counted p p'"
        unfolding counted_def by (intro exI [of _ 0]) (simp add: syncs_def)
      with a False show ?thesis by (simp add: in_step_def quiet_def)
    qed
  qed
qed

text \<open>Steps that leave the exchange alone.\<close>

definition same_step :: "tpipe \<Rightarrow> tpipe \<Rightarrow> bool" where
  "same_step p p' \<longleftrightarrow> p_open p' = p_open p \<and> p_broken p' = p_broken p \<and> p_inp p' = p_inp p \<and>
     p_out p' = p_out p \<and> t_scope (tp_conn p') = t_scope (tp_conn p) \<and> syncs p' = syncs p"

lemma same_in_step: "same_step p p' \<Longrightarrow> in_step p p'"
  by (auto simp: same_step_def in_step_def stuck_def counted_def quiet_def intro!: exI [of _ 0])

lemma exec_same: "p_exec statement params p = (r, p') \<Longrightarrow> same_step p p'"
  by (cases statement)
    (auto simp: p_exec_def p_exec_sql_inner_def p_exec_prepared_inner_def Let_def same_step_def
      syncs_def p_defs set_tp_write_def set_bufs_def tp_push_def split: rtry_splits prod.splits)

lemma exec_in_step: "p_exec statement params p = (r, p') \<Longrightarrow> in_step p p'"
  by (rule same_in_step) (rule exec_same)

section \<open>Claiming\<close>

text \<open>What a step within an exchange leaves: the exchange as it was, and the books in order.\<close>

definition p_settles :: "tpipe \<Rightarrow> tpipe \<Rightarrow> bool" where
  "p_settles p p' \<longleftrightarrow> (p_broken p \<longrightarrow> p_broken p') \<and> counted p p' \<and> (quiet p \<longrightarrow> quiet p')"

lemma p_settles_refl [simp]: "p_settles p p"
  by (simp add: p_settles_def)

lemma p_settles_trans: "p_settles p1 p2 \<Longrightarrow> p_settles p2 p3 \<Longrightarrow> p_settles p1 p3"
  by (auto simp: p_settles_def intro: counted_trans)

text \<open>Consuming the ReadyForQuery of an expected Sync.\<close>

lemma consume_one_settles:
  assumes "p_consume_ready X (n, p\<lparr>tp_expectations := es\<rparr>) = (q, n', p')" and "tp_expectations p = Sync # es"
  shows "p_open p' = p_open p \<and> (q = Returned (Ok ()) \<longrightarrow> p_settles p p' \<and> tp_expectations p' = es)"
proof -
  from p_consume_ready_ok [OF assms(1)]
  have f: "p_frame (p\<lparr>tp_expectations := es\<rparr>) p'" and ok: "q = Returned (Ok ()) \<longrightarrow>
      consumed 1 (p_inp p) (p_inp p') \<and> t_scope (tp_conn p') = (es \<noteq> [])"
    by (simp_all add: p_defs)
  from f have e: "tp_expectations p' = es" "p_open p' = p_open p" "p_out p' = p_out p"
      "p_broken p \<longrightarrow> p_broken p'"
    by (simp_all add: p_frame_def p_defs)
  have "syncs p = syncs p' + 1" using assms(2) e(1) by (simp add: syncs_def)
  with ok e have "q = Returned (Ok ()) \<longrightarrow> counted p p'"
    unfolding counted_def by (intro impI exI [of _ 1] exI [of _ 0]) simp
  moreover have "q = Returned (Ok ()) \<longrightarrow> quiet p'"
    using ok e(1) by (auto simp: quiet_def syncs_def)
  ultimately show ?thesis using e by (simp add: p_settles_def)
qed

lemma update_simps [simp]:
  "p_open (p\<lparr>tp_aborted := b\<rparr>) = p_open p" "p_settles p0 (p\<lparr>tp_aborted := b\<rparr>) = p_settles p0 p"
  "p_settles (p\<lparr>tp_aborted := b\<rparr>) p0 = p_settles p p0"
  "p_open (p\<lparr>tp_claim_seq := i\<rparr>) = p_open p" "p_settles p0 (p\<lparr>tp_claim_seq := i\<rparr>) = p_settles p0 p"
  "p_settles (p\<lparr>tp_claim_seq := i\<rparr>) p0 = p_settles p p0"
  "p_open (p\<lparr>tp_queue_seq := i\<rparr>) = p_open p" "p_settles p0 (p\<lparr>tp_queue_seq := i\<rparr>) = p_settles p0 p"
  by (simp_all add: p_settles_def counted_def quiet_def syncs_def p_defs)

lemma consume_syncs_settles:
  "p_consume_syncs X es (n, p) = (q, n', p') \<Longrightarrow> tp_expectations p = es \<Longrightarrow>
     p_open p' = p_open p \<and> (q = Returned (Ok ()) \<longrightarrow> p_settles p p')"
proof (induction es arbitrary: n p)
  case (Cons e es)
  show ?case
  proof (cases "e = Sync")
    case True
    obtain r n1 p1 where c: "p_consume_ready X (n, p\<lparr>tp_expectations := es\<rparr>) = (r, n1, p1)"
      by (metis prod_cases3)
    from consume_one_settles [OF c] Cons.prems(2) True
    have one: "p_open p1 = p_open p" "r = Returned (Ok ()) \<longrightarrow> p_settles p p1 \<and> tp_expectations p1 = es"
      by simp_all
    show ?thesis
    proof (cases "r = Returned (Ok ())")
      case ok: True
      then have "p_consume_syncs X es (n1, p1\<lparr>tp_aborted := False\<rparr>) = (q, n', p')"
        using Cons.prems(1) c True by (simp add: fut_bind_def)
      from Cons.IH [OF this] one ok show ?thesis by (auto intro: p_settles_trans)
    next
      case False
      then have "q = r" "p' = p1"
        using Cons.prems(1) c True by (auto simp: fut_bind_def split: outcome.splits res.splits)
      with one False show ?thesis by simp
    qed
  next
    case False
    then show ?thesis using Cons.prems by (cases e) auto
  qed
qed simp

text \<open>The end of a claim leaves the exchange open or the books in order.\<close>

lemma claim_end_ok:
  assumes "p_claim_end X result (n, p) = (q, n', p')"
  shows "p_open p' = p_open p \<or> \<not> p_open p' \<and> p_settles p p'"
proof -
  let ?p = "p\<lparr>tp_claim_seq := tp_claim_seq p + 1\<rparr>"
  obtain r n1 p1 where c: "p_consume_syncs X (tp_expectations p) (n, ?p) = (r, n1, p1)"
    by (metis prod_cases3)
  from consume_syncs_settles [OF c] have s: "p_open p1 = p_open p"
      "r = Returned (Ok ()) \<longrightarrow> p_settles p p1" by simp_all
  show ?thesis
  proof (cases "r = Returned (Ok ())")
    case True
    with assms c have "p' = p1\<lparr>tp_conn := finish_exchange (tp_conn p1)\<rparr>"
      by (auto simp: p_claim_end_def fut_bind_def finish_run)
    with s True show ?thesis
      by (simp add: p_settles_def counted_def quiet_def syncs_def p_defs finish_exchange_def)
  next
    case False
    with assms c have "p' = p1"
      by (auto simp: p_claim_end_def fut_bind_def split: outcome.splits res.splits)
    with s show ?thesis by simp
  qed
qed

text \<open>The queue's front is an operation, as a claim expects.\<close>

definition front_is_op :: "tpipe \<Rightarrow> bool" where
  "front_is_op p \<longleftrightarrow> (\<exists>e es. tp_expectations p = e # es \<and> e \<noteq> Sync)"

lemma front_syncs: "front_is_op p \<Longrightarrow> syncs (p\<lparr>tp_expectations := tl (tp_expectations p)\<rparr>) = syncs p"
  by (auto simp: front_is_op_def syncs_def)

lemma settles_in_step:
  assumes "p_open p1" and "p_out p1 = p_out p" and "syncs p1 = syncs p"
    and "t_scope (tp_conn p1) = t_scope (tp_conn p)" and "consumed 0 (p_inp p) (p_inp p1)"
    and "p_broken p \<longrightarrow> p_broken p1" and "\<not> stuck p"
    and "p_open p' = p_open p1 \<or> \<not> p_open p' \<and> p_settles p1 p'"
  shows "in_step p p'"
proof (cases "p_open p'")
  case True
  then show ?thesis by (simp add: in_step_def stuck_def)
next
  case False
  with assms(1,8) have s: "p_settles p1 p'" by blast
  have "counted p p1"
    unfolding counted_def using assms(2,3,5) by (intro exI [of _ 0]) simp
  with s assms(3,4,7) show ?thesis
    by (auto simp: in_step_def p_settles_def quiet_def intro: counted_trans)
qed

lemma claim_front_ok:
  assumes "p_claim_front X H h ticket es s = (q, h', s')"
  shows "p_read_ok (snd s) q (snd s') \<and> ((\<exists>e es'. es = e # es' \<and> e \<noteq> Sync) \<or> s' = s \<and> (\<exists>e. q = Returned (Err e)))"
proof (cases es)
  case Nil
  then show ?thesis using assms by (auto simp: p_claim_front_def)
next
  case (Cons e es')
  then show ?thesis using assms
    by (cases e) (auto simp: p_claim_front_def dest: claim_parse_bind_ok claim_bind_ok)
qed

lemma claim_begun_in_step:
  assumes "\<not> stuck p" and "p_claim_begun X H h ticket (n, opened p) = (q, h', n', p')"
    and "tp_aborted p \<longrightarrow> front_is_op p"
  shows "in_step p p'"
proof -
  let ?es = "tp_expectations p"
  let ?p1 = "(opened p)\<lparr>tp_expectations := tl ?es\<rparr>"
  have p1: "p_open ?p1" "p_out ?p1 = p_out p" "p_inp ?p1 = p_inp p" "p_broken ?p1 = p_broken p"
      "t_scope (tp_conn ?p1) = t_scope (tp_conn p)" "tp_aborted ?p1 = tp_aborted p"
    by (simp_all add: opened_def p_defs)
  have sy: "front_is_op p \<Longrightarrow> syncs ?p1 = syncs p"
    using front_syncs [of p] by (simp add: syncs_def)
  show ?thesis
  proof (cases "tp_aborted p")
    case True
    then obtain r where "p_claim_end X r (n, ?p1) = (q, n', p')"
      using assms(2) by (auto simp: p_claim_begun_def Let_def split: prod.splits)
    from settles_in_step [OF _ _ _ _ _ _ assms(1) claim_end_ok [OF this]] p1 sy assms(3) True
    show ?thesis by simp
  next
    case False
    obtain r h1 n2 p2 where f: "p_claim_front X H h ticket ?es (n, ?p1) = (r, h1, n2, p2)"
      by (metis prod_cases4)
    from claim_front_ok [OF f] have rd: "p_read_ok ?p1 r p2"
      and op: "front_is_op p \<or> p2 = ?p1 \<and> (\<exists>e. r = Returned (Err e))"
      by (auto simp: front_is_op_def)
    from rd p1 have p2: "p_open p2" "p_out p2 = p_out p" "p_broken p \<longrightarrow> p_broken p2"
        "t_scope (tp_conn p2) = t_scope (tp_conn p)" "tp_expectations p2 = tl ?es"
      by (simp_all add: p_read_ok_def p_frame_def)
    show ?thesis
    proof (cases "(\<exists>u. r = Returned (Ok u)) \<or> (\<exists>e. r = Returned (Err e)) \<and> \<not> c_broken (t_base (tp_conn p2)) \<and> tp_aborted p2")
      case True
      then obtain r' where e: "p_claim_end X r' (n2, p2) = (q, n', p')"
        using assms(2) f False by (auto simp: p_claim_begun_def Let_def split: prod.splits)
      from True op p1(6) False have "front_is_op p" by auto
      with sy p2(5) have "syncs p2 = syncs p" by (simp add: syncs_def)
      moreover from rd True False p1(3,6) have "consumed 0 (p_inp p) (p_inp p2)"
        by (auto simp: p_read_ok_def)
      ultimately show ?thesis
        using settles_in_step [OF p2(1,2) _ p2(4) _ p2(3) assms(1) claim_end_ok [OF e]] by simp
    next
      case bad: False
      then have "p' = p2"
        using assms(2) f False
        by (auto simp: p_claim_begun_def Let_def split: outcome.splits res.splits if_splits)
      with p2(1) show ?thesis by (simp add: in_step_def stuck_def)
    qed
  qed
qed

lemma claim_in_step:
  assumes "p_claim X H h ticket (n, p) = (q, h', n', p')" and "tp_aborted p \<longrightarrow> front_is_op p"
  shows "in_step p p'"
proof (cases "stuck p \<or> p_check_sequence (t_seq ticket) p \<noteq> Ok ()")
  case True
  with assms(1) have "p' = p"
    by (auto simp: p_claim_def ptry_def ready_cases fut_lift_def split: if_splits res.splits)
  then show ?thesis by simp
next
  case False
  let ?sent = "if tp_write p \<noteq> [] then p_sync (n, p) else (Returned (Ok ()), n, p)"
  obtain r n1 p1 where sy: "?sent = (r, n1, p1)" by (metis prod_cases3)
  with assms(1) False have run:
    "ptry (r, n1, p1) h (\<lambda>s1. ptry (p_begin s1) h (p_claim_begun X H h ticket)) = (q, h', n', p')"
    by (simp add: p_claim_def ptry_def ready_cases fut_lift_def)
  have p1: "in_step p p1" using sy by (auto split: if_splits dest: sync_in_step)
  show ?thesis
  proof (cases "r = Returned (Ok ()) \<and> \<not> stuck p1")
    case True
    with run have begun: "p_claim_begun X H h ticket (n1, opened p1) = (q, h', n', p')"
      by (simp add: ptry_def begin_cases flip: opened_def)
    have "tp_aborted p1 = tp_aborted p \<and> (front_is_op p \<longrightarrow> front_is_op p1)"
    proof (cases "tp_write p = []")
      case wr: False
      with sy sync_sends [of p n r n1 p1] False True show ?thesis
        by (auto simp: front_is_op_def stuck_def)
    qed (use sy in simp)
    with claim_begun_in_step [OF _ begun] assms(2) True have "in_step p1 p'" by simp
    with p1 show ?thesis by (rule in_step_trans)
  next
    case bad: False
    with run have "p' = p1"
      by (auto simp: ptry_def begin_cases split: outcome.splits res.splits if_splits)
    with p1 show ?thesis by simp
  qed
qed

section \<open>Cleaning up\<close>

lemma drain_settles:
  assumes "p_drain_expectation X e (n, p\<lparr>tp_expectations := es\<rparr>) = (q, n', p')"
    and "tp_expectations p = e # es" and "e \<noteq> Sync \<longrightarrow> \<not> tp_aborted p"
  shows "p_open p' = p_open p \<and> tp_expectations p' = es \<and>
    (q = Returned (Ok ()) \<or> tp_aborted p' \<and> e \<noteq> Sync \<longrightarrow> p_settles p p')"
proof (cases "e = Sync")
  case True
  with assms have c: "p_consume_ready X (n, p\<lparr>tp_expectations := es\<rparr>) = (q, n', p')"
    by (simp add: p_drain_expectation_def)
  from consume_one_settles [OF c] p_consume_ready_ok [OF c] assms(2) True show ?thesis
    by (simp add: p_frame_def)
next
  case False
  with assms(1) have "p_drain_rows X (n, p\<lparr>tp_expectations := es\<rparr>) = (q, n', p')"
    by (simp add: p_drain_expectation_def)
  from drain_rows_ok [OF this] have rd: "p_read_ok (p\<lparr>tp_expectations := es\<rparr>) q p'" by simp
  then have f: "tp_expectations p' = es" "p_open p' = p_open p" "p_out p' = p_out p"
      "p_broken p \<longrightarrow> p_broken p'" "t_scope (tp_conn p') = t_scope (tp_conn p)"
    by (simp_all add: p_read_ok_def p_frame_def p_defs)
  have sy: "syncs p' = syncs p" using f(1) assms(2) False by (simp add: syncs_def)
  have "q = Returned (Ok ()) \<or> tp_aborted p' \<Longrightarrow> consumed 0 (p_inp p) (p_inp p')"
    using rd assms(3) False by (auto simp: p_read_ok_def p_defs)
  with f sy have "q = Returned (Ok ()) \<or> tp_aborted p' \<Longrightarrow> counted p p'"
    unfolding counted_def by (intro exI [of _ 0]) auto
  with f sy show ?thesis by (auto simp: p_settles_def quiet_def)
qed

lemma skip_settles:
  assumes "tp_expectations p = e # es" and "e \<noteq> Sync"
  shows "p_settles p (p\<lparr>tp_expectations := es\<rparr>)"
proof -
  have "syncs (p\<lparr>tp_expectations := es\<rparr>) = syncs p" using assms by (simp add: syncs_def)
  then have "counted p (p\<lparr>tp_expectations := es\<rparr>)"
    unfolding counted_def by (intro exI [of _ 0]) (simp add: p_defs)
  with \<open>syncs _ = _\<close> show ?thesis by (simp add: p_settles_def quiet_def p_defs)
qed

lemma cleanup_loop_settles:
  "p_cleanup_loop X es (n, p) = (q, n', p') \<Longrightarrow> tp_expectations p = es \<Longrightarrow>
     p_open p' = p_open p \<and> (q = Returned (Ok True) \<longrightarrow> p_settles p p' \<and> tp_expectations p' = [])"
proof (induction es arbitrary: n p)
  case (Cons e es)
  let ?p0 = "p\<lparr>tp_expectations := es\<rparr>"
  show ?case
  proof (cases "tp_aborted p \<and> e \<noteq> Sync")
    case True
    then have "p_cleanup_loop X es (n, ?p0) = (q, n', p')" using Cons.prems(1) by (simp add: Let_def)
    from Cons.IH [OF this] skip_settles [OF Cons.prems(2)] True show ?thesis
      by (auto simp: p_defs intro: p_settles_trans)
  next
    case False
    obtain r n1 p1 where d: "p_drain_expectation X e (n, ?p0) = (r, n1, p1)" by (metis prod_cases3)
    from drain_settles [OF d Cons.prems(2)] False have one: "p_open p1 = p_open p"
      "tp_expectations p1 = es" "r = Returned (Ok ()) \<or> tp_aborted p1 \<and> e \<noteq> Sync \<longrightarrow> p_settles p p1"
      by auto
    let ?p2 = "if e = Sync then p1\<lparr>tp_aborted := False\<rparr> else p1"
    consider (on) p2 where "p_cleanup_loop X es (n1, p2) = (q, n', p')" "p2 = p1 \<or> p2 = p1\<lparr>tp_aborted := False\<rparr>"
        "p_settles p p1"
      | (stop) "p' = p1" "q \<noteq> Returned (Ok True)"
    proof (cases "r = Returned (Ok ())")
      case True
      with Cons.prems(1) d False have "p_cleanup_loop X es (n1, ?p2) = (q, n', p')"
        by (auto simp: Let_def)
      then show ?thesis using on [of ?p2] one(3) True by auto
    next
      case bad: False
      show ?thesis
      proof (cases "(\<exists>e'. r = Returned (Err e')) \<and> tp_aborted p1 \<and> e \<noteq> Sync")
        case True
        with Cons.prems(1) d False have "p_cleanup_loop X es (n1, p1) = (q, n', p')"
          by (auto simp: Let_def)
        then show ?thesis using on [of p1] one(3) True by auto
      next
        case False
        with bad Cons.prems(1) d \<open>\<not> (tp_aborted p \<and> e \<noteq> Sync)\<close> have "p' = p1" "q \<noteq> Returned (Ok True)"
          by (auto simp: Let_def split: outcome.splits res.splits if_splits)
        then show ?thesis by (rule stop)
      qed
    qed
    then show ?thesis
    proof cases
      case on
      from on(2) one have "tp_expectations p2 = es" "p_open p2 = p_open p1" by auto
      from Cons.IH [OF on(1) this(1)] this on(2,3) one(1) show ?thesis
        by (auto intro: p_settles_trans)
    qed (simp add: one)
  qed
qed simp

lemma cleanup_drain_in_step:
  assumes "p_cleanup_drain X (n, p) = (q, n', p')"
  shows "in_step p p'"
proof (cases "stuck p")
  case True
  with assms show ?thesis
    by (auto simp: p_cleanup_drain_def begin_exchange_def ensure_exchange_ready_def stuck_def p_defs)
next
  case False
  obtain r n1 p1 where l: "p_cleanup_loop X (tp_expectations p) (n, opened p) = (r, n1, p1)"
    by (metis prod_cases3)
  from cleanup_loop_settles [OF l] have o: "p_open p1"
    and ok: "r = Returned (Ok True) \<longrightarrow> p_settles (opened p) p1" by simp_all
  have run: "fut_bind (p_cleanup_loop X (tp_expectations p)) (\<lambda>drained.
       if drained
       then fut_bind (upd (\<lambda>p. p\<lparr>tp_queue_seq := 0, tp_claim_seq := 0, tp_aborted := False\<rparr>)) (\<lambda>_. p_finish)
       else (\<lambda>s. (Returned (Ok ()), s))) (n, opened p) = (q, n', p')"
    using assms False
    by (simp add: p_cleanup_drain_def begin_exchange_def ensure_exchange_ready_def stuck_def p_defs
        opened_def)
  show ?thesis
  proof (cases "r = Returned (Ok True)")
    case True
    with run l have "p' = p1\<lparr>tp_queue_seq := 0, tp_claim_seq := 0, tp_aborted := False,
        tp_conn := finish_exchange (tp_conn p1)\<rparr>"
      by (auto simp: fut_bind_def upd_def fut_lift_def finish_run)
    with ok True have "p_settles (opened p) p'"
      by (simp add: p_settles_def counted_def quiet_def syncs_def p_defs finish_exchange_def)
    with False show ?thesis
      by (auto simp: in_step_def p_settles_def counted_def quiet_def)
  next
    case bad: False
    with run l have "p' = p1"
      by (auto simp: fut_bind_def split: outcome.splits res.splits if_splits)
    with o show ?thesis by (simp add: in_step_def stuck_def)
  qed
qed

lemma cleanup_in_step:
  assumes "p_cleanup X (n, p) = (q, n', p')"
  shows "in_step p p'"
proof (cases "p_sync (n, p)")
  case (fields r n1 p1)
  have sy: "in_step p p1" using sync_in_step [OF fields] .
  have dr: "p_cleanup_drain X (n1, p1) = (q, n', p') \<Longrightarrow> in_step p p'"
    by (rule in_step_trans [OF sy]) (rule cleanup_drain_in_step)
  have w: "in_step p (set_tp_write [] p)"
    by (rule same_in_step) (simp add: same_step_def syncs_def)
  from assms fields sy dr w cleanup_drain_in_step [of X n p q n' p'] show ?thesis
    by (auto simp: p_cleanup_def split: if_splits outcome.splits res.splits)
qed

section \<open>Pipelines\<close>

text \<open>
  A closure works a pipeline through its methods; \<open>H\<close> is the handler it claims with. A claim in
  an aborted pipeline is made only while the claimed operation is at the front of the queue.
\<close>

inductive p_step :: "ext \<Rightarrow> 'h handler \<Rightarrow> tpipe \<Rightarrow> tpipe \<Rightarrow> bool" for X H where
  exec: "p_exec statement params p = (r, p') \<Longrightarrow> p_step X H p p'"
| flush: "p_flush (n, p) = (q, n', p') \<Longrightarrow> p_step X H p p'"
| sync: "p_sync (n, p) = (q, n', p') \<Longrightarrow> p_step X H p p'"
| claim: "p_claim X H h ticket (n, p) = (q, h', n', p') \<Longrightarrow> tp_aborted p \<longrightarrow> front_is_op p \<Longrightarrow>
    p_step X H p p'"
| cleanup: "p_cleanup X (n, p) = (q, n', p') \<Longrightarrow> p_step X H p p'"

lemma step_in_step: "p_step X H p p' \<Longrightarrow> in_step p p'"
  by (induction rule: p_step.induct)
    (auto dest: exec_in_step flush_in_step sync_in_step claim_in_step cleanup_in_step)

lemma steps_in_step: "(p_step X H)\<^sup>*\<^sup>* p p' \<Longrightarrow> in_step p p'"
  by (induction rule: rtranclp_induct) (auto intro: in_step_trans step_in_step)

text \<open>A pipeline's end: dropped, its connection is usable only if nothing is outstanding.\<close>

lemma dropped_in_step:
  assumes "in_step (p_new t) p'" and "\<not> t_is_broken t" and "\<not> t_is_broken (p_drop p')"
  shows "\<exists>k. consumed k (inp (c_stream (t_base t))) (inp (c_stream (t_base (p_drop p')))) \<and>
    sent k (out (c_stream (t_base t))) (out (c_stream (t_base (p_drop p'))))"
proof -
  have new: "p_inp (p_new t) = inp (c_stream (t_base t))" "p_out (p_new t) = out (c_stream (t_base t))"
      "syncs (p_new t) = 0"
    using assms(2) by (simp_all add: p_new_def ensure_usable_def p_defs set_bufs_def syncs_def)
  from assms(3) have d: "p_drop p' = tp_conn p'" "\<not> t_scope (tp_conn p')" "\<not> stuck p'"
    by (auto simp: p_drop_def t_is_broken_def t_break_def stuck_def p_defs split: if_splits)
  from assms(1) d(3) have "counted (p_new t) p'" "quiet (p_new t) \<longrightarrow> quiet p'"
    by (auto simp: in_step_def)
  moreover from this d(2) new(3) have "syncs p' = 0" by (simp add: quiet_def)
  ultimately show ?thesis using new d(1) by (auto simp: counted_def p_defs)
qed


lemma synced0:
  "case t_pipeline ext0 p_sync (100, \<lparr>t_base = conn0 (90 # 0 # 0 # 0 # 5 # 73 # [78]),
      t_exchange = False, t_scope = False\<rparr>) of (q, n', t') \<Rightarrow>
     q = Returned (Ok ()) \<and> \<not> t_is_broken t' \<and> inp (c_stream (t_base t')) = [78]"
  by code_simp


end
