(* ===== verification/CompioStream.thy ===== *)
theory CompioStream
  imports TokioConn
begin

text \<open>
  \<open>src/compio/stream.rs\<close>: the stream of the second asynchronous connection. compio's I/O owns the
  buffer while an operation runs, and a message is cut out of a buffer that is filled with
  whatever has arrived. A connection is the record \<open>kconn\<close>: its stream is the socket
  \<open>c_stream\<close> of \<open>k_base\<close> together with \<open>k_read_buf\<close> and \<open>k_read_pos\<close>; \<open>k_sizes\<close> is the
  environment, how many bytes each coming read finds (everything, when the list is empty).

  Budgets are those of \<open>TokioConn\<close>: one unit per byte that passes the socket and per flush.
\<close>

record kconn =
  k_base :: conn
  k_exchange :: bool
  k_scope :: bool
  k_read_buf :: bytes
  k_read_pos :: nat
  k_sizes :: "nat list"

type_synonym 'a kfut = "(kconn, 'a) run"

text \<open>
  compio's \<open>read\<close> is a parameter: at which index of the buffer it is given it puts the new bytes.
  What the code relies on is \<open>appends\<close>; a comment of \<open>fill_buf\<close> says that it reads from the
  length of the buffer to its capacity.
\<close>

type_synonym compio_lib = "bytes \<Rightarrow> nat"

definition appends :: "compio_lib \<Rightarrow> bool" where
  "appends K \<longleftrightarrow> (\<forall>bf. K bf = length bf)"

definition READ_BUF_CAPACITY :: nat where "READ_BUF_CAPACITY = 8192"

definition put_at :: "nat \<Rightarrow> bytes \<Rightarrow> bytes \<Rightarrow> bytes" where
  "put_at i new old = take i old @ new @ drop (i + length new) old"

lemma put_at_end [simp]: "put_at (length old) new old = old @ new"
  by (simp add: put_at_def)

lemma put_at_length: "length (put_at i new old) \<le> length old + length new"
  by (simp add: put_at_def)

section \<open>State\<close>

definition k_stream :: "kconn \<Rightarrow> stream" where
  "k_stream k = c_stream (k_base k)"

definition k_set_stream :: "stream \<Rightarrow> kconn \<Rightarrow> kconn" where
  "k_set_stream s k = k\<lparr>k_base := (k_base k)\<lparr>c_stream := s\<rparr>\<rparr>"

definition k_bufs :: "kconn \<Rightarrow> buffer_set" where
  "k_bufs k = c_bufs (k_base k)"

definition k_set_bufs :: "buffer_set \<Rightarrow> kconn \<Rightarrow> kconn" where
  "k_set_bufs bs k = k\<lparr>k_base := (k_base k)\<lparr>c_bufs := bs\<rparr>\<rparr>"

text \<open>\<open>Stream::tcp\<close>, \<open>Stream::unix\<close> and the fresh stream after a TLS handshake: an empty buffer.\<close>

definition k_stream_new :: "kconn \<Rightarrow> kconn" where
  "k_stream_new k = k\<lparr>k_read_buf := [], k_read_pos := 0\<rparr>"

definition k_available :: "kconn \<Rightarrow> nat" where
  "k_available k = length (k_read_buf k) - k_read_pos k"

section \<open>Reading\<close>

text \<open>
  \<open>read_raw\<close>: the result is the number of bytes with the buffer. When the future is dropped the
  buffer, which the operation owns, is lost.
\<close>

definition k_read_raw :: "compio_lib \<Rightarrow> bytes \<Rightarrow> (nat \<times> bytes) kfut" where
  "k_read_raw K bf = (\<lambda>(n, k).
     let s = k_stream k; arrived = (case k_sizes k of [] \<Rightarrow> length (inp s) | a # _ \<Rightarrow> max 1 a);
         size = min arrived (min (READ_BUF_CAPACITY - K bf) (length (inp s)));
         k1 = k\<lparr>k_sizes := tl (k_sizes k)\<rparr>
     in if n < size then (Dropped, 0, k_set_stream (s\<lparr>inp := drop n (inp s)\<rparr>) k1)
        else (Returned (Ok (size, put_at (K bf) (take size (inp s)) bf)), n - size,
              k_set_stream (s\<lparr>inp := drop size (inp s)\<rparr>) k1))"

text \<open>\<open>fill_buf\<close>: the unread bytes are moved to the front, and the buffer is lent to the read.\<close>

definition k_compact :: "kconn \<Rightarrow> kconn" where
  "k_compact k = (if 0 < k_read_pos k
     then k\<lparr>k_read_buf := take (k_available k) (drop (k_read_pos k) (k_read_buf k)), k_read_pos := 0\<rparr>
     else k)"

definition k_fill_buf :: "compio_lib \<Rightarrow> unit kfut" where
  "k_fill_buf K = (\<lambda>(n, k).
     let k1 = k_compact k in
     fut_bind (k_read_raw K (k_read_buf k1)) (\<lambda>(size, bf) (n2, k2).
       (Returned (if size = 0 then Err (Io UnexpectedEof) else Ok ()), n2, k2\<lparr>k_read_buf := bf\<rparr>))
     (n, k1\<lparr>k_read_buf := []\<rparr>))"

lemma k_read_raw_Ok:
  assumes "k_read_raw K bf (n, k) = (Returned r, n', k')"
  obtains size where "r = Ok (size, put_at (K bf) (take size (inp (k_stream k))) bf)" "size \<le> n" "n' = n - size"
    "size \<le> length (inp (k_stream k))"
    "k' = k_set_stream ((k_stream k)\<lparr>inp := drop size (inp (k_stream k))\<rparr>) (k\<lparr>k_sizes := tl (k_sizes k)\<rparr>)"
proof -
  define size where "size = min (case k_sizes k of [] \<Rightarrow> length (inp (k_stream k)) | a # _ \<Rightarrow> max 1 a)
    (min (READ_BUF_CAPACITY - K bf) (length (inp (k_stream k))))"
  have run: "k_read_raw K bf (n, k) = (if n < size
      then (Dropped, 0, k_set_stream ((k_stream k)\<lparr>inp := drop n (inp (k_stream k))\<rparr>) (k\<lparr>k_sizes := tl (k_sizes k)\<rparr>))
      else (Returned (Ok (size, put_at (K bf) (take size (inp (k_stream k))) bf)), n - size,
        k_set_stream ((k_stream k)\<lparr>inp := drop size (inp (k_stream k))\<rparr>) (k\<lparr>k_sizes := tl (k_sizes k)\<rparr>)))"
    by (simp only: k_read_raw_def Let_def size_def split)
  have "size \<le> length (inp (k_stream k))" by (simp add: size_def)
  moreover have "\<not> n < size" using assms run by (cases "n < size") simp_all
  ultimately show thesis using assms run by (intro that [of size]) simp_all
qed

lemma k_stream_simps [simp]:
  "k_stream (k_set_stream s k) = s" "k_read_pos (k_set_stream s k) = k_read_pos k"
  "k_read_buf (k_set_stream s k) = k_read_buf k" "k_stream (k\<lparr>k_read_buf := b\<rparr>) = k_stream k"
  "k_stream (k\<lparr>k_read_pos := i\<rparr>) = k_stream k" "k_stream (k\<lparr>k_sizes := ls\<rparr>) = k_stream k"
  "k_stream (k_set_bufs bs k) = k_stream k" "k_stream (k_compact k) = k_stream k"
  "k_set_stream s (k_set_stream s' k) = k_set_stream s k"
  by (simp_all add: k_stream_def k_set_stream_def k_set_bufs_def k_compact_def)

lemma k_fill_buf_less:
  "k_fill_buf K (n, k) = (Returned (Ok u), n', k') \<Longrightarrow>
     length (inp (k_stream k')) < length (inp (k_stream k))"
  by (auto simp: k_fill_buf_def Let_def fut_bind_Ok split: if_splits elim!: k_read_raw_Ok)

text \<open>\<open>ensure\<close>: the loop fills the buffer until it holds \<open>l\<close> unread bytes.\<close>

function k_ensure :: "compio_lib \<Rightarrow> nat \<Rightarrow> unit kfut" where
  "k_ensure K l s = (if k_available (snd s) < l
     then (case k_fill_buf K s of
        (Returned (Ok _), s1) \<Rightarrow> k_ensure K l s1 | (q, s1) \<Rightarrow> (q, s1))
     else (Returned (Ok ()), s))"
  by pat_completeness auto
termination
  by (relation "measure (\<lambda>(K, l, s). length (inp (k_stream (snd s))))")
    (auto dest!: k_fill_buf_less [OF sym])

declare k_ensure.simps [simp del]

definition k_read_u8 :: "compio_lib \<Rightarrow> byte kfut" where
  "k_read_u8 K = fut_bind (k_ensure K 1) (\<lambda>_. fut_lift (\<lambda>k.
     (Ok (k_read_buf k ! k_read_pos k), k\<lparr>k_read_pos := k_read_pos k + 1\<rparr>)))"

text \<open>\<open>read_exact\<close> of the rest of a long payload, straight from the socket.\<close>

definition k_read_exact :: "nat \<Rightarrow> bytes kfut" where
  "k_read_exact l = (\<lambda>(n, k). let s = k_stream k; data = inp s in
     if n < min l (length data) then (Dropped, 0, k_set_stream (s\<lparr>inp := drop n data\<rparr>) k)
     else if l \<le> length data
     then (Returned (Ok (take l data)), n - l, k_set_stream (s\<lparr>inp := drop l data\<rparr>) k)
     else (Returned (Err (Io UnexpectedEof)), n - length data, k_set_stream (s\<lparr>inp := []\<rparr>) k))"

definition k_set_payload :: "bytes \<Rightarrow> kconn \<Rightarrow> kconn" where
  "k_set_payload b k = k_set_bufs ((k_bufs k)\<lparr>read_buffer := b\<rparr>) k"

text \<open>The header of a message, once five bytes are there.\<close>

definition k_take_header :: "kconn \<Rightarrow> nat res \<times> kconn" where
  "k_take_header k =
     (let rest = drop (k_read_pos k) (k_read_buf k);
          k1 = k_set_bufs ((k_bufs k)\<lparr>type_byte := hd rest\<rparr>) k;
          len_bytes = take 4 (tl rest) in
      if length len_bytes < 4 then (Err (Io OtherIo), k1)
      else (Ok (unat (from_be_bytes len_bytes :: u32) - 4), k1\<lparr>k_read_pos := k_read_pos k1 + 5\<rparr>))"

text \<open>The payload: what is in the buffer, and the rest straight from the socket.\<close>

definition k_read_payload :: "nat \<Rightarrow> unit kfut" where
  "k_read_payload payload_len = (\<lambda>(n, k).
     let from_buf = min (k_available k) payload_len;
         have = take from_buf (drop (k_read_pos k) (k_read_buf k));
         k1 = (k_set_payload have k)\<lparr>k_read_pos := k_read_pos k + from_buf\<rparr>
     in if payload_len = 0 then (Returned (Ok ()), n, k_set_payload [] k)
        else if payload_len = from_buf then (Returned (Ok ()), n, k1)
        else fut_bind (k_read_exact (payload_len - from_buf)) (\<lambda>slice.
            fut_lift (\<lambda>k. (Ok (), k_set_payload (have @ slice) k))) (n, k_set_payload [] k1))"

definition k_read_message :: "compio_lib \<Rightarrow> unit kfut" where
  "k_read_message K =
     fut_bind (k_ensure K 5) (\<lambda>_. fut_bind (fut_lift k_take_header) k_read_payload)"

section \<open>Writing\<close>

text \<open>
  \<open>let buf = take(&mut write_buffer); let BufResult(result, buf) = write_all_owned(buf).await;
  write_buffer = buf; result?; flush().await?\<close>: a dropped future loses the buffer.
\<close>

definition k_set_write :: "bytes \<Rightarrow> kconn \<Rightarrow> kconn" where
  "k_set_write w k = k_set_bufs ((k_bufs k)\<lparr>write_buffer := w\<rparr>) k"

definition k_write_all_owned :: "bytes \<Rightarrow> (unit res \<times> bytes) kfut" where
  "k_write_all_owned bf = (\<lambda>(n, k). let s = k_stream k in
     if \<not> writable s then (Returned (Ok (Err (Io WriteFailed), bf)), n, k)
     else if length bf \<le> n
     then (Returned (Ok (Ok (), bf)), n - length bf, k_set_stream (s\<lparr>out := out s @ bf\<rparr>) k)
     else (Dropped, 0, k_set_stream (s\<lparr>out := out s @ take n bf\<rparr>) k))"

definition k_flush :: "unit kfut" where
  "k_flush = (\<lambda>(n, k).
     if \<not> writable (k_stream k) then (Returned (Err (Io WriteFailed)), n, k)
     else if n = 0 then (Dropped, 0, k) else (Returned (Ok ()), n - 1, k))"

definition k_write_flush :: "unit kfut" where
  "k_write_flush = (\<lambda>(n, k).
     fut_bind (k_write_all_owned (write_buffer (k_bufs k))) (\<lambda>(result, bf).
     fut_bind (fut_lift (\<lambda>k. (result, k_set_write bf k))) (\<lambda>_. k_flush)) (n, k_set_write [] k))"


section \<open>What is left\<close>

text \<open>A message that has been read was in the buffer or passed the socket.\<close>

definition k_left :: "nat \<times> kconn \<Rightarrow> nat" where
  "k_left s = fst s + k_available (snd s) + length (inp (k_stream (snd s)))"

lemma k_compact_available [simp]: "k_available (k_compact k) = k_available k"
  by (simp add: k_compact_def k_available_def)

lemma k_compact_pos [simp]: "k_read_pos (k_compact k) = 0"
  by (simp add: k_compact_def)

lemma k_fill_buf_left:
  assumes "k_fill_buf K s = (Returned (Ok u), s')"
  shows "k_left s' \<le> k_left s"
proof -
  let ?k = "k_compact (snd s)"
  have len: "length (k_read_buf ?k) = k_available (snd s)"
    using k_compact_available [of "snd s"] unfolding k_available_def [of ?k] by simp
  obtain size where sz: "size \<le> fst s" "size \<le> length (inp (k_stream (snd s)))"
    and s': "s' = (fst s - size, (k_set_stream ((k_stream (snd s))\<lparr>inp := drop size (inp (k_stream (snd s)))\<rparr>)
      (?k\<lparr>k_read_buf := [], k_sizes := tl (k_sizes ?k)\<rparr>))
      \<lparr>k_read_buf := put_at (K (k_read_buf ?k)) (take size (inp (k_stream (snd s)))) (k_read_buf ?k)\<rparr>)"
    using assms
    by (cases s) (auto simp: k_fill_buf_def Let_def fut_bind_Ok split: if_splits elim!: k_read_raw_Ok)
  have "k_available (snd s') \<le> k_available (snd s) + size"
    using put_at_length [of "K (k_read_buf ?k)" "take size (inp (k_stream (snd s)))" "k_read_buf ?k"] sz len
    by (simp add: s' k_available_def)
  with sz show ?thesis by (simp add: k_left_def s')
qed

lemma k_ensure_left:
  "k_ensure K l s = (Returned (Ok u), s') \<Longrightarrow> l \<le> k_available (snd s') \<and> k_left s' \<le> k_left s"
proof (induction K l s arbitrary: s' rule: k_ensure.induct)
  case (1 K l s)
  show ?case
  proof (cases "k_available (snd s) < l")
    case True
    with 1(2) obtain v s1 where f: "k_fill_buf K s = (Returned (Ok v), s1)"
      and r: "k_ensure K l s1 = (Returned (Ok u), s')"
      by (auto simp: k_ensure.simps [of K l s] split: prod.splits outcome.splits res.splits)
    from 1(1) [OF True f [symmetric] _ _ r] k_fill_buf_left [OF f] show ?thesis by simp
  qed (use 1(2) in \<open>simp add: k_ensure.simps [of K l s]\<close>)
qed

lemma k_take_header_left:
  assumes "k_take_header k = (Ok l, k')" and "5 \<le> k_available k"
  shows "k_left (n, k') + 5 = k_left (n, k)"
proof -
  have "k_available k' + 5 = k_available k \<and> k_stream k' = k_stream k"
    using assms
    by (auto simp: k_take_header_def Let_def k_available_def k_set_bufs_def k_stream_def split: if_splits)
  then show ?thesis by (simp add: k_left_def)
qed

lemma k_payload_fields [simp]:
  "k_stream (k_set_payload b k) = k_stream k" "k_read_buf (k_set_payload b k) = k_read_buf k"
  "k_read_pos (k_set_payload b k) = k_read_pos k" "k_available (k_set_payload b k) = k_available k"
  by (simp_all add: k_set_payload_def k_available_def k_set_bufs_def k_stream_def)

lemma k_read_exact_left:
  "k_read_exact l (n, k) = (Returned (Ok b), s') \<Longrightarrow> k_left s' \<le> k_left (n, k)"
  by (cases "n < min l (length (inp (k_stream k)))"; cases "l \<le> length (inp (k_stream k))")
    (auto simp: k_read_exact_def Let_def k_left_def k_available_def k_set_stream_def k_stream_def)

lemma k_read_payload_left:
  assumes "k_read_payload l (n, k) = (Returned (Ok u), s')"
  shows "k_left s' \<le> k_left (n, k)"
proof -
  define h where "h = min (k_available k) l"
  define b where "b = take h (drop (k_read_pos k) (k_read_buf k))"
  define k1 where "k1 = (k_set_payload b k)\<lparr>k_read_pos := k_read_pos k + h\<rparr>"
  have run: "k_read_payload l (n, k) = (if l = 0 then (Returned (Ok ()), n, k_set_payload [] k)
      else if l = h then (Returned (Ok ()), n, k1)
      else fut_bind (k_read_exact (l - h)) (\<lambda>slice.
            fut_lift (\<lambda>k. (Ok (), k_set_payload (b @ slice) k))) (n, k_set_payload [] k1))"
    by (simp only: k_read_payload_def Let_def h_def b_def k1_def split)
  have k1: "k_left (n, k1) \<le> k_left (n, k)"
    by (simp add: k_left_def k1_def k_available_def)
  consider "l = 0" | "l = h" | "l \<noteq> 0" "l \<noteq> h" by blast
  then show ?thesis
  proof cases
    case 2
    with assms run have "s' = (n, k1) \<or> s' = (n, k_set_payload [] k)" by (cases "l = 0") simp_all
    with k1 show ?thesis by (auto simp: k_left_def)
  next
    case 3
    with assms run obtain slice n2 k2
      where "k_read_exact (l - h) (n, k_set_payload [] k1) = (Returned (Ok slice), n2, k2)"
        and "s' = (n2, k_set_payload (b @ slice) k2)"
      by (auto simp: fut_bind_Ok fut_lift_def)
    with k_read_exact_left [OF this(1)] k1 show ?thesis by (simp add: k_left_def)
  qed (use assms run k1 in \<open>auto simp: k_left_def\<close>)
qed

lemma k_read_message_left:
  assumes "k_read_message K s = (Returned (Ok u), s')"
  shows "k_left s' < k_left s"
proof -
  obtain s1 l n2 k2 where e: "k_ensure K 5 s = (Returned (Ok ()), s1)"
    and h: "fut_lift k_take_header s1 = (Returned (Ok l), n2, k2)"
    and p: "k_read_payload l (n2, k2) = (Returned (Ok u), s')"
    using assms by (auto simp: k_read_message_def fut_bind_Ok)
  from k_ensure_left [OF e] have "5 \<le> k_available (snd s1)" "k_left s1 \<le> k_left s" by auto
  with h have "k_left (n2, k2) + 5 = k_left s1"
    by (cases s1) (auto simp: fut_lift_def split: prod.splits dest: k_take_header_left)
  with k_read_payload_left [OF p] \<open>k_left s1 \<le> k_left s\<close> show ?thesis by simp
qed

lemma k_write_flush_left: "k_write_flush s = (Returned (Ok u), s') \<Longrightarrow> k_left s' < k_left s"
  by (cases s; cases s')
    (auto simp: k_write_flush_def k_write_all_owned_def k_flush_def fut_bind_Ok fut_lift_def Let_def
      k_left_def k_available_def k_set_write_def k_set_bufs_def k_stream_def k_set_stream_def
      split: if_splits)

end
