(* ===== verification/CompioConn.thy ===== *)
theory CompioConn
  imports CompioStream TokioPortal
begin

text \<open>
  \<open>src/compio/conn.rs\<close>, with \<open>compio/unnamed_portal.rs\<close>, \<open>named_portal.rs\<close> and \<open>transaction.rs\<close>. The
  code repeats that of \<open>src/tokio\<close> over the stream of \<open>CompioStream\<close>, and so do the definitions;
  the first argument of those that read is compio's \<open>read\<close>.
\<close>

section \<open>Exchanges\<close>

text \<open>The public \<open>is_broken()\<close> and the guards of every entry point.\<close>

definition k_is_broken :: "kconn \<Rightarrow> bool" where
  "k_is_broken t \<longleftrightarrow> c_broken (k_base t) \<or> k_exchange t \<or> k_scope t"

definition k_ensure_usable :: "kconn \<Rightarrow> unit res" where
  "k_ensure_usable t = (if k_is_broken t then Err ConnectionBroken else Ok ())"

definition k_ensure_exchange_ready :: "kconn \<Rightarrow> unit res" where
  "k_ensure_exchange_ready t =
     (if c_broken (k_base t) \<or> k_exchange t then Err ConnectionBroken else Ok ())"

definition k_begin_exchange :: "kconn \<Rightarrow> unit res \<times> kconn" where
  "k_begin_exchange t = rtry (k_ensure_exchange_ready t) t (\<lambda>_. (Ok (), t\<lparr>k_exchange := True\<rparr>))"

definition k_finish_exchange :: "kconn \<Rightarrow> kconn" where
  "k_finish_exchange t = t\<lparr>k_exchange := False\<rparr>"

text \<open>\<open>if let Err(e) = &result && e.is_connection_broken() { self.is_broken = true; }\<close>\<close>

definition k_mark :: "'a outcome \<Rightarrow> kconn \<Rightarrow> kconn" where
  "k_mark q t = (case q of Returned r \<Rightarrow> t\<lparr>k_base := mark_broken r (k_base t)\<rparr> | Dropped \<Rightarrow> t)"

definition k_fut_mark :: "'a kfut \<Rightarrow> 'a kfut" where
  "k_fut_mark m s = (let (q, n, t) = m s in (q, n, k_mark q t))"

text \<open>An entry point: \<open>self.ensure_usable()?\<close> first.\<close>

definition k_usable :: "'a kfut \<Rightarrow> 'a kfut" where
  "k_usable m = (\<lambda>(n, t). case k_ensure_usable t of
     Ok _ \<Rightarrow> m (n, t) | Err e \<Rightarrow> (Returned (Err e), n, t) | Panic \<Rightarrow> (Returned Panic, n, t))"

section \<open>Driving a machine\<close>

definition k_set_tx :: "tx_status \<Rightarrow> kconn \<Rightarrow> kconn" where
  "k_set_tx x t = t\<lparr>k_base := (k_base t)\<lparr>c_tx := x\<rparr>\<rparr>"

text \<open>One round of the loop of \<open>drive\<close>. \<open>Inl\<close> leaves the loop.\<close>

definition k_drive_iter ::
    "compio_lib \<Rightarrow> ('m \<Rightarrow> buffer_set \<Rightarrow> action res \<times> 'm \<times> buffer_set) \<Rightarrow> ('m \<Rightarrow> tx_status) \<Rightarrow> 'm \<Rightarrow>
       nat \<times> kconn \<Rightarrow> (unit outcome \<times> 'm \<times> nat \<times> kconn) + ('m \<times> nat \<times> kconn)" where
  "k_drive_iter K step tx m = (\<lambda>(n, t).
     let (r, m1, bs) = step m (k_bufs t); t1 = k_set_bufs bs t;
         go_on = (\<lambda>(q, s). case q of Returned (Ok _) \<Rightarrow> Inr (m1, s) | _ \<Rightarrow> Inl (q, m1, s))
     in case r of
          Err e \<Rightarrow> Inl (Returned (Err e), m1, n, t1)
        | Panic \<Rightarrow> Inl (Returned Panic, m1, n, t1)
        | Ok WriteAndReadByte \<Rightarrow> Inl (Returned (Err (LibraryBug
            ''Unexpected WriteAndReadByte in query state machine'')), m1, n, t1)
        | Ok ReadMessage \<Rightarrow> go_on (k_read_message K (n, t1))
        | Ok Write \<Rightarrow> go_on (k_write_flush (n, t1))
        | Ok WriteAndReadMessage \<Rightarrow> go_on (fut_bind k_write_flush (\<lambda>_. k_read_message K) (n, t1))
        | Ok TlsHandshake \<Rightarrow> Inl (Returned (Err (LibraryBug
            ''Unexpected TlsHandshake in query state machine'')), m1, n, t1)
        | Ok (HandleAsyncMessageAndReadMessage am) \<Rightarrow>
            go_on (k_read_message K (n, t1\<lparr>k_base := conn_handle_async am (k_base t1)\<rparr>))
        | Ok (ActionError server_error) \<Rightarrow>
            Inl (Returned (Err (Server server_error)), m1, n, k_finish_exchange (k_set_tx (tx m1) t1))
        | Ok Finished \<Rightarrow> Inl (Returned (Ok ()), m1, n, k_set_tx (tx m1) (k_finish_exchange t1)))"

text \<open>A round that goes on has transferred something, so a budget bounds the loop.\<close>

lemmas k_io_less = k_read_message_left k_write_flush_left

lemma k_both_less:
  "fut_bind k_write_flush (\<lambda>_. k_read_message K) s = (Returned (Ok u), s') \<Longrightarrow> k_left s' < k_left s"
  by (auto simp: fut_bind_Ok dest!: k_io_less)

lemma k_left_simps [simp]:
  "k_left (n, k_set_bufs bs k) = k_left (n, k)" "k_left (n, k\<lparr>k_base := conn_handle_async am (k_base k)\<rparr>) = k_left (n, k)"
  by (simp_all add: k_left_def k_available_def k_set_bufs_def k_stream_def conn_handle_async_def split: option.splits)

lemma k_drive_iter_less:
  assumes "k_drive_iter K step tx m (n, k) = Inr (m', s')"
  shows "k_left s' < k_left (n, k)"
proof -
  obtain r m1 bs where s: "step m (k_bufs k) = (r, m1, bs)" by (metis prod_cases3)
  with assms obtain a where r: "r = Ok a" by (cases r) (auto simp: k_drive_iter_def Let_def)
  show ?thesis
    using assms s r
    by (cases a) (auto simp: k_drive_iter_def Let_def split: outcome.splits res.splits prod.splits
        dest!: k_io_less k_both_less)
qed

function k_drive_loop ::
    "compio_lib \<Rightarrow> ('m \<Rightarrow> buffer_set \<Rightarrow> action res \<times> 'm \<times> buffer_set) \<Rightarrow> ('m \<Rightarrow> tx_status) \<Rightarrow> 'm \<Rightarrow>
       nat \<times> kconn \<Rightarrow> unit outcome \<times> 'm \<times> nat \<times> kconn" where
  "k_drive_loop K step tx m s = (case k_drive_iter K step tx m s of
     Inl r \<Rightarrow> r | Inr (m', s') \<Rightarrow> k_drive_loop K step tx m' s')"
  by pat_completeness auto
termination
  by (relation "measure (\<lambda>(K, step, tx, m, s). k_left s)") (auto intro: k_drive_iter_less)

declare k_drive_loop.simps [simp del]

definition k_drive ::
    "compio_lib \<Rightarrow> ('m \<Rightarrow> buffer_set \<Rightarrow> action res \<times> 'm \<times> buffer_set) \<Rightarrow> ('m \<Rightarrow> tx_status) \<Rightarrow> 'm \<Rightarrow>
       nat \<times> kconn \<Rightarrow> unit outcome \<times> 'm \<times> nat \<times> kconn" where
  "k_drive K step tx m = (\<lambda>(n, t). case k_begin_exchange t of
     (Ok _, t1) \<Rightarrow> k_drive_loop K step tx m (n, t1)
   | (Err e, t1) \<Rightarrow> (Returned (Err e), m, n, t1)
   | (Panic, t1) \<Rightarrow> (Returned Panic, m, n, t1))"

section \<open>Simple queries\<close>

text \<open>Entry points with a handler return it as well.\<close>

definition k_query ::
    "compio_lib \<Rightarrow> ext \<Rightarrow> 'h handler \<Rightarrow> 'h \<Rightarrow> str \<Rightarrow> nat \<times> kconn \<Rightarrow> unit outcome \<times> 'h \<times> nat \<times> kconn" where
  "k_query K X H h sql = (\<lambda>(n, t). case k_ensure_usable t of
     Ok _ \<Rightarrow> (let (q, sm, n1, t1) = k_drive K (sq_step X H) sq_tx (sq_new h sql) (n, t)
              in (q, sq_handler sm, n1, k_mark q t1))
   | Err e \<Rightarrow> (Returned (Err e), h, n, t)
   | Panic \<Rightarrow> (Returned Panic, h, n, t))"

definition k_with_rows :: "unit outcome \<times> 'h \<times> nat \<times> kconn \<Rightarrow> 'h outcome \<times> nat \<times> kconn" where
  "k_with_rows = (\<lambda>(q, h, s). (outcome_map (\<lambda>_. h) q, s))"

definition k_query_drop :: "compio_lib \<Rightarrow> ext \<Rightarrow> str \<Rightarrow> nat option kfut" where
  "k_query_drop K X sql s = k_with_rows (k_query K X drop_handler None sql s)"

definition k_query_collect ::
    "compio_lib \<Rightarrow> ext \<Rightarrow> (row_description \<Rightarrow> data_row \<Rightarrow> 'a res) \<Rightarrow> str \<Rightarrow> 'a list kfut" where
  "k_query_collect K X from_row sql s = k_with_rows (k_query K X (collect_handler from_row) [] sql s)"

definition k_query_first ::
    "compio_lib \<Rightarrow> ext \<Rightarrow> (row_description \<Rightarrow> data_row \<Rightarrow> 'a res) \<Rightarrow> str \<Rightarrow> 'a option kfut" where
  "k_query_first K X from_row sql s = k_with_rows (k_query K X (first_row_handler from_row) None sql s)"

definition k_query_foreach ::
    "compio_lib \<Rightarrow> ext \<Rightarrow> (row_description \<Rightarrow> data_row \<Rightarrow> 'a res) \<Rightarrow> ('s \<Rightarrow> 'a \<Rightarrow> unit res \<times> 's) \<Rightarrow> 's \<Rightarrow> str \<Rightarrow>
       nat \<times> kconn \<Rightarrow> unit outcome \<times> 's \<times> nat \<times> kconn" where
  "k_query_foreach K X from_row f st sql s = k_query K X (for_each_handler from_row f) st sql s"

definition k_ping :: "compio_lib \<Rightarrow> ext \<Rightarrow> unit kfut" where
  "k_ping K X = fut_bind (k_query_drop K X []) (\<lambda>_. fut_lift (\<lambda>t. (Ok (), t)))"

text \<open>\<open>close(mut self)\<close>\<close>

definition k_close :: "unit kfut" where
  "k_close = k_usable (\<lambda>(n, t).
     k_write_flush (n, k_set_bufs ((k_bufs t)\<lparr>write_buffer := write_terminate []\<rparr>) t))"

section \<open>Prepared statements and execution\<close>

definition k_prepare_inner :: "compio_lib \<Rightarrow> ext \<Rightarrow> u64 \<Rightarrow> str \<Rightarrow> oid list \<Rightarrow> prepared_statement kfut" where
  "k_prepare_inner K X idx query param_oids = (\<lambda>(n, t).
     let (sm, bs) = eq_prepare None (k_bufs t) idx query param_oids;
         (q, sm1, n1, t1) = k_drive K (eq_step X drop_handler) eq_tx sm (n, k_set_bufs bs t)
     in (case q of
           Returned r \<Rightarrow> Returned (rbind r (\<lambda>_.
             ok_or (eq_prepared sm1) (LibraryBug ''No prepared statement'')))
         | Dropped \<Rightarrow> Dropped, n1, t1))"

definition k_prepare_typed :: "compio_lib \<Rightarrow> ext \<Rightarrow> str \<Rightarrow> oid list \<Rightarrow> prepared_statement kfut" where
  "k_prepare_typed K X query param_oids = k_usable (\<lambda>(n, t).
     let idx = c_counter (k_base t) + 1 in
     k_fut_mark (k_prepare_inner K X idx query param_oids)
       (n, t\<lparr>k_base := (k_base t)\<lparr>c_counter := idx\<rparr>\<rparr>))"

definition k_prepare :: "compio_lib \<Rightarrow> ext \<Rightarrow> str \<Rightarrow> prepared_statement kfut" where
  "k_prepare K X query = k_prepare_typed K X query []"

definition k_close_statement :: "compio_lib \<Rightarrow> ext \<Rightarrow> prepared_statement \<Rightarrow> unit kfut" where
  "k_close_statement K X stmt = k_usable (k_fut_mark (\<lambda>(n, t).
     let (sm, bs) = eq_close_statement None (k_bufs t) (wire_name stmt);
         (q, sm1, s) = k_drive K (eq_step X drop_handler) eq_tx sm (n, k_set_bufs bs t)
     in (q, s)))"

definition k_exec ::
    "compio_lib \<Rightarrow> ext \<Rightarrow> 'h handler \<Rightarrow> 'h \<Rightarrow> statement_ref \<Rightarrow> to_params \<Rightarrow>
       nat \<times> kconn \<Rightarrow> unit outcome \<times> 'h \<times> nat \<times> kconn" where
  "k_exec K X H h statement params = (\<lambda>(n, t). case k_ensure_usable t of
     Err e \<Rightarrow> (Returned (Err e), h, n, t)
   | Panic \<Rightarrow> (Returned Panic, h, n, t)
   | Ok _ \<Rightarrow>
      (let (r, bs) = exec_start h (k_bufs t) statement params; t1 = k_set_bufs bs t in
       case r of
         Ok sm \<Rightarrow>
           (let (q, sm1, n2, t2) = k_drive K (eq_step X H) eq_tx sm (n, t1)
            in (q, eq_handler sm1, n2, k_mark q t2))
       | Err e \<Rightarrow> (Returned (Err e), h, n, k_mark (Returned (Err e) :: unit outcome) t1)
       | Panic \<Rightarrow> (Returned Panic, h, n, t1)))"

definition k_exec_drop :: "compio_lib \<Rightarrow> ext \<Rightarrow> statement_ref \<Rightarrow> to_params \<Rightarrow> nat option kfut" where
  "k_exec_drop K X statement params s = k_with_rows (k_exec K X drop_handler None statement params s)"

definition k_exec_collect ::
    "compio_lib \<Rightarrow> ext \<Rightarrow> (row_description \<Rightarrow> data_row \<Rightarrow> 'a res) \<Rightarrow> statement_ref \<Rightarrow> to_params \<Rightarrow> 'a list kfut" where
  "k_exec_collect K X from_row statement params s =
     k_with_rows (k_exec K X (collect_handler from_row) [] statement params s)"

definition k_exec_first ::
    "compio_lib \<Rightarrow> ext \<Rightarrow> (row_description \<Rightarrow> data_row \<Rightarrow> 'a res) \<Rightarrow> statement_ref \<Rightarrow> to_params \<Rightarrow> 'a option kfut" where
  "k_exec_first K X from_row statement params s =
     k_with_rows (k_exec K X (first_row_handler from_row) None statement params s)"

definition k_exec_foreach ::
    "compio_lib \<Rightarrow> ext \<Rightarrow> (row_description \<Rightarrow> data_row \<Rightarrow> 'a res) \<Rightarrow> ('s \<Rightarrow> 'a \<Rightarrow> unit res \<times> 's) \<Rightarrow> 's \<Rightarrow>
       statement_ref \<Rightarrow> to_params \<Rightarrow> nat \<times> kconn \<Rightarrow> unit outcome \<times> 's \<times> nat \<times> kconn" where
  "k_exec_foreach K X from_row f st statement params s =
     k_exec K X (for_each_handler from_row f) st statement params s"

section \<open>Low-level messages\<close>

text \<open>Fill the write buffer, begin an exchange and send it.\<close>

definition k_send :: "bytes \<Rightarrow> unit kfut" where
  "k_send w = (\<lambda>(n, t).
     fut_bind (fut_lift k_begin_exchange) (\<lambda>_. k_write_flush)
       (n, k_set_bufs ((k_bufs t)\<lparr>write_buffer := w\<rparr>) t))"

definition k_lowlevel_flush :: "unit kfut" where
  "k_lowlevel_flush = k_usable (fut_bind (k_send (write_flush [])) (\<lambda>_.
     fut_lift (\<lambda>t. (Ok (), k_finish_exchange t))))"

text \<open>The head of each loop: read a message, \<open>continue\<close> when it is asynchronous.\<close>

function k_next_message :: "compio_lib \<Rightarrow> unit kfut" where
  "k_next_message K s = (case k_read_message K s of
     (Returned (Ok _), s1) \<Rightarrow>
       if is_async_type (type_byte (k_bufs (snd s1))) then k_next_message K s1 else (Returned (Ok ()), s1)
   | (q, s1) \<Rightarrow> (q, s1))"
  by pat_completeness auto
termination
  by (relation "measure (\<lambda>(K, s). k_left s)") (auto dest!: k_read_message_left [OF sym])

declare k_next_message.simps [simp del]

definition k_await_complete :: "compio_lib \<Rightarrow> ext \<Rightarrow> byte \<Rightarrow> string \<Rightarrow> unit kfut" where
  "k_await_complete K X ty msg = fut_bind (k_next_message K) (\<lambda>_. fut_lift (\<lambda>t.
     if type_byte (k_bufs t) = ty then (Ok (), k_finish_exchange t)
     else if type_byte (k_bufs t) = ERROR_RESPONSE then (server_err X (read_buffer (k_bufs t)), t)
     else (Err (LibraryBug msg), t)))"

definition k_lowlevel_bind :: "compio_lib \<Rightarrow> ext \<Rightarrow> str \<Rightarrow> str \<Rightarrow> to_params \<Rightarrow> unit kfut" where
  "k_lowlevel_bind K X portal statement_name params = k_usable (k_fut_mark (\<lambda>(n, t).
     let (r, w) = write_bind [] portal statement_name params (natural_oids params) in
     case r of
       Ok _ \<Rightarrow> fut_bind (k_send (write_flush w)) (\<lambda>_. k_await_complete K X BIND_COMPLETE
         ''Expected BindComplete or ErrorResponse, got {}'') (n, t)
     | Err e \<Rightarrow> (Returned (Err e), n, k_set_bufs ((k_bufs t)\<lparr>write_buffer := w\<rparr>) t)
     | Panic \<Rightarrow> (Returned Panic, n, k_set_bufs ((k_bufs t)\<lparr>write_buffer := w\<rparr>) t)))"

definition k_lowlevel_close_portal :: "compio_lib \<Rightarrow> ext \<Rightarrow> str \<Rightarrow> unit kfut" where
  "k_lowlevel_close_portal K X portal = k_usable (k_fut_mark (
     fut_bind (k_send (write_flush (write_close_portal [] portal))) (\<lambda>_.
       k_await_complete K X CLOSE_COMPLETE ''Expected CloseComplete or ErrorResponse, got {}'')))"

lemma k_next_message_less: "k_next_message K s = (Returned (Ok u), s') \<Longrightarrow> k_left s' < k_left s"
proof (induction K s arbitrary: s' rule: k_next_message.induct)
  case (1 K s)
  obtain q s1 where rd: "k_read_message K s = (q, s1)" by (cases "k_read_message K s")
  show ?case
  proof (cases "q = Returned (Ok ())")
    case True
    with rd have "k_left s1 < k_left s" by (auto dest: k_read_message_left)
    with rd 1 True show ?thesis
      by (fastforce simp: k_next_message.simps [of K s] split: if_splits)
  qed (use rd 1(2) in \<open>auto simp: k_next_message.simps [of K s] split: outcome.splits res.splits\<close>)
qed

text \<open>The loop of \<open>lowlevel_execute_inner\<close>, with the local column buffer.\<close>

function k_execute_loop ::
    "compio_lib \<Rightarrow> ext \<Rightarrow> 'h handler \<Rightarrow> 'h \<Rightarrow> bytes \<Rightarrow> nat \<times> kconn \<Rightarrow> bool outcome \<times> 'h \<times> nat \<times> kconn" where
  "k_execute_loop K X H h cbuf s = (case k_next_message K s of
     (Returned (Err e), s1) \<Rightarrow> (Returned (Err e), h, s1)
   | (Returned Panic, s1) \<Rightarrow> (Returned Panic, h, s1)
   | (Dropped, s1) \<Rightarrow> (Dropped, h, s1)
   | (Returned (Ok _), s1) \<Rightarrow>
      (let (n1, t1) = s1; ty = type_byte (k_bufs t1); payload = read_buffer (k_bufs t1) in
       if ty = ROW_DESCRIPTION then
         (case row_description_parse X payload of
            Err e \<Rightarrow> (Returned (Err e), h, s1)
          | Panic \<Rightarrow> (Returned Panic, h, s1)
          | Ok cols \<Rightarrow> (case h_result_start H h cols of
               (Ok _, h1) \<Rightarrow> k_execute_loop K X H h1 payload s1
             | (Err e, h1) \<Rightarrow> (Returned (Err e), h1, s1)
             | (Panic, h1) \<Rightarrow> (Returned Panic, h1, s1)))
       else if ty = NO_DATA then k_execute_loop K X H h cbuf s1
       else if ty = DATA_ROW then
         (case rbind (row_description_parse X cbuf) (\<lambda>cols.
                 rmap (\<lambda>row. (cols, row)) (data_row_parse payload)) of
            Err e \<Rightarrow> (Returned (Err e), h, s1)
          | Panic \<Rightarrow> (Returned Panic, h, s1)
          | Ok (cols, row) \<Rightarrow> (case h_row H h cols row of
               (Ok _, h1) \<Rightarrow> k_execute_loop K X H h1 cbuf s1
             | (Err e, h1) \<Rightarrow> (Returned (Err e), h1, s1)
             | (Panic, h1) \<Rightarrow> (Returned Panic, h1, s1)))
       else if ty = COMMAND_COMPLETE then
         (case command_complete_parse X payload of
            Err e \<Rightarrow> (Returned (Err e), h, s1)
          | Panic \<Rightarrow> (Returned Panic, h, s1)
          | Ok complete \<Rightarrow> (case h_result_end H h complete of
               (Ok _, h1) \<Rightarrow> (Returned (Ok False), h1, n1, k_finish_exchange t1)
             | (Err e, h1) \<Rightarrow> (Returned (Err e), h1, s1)
             | (Panic, h1) \<Rightarrow> (Returned Panic, h1, s1)))
       else if ty = PORTAL_SUSPENDED then (Returned (Ok True), h, n1, k_finish_exchange t1)
       else if ty = ERROR_RESPONSE then (Returned (server_err X payload), h, s1)
       else (Returned (Err (LibraryBug ''Unexpected message in execute: {}'')), h, s1)))"
  by pat_completeness auto
termination
  by (relation "measure (\<lambda>(K, X, H, h, b, s). k_left s)") (auto dest!: k_next_message_less [OF sym])

declare k_execute_loop.simps [simp del]

definition k_execute_inner ::
    "compio_lib \<Rightarrow> ext \<Rightarrow> 'h handler \<Rightarrow> 'h \<Rightarrow> str \<Rightarrow> u32 \<Rightarrow> nat \<times> kconn \<Rightarrow> bool outcome \<times> 'h \<times> nat \<times> kconn" where
  "k_execute_inner K X H h portal max_rows s =
     (let w = write_flush (write_execute (write_describe_portal [] portal) portal max_rows) in
      case k_send w s of
        (Returned (Ok _), s1) \<Rightarrow> k_execute_loop K X H h [] s1
      | (q, s1) \<Rightarrow> (outcome_map (\<lambda>_. False) q, h, s1))"

definition k_lowlevel_execute ::
    "compio_lib \<Rightarrow> ext \<Rightarrow> 'h handler \<Rightarrow> 'h \<Rightarrow> str \<Rightarrow> u32 \<Rightarrow> nat \<times> kconn \<Rightarrow> bool outcome \<times> 'h \<times> nat \<times> kconn" where
  "k_lowlevel_execute K X H h portal max_rows = (\<lambda>(n, t). case k_ensure_usable t of
     Ok _ \<Rightarrow> (let (q, h1, n1, t1) = k_execute_inner K X H h portal max_rows (n, t)
              in (q, h1, n1, k_mark q t1))
   | Err e \<Rightarrow> (Returned (Err e), h, n, t)
   | Panic \<Rightarrow> (Returned Panic, h, n, t))"

text \<open>The loop of \<open>lowlevel_sync_inner\<close>: an error that breaks the connection ends it at once.\<close>

function k_sync_loop :: "compio_lib \<Rightarrow> ext \<Rightarrow> server_error option \<Rightarrow> unit kfut" where
  "k_sync_loop K X pending_error s = (case k_next_message K s of
     (Returned (Ok _), s1) \<Rightarrow>
      (let (n1, t1) = s1; ty = type_byte (k_bufs t1); payload = read_buffer (k_bufs t1) in
       if ty = READY_FOR_QUERY then
         (case ready_for_query_parse payload of
            Err e \<Rightarrow> (Returned (Err e), s1)
          | Panic \<Rightarrow> (Returned Panic, s1)
          | Ok st \<Rightarrow> (Returned (case pending_error of Some e \<Rightarrow> Err (Server e) | None \<Rightarrow> Ok ()),
                       n1, k_finish_exchange (k_set_tx (tx_or_default st) t1)))
       else if ty = ERROR_RESPONSE then
         (case error_response_parse X payload of
            Err e \<Rightarrow> (Returned (Err e), s1)
          | Panic \<Rightarrow> (Returned Panic, s1)
          | Ok e \<Rightarrow>
              if is_connection_broken (Server e)
              then (Returned (Err (Server e)), n1, t1\<lparr>k_base := (k_base t1)\<lparr>c_broken := True\<rparr>\<rparr>)
              else k_sync_loop K X (Some e) s1)
       else k_sync_loop K X pending_error s1)
   | (q, s1) \<Rightarrow> (q, s1))"
  by pat_completeness auto
termination
  by (relation "measure (\<lambda>(K, X, p, s). k_left s)") (auto dest!: k_next_message_less [OF sym])

declare k_sync_loop.simps [simp del]

definition k_sync_inner :: "compio_lib \<Rightarrow> ext \<Rightarrow> unit kfut" where
  "k_sync_inner K X = fut_bind (k_send (write_sync [])) (\<lambda>_. k_sync_loop K X None)"

definition k_lowlevel_sync :: "compio_lib \<Rightarrow> ext \<Rightarrow> unit kfut" where
  "k_lowlevel_sync K X = k_usable (k_fut_mark (k_sync_inner K X))"

section \<open>Portals\<close>

definition k_bind_iter ::
    "compio_lib \<Rightarrow> ext \<Rightarrow> bind_machine \<Rightarrow> nat \<times> kconn \<Rightarrow> (unit outcome \<times> nat \<times> kconn) + (bind_machine \<times> nat \<times> kconn)" where
  "k_bind_iter K X m = (\<lambda>(n, t).
     let (r, m1, bs) = bind_step X m (k_bufs t); t1 = k_set_bufs bs t;
         go_on = (\<lambda>(q, s). case q of Returned (Ok _) \<Rightarrow> Inr (m1, s) | _ \<Rightarrow> Inl (q, s))
     in case r of
          Err e \<Rightarrow> Inl (Returned (Err e), n, t1)
        | Panic \<Rightarrow> Inl (Returned Panic, n, t1)
        | Ok ReadMessage \<Rightarrow> go_on (k_read_message K (n, t1))
        | Ok Write \<Rightarrow> go_on (k_write_flush (n, t1))
        | Ok WriteAndReadMessage \<Rightarrow> go_on (fut_bind k_write_flush (\<lambda>_. k_read_message K) (n, t1))
        | Ok Finished \<Rightarrow> Inl (Returned (Ok ()), n, k_finish_exchange t1)
        | Ok _ \<Rightarrow> Inl (Returned (Err (LibraryBug ''Unexpected action in bind'')), n, t1))"

lemma k_bind_iter_less:
  assumes "k_bind_iter K X m (n, k) = Inr (m', s')"
  shows "k_left s' < k_left (n, k)"
proof -
  obtain r m1 bs where s: "bind_step X m (k_bufs k) = (r, m1, bs)" by (metis prod_cases3)
  with assms obtain a where r: "r = Ok a" by (cases r) (auto simp: k_bind_iter_def Let_def)
  show ?thesis
    using assms s r
    by (cases a) (auto simp: k_bind_iter_def Let_def split: outcome.splits res.splits prod.splits
        dest!: k_io_less k_both_less)
qed

function k_bind_loop :: "compio_lib \<Rightarrow> ext \<Rightarrow> bind_machine \<Rightarrow> unit kfut" where
  "k_bind_loop K X m s = (case k_bind_iter K X m s of
     Inl r \<Rightarrow> r | Inr (m', s') \<Rightarrow> k_bind_loop K X m' s')"
  by pat_completeness auto
termination
  by (relation "measure (\<lambda>(K, X, m, s). k_left s)") (auto intro: k_bind_iter_less)

declare k_bind_loop.simps [simp del]

definition k_create_portal :: "compio_lib \<Rightarrow> ext \<Rightarrow> str \<Rightarrow> statement_ref \<Rightarrow> to_params \<Rightarrow> unit kfut" where
  "k_create_portal K X portal statement params = k_usable (\<lambda>(n, t).
     let (r, bs) = bind_start portal statement params (k_bufs t); t1 = k_set_bufs bs t in
     case r of
       Ok sm \<Rightarrow> fut_bind (fut_lift k_begin_exchange) (\<lambda>_. k_bind_loop K X sm) (n, t1)
     | Err e \<Rightarrow> (Returned (Err e), n, t1)
     | Panic \<Rightarrow> (Returned Panic, n, t1))"

text \<open>The second half of \<open>exec_portal_inner\<close>, after the closure has ended with \<open>result\<close>.\<close>

definition k_portal_end :: "compio_lib \<Rightarrow> ext \<Rightarrow> 'a res \<Rightarrow> 'a kfut" where
  "k_portal_end K X result s =
     (let (sync_result, n, t) = k_sync_inner K X s in
      case sync_result of
        Dropped \<Rightarrow> (Dropped, n, t)
      | Returned Panic \<Rightarrow> (Returned Panic, n, t)
      | Returned sr \<Rightarrow>
         (let t1 = (if k_ensure_exchange_ready t = Ok () then t\<lparr>k_scope := False\<rparr> else t) in
          (Returned (case (result, sr) of
             (Ok v, Ok _) \<Rightarrow> Ok v | (Err e, _) \<Rightarrow> Err e | (Ok _, Err e) \<Rightarrow> Err e
           | _ \<Rightarrow> Panic), n, t1)))"

definition k_exec_portal_inner ::
    "compio_lib \<Rightarrow> ext \<Rightarrow> statement_ref \<Rightarrow> to_params \<Rightarrow> 'a kfut \<Rightarrow> 'a kfut" where
  "k_exec_portal_inner K X statement params f = (\<lambda>(n, t).
     let (r, bs) = bind_start [] statement params (k_bufs t); t1 = k_set_bufs bs t in
     case r of
       Err e \<Rightarrow> (Returned (Err e), n, t1)
     | Panic \<Rightarrow> (Returned Panic, n, t1)
     | Ok sm \<Rightarrow>
        fut_bind (fut_lift k_begin_exchange) (\<lambda>_. fut_bind (k_bind_loop K X sm) (\<lambda>_ s.
          case f s of
            (Dropped, s1) \<Rightarrow> (Dropped, s1)
          | (Returned Panic, s1) \<Rightarrow> (Returned Panic, s1)
          | (Returned result, s1) \<Rightarrow> k_portal_end K X result s1))
        (n, t1\<lparr>k_scope := True\<rparr>))"

definition k_exec_portal ::
    "compio_lib \<Rightarrow> ext \<Rightarrow> statement_ref \<Rightarrow> to_params \<Rightarrow> 'a kfut \<Rightarrow> 'a kfut" where
  "k_exec_portal K X statement params f = k_usable (k_fut_mark (k_exec_portal_inner K X statement params f))"

section \<open>Transactions\<close>

definition k_transaction :: "compio_lib \<Rightarrow> ext \<Rightarrow> (u32 \<Rightarrow> 'a kfut) \<Rightarrow> 'a kfut" where
  "k_transaction K X f = (\<lambda>(n, t).
     if conn_in_transaction (k_base t)
     then (Returned (Err (InvalidUsage ''nested transactions are not supported'')), n, t)
     else fut_bind (k_query_drop K X (ascii ''BEGIN'')) (\<lambda>_ (n1, t1).
       case f (conn_id (k_base t1)) (n1, t1) of
         (Dropped, s2) \<Rightarrow> (Dropped, s2)
       | (Returned Panic, s2) \<Rightarrow> (Returned Panic, s2)
       | (Returned result, s2) \<Rightarrow>
           (if conn_in_transaction (k_base (snd s2)) then
              (case result of
                 Ok _ \<Rightarrow> fut_bind (k_query_drop K X (ascii ''COMMIT'')) (\<lambda>_ s3. (Returned result, s3)) s2
               | _ \<Rightarrow> (case k_query_drop K X (ascii ''ROLLBACK'') s2 of
                    (Dropped, s3) \<Rightarrow> (Dropped, s3)
                  | (Returned Panic, s3) \<Rightarrow> (Returned Panic, s3)
                  | (_, s3) \<Rightarrow> (Returned result, s3)))
            else (Returned result, s2))) (n, t))"

section \<open>Driving the batch machines\<close>

text \<open>
  One round of the loop of \<open>prepare_batch_inner\<close> and of \<open>drive_batch\<close>: the two differ only in
  the text of their last error and in the record they make of the status, \<open>ending\<close>.
\<close>

definition k_batch_iter ::
    "compio_lib \<Rightarrow> ('m \<Rightarrow> buffer_set \<Rightarrow> action res \<times> 'm \<times> buffer_set) \<Rightarrow>
       (action \<Rightarrow> 'm \<Rightarrow> kconn \<Rightarrow> unit res \<times> kconn) \<Rightarrow> 'm \<Rightarrow> nat \<times> kconn \<Rightarrow>
       (unit outcome \<times> 'm \<times> nat \<times> kconn) + ('m \<times> nat \<times> kconn)" where
  "k_batch_iter K step ending m = (\<lambda>(n, t).
     let (r, m1, bs) = step m (k_bufs t); t1 = k_set_bufs bs t;
         go_on = (\<lambda>(q, s). case q of Returned (Ok _) \<Rightarrow> Inr (m1, s) | _ \<Rightarrow> Inl (q, m1, s))
     in case r of
          Err e \<Rightarrow> Inl (Returned (Err e), m1, n, t1)
        | Panic \<Rightarrow> Inl (Returned Panic, m1, n, t1)
        | Ok ReadMessage \<Rightarrow> go_on (k_read_message K (n, t1))
        | Ok WriteAndReadMessage \<Rightarrow> go_on (fut_bind k_write_flush (\<lambda>_. k_read_message K) (n, t1))
        | Ok a \<Rightarrow> (let (r1, t2) = ending a m1 t1 in Inl (Returned r1, m1, n, t2)))"

definition k_prepare_ending :: "action \<Rightarrow> batch_prepare \<Rightarrow> kconn \<Rightarrow> unit res \<times> kconn" where
  "k_prepare_ending a m t = (case a of
     Finished \<Rightarrow> (Ok (), k_set_tx (bp_tx m) (k_finish_exchange t))
   | _ \<Rightarrow> (Err (LibraryBug ''Unexpected action in batch prepare''), t))"

definition k_batch_ending :: "action \<Rightarrow> batch_machine \<Rightarrow> kconn \<Rightarrow> unit res \<times> kconn" where
  "k_batch_ending a m t = (case a of
     Finished \<Rightarrow> (Ok (), k_finish_exchange t)
   | ActionError server_error \<Rightarrow>
       (Err (Server server_error), k_finish_exchange (k_set_tx (bt_tx m) t))
   | _ \<Rightarrow> (Err (LibraryBug ''Unexpected action in batch''), t))"

lemma k_batch_iter_less:
  assumes "k_batch_iter K step ending m (n, k) = Inr (m', s')"
  shows "k_left s' < k_left (n, k)"
proof -
  obtain r m1 bs where s: "step m (k_bufs k) = (r, m1, bs)" by (metis prod_cases3)
  with assms obtain a where r: "r = Ok a" by (cases r) (auto simp: k_batch_iter_def Let_def)
  show ?thesis
    using assms s r
    by (cases a) (auto simp: k_batch_iter_def Let_def split: outcome.splits res.splits prod.splits
        dest!: k_io_less k_both_less)
qed

function k_batch_loop ::
    "compio_lib \<Rightarrow> ('m \<Rightarrow> buffer_set \<Rightarrow> action res \<times> 'm \<times> buffer_set) \<Rightarrow>
       (action \<Rightarrow> 'm \<Rightarrow> kconn \<Rightarrow> unit res \<times> kconn) \<Rightarrow> 'm \<Rightarrow> nat \<times> kconn \<Rightarrow>
       unit outcome \<times> 'm \<times> nat \<times> kconn" where
  "k_batch_loop K step ending m s = (case k_batch_iter K step ending m s of
     Inl r \<Rightarrow> r | Inr (m', s') \<Rightarrow> k_batch_loop K step ending m' s')"
  by pat_completeness auto
termination
  by (relation "measure (\<lambda>(K, step, ending, m, s). k_left s)") (auto intro: k_batch_iter_less)

declare k_batch_loop.simps [simp del]

text \<open>\<open>self.begin_exchange()?; loop\<close>\<close>

definition k_drive_batch ::
    "compio_lib \<Rightarrow> ('m \<Rightarrow> buffer_set \<Rightarrow> action res \<times> 'm \<times> buffer_set) \<Rightarrow>
       (action \<Rightarrow> 'm \<Rightarrow> kconn \<Rightarrow> unit res \<times> kconn) \<Rightarrow> 'm \<Rightarrow> nat \<times> kconn \<Rightarrow>
       unit outcome \<times> 'm \<times> nat \<times> kconn" where
  "k_drive_batch K step ending m = (\<lambda>(n, t). case k_begin_exchange t of
     (Ok _, t1) \<Rightarrow> k_batch_loop K step ending m (n, t1)
   | (Err e, t1) \<Rightarrow> (Returned (Err e), m, n, t1)
   | (Panic, t1) \<Rightarrow> (Returned Panic, m, n, t1))"

section \<open>Batches\<close>

definition k_prepare_batch_inner :: "compio_lib \<Rightarrow> ext \<Rightarrow> str list \<Rightarrow> u64 \<Rightarrow> prepared_statement list kfut" where
  "k_prepare_batch_inner K X queries start_idx = (\<lambda>(n, t).
     let (sm, bs) = bp_new (k_bufs t) queries start_idx;
         (q, sm1, s) = k_drive_batch K (bp_step X) k_prepare_ending sm (n, k_set_bufs bs t)
     in (outcome_map (\<lambda>_. bp_statements sm1) q, s))"

definition k_prepare_batch :: "compio_lib \<Rightarrow> ext \<Rightarrow> str list \<Rightarrow> prepared_statement list kfut" where
  "k_prepare_batch K X queries = k_usable (\<lambda>(n, t).
     if queries = [] then (Returned (Ok []), n, t)
     else let c = k_base t; start_idx = c_counter c + 1 in
       k_fut_mark (k_prepare_batch_inner K X queries start_idx)
         (n, t\<lparr>k_base := c\<lparr>c_counter := c_counter c + word_of_nat (length queries)\<rparr>\<rparr>))"

definition k_exec_chunk ::
    "compio_lib \<Rightarrow> ext \<Rightarrow> statement_ref \<Rightarrow> oid list \<Rightarrow> str \<Rightarrow> to_params list \<Rightarrow> unit kfut" where
  "k_exec_chunk K X stmt_ref param_oids sname chunk = (\<lambda>(n, t).
     let w0 = (case stmt_ref of Sql sql \<Rightarrow> write_parse [] [] sql param_oids | Prepared _ \<Rightarrow> []);
         effective_stmt_name = (case stmt_ref of Sql _ \<Rightarrow> [] | Prepared _ \<Rightarrow> sname);
         (r, w1) = write_executions w0 effective_stmt_name param_oids chunk;
         filled = (\<lambda>w. k_set_bufs ((k_bufs t)\<lparr>write_buffer := w\<rparr>) t)
     in case r of
          Err e \<Rightarrow> (Returned (Err e), n, filled w1)
        | Panic \<Rightarrow> (Returned Panic, n, filled w1)
        | Ok _ \<Rightarrow>
            (let (q, sm, n1, t1) = k_drive_batch K (batch_step X) k_batch_ending
                   (batch_new (case stmt_ref of Sql _ \<Rightarrow> True | Prepared _ \<Rightarrow> False))
                   (n, filled (write_sync w1))
             in (q, n1, if q = Returned (Ok ()) then k_set_tx (bt_tx sm) t1 else t1)))"

fun k_exec_chunks ::
    "compio_lib \<Rightarrow> ext \<Rightarrow> statement_ref \<Rightarrow> oid list \<Rightarrow> str \<Rightarrow> to_params list list \<Rightarrow> unit kfut" where
  "k_exec_chunks K X stmt_ref param_oids sname [] s = (Returned (Ok ()), s)"
| "k_exec_chunks K X stmt_ref param_oids sname (chunk # cs) s =
     fut_bind (k_exec_chunk K X stmt_ref param_oids sname chunk)
       (\<lambda>_. k_exec_chunks K X stmt_ref param_oids sname cs) s"

definition k_exec_batch_inner :: "compio_lib \<Rightarrow> ext \<Rightarrow> statement_ref \<Rightarrow> to_params list \<Rightarrow> nat \<Rightarrow> unit kfut" where
  "k_exec_batch_inner K X statement params_list chunk_size s =
     (if params_list = [] then (Returned (Ok ()), s)
      else let (param_oids, sname) = (case statement of
               Sql _ \<Rightarrow> (natural_oids (hd params_list), [])
             | Prepared stmt \<Rightarrow> (ps_param_oids stmt, wire_name stmt))
           in k_exec_chunks K X statement param_oids sname
                (chunks (max chunk_size 1) params_list) s)"

definition k_exec_batch_chunked :: "compio_lib \<Rightarrow> ext \<Rightarrow> statement_ref \<Rightarrow> to_params list \<Rightarrow> nat \<Rightarrow> unit kfut" where
  "k_exec_batch_chunked K X statement params_list chunk_size =
     k_usable (k_fut_mark (k_exec_batch_inner K X statement params_list chunk_size))"

definition k_exec_batch :: "compio_lib \<Rightarrow> ext \<Rightarrow> statement_ref \<Rightarrow> to_params list \<Rightarrow> unit kfut" where
  "k_exec_batch K X statement params_list = k_exec_batch_chunked K X statement params_list 1000"

section \<open>Portals\<close>

text \<open>A portal handle of \<open>exec_portal\<close> runs inside its scope, so without \<open>ensure_usable\<close>.\<close>

definition k_unnamed_exec ::
    "compio_lib \<Rightarrow> ext \<Rightarrow> 'h handler \<Rightarrow> 'h \<Rightarrow> u32 \<Rightarrow> nat \<times> kconn \<Rightarrow> bool outcome \<times> 'h \<times> nat \<times> kconn" where
  "k_unnamed_exec K X H h max_rows = k_execute_inner K X H h [] max_rows"

definition k_unnamed_exec_foreach ::
    "compio_lib \<Rightarrow> ext \<Rightarrow> (row_description \<Rightarrow> data_row \<Rightarrow> 'a res) \<Rightarrow> ('s \<Rightarrow> 'a \<Rightarrow> unit res \<times> 's) \<Rightarrow> 's \<Rightarrow> u32 \<Rightarrow>
       nat \<times> kconn \<Rightarrow> bool outcome \<times> 's \<times> nat \<times> kconn" where
  "k_unnamed_exec_foreach K X from_row f st max_rows =
     k_unnamed_exec K X (for_each_handler from_row f) st max_rows"

definition k_named_exec ::
    "compio_lib \<Rightarrow> ext \<Rightarrow> 'h handler \<Rightarrow> 'h \<Rightarrow> named_portal \<Rightarrow> u32 \<Rightarrow> nat \<times> kconn \<Rightarrow>
       unit outcome \<times> named_portal \<times> 'h \<times> nat \<times> kconn" where
  "k_named_exec K X H h p max_rows s =
     (let (q, h1, s1) = k_lowlevel_execute K X H h (np_name p) max_rows s in
      (outcome_map (\<lambda>_. ()) q,
       (case q of Returned (Ok has_more) \<Rightarrow> p\<lparr>np_complete := \<not> has_more\<rparr> | _ \<Rightarrow> p), h1, s1))"

definition k_named_exec_collect ::
    "compio_lib \<Rightarrow> ext \<Rightarrow> (row_description \<Rightarrow> data_row \<Rightarrow> 'a res) \<Rightarrow> named_portal \<Rightarrow> u32 \<Rightarrow> nat \<times> kconn \<Rightarrow>
       'a list outcome \<times> named_portal \<times> nat \<times> kconn" where
  "k_named_exec_collect K X from_row p max_rows s =
     (let (q, p1, rows, s1) = k_named_exec K X (collect_handler from_row) [] p max_rows s in
      (outcome_map (\<lambda>_. rows) q, p1, s1))"

definition k_named_exec_foreach ::
    "compio_lib \<Rightarrow> ext \<Rightarrow> (row_description \<Rightarrow> data_row \<Rightarrow> 'a res) \<Rightarrow> ('s \<Rightarrow> 'a \<Rightarrow> unit res \<times> 's) \<Rightarrow> 's \<Rightarrow>
       named_portal \<Rightarrow> u32 \<Rightarrow> nat \<times> kconn \<Rightarrow> unit outcome \<times> named_portal \<times> 's \<times> nat \<times> kconn" where
  "k_named_exec_foreach K X from_row f st p max_rows s =
     k_named_exec K X (for_each_handler from_row f) st p max_rows s"

definition k_named_close :: "compio_lib \<Rightarrow> ext \<Rightarrow> named_portal \<Rightarrow> unit kfut" where
  "k_named_close K X p = fut_bind (k_lowlevel_close_portal K X (np_name p)) (\<lambda>_. k_lowlevel_sync K X)"

section \<open>Transactions\<close>

text \<open>The methods of a \<open>Transaction\<close> refuse another connection than the one it was begun on.\<close>

definition k_own_connection :: "u32 \<Rightarrow> 'a kfut \<Rightarrow> 'a kfut" where
  "k_own_connection tx m = (\<lambda>(n, t).
     if tx \<noteq> conn_id (k_base t)
     then (Returned (Err (InvalidUsage ''connection mismatch: expected {}, got {}'')), n, t)
     else m (n, t))"

definition k_commit :: "compio_lib \<Rightarrow> ext \<Rightarrow> u32 \<Rightarrow> unit kfut" where
  "k_commit K X tx = k_own_connection tx
     (fut_bind (k_query_drop K X (ascii ''COMMIT'')) (\<lambda>_ s. (Returned (Ok ()), s)))"

definition k_rollback :: "compio_lib \<Rightarrow> ext \<Rightarrow> u32 \<Rightarrow> unit kfut" where
  "k_rollback K X tx = k_own_connection tx
     (fut_bind (k_query_drop K X (ascii ''ROLLBACK'')) (\<lambda>_ s. (Returned (Ok ()), s)))"

definition k_exec_portal_named ::
    "compio_lib \<Rightarrow> ext \<Rightarrow> u32 \<Rightarrow> statement_ref \<Rightarrow> to_params \<Rightarrow> named_portal kfut" where
  "k_exec_portal_named K X tx statement params = k_own_connection tx (\<lambda>(n, t).
     let (name, c1) = next_portal_name (k_base t) in
     fut_bind (k_fut_mark (k_create_portal K X name statement params))
       (\<lambda>_ s. (Returned (Ok \<lparr>np_name = name, np_complete = False\<rparr>), s)) (n, t\<lparr>k_base := c1\<rparr>))"

section \<open>The handler of asynchronous messages\<close>

definition k_set_async_message_handler :: "kconn \<Rightarrow> kconn" where
  "k_set_async_message_handler k = k\<lparr>k_base := set_async_message_handler (k_base k)\<rparr>"

definition k_clear_async_message_handler :: "kconn \<Rightarrow> kconn" where
  "k_clear_async_message_handler k = k\<lparr>k_base := clear_async_message_handler (k_base k)\<rparr>"

end
