(* ===== verification/CompioConnect.thy ===== *)
theory CompioConnect
  imports CompioConn TokioConnect
begin

text \<open>
  Connecting in \<open>src/compio/conn.rs\<close>: \<open>Conn::new\<close>, \<open>new_with_stream\<close> and the upgrade to a Unix
  socket, as futures over the buffered stream. How the bytes of each stream will arrive is given
  with it. In the record \<open>build\<close>, \<open>b_sync_tls\<close> is here the feature \<open>compio-tls\<close>.
\<close>

definition blank_kconn :: "stream \<Rightarrow> nat list \<Rightarrow> kconn" where
  "blank_kconn s sizes =
     k_stream_new \<lparr>k_base = \<lparr>c_stream = s, c_bufs = buffer_set_new, c_key = None, c_params = [], c_tx = Idle,
        c_broken = False, c_counter = 0, c_async = None\<rparr>, k_exchange = False, k_scope = False,
        k_read_buf = [], k_read_pos = 0, k_sizes = sizes\<rparr>"

text \<open>\<open>upgrade_to_tls\<close>: the new stream starts with a fresh buffer; what the old one held is dropped.\<close>

definition k_upgrade_to_tls :: "build \<Rightarrow> unit kfut" where
  "k_upgrade_to_tls B = (\<lambda>(n, k). case runtime (b_upgrade B (k_stream k)) n of
     (Returned (Ok s), n1) \<Rightarrow> (Returned (Ok ()), n1, k_stream_new (k_set_stream s k))
   | (Returned (Err e), n1) \<Rightarrow> (Returned (Err e), n1, k)
   | (Returned Panic, n1) \<Rightarrow> (Returned Panic, n1, k)
   | (Dropped, n1) \<Rightarrow> (Dropped, n1, k))"

section \<open>The startup loop\<close>

definition k_startup_iter ::
    "compio_lib \<Rightarrow> ext \<Rightarrow> build \<Rightarrow> connection_machine \<Rightarrow> nat \<times> kconn \<Rightarrow>
       (unit outcome \<times> connection_machine \<times> nat \<times> kconn) + (connection_machine \<times> nat \<times> kconn)" where
  "k_startup_iter K X B cm = (\<lambda>(n, k).
     let (r, cm1, bs) = cm_step X (b_tls B) (b_nonce B) cm (k_bufs k); k1 = k_set_bufs bs k;
         go_on = (\<lambda>(q, s). case q of Returned (Ok _) \<Rightarrow> Inr (cm1, s) | _ \<Rightarrow> Inl (q, cm1, s))
     in case r of
          Err e \<Rightarrow> Inl (Returned (Err e), cm1, n, k1)
        | Panic \<Rightarrow> Inl (Returned Panic, cm1, n, k1)
        | Ok WriteAndReadByte \<Rightarrow>
            (case fut_bind k_write_flush (\<lambda>_. k_read_u8 K) (n, k1) of
               (Returned (Ok byte), s) \<Rightarrow> Inr (set_ssl_response byte cm1, s)
             | (q, s) \<Rightarrow> Inl (outcome_map (\<lambda>_. ()) q, cm1, s))
        | Ok ReadMessage \<Rightarrow> go_on (k_read_message K (n, k1))
        | Ok Write \<Rightarrow> go_on (k_write_flush (n, k1))
        | Ok WriteAndReadMessage \<Rightarrow> go_on (fut_bind k_write_flush (\<lambda>_. k_read_message K) (n, k1))
        | Ok TlsHandshake \<Rightarrow>
            (if b_sync_tls B then go_on (k_upgrade_to_tls B (n, k1))
             else Inl (Returned (Err (Unsupported ''TLS requested but compio-tls feature not enabled'')),
                       cm1, n, k1))
        | Ok (HandleAsyncMessageAndReadMessage _) \<Rightarrow> go_on (k_read_message K (n, k1))
        | Ok (ActionError _) \<Rightarrow>
            Inl (Returned (Err (LibraryBug ''unexpected server error during connection startup'')),
                 cm1, n, k1)
        | Ok Finished \<Rightarrow> Inl (Returned (Ok ()), cm1, n, k1))"

text \<open>
  A round that goes on costs budget, or takes something out of the buffer: the handshake, which
  changes the stream, costs budget.
\<close>

definition k_cheap :: "'a kfut \<Rightarrow> bool" where
  "k_cheap m \<longleftrightarrow> (\<forall>s. fst (snd (m s)) \<le> fst s)"

lemma k_cheapD: "k_cheap m \<Longrightarrow> m s = (q, s') \<Longrightarrow> fst s' \<le> fst s"
  unfolding k_cheap_def by (metis snd_conv)

lemma k_cheap_bind:
  assumes "k_cheap m" and "\<And>x. k_cheap (f x)"
  shows "k_cheap (fut_bind m f)"
  unfolding k_cheap_def
proof
  fix s obtain p s1 where p: "m s = (p, s1)" by (cases "m s")
  have "fst (snd (f x s1)) \<le> fst s1" for x using assms(2) [of x] unfolding k_cheap_def by blast
  then show "fst (snd (fut_bind m f s)) \<le> fst s"
    using k_cheapD [OF assms(1) p] p
    by (auto simp: fut_bind_def split: outcome.split res.split intro: le_trans)
qed

lemma k_cheap_lift: "k_cheap (fut_lift f)"
  by (simp add: k_cheap_def fut_lift_def split: prod.split)

lemma k_cheap_raw: "fst (snd (k_read_raw K bf (n, k))) \<le> n"
  by (simp add: k_read_raw_def Let_def)

lemma k_cheap_fill: "k_cheap (k_fill_buf K)"
proof -
  have "fst (snd (k_fill_buf K (n, k))) \<le> n" for n k
  proof -
    obtain p n1 k1 where p: "k_read_raw K (k_read_buf (k_compact k)) (n, (k_compact k)\<lparr>k_read_buf := []\<rparr>) = (p, n1, k1)"
      by (metis prod_cases3)
    then have "fst (snd (k_fill_buf K (n, k))) = n1"
      by (auto simp: k_fill_buf_def Let_def fut_bind_def split: outcome.split res.split)
    with k_cheap_raw [of K "k_read_buf (k_compact k)" n "(k_compact k)\<lparr>k_read_buf := []\<rparr>"] p show ?thesis by simp
  qed
  then show ?thesis by (simp add: k_cheap_def split_paired_all)
qed

lemma k_cheap_ensure: "k_cheap (k_ensure K l)"
proof -
  have "fst (snd (k_ensure K l s)) \<le> fst s" for s
  proof (induction K l s rule: k_ensure.induct)
    case (1 K l s)
    obtain p s1 where f: "k_fill_buf K s = (p, s1)" by (cases "k_fill_buf K s")
    from k_cheapD [OF k_cheap_fill f] have "fst s1 \<le> fst s" .
    with 1 f show ?case
      by (fastforce simp: k_ensure.simps [of K l s] split: outcome.splits res.splits)
  qed
  then show ?thesis by (simp add: k_cheap_def)
qed

lemma k_cheap_payload: "k_cheap (k_read_payload l)"
proof -
  have "k_cheap (k_read_exact l)" for l
    by (simp add: k_cheap_def k_read_exact_def Let_def split_paired_all)
  then have "k_cheap (fut_bind (k_read_exact l) (\<lambda>b. fut_lift (\<lambda>k. (Ok (), k_set_payload (h @ b) k))))" for l h
    by (intro k_cheap_bind k_cheap_lift)
  then show ?thesis
    by (simp add: k_cheap_def k_read_payload_def Let_def split_paired_all)
qed

lemma k_cheap_read: "k_cheap (k_read_message K)"
  unfolding k_read_message_def by (intro k_cheap_bind k_cheap_ensure k_cheap_lift k_cheap_payload)

lemma k_cheap_write: "k_cheap k_write_flush"
  by (auto simp: k_cheap_def k_write_flush_def k_write_all_owned_def k_flush_def fut_bind_def fut_lift_def Let_def
      split: res.split)

lemma k_cheap_u8: "k_cheap (k_read_u8 K)"
  unfolding k_read_u8_def by (intro k_cheap_bind k_cheap_ensure k_cheap_lift)

lemma k_u8_left:
  assumes "k_read_u8 K s = (Returned (Ok b), s')"
  shows "k_left s' < k_left s"
proof -
  obtain s1 where e: "k_ensure K 1 s = (Returned (Ok ()), s1)"
      and s': "s' = (fst s1, (snd s1)\<lparr>k_read_pos := k_read_pos (snd s1) + 1\<rparr>)"
    using assms by (cases s') (auto simp: k_read_u8_def fut_bind_Ok fut_lift_def)
  from k_ensure_left [OF e] have "1 \<le> k_available (snd s1)" "k_left s1 \<le> k_left s" by simp_all
  moreover from this(1) have "k_available (snd s') + 1 = k_available (snd s1)"
    by (simp add: s' k_available_def)
  ultimately show ?thesis by (simp add: s' k_left_def)
qed

lemma k_u8_both_left:
  "fut_bind k_write_flush (\<lambda>_. k_read_u8 K) s = (Returned (Ok b), s') \<Longrightarrow> k_left s' < k_left s"
  by (auto simp: fut_bind_Ok dest!: k_write_flush_left k_u8_left)

lemmas k_startup_cheap = k_cheapD [OF k_cheap_read] k_cheapD [OF k_cheap_write]
  k_cheapD [OF k_cheap_bind [OF k_cheap_write k_cheap_read]] k_cheapD [OF k_cheap_bind [OF k_cheap_write k_cheap_u8]]

lemmas k_startup_left = k_io_less k_both_less k_u8_both_left

lemma k_tls_less:
  "k_upgrade_to_tls B s = (Returned (Ok u), s') \<Longrightarrow> fst s' < fst s"
  by (cases s) (auto simp: k_upgrade_to_tls_def runtime_def split: if_splits res.splits)

lemma k_startup_iter_less:
  assumes "k_startup_iter K X B cm (n, k) = Inr (cm', s')"
  shows "fst s' < n \<or> fst s' \<le> n \<and> k_left s' < k_left (n, k)"
proof -
  obtain r cm1 bs where s: "cm_step X (b_tls B) (b_nonce B) cm (k_bufs k) = (r, cm1, bs)"
    by (metis prod_cases3)
  have io: "fst s' < n \<or> fst s' \<le> n \<and> k_left s' < k_left (n, k)"
    if "m (n, k_set_bufs bs k) = (Returned (Ok x), s')" "k_cheap m"
      "\<And>s s' x. m s = (Returned (Ok x), s') \<Longrightarrow> k_left s' < k_left s" for m :: "'x kfut" and x
    using that(3) [OF that(1)] k_cheapD [OF that(2,1)] by simp
  show ?thesis
  proof (cases r)
    case (Ok a)
    note d = k_startup_iter_def Let_def s Ok
    show ?thesis
    proof (cases a)
      case WriteAndReadByte
      with assms obtain b where "fut_bind k_write_flush (\<lambda>_. k_read_u8 K) (n, k_set_bufs bs k) = (Returned (Ok b), s')"
        by (auto simp: d split: prod.splits outcome.splits res.splits)
      then show ?thesis by (rule io) (auto intro: k_cheap_bind k_cheap_write k_cheap_u8 k_u8_both_left)
    next
      case ReadMessage
      with assms have "k_read_message K (n, k_set_bufs bs k) = (Returned (Ok ()), s')"
        by (auto simp: d split: prod.splits outcome.splits res.splits)
      then show ?thesis by (rule io) (auto intro: k_cheap_read k_read_message_left)
    next
      case Write
      with assms have "k_write_flush (n, k_set_bufs bs k) = (Returned (Ok ()), s')"
        by (auto simp: d split: prod.splits outcome.splits res.splits)
      then show ?thesis by (rule io) (auto intro: k_cheap_write k_write_flush_left)
    next
      case WriteAndReadMessage
      with assms have "fut_bind k_write_flush (\<lambda>_. k_read_message K) (n, k_set_bufs bs k) = (Returned (Ok ()), s')"
        by (auto simp: d split: prod.splits outcome.splits res.splits)
      then show ?thesis by (rule io) (auto intro: k_cheap_bind k_cheap_write k_cheap_read k_both_less)
    next
      case TlsHandshake
      with assms have "k_upgrade_to_tls B (n, k_set_bufs bs k) = (Returned (Ok ()), s')"
        by (auto simp: d split: prod.splits outcome.splits res.splits if_splits)
      from k_tls_less [OF this] show ?thesis by simp
    next
      case (HandleAsyncMessageAndReadMessage am)
      with assms have "k_read_message K (n, k_set_bufs bs k) = (Returned (Ok ()), s')"
        by (auto simp: d split: prod.splits outcome.splits res.splits)
      then show ?thesis by (rule io) (auto intro: k_cheap_read k_read_message_left)
    qed (use assms in \<open>auto simp: d\<close>)
  qed (use assms in \<open>auto simp: k_startup_iter_def Let_def s\<close>)
qed

function k_startup_loop ::
    "compio_lib \<Rightarrow> ext \<Rightarrow> build \<Rightarrow> connection_machine \<Rightarrow> nat \<times> kconn \<Rightarrow>
       unit outcome \<times> connection_machine \<times> nat \<times> kconn" where
  "k_startup_loop K X B cm s = (case k_startup_iter K X B cm s of
     Inl r \<Rightarrow> r | Inr (cm', s') \<Rightarrow> k_startup_loop K X B cm' s')"
  by pat_completeness auto
termination
  by (relation "measures [\<lambda>(K, X, B, cm, s). fst s, \<lambda>(K, X, B, cm, s). k_left s]")
    (auto dest!: k_startup_iter_less)

declare k_startup_loop.simps [simp del]

text \<open>\<open>new_with_stream\<close> up to the upgrade.\<close>

definition k_start_session ::
    "compio_lib \<Rightarrow> ext \<Rightarrow> build \<Rightarrow> stream \<Rightarrow> nat list \<Rightarrow> opts \<Rightarrow> nat \<Rightarrow> kconn outcome \<times> nat" where
  "k_start_session K X B s sizes options n =
     (case k_startup_loop K X B (connection_new options) (n, blank_kconn s sizes) of
        (q, cm, n1, k) \<Rightarrow>
          (outcome_map (\<lambda>_. k\<lparr>k_base := (k_base k)\<lparr>c_key := cm_backend_key cm,
               c_params := cm_server_params cm, c_tx := cm_tx cm, c_broken := False,
               c_counter := 0, c_async := None\<rparr>, k_exchange := False, k_scope := False\<rparr>) q, n1))"

section \<open>The upgrade to a Unix socket\<close>

definition k_try_upgrade ::
    "compio_lib \<Rightarrow> ext \<Rightarrow> build \<Rightarrow> net \<Rightarrow> nat list \<Rightarrow> opts \<Rightarrow> kconn \<Rightarrow> nat \<Rightarrow> kconn outcome \<times> nat" where
  "k_try_upgrade K X B N sizes options k n =
     (case k_query K X (first_row_handler (string_row X)) None
         (ascii ''SHOW unix_socket_directories'') (n, k) of
        (Dropped, h, n1, k1) \<Rightarrow> (Dropped, n1)
      | (Returned Panic, h, n1, k1) \<Rightarrow> (Returned Panic, n1)
      | (Returned (Err e), h, n1, k1) \<Rightarrow> (Returned (Ok k1), n1)
      | (Returned (Ok _), None, n1, k1) \<Rightarrow> (Returned (Ok k1), n1)
      | (Returned (Ok _), Some dirs, n1, k1) \<Rightarrow>
          (let d = trim (hd (split_on 44 dirs)) in
           if d = [] then (Returned (Ok k1), n1)
           else case runtime (net_unix N (d @ ascii ''/.s.PGSQL.'' @ show_nat (unat (o_port options)))) n1 of
               (Dropped, n2) \<Rightarrow> (Dropped, n2)
             | (Returned Panic, n2) \<Rightarrow> (Returned Panic, n2)
             | (Returned (Err e), n2) \<Rightarrow> (Returned (Ok k1), n2)
             | (Returned (Ok s), n2) \<Rightarrow>
                 (case k_start_session K X B s sizes (options\<lparr>o_upgrade_to_unix_socket := False\<rparr>) n2 of
                    (Returned (Err e), n3) \<Rightarrow> (Returned (Ok k1), n3)
                  | r \<Rightarrow> r)))"

text \<open>The pieces of the first stream, then of the Unix socket.\<close>

definition k_connect_stream ::
    "compio_lib \<Rightarrow> ext \<Rightarrow> build \<Rightarrow> net \<Rightarrow> nat list \<times> nat list \<Rightarrow> bool \<Rightarrow> stream \<Rightarrow> opts \<Rightarrow> nat \<Rightarrow> kconn outcome \<times> nat" where
  "k_connect_stream K X B N sizes loopback s options n =
     (case k_start_session K X B s (fst sizes) options n of
        (Returned (Ok k), n1) \<Rightarrow>
          if o_upgrade_to_unix_socket options \<and> loopback
          then k_try_upgrade K X B N (snd sizes) options k n1 else (Returned (Ok k), n1)
      | r \<Rightarrow> r)"

definition k_conn_new ::
    "compio_lib \<Rightarrow> ext \<Rightarrow> build \<Rightarrow> net \<Rightarrow> nat list \<times> nat list \<Rightarrow> opts \<Rightarrow> nat \<Rightarrow> kconn outcome \<times> nat" where
  "k_conn_new K X B N sizes options n =
     (let go = (\<lambda>r loopback. case runtime r n of
          (Dropped, n1) \<Rightarrow> (Dropped, n1)
        | (Returned (Ok s), n1) \<Rightarrow> k_connect_stream K X B N sizes loopback s options n1
        | (Returned (Err e), n1) \<Rightarrow> (Returned (Err e), n1)
        | (Returned Panic, n1) \<Rightarrow> (Returned Panic, n1))
      in case o_socket options of
           Some path \<Rightarrow> go (net_unix N path) False
         | None \<Rightarrow>
             if o_host options = [] then (Returned (Err (InvalidUsage ''host is empty'')), n)
             else go (net_tcp N (o_host options) (o_port options)) (net_loopback N))"

end
