(* ===== verification/CompioPool.thy ===== *)
theory CompioPool
  imports CompioConnect
begin

text \<open>
  \<open>src/compio/pool.rs\<close>: the pool of a single thread. The idle connections are a \<open>Vec\<close>, the last one
  in goes out first; there is no semaphore. As in \<open>TokioPool\<close> a world is the pool with its tasks,
  which interleave at their awaits; a borrow of the \<open>RefCell\<close> never spans an await, so it cannot
  fail.
\<close>

section \<open>The pool\<close>

record kc_pool =
  kc_opts :: opts
  kc_conns :: "kconn list"
  kc_max_idle :: nat

record kc_env =
  kc_read :: compio_lib
  kc_ext :: ext
  kc_build :: build

definition kc_pool_new :: "opts \<Rightarrow> kc_pool" where
  "kc_pool_new options =
     \<lparr>kc_opts = options, kc_conns = [], kc_max_idle = o_pool_max_idle_conn options\<rparr>"

text \<open>
  A task in \<open>get\<close>: about to pop, pinging, connecting; the \<open>PooledConn\<close> is out; it has ended, with an
  error or not. A check-in task: before the reset, after it.
\<close>

datatype kc_client =
    KTaking
  | KPinging kconn
  | KConnecting
  | KUsing kconn
  | KEnded "error option"
  | KCheckingIn kconn
  | KPushing kconn

text \<open>\<open>self.conns.borrow_mut().pop()\<close>\<close>

definition kc_take_idle :: "kc_pool \<Rightarrow> kc_pool \<times> kc_client" where
  "kc_take_idle p = (case rev (kc_conns p) of
     [] \<Rightarrow> (p, KConnecting)
   | c # cs \<Rightarrow> (p\<lparr>kc_conns := rev cs\<rparr>, KPinging c))"

definition kc_ping_client :: "kc_env \<Rightarrow> nat \<Rightarrow> kconn \<Rightarrow> kc_client" where
  "kc_ping_client E n c = (case k_ping (kc_read E) (kc_ext E) (n, c) of
     (Returned (Ok _), _, c') \<Rightarrow> KUsing c'
   | (Returned (Err e), _, _) \<Rightarrow> KTaking
   | _ \<Rightarrow> KEnded None)"

definition kc_connect_client :: "kc_env \<Rightarrow> net \<Rightarrow> nat list \<times> nat list \<Rightarrow> nat \<Rightarrow> kc_pool \<Rightarrow> kc_client" where
  "kc_connect_client E N sizes n p =
     (case fst (k_conn_new (kc_read E) (kc_ext E) (kc_build E) N sizes (kc_opts p) n) of
        Returned (Ok c) \<Rightarrow> KUsing c
      | Returned (Err e) \<Rightarrow> KEnded (Some e)
      | _ \<Rightarrow> KEnded None)"

definition kc_check_in :: "kc_env \<Rightarrow> nat \<Rightarrow> kconn \<Rightarrow> kc_client" where
  "kc_check_in E n c =
     (if k_is_broken c then KEnded None
      else case k_query_drop (kc_read E) (kc_ext E) (ascii ''DISCARD ALL'') (n, c) of
          (Returned (Ok _), _, c') \<Rightarrow> KPushing c'
        | _ \<Rightarrow> KEnded None)"

text \<open>\<open>if conns.len() < self.max_idle { conns.push(conn); }\<close>\<close>

definition kc_push_idle :: "kconn \<Rightarrow> kc_pool \<Rightarrow> kc_pool" where
  "kc_push_idle c p =
     (if length (kc_conns p) < kc_max_idle p then p\<lparr>kc_conns := kc_conns p @ [c]\<rparr> else p)"

inductive kc_client_step :: "kc_env \<Rightarrow> kc_pool \<times> kc_client \<Rightarrow> kc_pool \<times> kc_client \<Rightarrow> bool" for E where
  take: "kc_client_step E (p, KTaking) (kc_take_idle p)"
| ping: "kc_client_step E (p, KPinging c) (p, kc_ping_client E n c)"
| connect: "kc_client_step E (p, KConnecting) (p, kc_connect_client E N sizes n p)"
| use: "kc_client_step E (p, KUsing c) (p, KUsing c')"
| check: "kc_client_step E (p, KCheckingIn c) (p, kc_check_in E n c)"
| push: "kc_client_step E (p, KPushing c) (kc_push_idle c p, KEnded None)"

text \<open>\<open>Drop for PooledConn\<close> spawns the check-in.\<close>

inductive kc_pool_step :: "kc_env \<Rightarrow> kc_pool \<times> kc_client list \<Rightarrow> kc_pool \<times> kc_client list \<Rightarrow> bool" for E where
  come: "kc_pool_step E (p, ks) (p, ks @ [KTaking])"
| go: "i < length ks \<Longrightarrow> kc_client_step E (p, ks ! i) (p', k) \<Longrightarrow> kc_pool_step E (p, ks) (p', ks[i := k])"
| drop: "i < length ks \<Longrightarrow> ks ! i = KUsing c \<Longrightarrow>
    kc_pool_step E (p, ks) (p, ks[i := KEnded None] @ [KCheckingIn c])"

definition kc_reachable :: "kc_env \<Rightarrow> opts \<Rightarrow> kc_pool \<times> kc_client list \<Rightarrow> bool" where
  "kc_reachable E options w \<longleftrightarrow> (kc_pool_step E)\<^sup>*\<^sup>* (kc_pool_new options, []) w"

end
