(* ===== verification/CompioPipeline.thy ===== *)
theory CompioPipeline
  imports CompioConn TokioPipeline
begin

text \<open>
  \<open>src/compio/pipeline/mod.rs\<close> and \<open>Conn::pipeline\<close> of \<open>src/compio/conn.rs\<close>: the pipeline of
  \<open>TokioPipeline\<close> over the connection of \<open>CompioConn\<close>.
\<close>

section \<open>State\<close>

record kpipe =
  kq_conn :: kconn
  kq_queue_seq :: nat
  kq_claim_seq :: nat
  kq_aborted :: bool
  kq_column :: bytes
  kq_expectations :: "expectation list"

definition kq_write :: "kpipe \<Rightarrow> bytes" where
  "kq_write p = write_buffer (k_bufs (kq_conn p))"

definition set_kq_write :: "bytes \<Rightarrow> kpipe \<Rightarrow> kpipe" where
  "set_kq_write w p =
     p\<lparr>kq_conn := k_set_bufs ((k_bufs (kq_conn p))\<lparr>write_buffer := w\<rparr>) (kq_conn p)\<rparr>"

definition set_kq_scope :: "bool \<Rightarrow> kpipe \<Rightarrow> kpipe" where
  "set_kq_scope b p = p\<lparr>kq_conn := (kq_conn p)\<lparr>k_scope := b\<rparr>\<rparr>"

definition k_break :: "kconn \<Rightarrow> kconn" where
  "k_break t = t\<lparr>k_base := (k_base t)\<lparr>c_broken := True\<rparr>\<rparr>"

definition kq_push :: "expectation \<Rightarrow> kpipe \<Rightarrow> kpipe" where
  "kq_push e p = p\<lparr>kq_expectations := kq_expectations p @ [e]\<rparr>"

text \<open>\<open>Pipeline::new_inner\<close> and \<open>Drop for Pipeline\<close>.\<close>

definition kp_new :: "kconn \<Rightarrow> kpipe" where
  "kp_new t =
     \<lparr>kq_conn = (if k_ensure_usable t \<noteq> Ok () then k_break t
                 else k_set_bufs ((k_bufs t)\<lparr>write_buffer := []\<rparr>) t),
      kq_queue_seq = 0, kq_claim_seq = 0, kq_aborted = False, kq_column = [],
      kq_expectations = []\<rparr>"

definition kp_drop :: "kpipe \<Rightarrow> kconn" where
  "kp_drop p = (if k_scope (kq_conn p) then k_break (kq_conn p) else kq_conn p)"

text \<open>A future on the connection, as one on the pipeline; an update; \<open>ensure_exchange_ready()?\<close>.\<close>

definition k_on_conn :: "'a kfut \<Rightarrow> (kpipe, 'a) run" where
  "k_on_conn m = (\<lambda>(n, p). let (q, n1, t1) = m (n, kq_conn p) in (q, n1, p\<lparr>kq_conn := t1\<rparr>))"

definition k_upd :: "(kpipe \<Rightarrow> kpipe) \<Rightarrow> (kpipe, unit) run" where
  "k_upd f = fut_lift (\<lambda>p. (Ok (), f p))"

definition kp_ready :: "(kpipe, 'a) run \<Rightarrow> (kpipe, 'a) run" where
  "kp_ready m = (\<lambda>(n, p). case k_ensure_exchange_ready (kq_conn p) of
     Ok _ \<Rightarrow> m (n, p) | Err e \<Rightarrow> (Returned (Err e), n, p) | Panic \<Rightarrow> (Returned Panic, n, p))"

definition kp_begin :: "(kpipe, unit) run" where
  "kp_begin = k_on_conn (fut_lift k_begin_exchange)"

definition kp_finish :: "(kpipe, unit) run" where
  "kp_finish = k_upd (\<lambda>p. p\<lparr>kq_conn := k_finish_exchange (kq_conn p)\<rparr>)"

definition kp_mark :: "(kpipe, 'a) run \<Rightarrow> (kpipe, 'a) run" where
  "kp_mark m s = (let (q, n, p) = m s in (q, n, p\<lparr>kq_conn := k_mark q (kq_conn p)\<rparr>))"

section \<open>Queueing\<close>

definition kp_exec_sql_inner :: "str \<Rightarrow> to_params \<Rightarrow> kpipe \<Rightarrow> unit res \<times> kpipe" where
  "kp_exec_sql_inner sql params p =
     (let param_oids = natural_oids params;
          w1 = write_parse (kq_write p) [] sql param_oids;
          (r, w2) = write_bind w1 [] [] params param_oids
      in rtry r (set_kq_write w2 p) (\<lambda>_.
        (Ok (), kq_push ParseBindExecute
          (set_kq_write (write_execute (write_describe_portal w2 []) [] 0) p))))"

definition kp_exec_prepared_inner ::
    "str \<Rightarrow> oid list \<Rightarrow> to_params \<Rightarrow> kpipe \<Rightarrow> unit res \<times> kpipe" where
  "kp_exec_prepared_inner name param_oids params p =
     (let (r, w) = write_bind (kq_write p) [] name params param_oids in
      rtry r (set_kq_write w p) (\<lambda>_.
        (Ok (), kq_push BindExecute (set_kq_write (write_execute w [] 0) p))))"

definition kp_exec :: "statement_ref \<Rightarrow> to_params \<Rightarrow> kpipe \<Rightarrow> ticket res \<times> kpipe" where
  "kp_exec statement params p = rtry (k_ensure_exchange_ready (kq_conn p)) p (\<lambda>_.
     let seq = kq_queue_seq p; p1 = p\<lparr>kq_queue_seq := seq + 1\<rparr> in
     case statement of
       Sql sql \<Rightarrow>
         (let (r, p2) = kp_exec_sql_inner sql params p1 in
          rtry r p2 (\<lambda>_. (Ok \<lparr>t_seq = seq, t_stmt = None\<rparr>, p2)))
     | Prepared stmt \<Rightarrow>
         (let (r, p2) = kp_exec_prepared_inner (wire_name stmt) (ps_param_oids stmt) params p1 in
          rtry r p2 (\<lambda>_. (Ok \<lparr>t_seq = seq, t_stmt = Some stmt\<rparr>, p2))))"

text \<open>Write and flush; the write buffer is cleared only when that succeeded.\<close>

definition kp_send :: "(kpipe, unit) run" where
  "kp_send = fut_bind (k_on_conn k_write_flush) (\<lambda>_. k_upd (set_kq_write []))"

definition kp_flush :: "(kpipe, unit) run" where
  "kp_flush = kp_ready (fut_bind kp_begin (\<lambda>_. fut_bind
     (\<lambda>(n, p). if kq_write p \<noteq> []
        then kp_send (n, set_kq_write (write_flush (kq_write p)) (set_kq_scope True p))
        else (Returned (Ok ()), n, p))
     (\<lambda>_. kp_finish)))"

definition kp_sync_inner :: "(kpipe, unit) run" where
  "kp_sync_inner = fut_bind kp_begin (\<lambda>_. fut_bind
     (\<lambda>(n, p). kp_send
        (n, kq_push Sync (set_kq_write (write_sync (kq_write p)) (set_kq_scope True p))))
     (\<lambda>_. kp_finish))"

definition kp_sync :: "(kpipe, unit) run" where
  "kp_sync = kp_ready (kp_mark kp_sync_inner)"

section \<open>Reading\<close>

text \<open>
  An ErrorResponse in the read buffer: a fatal one marks the connection broken, \<open>g\<close> is what
  another one does.
\<close>

definition kp_server_error :: "ext \<Rightarrow> (kpipe \<Rightarrow> kpipe) \<Rightarrow> kpipe \<Rightarrow> unit res \<times> kpipe" where
  "kp_server_error X g p =
     (case error_response_parse X (read_buffer (k_bufs (kq_conn p))) of
        Ok e \<Rightarrow> (Err (Server e), if is_connection_broken (Server e)
                  then p\<lparr>kq_conn := k_break (kq_conn p)\<rparr> else g p)
      | Err e \<Rightarrow> (Err e, p)
      | Panic \<Rightarrow> (Panic, p))"

definition kp_type :: "kpipe \<Rightarrow> byte" where
  "kp_type p = type_byte (k_bufs (kq_conn p))"

definition kp_payload :: "kpipe \<Rightarrow> bytes" where
  "kp_payload p = read_buffer (k_bufs (kq_conn p))"

definition kp_read_next_message :: "compio_lib \<Rightarrow> ext \<Rightarrow> (kpipe, unit) run" where
  "kp_read_next_message K X = fut_bind (k_on_conn (k_next_message K)) (\<lambda>_. fut_lift (\<lambda>p.
     if kp_type p = ERROR_RESPONSE then kp_server_error X (\<lambda>p. p\<lparr>kq_aborted := True\<rparr>) p
     else (Ok (), p)))"

definition kp_left :: "nat \<times> kpipe \<Rightarrow> nat" where
  "kp_left s = k_left (fst s, kq_conn (snd s))"

lemma k_on_conn_next_less:
  "k_on_conn (k_next_message K) s = (Returned (Ok u), s') \<Longrightarrow> kp_left s' < kp_left s"
  by (cases s) (auto simp: k_on_conn_def kp_left_def split: prod.splits dest: k_next_message_less)

function kp_consume_ready :: "compio_lib \<Rightarrow> ext \<Rightarrow> (kpipe, unit) run" where
  "kp_consume_ready K X s = (case k_on_conn (k_next_message K) s of
     (Returned (Ok _), n1, p1) \<Rightarrow>
       (if kp_type p1 = ERROR_RESPONSE
        then (let (r, p2) = kp_server_error X (\<lambda>p. p) p1 in (Returned r, n1, p2))
        else if kp_type p1 = READY_FOR_QUERY then
          (case ready_for_query_parse (kp_payload p1) of
             Ok st \<Rightarrow> (Returned (Ok ()), n1, set_kq_scope (kq_expectations p1 \<noteq> [])
               (p1\<lparr>kq_conn := k_set_tx (tx_or_default st) (kq_conn p1)\<rparr>))
           | Err e \<Rightarrow> (Returned (Err e), n1, p1)
           | Panic \<Rightarrow> (Returned Panic, n1, p1))
        else kp_consume_ready K X (n1, p1))
   | (q, s1) \<Rightarrow> (q, s1))"
  by pat_completeness auto
termination
  by (relation "measure (\<lambda>(K, X, s). kp_left s)") (auto dest!: k_on_conn_next_less [OF sym] simp: kp_left_def)

declare kp_consume_ready.simps [simp del]

lemma kp_server_error_not_Ok [simp]: "kp_server_error X g p \<noteq> (Ok u, p')"
  by (auto simp: kp_server_error_def split: res.splits)

lemma kp_read_next_less:
  assumes "kp_read_next_message K X s = (Returned (Ok u), s')"
  shows "kp_left s' < kp_left s"
proof -
  let ?f = "\<lambda>p. if kp_type p = ERROR_RESPONSE then kp_server_error X (\<lambda>p. p\<lparr>kq_aborted := True\<rparr>) p else (Ok (), p)"
  obtain v s1 where s1: "k_on_conn (k_next_message K) s = (Returned (Ok v), s1)"
      "fut_lift ?f s1 = (Returned (Ok u), s')"
    using assms by (auto simp: kp_read_next_message_def fut_bind_Ok)
  then have "s' = s1" by (cases s1; cases "?f (snd s1)") (auto simp: fut_lift_def split: if_splits)
  with k_on_conn_next_less [OF s1(1)] show ?thesis by simp
qed

text \<open>Continue with \<open>f\<close> after a read, keeping the handler on an error.\<close>

definition k_ptry ::
    "unit outcome \<times> nat \<times> kpipe \<Rightarrow> 'h \<Rightarrow> (nat \<times> kpipe \<Rightarrow> unit outcome \<times> 'h \<times> nat \<times> kpipe) \<Rightarrow>
       unit outcome \<times> 'h \<times> nat \<times> kpipe" where
  "k_ptry qs h f = (case qs of (Returned (Ok _), s) \<Rightarrow> f s | (q, s) \<Rightarrow> (q, h, s))"

text \<open>The end of a result: CommandComplete, an empty query, or an unexpected message.\<close>

definition kp_rows_end ::
    "ext \<Rightarrow> 'h handler \<Rightarrow> 'h \<Rightarrow> nat \<times> kpipe \<Rightarrow> unit outcome \<times> 'h \<times> nat \<times> kpipe" where
  "kp_rows_end X H h s =
     (let p = snd s; ty = kp_type p in
      if ty = COMMAND_COMPLETE then
        (case command_complete_parse X (kp_payload p) of
           Err e \<Rightarrow> (Returned (Err e), h, s)
         | Panic \<Rightarrow> (Returned Panic, h, s)
         | Ok cmd \<Rightarrow> (let (r, h1) = h_result_end H h cmd in (Returned r, h1, s)))
      else if ty = EMPTY_QUERY_RESPONSE then (Returned (Ok ()), h, s)
      else (Returned (Err (LibraryBug ''unexpected message type in pipeline claim: {}'')), h, s))"

text \<open>The loop of \<open>claim_rows_inner\<close>, after RowDescription or NoData.\<close>

function kp_rows_loop ::
    "compio_lib \<Rightarrow> ext \<Rightarrow> 'h handler \<Rightarrow> 'h \<Rightarrow> bool \<Rightarrow> nat \<times> kpipe \<Rightarrow> unit outcome \<times> 'h \<times> nat \<times> kpipe" where
  "kp_rows_loop K X H h has_rows s = (case kp_read_next_message K X s of
     (Returned (Ok _), s1) \<Rightarrow>
       (if kp_type (snd s1) = DATA_ROW then
          (if \<not> has_rows
           then (Returned (Err (LibraryBug ''received DataRow but no RowDescription'')), h, s1)
           else (case rbind (row_description_parse X (kq_column (snd s1))) (\<lambda>cols.
                   rmap (\<lambda>row. (cols, row)) (data_row_parse (kp_payload (snd s1)))) of
               Err e \<Rightarrow> (Returned (Err e), h, s1)
             | Panic \<Rightarrow> (Returned Panic, h, s1)
             | Ok (cols, row) \<Rightarrow> (case h_row H h cols row of
                 (Ok _, h1) \<Rightarrow> kp_rows_loop K X H h1 has_rows s1
               | (Err e, h1) \<Rightarrow> (Returned (Err e), h1, s1)
               | (Panic, h1) \<Rightarrow> (Returned Panic, h1, s1))))
        else kp_rows_end X H h s1)
   | (q, s1) \<Rightarrow> (q, h, s1))"
  by pat_completeness auto
termination
  by (relation "measure (\<lambda>(K, X, H, h, b, s). kp_left s)") (auto dest!: kp_read_next_less [OF sym])

declare kp_rows_loop.simps [simp del]

function kp_rows_cached ::
    "compio_lib \<Rightarrow> ext \<Rightarrow> 'h handler \<Rightarrow> 'h \<Rightarrow> bytes option \<Rightarrow> nat \<times> kpipe \<Rightarrow>
       unit outcome \<times> 'h \<times> nat \<times> kpipe" where
  "kp_rows_cached K X H h row_desc s = (case kp_read_next_message K X s of
     (Returned (Ok _), s1) \<Rightarrow>
       (if kp_type (snd s1) = DATA_ROW then
          (case rbind (ok_or row_desc (LibraryBug ''received DataRow but no RowDescription cached''))
                  (\<lambda>rd. rbind (row_description_parse X rd) (\<lambda>cols.
                   rmap (\<lambda>row. (cols, row)) (data_row_parse (kp_payload (snd s1))))) of
              Err e \<Rightarrow> (Returned (Err e), h, s1)
            | Panic \<Rightarrow> (Returned Panic, h, s1)
            | Ok (cols, row) \<Rightarrow> (case h_row H h cols row of
                (Ok _, h1) \<Rightarrow> kp_rows_cached K X H h1 row_desc s1
              | (Err e, h1) \<Rightarrow> (Returned (Err e), h1, s1)
              | (Panic, h1) \<Rightarrow> (Returned Panic, h1, s1)))
        else kp_rows_end X H h s1)
   | (q, s1) \<Rightarrow> (q, h, s1))"
  by pat_completeness auto
termination
  by (relation "measure (\<lambda>(K, X, H, h, b, s). kp_left s)") (auto dest!: kp_read_next_less [OF sym])

declare kp_rows_cached.simps [simp del]

definition kp_claim_rows ::
    "compio_lib \<Rightarrow> ext \<Rightarrow> 'h handler \<Rightarrow> 'h \<Rightarrow> nat \<times> kpipe \<Rightarrow> unit outcome \<times> 'h \<times> nat \<times> kpipe" where
  "kp_claim_rows K X H h s = k_ptry (kp_read_next_message K X s) h (\<lambda>(n, p).
     if kp_type p = ROW_DESCRIPTION
     then kp_rows_loop K X H h True (n, p\<lparr>kq_column := kp_payload p\<rparr>)
     else if kp_type p = NO_DATA then kp_rows_loop K X H h False (n, p)
     else (Returned (Err (LibraryBug ''expected RowDescription or NoData, got {}'')), h, n, p))"

definition kp_claim_parse_bind_exec ::
    "compio_lib \<Rightarrow> ext \<Rightarrow> 'h handler \<Rightarrow> 'h \<Rightarrow> nat \<times> kpipe \<Rightarrow> unit outcome \<times> 'h \<times> nat \<times> kpipe" where
  "kp_claim_parse_bind_exec K X H h s = k_ptry (kp_read_next_message K X s) h (\<lambda>s1.
     if kp_type (snd s1) \<noteq> PARSE_COMPLETE
     then (Returned (Err (LibraryBug ''expected {}, got {}'')), h, s1)
     else k_ptry (kp_read_next_message K X s1) h (\<lambda>s2.
       if kp_type (snd s2) \<noteq> BIND_COMPLETE
       then (Returned (Err (LibraryBug ''expected {}, got {}'')), h, s2)
       else kp_claim_rows K X H h s2))"

definition kp_claim_bind_exec ::
    "compio_lib \<Rightarrow> ext \<Rightarrow> 'h handler \<Rightarrow> 'h \<Rightarrow> prepared_statement option \<Rightarrow> nat \<times> kpipe \<Rightarrow>
       unit outcome \<times> 'h \<times> nat \<times> kpipe" where
  "kp_claim_bind_exec K X H h stmt s = k_ptry (kp_read_next_message K X s) h (\<lambda>s1.
     if kp_type (snd s1) \<noteq> BIND_COMPLETE
     then (Returned (Err (LibraryBug ''expected {}, got {}'')), h, s1)
     else kp_rows_cached K X H h (Option.bind stmt ps_row_desc) s1)"

section \<open>Claiming\<close>

text \<open>\<open>consume_pending_syncs\<close>, on the queue of the pipeline.\<close>

fun kp_consume_syncs :: "compio_lib \<Rightarrow> ext \<Rightarrow> expectation list \<Rightarrow> (kpipe, unit) run" where
  "kp_consume_syncs K X (Sync # es) (n, p) =
     fut_bind (kp_consume_ready K X) (\<lambda>_ (n1, p1).
       kp_consume_syncs K X es (n1, p1\<lparr>kq_aborted := False\<rparr>)) (n, p\<lparr>kq_expectations := es\<rparr>)"
| "kp_consume_syncs K X es s = (Returned (Ok ()), s)"

definition kp_check_sequence :: "nat \<Rightarrow> kpipe \<Rightarrow> unit res" where
  "kp_check_sequence seq p =
     (if seq \<noteq> kq_claim_seq p
      then Err (InvalidUsage ''claim out of order: expected seq {}, got {}'') else Ok ())"

text \<open>The end of a claim: count it, consume the pending syncs, finish the exchange.\<close>

definition kp_claim_end :: "compio_lib \<Rightarrow> ext \<Rightarrow> unit res \<Rightarrow> (kpipe, unit) run" where
  "kp_claim_end K X result = (\<lambda>(n, p).
     fut_bind (kp_consume_syncs K X (kq_expectations p)) (\<lambda>_. fut_bind kp_finish (\<lambda>_ s. (Returned result, s)))
       (n, p\<lparr>kq_claim_seq := kq_claim_seq p + 1\<rparr>))"

definition kp_claim_front ::
    "compio_lib \<Rightarrow> ext \<Rightarrow> 'h handler \<Rightarrow> 'h \<Rightarrow> ticket \<Rightarrow> expectation list \<Rightarrow> nat \<times> kpipe \<Rightarrow>
       unit outcome \<times> 'h \<times> nat \<times> kpipe" where
  "kp_claim_front K X H h ticket es s = (case es of
     ParseBindExecute # _ \<Rightarrow> kp_claim_parse_bind_exec K X H h s
   | BindExecute # _ \<Rightarrow> kp_claim_bind_exec K X H h (t_stmt ticket) s
   | Sync # _ \<Rightarrow> (Returned (Err (LibraryBug ''unexpected Sync expectation'')), h, s)
   | [] \<Rightarrow> (Returned (Err (LibraryBug ''no expectation in queue'')), h, s))"

text \<open>The claim once the exchange is begun.\<close>

definition kp_claim_begun ::
    "compio_lib \<Rightarrow> ext \<Rightarrow> 'h handler \<Rightarrow> 'h \<Rightarrow> ticket \<Rightarrow> nat \<times> kpipe \<Rightarrow> unit outcome \<times> 'h \<times> nat \<times> kpipe" where
  "kp_claim_begun K X H h ticket = (\<lambda>(n, p).
     let es = kq_expectations p; p1 = p\<lparr>kq_expectations := tl es\<rparr> in
     if kq_aborted p then
       (let (q, s) = kp_claim_end K X (Err (LibraryBug ''pipeline aborted due to earlier error'')) (n, p1)
        in (q, h, s))
     else
       (let (result, h1, n2, p2) = kp_claim_front K X H h ticket es (n, p1) in
        case result of
          Returned (Err e) \<Rightarrow>
            (if c_broken (k_base (kq_conn p2)) \<or> \<not> kq_aborted p2
             then (Returned (Err e), h1, n2, p2)
             else (let (q, s) = kp_claim_end K X (Err e) (n2, p2) in (q, h1, s)))
        | Returned (Ok u) \<Rightarrow> (let (q, s) = kp_claim_end K X (Ok u) (n2, p2) in (q, h1, s))
        | _ \<Rightarrow> (result, h1, n2, p2)))"

definition kp_claim ::
    "compio_lib \<Rightarrow> ext \<Rightarrow> 'h handler \<Rightarrow> 'h \<Rightarrow> ticket \<Rightarrow> nat \<times> kpipe \<Rightarrow> unit outcome \<times> 'h \<times> nat \<times> kpipe" where
  "kp_claim K X H h ticket = (\<lambda>(n, p).
     k_ptry (kp_ready (fut_lift (\<lambda>p. (kp_check_sequence (t_seq ticket) p, p))) (n, p)) h (\<lambda>s.
     k_ptry (if kq_write p \<noteq> [] then kp_sync s else (Returned (Ok ()), s)) h (\<lambda>s1.
     k_ptry (kp_begin s1) h (kp_claim_begun K X H h ticket))))"

definition kp_with_rows :: "unit outcome \<times> 'h \<times> nat \<times> kpipe \<Rightarrow> 'h outcome \<times> nat \<times> kpipe" where
  "kp_with_rows = (\<lambda>(q, h, s). (outcome_map (\<lambda>_. h) q, s))"

definition kp_claim_collect ::
    "compio_lib \<Rightarrow> ext \<Rightarrow> (row_description \<Rightarrow> data_row \<Rightarrow> 'a res) \<Rightarrow> ticket \<Rightarrow> (kpipe, 'a list) run" where
  "kp_claim_collect K X from_row ticket s = kp_with_rows (kp_claim K X (collect_handler from_row) [] ticket s)"

definition kp_claim_one ::
    "compio_lib \<Rightarrow> ext \<Rightarrow> (row_description \<Rightarrow> data_row \<Rightarrow> 'a res) \<Rightarrow> ticket \<Rightarrow> (kpipe, 'a option) run" where
  "kp_claim_one K X from_row ticket s =
     kp_with_rows (kp_claim K X (first_row_handler from_row) None ticket s)"

definition kp_claim_drop :: "compio_lib \<Rightarrow> ext \<Rightarrow> ticket \<Rightarrow> (kpipe, unit) run" where
  "kp_claim_drop K X ticket s = (let (q, h, s1) = kp_claim K X drop_handler None ticket s in (q, s1))"

definition kp_pending_count :: "kpipe \<Rightarrow> nat" where
  "kp_pending_count p = kq_queue_seq p - kq_claim_seq p"

section \<open>Cleaning up\<close>

text \<open>The loop of \<open>drain_expectation\<close>, which discards rows without decoding them.\<close>

function kp_drain_rows :: "compio_lib \<Rightarrow> ext \<Rightarrow> (kpipe, unit) run" where
  "kp_drain_rows K X s = (case kp_read_next_message K X s of
     (Returned (Ok _), s1) \<Rightarrow>
       (let ty = kp_type (snd s1) in
        if ty = COMMAND_COMPLETE then
          (Returned (rmap (\<lambda>_. ()) (command_complete_parse X (kp_payload (snd s1)))), s1)
        else if ty = EMPTY_QUERY_RESPONSE then (Returned (Ok ()), s1)
        else if ty \<in> {PARSE_COMPLETE, BIND_COMPLETE, ROW_DESCRIPTION, NO_DATA, DATA_ROW}
        then kp_drain_rows K X s1
        else (Returned (Err (LibraryBug ''expected {}, got {}'')), s1))
   | (q, s1) \<Rightarrow> (q, s1))"
  by pat_completeness auto
termination
  by (relation "measure (\<lambda>(K, X, s). kp_left s)") (auto dest!: kp_read_next_less [OF sym])

declare kp_drain_rows.simps [simp del]

definition kp_drain_expectation :: "compio_lib \<Rightarrow> ext \<Rightarrow> expectation \<Rightarrow> (kpipe, unit) run" where
  "kp_drain_expectation K X e = (if e = Sync then kp_consume_ready K X else kp_drain_rows K X)"

text \<open>The draining loop. \<open>False\<close> is the early return of \<open>cleanup_inner\<close>.\<close>

fun kp_cleanup_loop :: "compio_lib \<Rightarrow> ext \<Rightarrow> expectation list \<Rightarrow> (kpipe, bool) run" where
  "kp_cleanup_loop K X [] s = (Returned (Ok True), s)"
| "kp_cleanup_loop K X (e # es) (n, p) =
     (let p0 = p\<lparr>kq_expectations := es\<rparr> in
      if kq_aborted p \<and> e \<noteq> Sync then kp_cleanup_loop K X es (n, p0)
      else (case kp_drain_expectation K X e (n, p0) of
          (Dropped, s) \<Rightarrow> (Dropped, s)
        | (Returned Panic, s) \<Rightarrow> (Returned Panic, s)
        | (Returned (Err _), n1, p1) \<Rightarrow>
            (if \<not> kq_aborted p1 \<or> e = Sync then (Returned (Ok False), n1, p1)
             else kp_cleanup_loop K X es (n1, p1))
        | (Returned (Ok _), n1, p1) \<Rightarrow>
            kp_cleanup_loop K X es (n1, if e = Sync then p1\<lparr>kq_aborted := False\<rparr> else p1)))"

text \<open>From \<open>begin_exchange\<close> on.\<close>

definition kp_cleanup_drain :: "compio_lib \<Rightarrow> ext \<Rightarrow> (kpipe, unit) run" where
  "kp_cleanup_drain K X = (\<lambda>(n, p). case k_begin_exchange (kq_conn p) of
     (Ok _, t) \<Rightarrow>
       fut_bind (kp_cleanup_loop K X (kq_expectations p)) (\<lambda>drained.
         if drained
         then fut_bind (k_upd (\<lambda>p. p\<lparr>kq_queue_seq := 0, kq_claim_seq := 0, kq_aborted := False\<rparr>))
                (\<lambda>_. kp_finish)
         else (\<lambda>s. (Returned (Ok ()), s))) (n, p\<lparr>kq_conn := t\<rparr>)
   | _ \<Rightarrow> (Returned (Ok ()), n, p))"

definition kp_cleanup :: "compio_lib \<Rightarrow> ext \<Rightarrow> (kpipe, unit) run" where
  "kp_cleanup K X = (\<lambda>(n, p).
     if k_ensure_exchange_ready (kq_conn p) \<noteq> Ok () then (Returned (Ok ()), n, p)
     else if kq_expectations p = [] \<and> \<not> k_scope (kq_conn p)
     then (Returned (Ok ()), n, set_kq_write [] p)
     else if kq_write p \<noteq> [] \<or> Sync \<notin> set (kq_expectations p)
     then (case kp_sync (n, p) of
         (Returned (Ok _), s) \<Rightarrow> kp_cleanup_drain K X s
       | (Returned (Err _), s) \<Rightarrow> (Returned (Ok ()), s)
       | (q, s) \<Rightarrow> (q, s))
     else kp_cleanup_drain K X (n, p))"

text \<open>
  \<open>Conn::pipeline\<close>: run the closure, then clean up whatever it left. The pipeline is dropped on
  every path, when the future is dropped or unwinds as well.
\<close>

definition k_pipeline :: "compio_lib \<Rightarrow> ext \<Rightarrow> (kpipe, 'a) run \<Rightarrow> 'a kfut" where
  "k_pipeline K X f = k_usable (\<lambda>(n, t). case f (n, kp_new t) of
     (Dropped, n1, p1) \<Rightarrow> (Dropped, n1, kp_drop p1)
   | (Returned Panic, n1, p1) \<Rightarrow> (Returned Panic, n1, kp_drop p1)
   | (Returned result, n1, p1) \<Rightarrow> (case kp_cleanup K X (n1, p1) of
       (Dropped, n2, p2) \<Rightarrow> (Dropped, n2, kp_drop p2)
     | (Returned Panic, n2, p2) \<Rightarrow> (Returned Panic, n2, kp_drop p2)
     | (_, n2, p2) \<Rightarrow> (Returned result, n2, kp_drop p2)))"

end
