(* ===== verification/CompioStreamFacts.thy ===== *)
theory CompioStreamFacts
  imports CompioConn
begin

text \<open>
  The buffered stream against the plain one: read as a connection of \<open>TokioConn\<close> (\<open>k_view\<close>), whose
  stream is the unread bytes of the buffer followed by the socket, a read takes exactly the next
  message, however the bytes arrive.
\<close>

section \<open>The view\<close>

definition k_view :: "kconn \<Rightarrow> tconn" where
  "k_view k = \<lparr>t_base = (k_base k)\<lparr>c_stream := (k_stream k)\<lparr>inp :=
       drop (k_read_pos k) (k_read_buf k) @ inp (k_stream k)\<rparr>\<rparr>,
     t_exchange = k_exchange k, t_scope = k_scope k\<rparr>"

definition k_flags :: "kconn \<Rightarrow> bool \<times> bool \<times> bool" where
  "k_flags k = (k_exchange k, k_scope k, c_broken (k_base k))"

lemma view_fields [simp]:
  "t_bufs (k_view k) = k_bufs k" "t_exchange (k_view k) = k_exchange k" "t_scope (k_view k) = k_scope k"
  "c_broken (t_base (k_view k)) = c_broken (k_base k)" "c_tx (t_base (k_view k)) = c_tx (k_base k)"
  "c_counter (t_base (k_view k)) = c_counter (k_base k)" "c_key (t_base (k_view k)) = c_key (k_base k)"
  "out (c_stream (t_base (k_view k))) = out (k_stream k)"
  "writable (c_stream (t_base (k_view k))) = writable (k_stream k)"
  "inp (c_stream (t_base (k_view k))) = drop (k_read_pos k) (k_read_buf k) @ inp (k_stream k)"
  "c_bufs (t_base (k_view k)) = k_bufs k"
  by (simp_all add: k_view_def t_bufs_def k_bufs_def)

lemma view_compact [simp]: "k_view (k_compact k) = k_view k" "k_flags (k_compact k) = k_flags k"
  by (simp_all add: k_view_def k_compact_def k_flags_def k_available_def k_stream_def)

lemma k_bufs_simps [simp]:
  "k_bufs (k_set_bufs bs k) = bs" "k_bufs (k_set_stream s k) = k_bufs k" "k_bufs (k_compact k) = k_bufs k"
  "k_bufs (k\<lparr>k_read_buf := b\<rparr>) = k_bufs k" "k_bufs (k\<lparr>k_sizes := ls\<rparr>) = k_bufs k"
  "k_bufs (k\<lparr>k_read_pos := i\<rparr>) = k_bufs k"
  by (simp_all add: k_bufs_def k_set_bufs_def k_set_stream_def k_compact_def)

lemma k_flags_simps [simp]:
  "k_flags (k_set_bufs bs k) = k_flags k" "k_flags (k_set_stream s k) = k_flags k"
  "k_flags (k\<lparr>k_read_buf := b\<rparr>) = k_flags k" "k_flags (k\<lparr>k_sizes := ls\<rparr>) = k_flags k"
  "k_flags (k\<lparr>k_read_pos := i\<rparr>) = k_flags k" "k_flags (k_set_payload b k) = k_flags k"
  "k_flags (k_set_write b k) = k_flags k"
  by (simp_all add: k_flags_def k_set_bufs_def k_set_stream_def k_set_payload_def k_set_write_def)

section \<open>Filling the buffer\<close>

text \<open>No stream operation touches the flags.\<close>

definition k_keeps :: "'a kfut \<Rightarrow> bool" where
  "k_keeps m \<longleftrightarrow> (\<forall>s. k_flags (snd (snd (m s))) = k_flags (snd s))"

lemma k_keeps_bind: "k_keeps m \<Longrightarrow> (\<And>x. k_keeps (f x)) \<Longrightarrow> k_keeps (fut_bind m f)"
proof (unfold k_keeps_def, rule allI)
  fix s assume m: "\<forall>s. k_flags (snd (snd (m s))) = k_flags (snd s)"
    and f: "\<And>x. \<forall>s. k_flags (snd (snd (f x s))) = k_flags (snd s)"
  obtain q s1 where q: "m s = (q, s1)" by (cases "m s")
  then have "k_flags (snd s1) = k_flags (snd s)" using m [rule_format, of s] by simp
  with q f [rule_format, of _ s1] show "k_flags (snd (snd (fut_bind m f s))) = k_flags (snd s)"
    by (auto simp: fut_bind_def split: outcome.splits res.splits)
qed

lemma k_keepsD: "k_keeps m \<Longrightarrow> m (n, k) = (q, n', k') \<Longrightarrow> k_flags k' = k_flags k"
  unfolding k_keeps_def by (metis snd_conv)

lemma k_keeps_fill: "k_keeps (k_fill_buf K)"
  by (auto simp: k_keeps_def k_fill_buf_def Let_def fut_bind_def k_read_raw_def)

lemma k_fill_buf_Ok:
  assumes "appends K" and "k_fill_buf K s = (Returned (Ok u), s')"
  shows "k_view (snd s') = k_view (snd s)"
proof -
  let ?k = "k_compact (snd s)"
  obtain size where s': "snd s' = (k_set_stream ((k_stream (snd s))\<lparr>inp := drop size (inp (k_stream (snd s)))\<rparr>)
      (?k\<lparr>k_read_buf := [], k_sizes := tl (k_sizes ?k)\<rparr>))
      \<lparr>k_read_buf := k_read_buf ?k @ take size (inp (k_stream (snd s)))\<rparr>"
    using assms
    by (cases s) (auto simp: k_fill_buf_def Let_def fut_bind_Ok appends_def split: if_splits
        elim!: k_read_raw_Ok)
  have "k_view (snd s') = k_view ?k"
    by (simp add: s' k_view_def k_set_stream_def k_stream_def k_compact_def)
  then show ?thesis by simp
qed

lemma k_ensure_Ok:
  "k_ensure K l s = (Returned (Ok u), s') \<Longrightarrow> appends K \<Longrightarrow>
     k_view (snd s') = k_view (snd s) \<and> l \<le> k_available (snd s')"
proof (induction K l s arbitrary: s' rule: k_ensure.induct)
  case (1 K l s)
  show ?case
  proof (cases "k_available (snd s) < l")
    case True
    with 1(2) obtain v s1 where f: "k_fill_buf K s = (Returned (Ok v), s1)"
      and r: "k_ensure K l s1 = (Returned (Ok u), s')"
      by (auto simp: k_ensure.simps [of K l s] split: prod.splits outcome.splits res.splits)
    from 1(1) [OF True f [symmetric] _ _ r 1(3)] k_fill_buf_Ok [OF 1(3) f] show ?thesis by simp
  qed (use 1(2) in \<open>simp add: k_ensure.simps [of K l s]\<close>)
qed

lemma k_keeps_ensure: "k_keeps (k_ensure K l)"
proof -
  have "k_flags (snd (snd (k_ensure K l s))) = k_flags (snd s)" for s
  proof (induction K l s rule: k_ensure.induct)
    case (1 K l s)
    obtain p n1 k1 where f: "k_fill_buf K s = (p, n1, k1)" by (cases "k_fill_buf K s")
    then have "k_flags k1 = k_flags (snd s)" using k_keepsD [OF k_keeps_fill] by (cases s) auto
    with f 1 show ?case
      by (simp add: k_ensure.simps [of K l s] split: outcome.split res.split)
  qed
  then show ?thesis by (simp add: k_keeps_def)
qed

section \<open>Reading a message\<close>

lemma list5: "(\<And>a b c d e r. xs = a # b # c # d # e # r \<Longrightarrow> P) \<Longrightarrow> (length xs < 5 \<Longrightarrow> P) \<Longrightarrow> P"
  by (cases xs rule: list.exhaust; cases "tl xs"; cases "tl (tl xs)"; cases "tl (tl (tl xs))";
      cases "tl (tl (tl (tl xs)))") auto

lemma k_keeps_read: "k_keeps (k_read_message K)"
proof -
  have "k_keeps (k_read_exact l)" for l
    by (auto simp: k_keeps_def k_read_exact_def Let_def)
  then have rest: "k_keeps (fut_bind (k_read_exact l) (\<lambda>b. fut_lift (\<lambda>k. (Ok (), k_set_payload (h @ b) k))))" for l h
    by (rule k_keeps_bind) (simp add: k_keeps_def fut_lift_def split: prod.split)
  show ?thesis
    unfolding k_read_message_def
    by (intro k_keeps_bind k_keeps_ensure)
      (use rest in \<open>auto simp: k_keeps_def fut_lift_def k_take_header_def k_read_payload_def Let_def\<close>)
qed

definition k_unread :: "kconn \<Rightarrow> bytes" where
  "k_unread k = drop (k_read_pos k) (k_read_buf k) @ inp (k_stream k)"

lemma k_take_header_run:
  "drop (k_read_pos k) (k_read_buf k) = ty # a # b # c # d # r \<Longrightarrow>
     k_take_header k = (Ok (unat (from_be_bytes [a, b, c, d] :: u32) - 4),
       (k_set_bufs ((k_bufs k)\<lparr>type_byte := ty\<rparr>) k)\<lparr>k_read_pos := k_read_pos k + 5\<rparr>)"
  by (simp add: k_take_header_def Let_def k_set_bufs_def)

lemma k_read_payload_Ok:
  assumes "k_read_payload l (n, k) = (Returned (Ok u), n', k')"
  shows "l \<le> length (k_unread k) \<and> k_view k' = (k_view k)\<lparr>t_base := (t_base (k_view k))\<lparr>
     c_stream := (k_stream k)\<lparr>inp := drop l (k_unread k)\<rparr>,
     c_bufs := (k_bufs k)\<lparr>read_buffer := take l (k_unread k)\<rparr>\<rparr>\<rparr>"
proof -
  let ?b = "drop (k_read_pos k) (k_read_buf k)"
  have av: "k_available k = length ?b" by (simp add: k_available_def)
  note defs = k_read_payload_def Let_def k_view_def k_set_payload_def k_set_bufs_def k_stream_def
    k_bufs_def k_unread_def fut_bind_Ok fut_lift_def k_read_exact_def k_set_stream_def
  consider "l = 0" | "0 < l" "l \<le> length ?b" | "length ?b < l" by linarith
  then show ?thesis
  proof cases
    case 2
    then have "min (k_available k) l = l" by (simp add: av)
    then have "k' = (k_set_payload (take l ?b) k)\<lparr>k_read_pos := k_read_pos k + l\<rparr>"
      using assms 2(1) by (simp add: k_read_payload_def Let_def)
    with 2 show ?thesis by (simp add: defs add.commute)
  next
    case 3
    then have "min (k_available k) l = length ?b" by (simp add: av)
    then have "fut_bind (k_read_exact (l - length ?b)) (\<lambda>slice. fut_lift (\<lambda>k. (Ok (), k_set_payload (?b @ slice) k)))
        (n, k_set_payload [] ((k_set_payload ?b k)\<lparr>k_read_pos := k_read_pos k + length ?b\<rparr>)) =
        (Returned (Ok u), n', k')"
      using assms 3 by (auto simp: k_read_payload_def Let_def)
    with 3 show ?thesis by (auto simp: defs split: if_splits)
  qed (use assms in \<open>auto simp: defs\<close>)
qed

lemma k_read_message_Ok:
  assumes "appends K" and "k_read_message K (n, k) = (Returned (Ok u), n', k')"
  shows "\<exists>m rest. parse_msg (k_unread k) = Some (m, rest) \<and>
     k_view k' = (k_view k)\<lparr>t_base := got m rest (t_base (k_view k))\<rparr>"
proof -
  obtain n1 k1 where e: "k_ensure K 5 (n, k) = (Returned (Ok ()), n1, k1)"
    using assms(2) by (auto simp: k_read_message_def fut_bind_Ok)
  from k_ensure_Ok [OF this assms(1)] have v: "k_view k1 = k_view k" and "5 \<le> k_available k1" by auto
  then obtain ty a b c d r where r: "drop (k_read_pos k1) (k_read_buf k1) = ty # a # b # c # d # r"
    unfolding k_available_def length_drop [symmetric]
    by (cases "drop (k_read_pos k1) (k_read_buf k1)" rule: list5) auto
  let ?l = "unat (from_be_bytes [a, b, c, d] :: u32) - 4"
  let ?k = "(k_set_bufs ((k_bufs k1)\<lparr>type_byte := ty\<rparr>) k1)\<lparr>k_read_pos := k_read_pos k1 + 5\<rparr>"
  have "drop (k_read_pos k1 + 5) (k_read_buf k1) = drop 5 (drop (k_read_pos k1) (k_read_buf k1))"
    by (simp add: add.commute)
  then have u: "k_unread ?k = r @ inp (k_stream k1)" by (simp add: r k_unread_def k_set_bufs_def k_stream_def)
  have p: "k_read_payload ?l (n1, ?k) = (Returned (Ok u), n', k')"
    using assms(2) e k_take_header_run [OF r] by (simp add: k_read_message_def fut_bind_def fut_lift_def)
  have "k_unread k = k_unread k1"
    using arg_cong [OF v, of "\<lambda>t. inp (c_stream (t_base t))"] by (simp add: k_unread_def)
  with k_read_payload_Ok [OF p] r v show ?thesis
    unfolding u v [symmetric]
    by (auto simp: parse_msg_def Let_def k_unread_def got_def k_view_def k_set_bufs_def k_stream_def k_bufs_def)
qed

end
