(* ===== verification/CompioFacts.thy ===== *)
theory CompioFacts
  imports CompioPipeline CompioStreamFacts
begin

text \<open>
  The compio connection against the tokio connection. A run of a compio future either is a run of
  the tokio future on the view, with the same outcome and the same connection afterwards, or it
  failed (an error, a panic, or it was dropped) and left a connection that nothing will use.
\<close>

section \<open>Correspondence\<close>

definition k_dead :: "kconn \<Rightarrow> bool" where
  "k_dead k \<longleftrightarrow> k_exchange k \<or> c_broken (k_base k)"

definition failed :: "'a outcome \<Rightarrow> bool" where
  "failed q \<longleftrightarrow> (\<forall>x. q \<noteq> Returned (Ok x))"

lemma failed_simps [simp]:
  "failed Dropped" "failed (Returned (Err e))" "failed (Returned Panic)" "\<not> failed (Returned (Ok x))"
  "failed (outcome_map f q) = failed q"
  by (auto simp: failed_def) (cases q; cases "case q of Returned r \<Rightarrow> r | Dropped \<Rightarrow> Panic"; auto)+

text \<open>With some budget \<open>f\<close> goes from \<open>t\<close> to \<open>r\<close>, whatever is left of the budget.\<close>

definition goes :: "(nat \<times> 't \<Rightarrow> 'r) \<Rightarrow> 't \<Rightarrow> (nat \<Rightarrow> 'r) \<Rightarrow> bool" where
  "goes f t r \<longleftrightarrow> (\<exists>c. \<forall>m. f (c + m, t) = r m)"

lemma goes_now: "(\<And>m. f (m, t) = r m) \<Longrightarrow> goes f t r"
  unfolding goes_def by (rule exI [of _ 0]) simp

lemma goes_trans:
  assumes "goes f t r1" and "goes g t1 r"
    and "\<And>m m1. f (m, t) = r1 m1 \<Longrightarrow> h (m, t0) = g (m1, t1)"
  shows "goes h t0 r"
proof -
  from assms(1,2) obtain c d where "\<And>m. f (c + m, t) = r1 m" "\<And>m. g (d + m, t1) = r m"
    by (auto simp: goes_def)
  with assms(3) have "h (c + (d + m), t0) = r m" for m by metis
  then show ?thesis unfolding goes_def by (metis add.assoc)
qed

lemma goes_after:
  assumes "goes f t r1" and "\<And>m m1. f (m, t) = r1 m1 \<Longrightarrow> h (m, t0) = r m1"
  shows "goes h t0 r"
  using assms unfolding goes_def by blast

lemma goes_bind_Ok:
  assumes "goes f t (\<lambda>m. (Returned (Ok x), m, t1))" and "goes (g x) t1 r"
  shows "goes (fut_bind f g) t r"
  by (rule goes_trans [OF assms]) (simp add: fut_bind_def)

fun fail_as :: "'a outcome \<Rightarrow> 'b outcome" where
  "fail_as (Returned (Err e)) = Returned (Err e)"
| "fail_as (Returned Panic) = Returned Panic"
| "fail_as q = Dropped"

lemma goes_bind_fail:
  assumes "goes f t (\<lambda>m. (q, m, t'))" and "failed q"
  shows "goes (fut_bind f g) t (\<lambda>m. (fail_as q, m, t'))"
  by (rule goes_after [OF assms(1)])
    (use assms(2) in \<open>auto simp: fut_bind_def failed_def split: outcome.splits res.splits\<close>)

lemma fut_bind_cases:
  "f s = (q, s1) \<Longrightarrow> failed q \<Longrightarrow> fut_bind f g s = (fail_as q, s1)"
  "f s = (Returned (Ok x), s1) \<Longrightarrow> fut_bind f g s = g x s1"
  by (auto simp: fut_bind_def failed_def split: outcome.splits res.splits)

lemma fail_as_simps [simp]: "failed (fail_as q)" "failed q \<Longrightarrow> outcome_map f q = fail_as q"
  by (induction q rule: fail_as.induct) simp_all

text \<open>
  The correspondence of two futures, from states with \<open>P\<close>: \<open>V\<close> is the view of a state, \<open>D\<close> holds
  of one that nothing will use.
\<close>

definition gsim :: "('k \<Rightarrow> 't) \<Rightarrow> ('k \<Rightarrow> bool) \<Rightarrow> ('k \<Rightarrow> bool) \<Rightarrow> ('k, 'a) run \<Rightarrow> ('t, 'a) run \<Rightarrow> bool" where
  "gsim V D P kf tf \<longleftrightarrow> (\<forall>n k q n' k'. P k \<longrightarrow> kf (n, k) = (q, n', k') \<longrightarrow>
     goes tf (V k) (\<lambda>m. (q, m, V k')) \<or> failed q \<and> D k')"

abbreviation sim :: "(kconn \<Rightarrow> bool) \<Rightarrow> 'a kfut \<Rightarrow> 'a fut \<Rightarrow> bool" where
  "sim P kf tf \<equiv> gsim k_view k_dead P kf tf"

lemma simI:
  "(\<And>n k q n' k'. P k \<Longrightarrow> kf (n, k) = (q, n', k') \<Longrightarrow>
     goes tf (V k) (\<lambda>m. (q, m, V k')) \<or> failed q \<and> D k') \<Longrightarrow> gsim V D P kf tf"
  by (simp add: gsim_def)

lemma simD:
  "gsim V D P kf tf \<Longrightarrow> kf (n, k) = (q, n', k') \<Longrightarrow> P k \<Longrightarrow>
     goes tf (V k) (\<lambda>m. (q, m, V k')) \<or> failed q \<and> D k'"
  by (simp add: gsim_def)

lemma sim_bind:
  assumes "gsim V D P f f'" and "\<And>x. gsim V D Q (g x) (g' x)"
    and "\<And>n k x n' k'. P k \<Longrightarrow> f (n, k) = (Returned (Ok x), n', k') \<Longrightarrow> Q k'"
  shows "gsim V D P (fut_bind f g) (fut_bind f' g')"
proof (rule simI)
  fix n k q n' k' assume P: "P k" and run: "fut_bind f g (n, k) = (q, n', k')"
  obtain p n1 k1 where f: "f (n, k) = (p, n1, k1)" by (cases "f (n, k)")
  show "goes (fut_bind f' g') (V k) (\<lambda>m. (q, m, V k')) \<or> failed q \<and> D k'"
  proof (cases "failed p")
    case True
    with run f have "q = fail_as p" "k' = k1" by (simp_all add: fut_bind_cases)
    with simD [OF assms(1) f P] True goes_bind_fail show ?thesis by fastforce
  next
    case False
    then obtain x where x: "p = Returned (Ok x)" by (auto simp: failed_def)
    with run f have "g x (n1, k1) = (q, n', k')" by (simp add: fut_bind_cases)
    from simD [OF assms(2) this assms(3) [OF P f [unfolded x]]] simD [OF assms(1) f P] x
    show ?thesis by (auto intro: goes_bind_Ok)
  qed
qed

lemma sim_lift:
  assumes "\<And>k. P k \<Longrightarrow> tf (V k) = (case kf k of (r, k') \<Rightarrow> (r, V k'))"
  shows "gsim V D P (fut_lift kf) (fut_lift tf)"
  using assms by (auto intro!: simI disjI1 goes_now simp: fut_lift_def split: prod.splits)

lemma sim_mono: "gsim V D Q f f' \<Longrightarrow> (\<And>k. P k \<Longrightarrow> Q k) \<Longrightarrow> gsim V D P f f'"
  by (auto simp: gsim_def)

section \<open>The view of an update\<close>

lemma view_updates [simp]:
  "k_view (k_set_bufs bs k) = set_bufs bs (k_view k)"
  "k_view (k\<lparr>k_exchange := b\<rparr>) = (k_view k)\<lparr>t_exchange := b\<rparr>"
  "k_view (k\<lparr>k_scope := b\<rparr>) = (k_view k)\<lparr>t_scope := b\<rparr>"
  "k_view (k_finish_exchange k) = finish_exchange (k_view k)"
  "k_view (k_set_tx x k) = t_set_tx x (k_view k)"
  "k_view (k_mark q k) = t_mark q (k_view k)"
  "k_view (k_break k) = t_break (k_view k)"
  "k_view (k\<lparr>k_base := conn_handle_async am (k_base k)\<rparr>) =
     (k_view k)\<lparr>t_base := conn_handle_async am (t_base (k_view k))\<rparr>"
  "k_view (k\<lparr>k_base := (k_base k)\<lparr>c_counter := i\<rparr>\<rparr>) =
     (k_view k)\<lparr>t_base := (t_base (k_view k))\<lparr>c_counter := i\<rparr>\<rparr>"
  by (auto simp: k_view_def k_set_bufs_def set_bufs_def k_stream_def k_finish_exchange_def
      finish_exchange_def k_set_tx_def t_set_tx_def k_mark_def t_mark_def mark_broken_def k_break_def
      t_break_def conn_handle_async_def split: outcome.split res.split)

lemma view_guards [simp]:
  "t_is_broken (k_view k) = k_is_broken k" "ensure_usable (k_view k) = k_ensure_usable k"
  "ensure_exchange_ready (k_view k) = k_ensure_exchange_ready k"
  "begin_exchange (k_view k) = (fst (k_begin_exchange k), k_view (snd (k_begin_exchange k)))"
  "conn_id (t_base (k_view k)) = conn_id (k_base k)"
  "conn_in_transaction (t_base (k_view k)) = conn_in_transaction (k_base k)"
  by (auto simp: t_is_broken_def k_is_broken_def ensure_usable_def k_ensure_usable_def
      ensure_exchange_ready_def k_ensure_exchange_ready_def begin_exchange_def k_begin_exchange_def
      conn_id_def conn_in_transaction_def)


section \<open>Reading and writing\<close>

definition prim :: "'a kfut \<Rightarrow> 'a fut \<Rightarrow> bool" where
  "prim kf tf \<longleftrightarrow> k_keeps kf \<and> (\<forall>n k q n' k'. kf (n, k) = (q, n', k') \<longrightarrow>
     failed q \<or> goes tf (k_view k) (\<lambda>m. (q, m, k_view k')))"

lemma primD:
  "prim kf tf \<Longrightarrow> kf (n, k) = (q, n', k') \<Longrightarrow> failed q \<or> goes tf (k_view k) (\<lambda>m. (q, m, k_view k'))"
  "prim kf tf \<Longrightarrow> kf (n, k) = (q, n', k') \<Longrightarrow> k_flags k' = k_flags k"
  by (auto simp: prim_def dest: k_keepsD)

lemma k_dead_flags: "k_flags k' = k_flags k \<Longrightarrow> k_dead k' = k_dead k"
  by (simp add: k_flags_def k_dead_def)

lemma prim_sim: "prim f f' \<Longrightarrow> sim k_dead f f'"
  by (rule simI) (metis primD k_dead_flags)

lemma prim_bind:
  assumes "prim f f'" and "\<And>x. prim (g x) (g' x)"
  shows "prim (fut_bind f g) (fut_bind f' g')"
  unfolding prim_def
proof (intro conjI allI impI)
  show "k_keeps (fut_bind f g)" using assms by (auto simp: prim_def intro: k_keeps_bind)
  fix n k q n' k' assume run: "fut_bind f g (n, k) = (q, n', k')"
  obtain p n1 k1 where f: "f (n, k) = (p, n1, k1)" by (cases "f (n, k)")
  show "failed q \<or> goes (fut_bind f' g') (k_view k) (\<lambda>m. (q, m, k_view k'))"
  proof (cases "failed p")
    case False
    then obtain x where x: "p = Returned (Ok x)" by (auto simp: failed_def)
    with run f have "g x (n1, k1) = (q, n', k')" by (simp add: fut_bind_cases)
    from primD(1) [OF assms(2) this] primD(1) [OF assms(1) f] x show ?thesis
      by (auto intro: goes_bind_Ok)
  qed (use run f in \<open>auto simp: fut_bind_cases\<close>)
qed

lemma prim_read:
  assumes "appends K"
  shows "prim (k_read_message K) a_read_message"
  unfolding prim_def
proof (intro conjI allI impI)
  fix n k q n' k' assume run: "k_read_message K (n, k) = (q, n', k')"
  show "failed q \<or> goes a_read_message (k_view k) (\<lambda>m. (q, m, k_view k'))"
  proof (cases "failed q")
    case False
    then have q: "q = Returned (Ok ())" by (auto simp: failed_def)
    from k_read_message_Ok [OF assms run [unfolded q]] obtain m rest where
      p: "parse_msg (k_unread k) = Some (m, rest)" "k_view k' = (k_view k)\<lparr>t_base := got m rest (t_base (k_view k))\<rparr>"
      by blast
    have "a_read_message (length (k_unread k) - length rest + i, k_view k) = (q, i, k_view k')" for i
      unfolding q a_read_parse using p by (simp add: k_unread_def)
    then show ?thesis by (auto simp: goes_def)
  qed simp
qed (rule k_keeps_read)

lemma k_keeps_write: "k_keeps k_write_flush"
  by (auto simp: k_keeps_def k_write_flush_def k_write_all_owned_def k_flush_def fut_bind_def fut_lift_def Let_def
      split: res.splits)

lemma prim_write: "prim k_write_flush a_write_flush"
  unfolding prim_def
proof (intro conjI allI impI)
  fix n k q n' k' assume run: "k_write_flush (n, k) = (q, n', k')"
  show "failed q \<or> goes a_write_flush (k_view k) (\<lambda>m. (q, m, k_view k'))"
  proof (cases "failed q")
    case False
    then have q: "q = Returned (Ok ())" by (auto simp: failed_def)
    let ?w = "write_buffer (k_bufs k)"
    from run q have w: "writable (k_stream k)"
      "k_view k' = (k_view k)\<lparr>t_base := snd (conn_write_flush (t_base (k_view k)))\<rparr>"
      by (auto simp: k_write_flush_def k_write_all_owned_def k_flush_def fut_bind_Ok fut_lift_def Let_def
          k_set_write_def k_set_bufs_def k_bufs_def k_stream_def k_set_stream_def k_view_def
          conn_write_flush_def stream_write_all_def stream_flush_def split: if_splits)
    then have "a_write_flush (length ?w + 1 + i, k_view k) = (q, i, k_view k')" for i
      unfolding q a_write_Ok_iff by simp
    then show ?thesis unfolding goes_def by blast
  qed simp
qed (rule k_keeps_write)

lemma prim_both: "appends K \<Longrightarrow> prim (fut_bind k_write_flush (\<lambda>_. k_read_message K)) (fut_bind a_write_flush (\<lambda>_. a_read_message))"
  by (intro prim_bind prim_write prim_read)

lemma prim_next:
  assumes "appends K"
  shows "prim (k_next_message K) a_next_message"
proof -
  have "k_flags (snd (snd (k_next_message K s))) = k_flags (snd s) \<and>
      (failed (fst (k_next_message K s)) \<or> goes a_next_message (k_view (snd s))
        (\<lambda>m. (fst (k_next_message K s), m, k_view (snd (snd (k_next_message K s))))))" for s
  proof (induction "k_left s" arbitrary: s rule: less_induct)
    case less
    obtain q n1 k1 where rd: "k_read_message K (fst s, snd s) = (q, n1, k1)" by (cases "k_read_message K s") auto
    note fl = primD(2) [OF prim_read [OF assms] rd]
    show ?case
    proof (cases "failed q")
      case True
      with rd fl show ?thesis
        by (cases q) (auto simp: k_next_message.simps [of K s] failed_def split: res.splits)
    next
      case False
      then have q: "q = Returned (Ok ())" by (auto simp: failed_def)
      with primD(1) [OF prim_read [OF assms] rd]
      have g: "goes a_read_message (k_view (snd s)) (\<lambda>m. (Returned (Ok ()), m, k_view k1))" by simp
      show ?thesis
      proof (cases "is_async_type (type_byte (k_bufs k1))")
        case True
        with rd q have eq: "k_next_message K s = k_next_message K (n1, k1)"
          by (simp add: k_next_message.simps [of K s])
        have "k_left (n1, k1) < k_left s" using k_read_message_left rd q by (metis prod.collapse)
        from less [OF this] have IH: "k_flags (snd (snd (k_next_message K s))) = k_flags k1"
          "failed (fst (k_next_message K s)) \<or> goes a_next_message (k_view k1)
            (\<lambda>m. (fst (k_next_message K s), m, k_view (snd (snd (k_next_message K s)))))"
          by (simp_all add: eq)
        have "a_next_message (m, k_view (snd s)) = a_next_message (m1, k_view k1)"
          if "a_read_message (m, k_view (snd s)) = (Returned (Ok ()), m1, k_view k1)" for m m1
          by (subst a_next_message.simps) (simp add: that True)
        then have "goes a_next_message (k_view (snd s)) r" if "goes a_next_message (k_view k1) r" for r
          by (rule goes_trans [OF g that])
        with IH fl show ?thesis by auto
      next
        case False
        with rd q have "k_next_message K s = (Returned (Ok ()), n1, k1)"
          by (simp add: k_next_message.simps [of K s])
        moreover have "a_next_message (m, k_view (snd s)) = (Returned (Ok ()), m1, k_view k1)"
          if "a_read_message (m, k_view (snd s)) = (Returned (Ok ()), m1, k_view k1)" for m m1
          by (subst a_next_message.simps) (simp add: that False)
        ultimately show ?thesis using goes_after [OF g, of a_next_message] fl by simp
      qed
    qed
  qed
  note all = this
  show ?thesis
    unfolding prim_def k_keeps_def
  proof (intro conjI allI impI)
    fix n k q n' k' assume "k_next_message K (n, k) = (q, n', k')"
    with all [of "(n, k)"] show "failed q \<or> goes a_next_message (k_view k) (\<lambda>m. (q, m, k_view k'))" by simp
  qed (use all in blast)
qed


section \<open>The loops\<close>

lemma k_dead_simps [simp]:
  "k_dead (k_set_bufs bs k) = k_dead k" "k_dead (k_set_tx x k) = k_dead k"
  "k_dead (k\<lparr>k_base := conn_handle_async am (k_base k)\<rparr>) = k_dead k"
  "k_dead (k\<lparr>k_exchange := True\<rparr>)" "k_dead (k_break k)" "k_dead (k\<lparr>k_scope := b\<rparr>) = k_dead k"
  by (simp_all add: k_dead_def k_set_bufs_def k_set_tx_def conn_handle_async_def k_break_def)

text \<open>The same with a second result: a handler, or the machine of a loop.\<close>

definition run_sim :: "(nat \<times> tconn \<Rightarrow> 'a outcome \<times> 'h \<times> nat \<times> tconn) \<Rightarrow> tconn \<Rightarrow>
    'a outcome \<times> 'h \<times> nat \<times> kconn \<Rightarrow> bool" where
  "run_sim tf t z \<longleftrightarrow> (case z of (q, h, n, k) \<Rightarrow>
     goes tf t (\<lambda>i. (q, h, i, k_view k)) \<or> failed q \<and> k_dead k)"

lemma run_sim_cases:
  assumes "run_sim tf t (q, h, n, k)"
  obtains "goes tf t (\<lambda>i. (q, h, i, k_view k))" | "failed q" "k_dead k"
  using assms by (auto simp: run_sim_def)

definition iter_sim :: "(nat \<times> tconn \<Rightarrow> ('a outcome \<times> 'e \<times> nat \<times> tconn) + ('m \<times> nat \<times> tconn)) \<Rightarrow> tconn \<Rightarrow>
    ('a outcome \<times> 'e \<times> nat \<times> kconn) + ('m \<times> nat \<times> kconn) \<Rightarrow> bool" where
  "iter_sim it t z \<longleftrightarrow> (case z of
     Inl (q, m, n, k) \<Rightarrow> goes it t (\<lambda>i. Inl (q, m, i, k_view k)) \<or> failed q \<and> k_dead k
   | Inr (m, n, k) \<Rightarrow> k_dead k \<and> goes it t (\<lambda>i. Inr (m, i, k_view k)))"

lemma iter_sim_io:
  assumes "prim f f'" and "k_dead k1"
    and "z = (\<lambda>(q, s). case q of Returned (Ok _) \<Rightarrow> Inr (m1, s) | _ \<Rightarrow> Inl (q, e, s)) (f (n, k1))"
    and "\<And>i. it (i, t) = (\<lambda>(q, s). case q of Returned (Ok _) \<Rightarrow> Inr (m1, s) | _ \<Rightarrow> Inl (q, e, s)) (f' (i, k_view k1))"
  shows "iter_sim it t z"
proof -
  obtain q n2 k2 where f: "f (n, k1) = (q, n2, k2)" by (cases "f (n, k1)")
  have dead: "k_dead k2" using k_dead_flags [OF primD(2) [OF assms(1) f]] assms(2) by simp
  show ?thesis
  proof (cases "failed q")
    case False
    then obtain x where x: "q = Returned (Ok x)" by (auto simp: failed_def)
    with primD(1) [OF assms(1) f] have "goes f' (k_view k1) (\<lambda>i. (Returned (Ok x), i, k_view k2))" by simp
    then have "goes it t (\<lambda>i. Inr (m1, i, k_view k2))"
      by (rule goes_after) (simp only: assms(4) prod.case outcome.case res.case)
    with x f dead show ?thesis by (simp add: iter_sim_def assms(3))
  next
    case True
    then have "z = Inl (q, e, n2, k2)"
      by (cases q) (auto simp: assms(3) f split: res.splits)
    with True dead show ?thesis by (simp add: iter_sim_def)
  qed
qed

lemma loop_sim:
  assumes "\<And>m s. lk m s = (case ik m s of Inl r \<Rightarrow> r | Inr (m', s') \<Rightarrow> lk m' s')"
    and "\<And>m s. la m s = (case ia m s of Inl r \<Rightarrow> r | Inr (m', s') \<Rightarrow> la m' s')"
    and "\<And>m n k. k_dead k \<Longrightarrow> iter_sim (ia m) (k_view k) (ik m (n, k))"
    and "\<And>m n k m' s'. ik m (n, k) = Inr (m', s') \<Longrightarrow> k_left s' < k_left (n, k)"
  shows "k_dead k \<Longrightarrow> run_sim (la m) (k_view k) (lk m (n, k))"
proof (induction "k_left (n, k)" arbitrary: m n k rule: less_induct)
  case less
  note it = assms(3) [OF less.prems, of m n]
  show ?case
  proof (cases "ik m (n, k)")
    case (Inl z)
    obtain q m1 n1 k1 where z: "z = (q, m1, n1, k1)" by (cases z)
    with it Inl have "goes (ia m) (k_view k) (\<lambda>i. Inl (q, m1, i, k_view k1)) \<or> failed q \<and> k_dead k1"
      by (simp add: iter_sim_def)
    moreover have "goes (la m) (k_view k) (\<lambda>i. (q, m1, i, k_view k1))"
      if "goes (ia m) (k_view k) (\<lambda>i. Inl (q, m1, i, k_view k1))"
      by (rule goes_after [OF that]) (simp add: assms(2))
    ultimately show ?thesis by (auto simp: assms(1) [of m "(n, k)"] Inl z run_sim_def)
  next
    case (Inr z)
    obtain m1 n1 k1 where z: "z = (m1, n1, k1)" by (cases z)
    with it Inr have g: "k_dead k1" "goes (ia m) (k_view k) (\<lambda>i. Inr (m1, i, k_view k1))"
      by (simp_all add: iter_sim_def)
    have eq: "lk m (n, k) = lk m1 (n1, k1)" by (simp add: assms(1) [of m "(n, k)"] Inr z)
    have tr: "goes (la m) (k_view k) r" if "goes (la m1) (k_view k1) r" for r
      by (rule goes_trans [OF g(2) that]) (simp add: assms(2) [of m])
    from less.hyps [OF assms(4) [OF Inr [unfolded z]] g(1), of m1] show ?thesis
      unfolding eq by (auto simp: run_sim_def split: prod.splits intro: tr)
  qed
qed

lemma drive_iter_sim:
  assumes "appends K" and "k_dead k"
  shows "iter_sim (a_drive_iter step tx m) (k_view k) (k_drive_iter K step tx m (n, k))"
proof -
  obtain r m1 bs where s: "step m (k_bufs k) = (r, m1, bs)" by (metis prod_cases3)
  note defs = k_drive_iter_def a_drive_iter_def Let_def s
  show ?thesis
  proof (cases r)
    case (Ok a)
    show ?thesis
    proof (cases a)
      case ReadMessage
      show ?thesis
        by (rule iter_sim_io [OF prim_read [OF assms(1)], of "k_set_bufs bs k" _ m1 m1 n])
          (simp_all add: defs Ok ReadMessage assms(2))
    next
      case Write
      show ?thesis
        by (rule iter_sim_io [OF prim_write, of "k_set_bufs bs k" _ m1 m1 n])
          (simp_all add: defs Ok Write assms(2))
    next
      case WriteAndReadMessage
      show ?thesis
        by (rule iter_sim_io [OF prim_both [OF assms(1)], of "k_set_bufs bs k" _ m1 m1 n])
          (simp_all add: defs Ok WriteAndReadMessage assms(2))
    next
      case (HandleAsyncMessageAndReadMessage am)
      let ?k = "(k_set_bufs bs k)\<lparr>k_base := conn_handle_async am (k_base (k_set_bufs bs k))\<rparr>"
      show ?thesis
        by (rule iter_sim_io [OF prim_read [OF assms(1)], of ?k _ m1 m1 n])
          (simp_all add: defs Ok HandleAsyncMessageAndReadMessage assms(2))
    qed (auto simp: iter_sim_def defs Ok intro!: disjI1 goes_now)
  qed (auto simp: iter_sim_def defs intro!: disjI1 goes_now)
qed

lemma drive_sim:
  assumes "appends K"
  shows "run_sim (a_drive step tx m) (k_view k) (k_drive K step tx m (n, k))"
proof (cases "k_begin_exchange k = (Ok (), k\<lparr>k_exchange := True\<rparr>)")
  case True
  have "run_sim (a_drive_loop step tx m) (k_view (k\<lparr>k_exchange := True\<rparr>))
      (k_drive_loop K step tx m (n, k\<lparr>k_exchange := True\<rparr>))"
    by (rule loop_sim [of _ "k_drive_iter K step tx" _ "a_drive_iter step tx"])
      (simp_all add: k_drive_loop.simps a_drive_loop.simps drive_iter_sim assms k_drive_iter_less)
  moreover have "goes (a_drive step tx m) (k_view k) r"
    if "goes (a_drive_loop step tx m) (k_view (k\<lparr>k_exchange := True\<rparr>)) r" for r
    using that unfolding goes_def by (simp add: a_drive_def True)
  ultimately show ?thesis
    by (auto simp: run_sim_def k_drive_def True split: prod.splits)
next
  case False
  then have "k_begin_exchange k = (Err ConnectionBroken, k)"
    by (auto simp: k_begin_exchange_def k_ensure_exchange_ready_def split: if_splits)
  then show ?thesis by (auto simp: run_sim_def k_drive_def a_drive_def intro!: disjI1 goes_now)
qed


section \<open>Queries and executions\<close>

definition always :: "kconn \<Rightarrow> bool" where
  "always k \<longleftrightarrow> True"

lemma always_simp [simp]: "always k"
  by (simp add: always_def)

lemma k_usable_cases:
  obtains "k_ensure_usable k = Ok ()" | "k_ensure_usable k = Err ConnectionBroken"
  by (cases "k_is_broken k") (auto simp: k_ensure_usable_def)

lemma k_dead_mark [simp]: "k_dead k \<Longrightarrow> k_dead (k_mark q k)"
  by (auto simp: k_dead_def k_mark_def mark_broken_def split: outcome.split res.split)

lemma sim_usable:
  assumes "sim always m m'"
  shows "sim P (k_usable m) (usable m')"
proof (rule simI)
  fix n k q n' k' assume run: "k_usable m (n, k) = (q, n', k')"
  show "goes (usable m') (k_view k) (\<lambda>i. (q, i, k_view k')) \<or> failed q \<and> k_dead k'"
  proof (cases k rule: k_usable_cases)
    case 1
    with run have "m (n, k) = (q, n', k')" by (simp add: k_usable_def)
    note m = simD [OF assms this always_simp]
    have "goes (usable m') (k_view k) r" if "goes m' (k_view k) r" for r
      using that 1 by (simp add: goes_def usable_def)
    with m show ?thesis by auto
  qed (use run in \<open>auto simp: k_usable_def usable_def intro!: goes_now\<close>)
qed

lemma sim_mark:
  assumes "sim P m m'"
  shows "sim P (k_fut_mark m) (fut_mark m')"
proof (rule simI)
  fix n k q n' k' assume P: "P k" and run: "k_fut_mark m (n, k) = (q, n', k')"
  obtain p n1 k1 where m: "m (n, k) = (p, n1, k1)" by (cases "m (n, k)")
  with run have eq: "q = p" "k' = k_mark p k1" by (auto simp: k_fut_mark_def)
  have "goes (fut_mark m') (k_view k) (\<lambda>i. (p, i, t_mark p (k_view k1)))"
    if "goes m' (k_view k) (\<lambda>i. (p, i, k_view k1))"
    by (rule goes_after [OF that]) (simp add: fut_mark_def)
  with simD [OF assms m P] eq show "goes (fut_mark m') (k_view k) (\<lambda>i. (q, i, k_view k')) \<or> failed q \<and> k_dead k'"
    by auto
qed

lemma sim_pre:
  assumes "sim Q m m'" and "\<And>k. P k \<Longrightarrow> Q (g k)" and "\<And>k. g' (k_view k) = k_view (g k)"
  shows "sim P (\<lambda>(n, k). m (n, g k)) (\<lambda>(n, t). m' (n, g' t))"
proof (rule simI)
  fix n k q n' k' assume "P k" and "(\<lambda>(n, k). m (n, g k)) (n, k) = (q, n', k')"
  then have "goes m' (k_view (g k)) (\<lambda>i. (q, i, k_view k')) \<or> failed q \<and> k_dead k'"
    using simD [OF assms(1)] assms(2) by simp
  then show "goes (\<lambda>(n, t). m' (n, g' t)) (k_view k) (\<lambda>i. (q, i, k_view k')) \<or> failed q \<and> k_dead k'"
    by (auto simp: goes_def assms(3))
qed

text \<open>The tuple of an entry point with a handler, as it is built from a drive.\<close>

lemma run_sim_map:
  assumes "run_sim f t0 (q, m, n, k)" and "\<And>i j. f (i, t0) = (q, m, j, k_view k) \<Longrightarrow> g (i, t) = (q, F m, j, t_mark q (k_view k))"
  shows "run_sim g t (q, F m, n, k_mark q k)"
  using assms(1)
proof (rule run_sim_cases)
  assume *: "goes f t0 (\<lambda>i. (q, m, i, k_view k))"
  have "goes g t (\<lambda>i. (q, F m, i, t_mark q (k_view k)))"
    by (rule goes_after [OF *]) (rule assms(2))
  then show ?thesis by (simp add: run_sim_def)
qed (simp add: run_sim_def)

lemma query_sim:
  assumes "appends K"
  shows "run_sim (t_query X H h sql) (k_view k) (k_query K X H h sql (n, k))"
proof (cases k rule: k_usable_cases)
  case 1
  obtain q sm n1 k1 where d: "k_drive K (sq_step X H) sq_tx (sq_new h sql) (n, k) = (q, sm, n1, k1)"
    by (metis prod_cases4)
  from drive_sim [OF assms, of "sq_step X H" sq_tx "sq_new h sql" k n, unfolded d]
  have "run_sim (t_query X H h sql) (k_view k) (q, sq_handler sm, n1, k_mark q k1)"
    by (rule run_sim_map) (simp add: t_query_def 1)
  with d 1 show ?thesis by (simp add: k_query_def)
qed (auto simp: k_query_def t_query_def run_sim_def intro!: goes_now)

lemma exec_sim:
  assumes "appends K"
  shows "run_sim (t_exec X H h statement params) (k_view k) (k_exec K X H h statement params (n, k))"
proof (cases k rule: k_usable_cases)
  case 1
  obtain r bs where s: "exec_start h (k_bufs k) statement params = (r, bs)" by fastforce
  show ?thesis
  proof (cases r)
    case (Ok sm)
    let ?k = "k_set_bufs bs k"
    obtain q sm1 n1 k1 where d: "k_drive K (eq_step X H) eq_tx sm (n, ?k) = (q, sm1, n1, k1)"
      by (metis prod_cases4)
    from drive_sim [OF assms, of "eq_step X H" eq_tx sm ?k n, unfolded d]
    have "run_sim (t_exec X H h statement params) (k_view k) (q, eq_handler sm1, n1, k_mark q k1)"
      by (rule run_sim_map) (simp add: t_exec_def 1 s Ok)
    with d 1 s Ok show ?thesis by (simp add: k_exec_def)
  qed (auto simp: k_exec_def t_exec_def run_sim_def 1 s intro!: disjI1 goes_now)
qed (auto simp: k_exec_def t_exec_def run_sim_def intro!: goes_now)

lemma with_rows_sim:
  assumes "\<And>n k. run_sim tf (k_view k) (kf (n, k))"
  shows "sim P (\<lambda>s. k_with_rows (kf s)) (\<lambda>s. with_rows (tf s))"
proof (rule simI)
  fix n k q n' k' assume run: "k_with_rows (kf (n, k)) = (q, n', k')"
  obtain p h n1 k1 where f: "kf (n, k) = (p, h, n1, k1)" by (metis prod_cases4)
  with run have eq: "q = outcome_map (\<lambda>_. h) p" "k' = k1" by (simp_all add: k_with_rows_def)
  have "goes (\<lambda>s. with_rows (tf s)) (k_view k) (\<lambda>i. (outcome_map (\<lambda>_. h) p, i, k_view k1))"
    if "goes tf (k_view k) (\<lambda>i. (p, h, i, k_view k1))"
    by (rule goes_after [OF that]) (simp add: with_rows_def)
  with assms [of k n] f eq show "goes (\<lambda>s. with_rows (tf s)) (k_view k) (\<lambda>i. (q, i, k_view k')) \<or> failed q \<and> k_dead k'"
    by (auto simp: run_sim_def)
qed

lemma rows_sims:
  assumes "appends K"
  shows "sim P (k_query_drop K X sql) (t_query_drop X sql)"
    "sim P (k_query_collect K X from_row sql) (t_query_collect X from_row sql)"
    "sim P (k_query_first K X from_row sql) (t_query_first X from_row sql)"
    "sim P (k_exec_drop K X statement params) (t_exec_drop X statement params)"
    "sim P (k_exec_collect K X from_row statement params) (t_exec_collect X from_row statement params)"
    "sim P (k_exec_first K X from_row statement params) (t_exec_first X from_row statement params)"
  unfolding k_query_drop_def t_query_drop_def k_query_collect_def t_query_collect_def k_query_first_def
    t_query_first_def k_exec_drop_def t_exec_drop_def k_exec_collect_def t_exec_collect_def
    k_exec_first_def t_exec_first_def
  by (rule with_rows_sim, rule query_sim [OF assms] exec_sim [OF assms])+

lemma ping_sim: "appends K \<Longrightarrow> sim P (k_ping K X) (t_ping X)"
  unfolding k_ping_def t_ping_def
  by (rule sim_bind [where Q = always]) (auto intro: rows_sims sim_lift)


section \<open>Preparing\<close>

text \<open>A future whose result is made of that of a drive.\<close>

lemma run_sim_out:
  assumes "run_sim f t0 (p, m, n, k)" and "\<And>i j. f (i, t0) = (p, m, j, k_view k) \<Longrightarrow> g (i, t) = (q, j, k_view k)"
    and "failed p \<Longrightarrow> failed q"
  shows "goes g t (\<lambda>i. (q, i, k_view k)) \<or> failed q \<and> k_dead k"
  using assms(1)
proof (rule run_sim_cases)
  assume *: "goes f t0 (\<lambda>i. (p, m, i, k_view k))"
  have "goes g t (\<lambda>i. (q, i, k_view k))"
    by (rule goes_after [OF *]) (rule assms(2))
  then show ?thesis ..
qed (simp add: assms(3))

lemma failed_rbind [simp]: "failed (Returned r) \<Longrightarrow> failed (Returned (rbind r f))"
  by (cases r) simp_all

lemma prepare_inner_sim:
  assumes "appends K"
  shows "sim P (k_prepare_inner K X idx query oids) (t_prepare_inner X idx query oids)"
proof (rule simI)
  fix n k q n' k' assume run: "k_prepare_inner K X idx query oids (n, k) = (q, n', k')"
  obtain sm :: "nat option extended_query" and bs
    where s: "eq_prepare None (k_bufs k) idx query oids = (sm, bs)" by fastforce
  let ?k = "k_set_bufs bs k"
  obtain p sm1 n1 k1 where d: "k_drive K (eq_step X drop_handler) eq_tx sm (n, ?k) = (p, sm1, n1, k1)"
    by (metis prod_cases4)
  have q: "q = (case p of Returned r \<Rightarrow> Returned (rbind r (\<lambda>_.
      ok_or (eq_prepared sm1) (LibraryBug ''No prepared statement''))) | Dropped \<Rightarrow> Dropped)" "k' = k1"
    using run by (auto simp: k_prepare_inner_def s d)
  from drive_sim [OF assms, of "eq_step X drop_handler" eq_tx sm ?k n, unfolded d]
  show "goes (t_prepare_inner X idx query oids) (k_view k) (\<lambda>i. (q, i, k_view k')) \<or> failed q \<and> k_dead k'"
    unfolding q(2)
    by (rule run_sim_out) (auto simp: t_prepare_inner_def s q(1) split: outcome.split)
qed

lemma prepare_sims:
  assumes "appends K"
  shows "sim P (k_prepare_typed K X query oids) (t_prepare_typed X query oids)"
    "sim P (k_prepare K X query) (t_prepare X query)"
proof -
  show typed: "sim P (k_prepare_typed K X query oids) (t_prepare_typed X query oids)" for oids
    unfolding k_prepare_typed_def t_prepare_typed_def
  proof (rule sim_usable, rule simI)
    fix n q n' k' and k :: kconn
    let ?i = "c_counter (k_base k) + 1"
    let ?k = "k\<lparr>k_base := (k_base k)\<lparr>c_counter := ?i\<rparr>\<rparr>"
    assume "(\<lambda>(n, t). let idx = c_counter (k_base t) + 1 in k_fut_mark (k_prepare_inner K X idx query oids)
        (n, t\<lparr>k_base := (k_base t)\<lparr>c_counter := idx\<rparr>\<rparr>)) (n, k) = (q, n', k')"
    then have "k_fut_mark (k_prepare_inner K X ?i query oids) (n, ?k) = (q, n', k')" by (simp add: Let_def)
    from simD [OF sim_mark [OF prepare_inner_sim [OF assms]] this always_simp]
    show "goes (\<lambda>(n, t). let idx = c_counter (t_base t) + 1 in fut_mark (t_prepare_inner X idx query oids)
        (n, t\<lparr>t_base := (t_base t)\<lparr>c_counter := idx\<rparr>\<rparr>)) (k_view k) (\<lambda>i. (q, i, k_view k')) \<or> failed q \<and> k_dead k'"
      by (auto simp: goes_def Let_def)
  qed
  show "sim P (k_prepare K X query) (t_prepare X query)"
    unfolding k_prepare_def t_prepare_def by (rule typed)
qed

lemma close_statement_sim:
  assumes "appends K"
  shows "sim P (k_close_statement K X stmt) (t_close_statement X stmt)"
  unfolding k_close_statement_def t_close_statement_def
proof (rule sim_usable, rule sim_mark, rule simI)
  fix n q n' k' and k :: kconn
  obtain sm :: "nat option extended_query" and bs
    where s: "eq_close_statement None (k_bufs k) (wire_name stmt) = (sm, bs)" by fastforce
  assume run: "(\<lambda>(n, t). let (sm, bs) = eq_close_statement None (k_bufs t) (wire_name stmt);
      (q, sm1, s) = k_drive K (eq_step X drop_handler) eq_tx sm (n, k_set_bufs bs t) in (q, s)) (n, k) = (q, n', k')"
  then obtain sm1 where "k_drive K (eq_step X drop_handler) eq_tx sm (n, k_set_bufs bs k) = (q, sm1, n', k')"
    by (auto simp: s split: prod.splits)
  from drive_sim [OF assms, of "eq_step X drop_handler" eq_tx sm "k_set_bufs bs k" n, unfolded this]
  show "goes (\<lambda>(n, t). let (sm, bs) = eq_close_statement None (t_bufs t) (wire_name stmt);
      (q, sm1, s) = a_drive (eq_step X drop_handler) eq_tx sm (n, set_bufs bs t) in (q, s)) (k_view k)
      (\<lambda>i. (q, i, k_view k')) \<or> failed q \<and> k_dead k'"
    by (rule run_sim_out) (simp_all add: s)
qed

section \<open>Low-level messages\<close>

lemma begin_sim: "sim P (fut_lift k_begin_exchange) (fut_lift begin_exchange)"
  by (rule sim_lift) (auto split: prod.split)

lemma begin_Ok: "fut_lift k_begin_exchange (n, k) = (Returned (Ok x), n', k') \<Longrightarrow> k_dead k'"
  by (auto simp: fut_lift_def k_begin_exchange_def k_ensure_exchange_ready_def split: if_splits)

lemma send_sim: "sim P (k_send w) (a_send w)"
  unfolding k_send_def a_send_def
proof (rule sim_pre [where Q = always])
  show "sim always (fut_bind (fut_lift k_begin_exchange) (\<lambda>_. k_write_flush))
      (fut_bind (fut_lift begin_exchange) (\<lambda>_. a_write_flush))"
    by (rule sim_bind [OF begin_sim prim_sim [OF prim_write]]) (rule begin_Ok)
qed simp_all

lemma send_Ok:
  assumes "k_send w (n, k) = (Returned (Ok u), n', k')"
  shows "k_dead k'"
proof -
  obtain x n1 k1 where "fut_lift k_begin_exchange (n, k_set_bufs ((k_bufs k)\<lparr>write_buffer := w\<rparr>) k) =
      (Returned (Ok x), n1, k1)" and w: "k_write_flush (n1, k1) = (Returned (Ok u), n', k')"
    using assms by (auto simp: k_send_def fut_bind_Ok)
  then have "k_dead k1" by (rule_tac begin_Ok)
  with k_dead_flags [OF k_keepsD [OF k_keeps_write w]] show ?thesis by simp
qed

lemma await_sim:
  assumes "appends K"
  shows "sim k_dead (k_await_complete K X ty msg) (a_await_complete X ty msg)"
  unfolding k_await_complete_def a_await_complete_def
  by (rule sim_bind [OF prim_sim [OF prim_next [OF assms]], where Q = always])
    (auto intro!: sim_lift simp: server_err_def split: prod.split)

lemma bind_sim:
  assumes "appends K"
  shows "sim P (k_lowlevel_bind K X portal name params) (t_lowlevel_bind X portal name params)"
  unfolding k_lowlevel_bind_def t_lowlevel_bind_def
proof (rule sim_usable, rule sim_mark)
  obtain r w where b: "write_bind [] portal name params (natural_oids params) = (r, w)" by fastforce
  have send: "sim always (fut_bind (k_send (write_flush w)) (\<lambda>_. k_await_complete K X BIND_COMPLETE msg))
      (fut_bind (a_send (write_flush w)) (\<lambda>_. a_await_complete X BIND_COMPLETE msg))" for msg
    by (rule sim_bind [OF send_sim await_sim [OF assms]]) (rule send_Ok)
  show "sim always (\<lambda>(n, t). let (r, w) = write_bind [] portal name params (natural_oids params) in case r of
       Ok _ \<Rightarrow> fut_bind (k_send (write_flush w)) (\<lambda>_. k_await_complete K X BIND_COMPLETE
         ''Expected BindComplete or ErrorResponse, got {}'') (n, t)
     | Err e \<Rightarrow> (Returned (Err e), n, k_set_bufs ((k_bufs t)\<lparr>write_buffer := w\<rparr>) t)
     | Panic \<Rightarrow> (Returned Panic, n, k_set_bufs ((k_bufs t)\<lparr>write_buffer := w\<rparr>) t))
    (\<lambda>(n, t). let (r, w) = write_bind [] portal name params (natural_oids params) in case r of
       Ok _ \<Rightarrow> fut_bind (a_send (write_flush w)) (\<lambda>_. a_await_complete X BIND_COMPLETE
         ''Expected BindComplete or ErrorResponse, got {}'') (n, t)
     | Err e \<Rightarrow> (Returned (Err e), n, set_bufs ((t_bufs t)\<lparr>write_buffer := w\<rparr>) t)
     | Panic \<Rightarrow> (Returned Panic, n, set_bufs ((t_bufs t)\<lparr>write_buffer := w\<rparr>) t))"
  proof (cases r)
    case (Ok u)
    with send show ?thesis by (simp add: b)
  qed (auto simp: b intro!: simI disjI1 goes_now)
qed

lemma close_portal_sim:
  assumes "appends K"
  shows "sim P (k_lowlevel_close_portal K X portal) (t_lowlevel_close_portal X portal)"
  unfolding k_lowlevel_close_portal_def t_lowlevel_close_portal_def
  by (rule sim_usable, rule sim_mark, rule sim_bind [OF send_sim await_sim [OF assms]]) (rule send_Ok)

lemma flush_sim: "sim P k_lowlevel_flush t_lowlevel_flush"
  unfolding k_lowlevel_flush_def t_lowlevel_flush_def
  by (rule sim_usable, rule sim_bind [OF send_sim, where Q = always]) (auto intro: sim_lift)


section \<open>The message loops\<close>

text \<open>What a round of \<open>lowlevel_execute_inner\<close> decides from the message: go on, or end.\<close>

definition execute_next ::
    "ext \<Rightarrow> 'h handler \<Rightarrow> 'h \<Rightarrow> bytes \<Rightarrow> buffer_set \<Rightarrow> 'h \<times> bytes + bool outcome \<times> 'h \<times> bool" where
  "execute_next X H h cbuf bs =
     (let ty = type_byte bs; payload = read_buffer bs in
      if ty = ROW_DESCRIPTION then
        (case row_description_parse X payload of
           Err e \<Rightarrow> Inr (Returned (Err e), h, False)
         | Panic \<Rightarrow> Inr (Returned Panic, h, False)
         | Ok cols \<Rightarrow> (case h_result_start H h cols of
              (Ok _, h1) \<Rightarrow> Inl (h1, payload)
            | (Err e, h1) \<Rightarrow> Inr (Returned (Err e), h1, False)
            | (Panic, h1) \<Rightarrow> Inr (Returned Panic, h1, False)))
      else if ty = NO_DATA then Inl (h, cbuf)
      else if ty = DATA_ROW then
        (case rbind (row_description_parse X cbuf) (\<lambda>cols. rmap (\<lambda>row. (cols, row)) (data_row_parse payload)) of
           Err e \<Rightarrow> Inr (Returned (Err e), h, False)
         | Panic \<Rightarrow> Inr (Returned Panic, h, False)
         | Ok (cols, row) \<Rightarrow> (case h_row H h cols row of
              (Ok _, h1) \<Rightarrow> Inl (h1, cbuf)
            | (Err e, h1) \<Rightarrow> Inr (Returned (Err e), h1, False)
            | (Panic, h1) \<Rightarrow> Inr (Returned Panic, h1, False)))
      else if ty = COMMAND_COMPLETE then
        (case command_complete_parse X payload of
           Err e \<Rightarrow> Inr (Returned (Err e), h, False)
         | Panic \<Rightarrow> Inr (Returned Panic, h, False)
         | Ok complete \<Rightarrow> (case h_result_end H h complete of
              (Ok _, h1) \<Rightarrow> Inr (Returned (Ok False), h1, True)
            | (Err e, h1) \<Rightarrow> Inr (Returned (Err e), h1, False)
            | (Panic, h1) \<Rightarrow> Inr (Returned Panic, h1, False)))
      else if ty = PORTAL_SUSPENDED then Inr (Returned (Ok True), h, True)
      else if ty = ERROR_RESPONSE then Inr (Returned (server_err X payload), h, False)
      else Inr (Returned (Err (LibraryBug ''Unexpected message in execute: {}'')), h, False))"

lemma execute_loops:
  "a_next_message s = (Returned (Ok u), n1, t1) \<Longrightarrow> a_execute_loop X H h cbuf s =
     (case execute_next X H h cbuf (t_bufs t1) of Inl (h1, b1) \<Rightarrow> a_execute_loop X H h1 b1 (n1, t1)
      | Inr (q, h1, fin) \<Rightarrow> (q, h1, n1, if fin then finish_exchange t1 else t1))"
  "k_next_message K z = (Returned (Ok u), n1, k1) \<Longrightarrow> k_execute_loop K X H h cbuf z =
     (case execute_next X H h cbuf (k_bufs k1) of Inl (h1, b1) \<Rightarrow> k_execute_loop K X H h1 b1 (n1, k1)
      | Inr (q, h1, fin) \<Rightarrow> (q, h1, n1, if fin then k_finish_exchange k1 else k1))"
  by (subst a_execute_loop.simps k_execute_loop.simps,
      simp add: execute_next_def Let_def split: prod.split res.split)+

lemma execute_loop_sim:
  assumes "appends K"
  shows "k_dead k \<Longrightarrow> run_sim (a_execute_loop X H h b) (k_view k) (k_execute_loop K X H h b (n, k))"
proof (induction "k_left (n, k)" arbitrary: h b n k rule: less_induct)
  case less
  obtain q n1 k1 where rd: "k_next_message K (n, k) = (q, n1, k1)" by (cases "k_next_message K (n, k)")
  have dead: "k_dead k1" using k_dead_flags [OF primD(2) [OF prim_next [OF assms] rd]] less.prems by simp
  show ?case
  proof (cases "failed q")
    case True
    with rd dead show ?thesis
      by (subst k_execute_loop.simps) (auto simp: run_sim_def failed_def split: outcome.split res.split)
  next
    case False
    then have q: "q = Returned (Ok ())" by (auto simp: failed_def)
    from primD(1) [OF prim_next [OF assms] rd] False q
    have g: "goes a_next_message (k_view k) (\<lambda>i. (Returned (Ok ()), i, k_view k1))" by simp
    note eq = execute_loops(2) [OF rd [unfolded q], of X H h b]
    show ?thesis
    proof (cases "execute_next X H h b (k_bufs k1)")
      case (Inl z)
      obtain h1 b1 where z: "z = (h1, b1)" by (cases z)
      have tr: "goes (a_execute_loop X H h b) (k_view k) r" if "goes (a_execute_loop X H h1 b1) (k_view k1) r" for r
        by (rule goes_trans [OF g that]) (simp add: execute_loops(1) Inl z)
      have "k_left (n1, k1) < k_left (n, k)" using k_next_message_less [OF rd [unfolded q]] .
      from less.hyps [OF this dead, of h1 b1] show ?thesis
        by (auto simp: eq Inl z run_sim_def split: prod.splits intro: tr)
    next
      case (Inr z)
      obtain p h1 fin where z: "z = (p, h1, fin)" by (cases z)
      have "goes (a_execute_loop X H h b) (k_view k)
          (\<lambda>i. (p, h1, i, k_view (if fin then k_finish_exchange k1 else k1)))"
        by (rule goes_after [OF g]) (simp add: execute_loops(1) Inr z)
      then show ?thesis by (simp add: eq Inr z run_sim_def)
    qed
  qed
qed

lemma execute_inner_sim:
  assumes "appends K"
  shows "run_sim (t_execute_inner X H h portal max_rows) (k_view k) (k_execute_inner K X H h portal max_rows (n, k))"
proof -
  let ?w = "write_flush (write_execute (write_describe_portal [] portal) portal max_rows)"
  obtain q n1 k1 where sd: "k_send ?w (n, k) = (q, n1, k1)" by (cases "k_send ?w (n, k)")
  show ?thesis
  proof (cases "failed q")
    case True
    have "goes (t_execute_inner X H h portal max_rows) (k_view k) (\<lambda>i. (outcome_map (\<lambda>_. False) q, h, i, k_view k1))"
      if "goes (a_send ?w) (k_view k) (\<lambda>i. (q, i, k_view k1))"
      by (rule goes_after [OF that]) (use True in \<open>auto simp: t_execute_inner_def Let_def failed_def
          split: outcome.split res.split\<close>)
    moreover have "k_execute_inner K X H h portal max_rows (n, k) = (outcome_map (\<lambda>_. False) q, h, n1, k1)"
      using True sd by (auto simp: k_execute_inner_def Let_def failed_def split: outcome.split res.split)
    ultimately show ?thesis using simD [OF send_sim sd always_simp] True by (auto simp: run_sim_def)
  next
    case False
    then have q: "q = Returned (Ok ())" by (auto simp: failed_def)
    with simD [OF send_sim sd always_simp]
    have g: "goes (a_send ?w) (k_view k) (\<lambda>i. (Returned (Ok ()), i, k_view k1))" by simp
    have "k_dead k1" using send_Ok sd q by blast
    note loop = execute_loop_sim [OF assms this, of X H h "[]" n1]
    have "goes (t_execute_inner X H h portal max_rows) (k_view k) r"
      if "goes (a_execute_loop X H h []) (k_view k1) r" for r
      by (rule goes_trans [OF g that]) (simp add: t_execute_inner_def)
    with loop sd q show ?thesis
      by (auto simp: k_execute_inner_def run_sim_def split: prod.splits)
  qed
qed

lemma execute_sim:
  assumes "appends K"
  shows "run_sim (t_lowlevel_execute X H h portal max_rows) (k_view k) (k_lowlevel_execute K X H h portal max_rows (n, k))"
proof (cases k rule: k_usable_cases)
  case 1
  obtain q h1 n1 k1 where e: "k_execute_inner K X H h portal max_rows (n, k) = (q, h1, n1, k1)" by (metis prod_cases4)
  from execute_inner_sim [OF assms, of X H h portal max_rows k n, unfolded e]
  have "run_sim (t_lowlevel_execute X H h portal max_rows) (k_view k) (q, (\<lambda>h. h) h1, n1, k_mark q k1)"
    by (rule run_sim_map) (simp add: t_lowlevel_execute_def 1)
  with e 1 show ?thesis by (simp add: k_lowlevel_execute_def)
qed (auto simp: k_lowlevel_execute_def t_lowlevel_execute_def run_sim_def intro!: goes_now)


text \<open>What a round of the sync loop decides: go on, or the result with what it records.\<close>

definition sync_next ::
    "ext \<Rightarrow> server_error option \<Rightarrow> buffer_set \<Rightarrow> server_error option + unit res \<times> tx_status option \<times> bool" where
  "sync_next X pending bs =
     (let ty = type_byte bs; payload = read_buffer bs in
      if ty = READY_FOR_QUERY then
        (case ready_for_query_parse payload of
           Err e \<Rightarrow> Inr (Err e, None, False)
         | Panic \<Rightarrow> Inr (Panic, None, False)
         | Ok st \<Rightarrow> Inr (case pending of Some e \<Rightarrow> Err (Server e) | None \<Rightarrow> Ok (), Some (tx_or_default st), False))
      else if ty = ERROR_RESPONSE then
        (case error_response_parse X payload of
           Err e \<Rightarrow> Inr (Err e, None, False)
         | Panic \<Rightarrow> Inr (Panic, None, False)
         | Ok e \<Rightarrow> if is_connection_broken (Server e) then Inr (Err (Server e), None, True) else Inl (Some e))
      else Inl pending)"

definition sync_end :: "tx_status option \<Rightarrow> bool \<Rightarrow> tconn \<Rightarrow> tconn" where
  "sync_end st broken t = (case st of Some x \<Rightarrow> finish_exchange (t_set_tx x t)
     | None \<Rightarrow> if broken then t_break t else t)"

definition k_sync_end :: "tx_status option \<Rightarrow> bool \<Rightarrow> kconn \<Rightarrow> kconn" where
  "k_sync_end st broken k = (case st of Some x \<Rightarrow> k_finish_exchange (k_set_tx x k)
     | None \<Rightarrow> if broken then k_break k else k)"

lemma view_sync_end [simp]: "k_view (k_sync_end st b k) = sync_end st b (k_view k)"
  by (simp add: k_sync_end_def sync_end_def split: option.split)

lemma sync_loops:
  "a_next_message s = (Returned (Ok u), n1, t1) \<Longrightarrow> a_sync_loop X pending s =
     (case sync_next X pending (t_bufs t1) of Inl p \<Rightarrow> a_sync_loop X p (n1, t1)
      | Inr (r, st, b) \<Rightarrow> (Returned r, n1, sync_end st b t1))"
  "k_next_message K z = (Returned (Ok u), n1, k1) \<Longrightarrow> k_sync_loop K X pending z =
     (case sync_next X pending (k_bufs k1) of Inl p \<Rightarrow> k_sync_loop K X p (n1, k1)
      | Inr (r, st, b) \<Rightarrow> (Returned r, n1, k_sync_end st b k1))"
  by (subst a_sync_loop.simps k_sync_loop.simps,
      simp add: sync_next_def sync_end_def k_sync_end_def t_break_def k_break_def Let_def
        split: prod.split res.split option.split)+

lemma sync_loop_sim:
  assumes "appends K"
  shows "sim k_dead (k_sync_loop K X pending) (a_sync_loop X pending)"
proof -
  have "goes (a_sync_loop X pending) (k_view k) (\<lambda>i. (q, i, k_view k')) \<or> failed q \<and> k_dead k'"
    if "k_dead k" "k_sync_loop K X pending (n, k) = (q, n', k')" for pending k n q n' k'
    using that
  proof (induction "k_left (n, k)" arbitrary: pending n k rule: less_induct)
    case less
    obtain p n1 k1 where rd: "k_next_message K (n, k) = (p, n1, k1)" by (cases "k_next_message K (n, k)")
    have dead: "k_dead k1" using k_dead_flags [OF primD(2) [OF prim_next [OF assms] rd]] less.prems by simp
    show ?case
    proof (cases "failed p")
      case True
      with rd dead less.prems(2) show ?thesis
        by (subst (asm) k_sync_loop.simps) (auto simp: failed_def split: outcome.splits res.splits)
    next
      case False
      then have p: "p = Returned (Ok ())" by (auto simp: failed_def)
      from primD(1) [OF prim_next [OF assms] rd] False p
      have g: "goes a_next_message (k_view k) (\<lambda>i. (Returned (Ok ()), i, k_view k1))" by simp
      note eq = sync_loops(2) [OF rd [unfolded p], of X pending]
      show ?thesis
      proof (cases "sync_next X pending (k_bufs k1)")
        case (Inl e)
        have tr: "goes (a_sync_loop X pending) (k_view k) r" if "goes (a_sync_loop X e) (k_view k1) r" for r
          by (rule goes_trans [OF g that]) (simp add: sync_loops(1) Inl)
        from less.hyps [OF k_next_message_less [OF rd [unfolded p]] dead, of e] less.prems(2)
        show ?thesis by (auto simp: eq Inl intro: tr)
      next
        case (Inr z)
        obtain r st b where z: "z = (r, st, b)" by (cases z)
        have "goes (a_sync_loop X pending) (k_view k) (\<lambda>i. (Returned r, i, sync_end st b (k_view k1)))"
          by (rule goes_after [OF g]) (simp add: sync_loops(1) Inr z)
        with less.prems(2) show ?thesis by (auto simp: eq Inr z)
      qed
    qed
  qed
  then show ?thesis by (auto simp: gsim_def)
qed

lemma sync_inner_sim: "appends K \<Longrightarrow> sim P (k_sync_inner K X) (t_sync_inner X)"
  unfolding k_sync_inner_def t_sync_inner_def
  by (rule sim_bind [OF send_sim sync_loop_sim]) (auto dest: send_Ok)

lemma sync_sim: "appends K \<Longrightarrow> sim P (k_lowlevel_sync K X) (t_lowlevel_sync X)"
  unfolding k_lowlevel_sync_def t_lowlevel_sync_def by (intro sim_usable sim_mark sync_inner_sim)

section \<open>Portals and transactions\<close>

lemma bind_iter_sim:
  assumes "appends K" and "k_dead k"
  shows "iter_sim (\<lambda>s. map_sum (\<lambda>(q, s). (q, (), s)) (\<lambda>z. z) (a_bind_iter X m s)) (k_view k)
    (map_sum (\<lambda>(q, s). (q, (), s)) (\<lambda>z. z) (k_bind_iter K X m (n, k)))"
proof -
  obtain r m1 bs where s: "bind_step X m (k_bufs k) = (r, m1, bs)" by (metis prod_cases3)
  note defs = k_bind_iter_def a_bind_iter_def Let_def s
  have io: "iter_sim (\<lambda>s. map_sum (\<lambda>(q, s). (q, (), s)) (\<lambda>z. z) (a_bind_iter X m s)) (k_view k)
      (map_sum (\<lambda>(q, s). (q, (), s)) (\<lambda>z. z) (k_bind_iter K X m (n, k)))"
    if "prim f f'"
      "k_bind_iter K X m (n, k) = (\<lambda>(q, s). case q of Returned (Ok _) \<Rightarrow> Inr (m1, s) | _ \<Rightarrow> Inl (q, s)) (f (n, k_set_bufs bs k))"
      "\<And>i. a_bind_iter X m (i, k_view k) =
        (\<lambda>(q, s). case q of Returned (Ok _) \<Rightarrow> Inr (m1, s) | _ \<Rightarrow> Inl (q, s)) (f' (i, k_view (k_set_bufs bs k)))"
    for f :: "unit kfut" and f'
    by (rule iter_sim_io [OF that(1), of "k_set_bufs bs k" _ m1 "()" n])
      (simp_all add: that(2,3) assms(2) split: prod.split outcome.split res.split del: view_updates)
  show ?thesis
  proof (cases r)
    case (Ok a)
    show ?thesis
    proof (cases a)
      case ReadMessage
      show ?thesis by (rule io [OF prim_read [OF assms(1)]]) (simp_all add: defs Ok ReadMessage)
    next
      case Write
      show ?thesis by (rule io [OF prim_write]) (simp_all add: defs Ok Write)
    next
      case WriteAndReadMessage
      show ?thesis by (rule io [OF prim_both [OF assms(1)]]) (simp_all add: defs Ok WriteAndReadMessage)
    qed (auto simp: iter_sim_def defs Ok intro!: disjI1 goes_now)
  qed (auto simp: iter_sim_def defs intro!: disjI1 goes_now)
qed

lemma bind_loop_sim:
  assumes "appends K"
  shows "sim k_dead (k_bind_loop K X m) (a_bind_loop X m)"
proof (rule simI)
  fix n k q n' k' assume d: "k_dead k" and run: "k_bind_loop K X m (n, k) = (q, n', k')"
  have less: "k_left s' < k_left (n, k)"
    if "map_sum (\<lambda>(q, s). (q, (), s)) (\<lambda>z. z) (k_bind_iter K X m (n, k)) = Inr (m', s')" for m n k m' s'
    using that k_bind_iter_less [of K X m n k m' s'] by (cases "k_bind_iter K X m (n, k)") auto
  have "run_sim (\<lambda>s. case a_bind_loop X m s of (q, s) \<Rightarrow> (q, (), s)) (k_view k)
      (case k_bind_loop K X m (n, k) of (q, s) \<Rightarrow> (q, (), s))"
    by (rule loop_sim [where la = "\<lambda>m s. case a_bind_loop X m s of (q, s) \<Rightarrow> (q, (), s)"
          and lk = "\<lambda>m s. case k_bind_loop K X m s of (q, s) \<Rightarrow> (q, (), s)"
          and ia = "\<lambda>m s. map_sum (\<lambda>(q, s). (q, (), s)) (\<lambda>z. z) (a_bind_iter X m s)"
          and ik = "\<lambda>m s. map_sum (\<lambda>(q, s). (q, (), s)) (\<lambda>z. z) (k_bind_iter K X m s)", OF _ _ _ _ d])
      (auto simp: k_bind_loop.simps [of K X] a_bind_loop.simps [of X] bind_iter_sim [OF assms]
        split: sum.splits dest: less)
  with run have "run_sim (\<lambda>s. case a_bind_loop X m s of (q, s) \<Rightarrow> (q, (), s)) (k_view k) (q, (), n', k')" by simp
  then show "goes (a_bind_loop X m) (k_view k) (\<lambda>i. (q, i, k_view k')) \<or> failed q \<and> k_dead k'"
    by (rule run_sim_out) (auto split: prod.splits)
qed


lemma create_portal_sim:
  assumes "appends K"
  shows "sim P (k_create_portal K X portal statement params) (t_create_portal X portal statement params)"
  unfolding k_create_portal_def t_create_portal_def
proof (rule sim_usable, rule simI)
  fix n q n' k' and k :: kconn
  obtain r bs where b: "bind_start portal statement params (k_bufs k) = (r, bs)" by fastforce
  assume run: "(\<lambda>(n, t). let (r, bs) = bind_start portal statement params (k_bufs t); t1 = k_set_bufs bs t in
      case r of Ok sm \<Rightarrow> fut_bind (fut_lift k_begin_exchange) (\<lambda>_. k_bind_loop K X sm) (n, t1)
        | Err e \<Rightarrow> (Returned (Err e), n, t1) | Panic \<Rightarrow> (Returned Panic, n, t1)) (n, k) = (q, n', k')"
  have s: "sim always (fut_bind (fut_lift k_begin_exchange) (\<lambda>_. k_bind_loop K X sm))
      (fut_bind (fut_lift begin_exchange) (\<lambda>_. a_bind_loop X sm))" for sm
    by (rule sim_bind [OF begin_sim bind_loop_sim [OF assms]]) (rule begin_Ok)
  show "goes (\<lambda>(n, t). let (r, bs) = bind_start portal statement params (t_bufs t); t1 = set_bufs bs t in
      case r of Ok sm \<Rightarrow> fut_bind (fut_lift begin_exchange) (\<lambda>_. a_bind_loop X sm) (n, t1)
        | Err e \<Rightarrow> (Returned (Err e), n, t1) | Panic \<Rightarrow> (Returned Panic, n, t1)) (k_view k)
      (\<lambda>i. (q, i, k_view k')) \<or> failed q \<and> k_dead k'"
  proof (cases r)
    case (Ok sm)
    with run b have "fut_bind (fut_lift k_begin_exchange) (\<lambda>_. k_bind_loop K X sm) (n, k_set_bufs bs k) = (q, n', k')"
      by simp
    from simD [OF s this always_simp] show ?thesis by (simp add: goes_def b Ok)
  qed (use run b in \<open>auto intro!: goes_now\<close>)
qed

lemma dead_not_ready: "k_dead k \<Longrightarrow> k_ensure_exchange_ready k = Err ConnectionBroken"
  by (auto simp: k_dead_def k_ensure_exchange_ready_def)

lemma sync_inner_dead:
  "k_dead k \<Longrightarrow> \<exists>bs. k_sync_inner K X (n, k) = (Returned (Err ConnectionBroken), n, k_set_bufs bs k)"
  by (auto simp: k_sync_inner_def k_send_def fut_bind_def fut_lift_def k_begin_exchange_def
      k_ensure_exchange_ready_def k_dead_def k_set_bufs_def)

lemma portal_end_dead:
  "k_portal_end K X (Err e) (n, k) = (q, n', k') \<Longrightarrow> k_dead k \<Longrightarrow> failed q \<and> k_dead k'"
  using sync_inner_dead [of k K X n] dead_not_ready [of "k_set_bufs _ k"]
  by (auto simp: k_portal_end_def)

lemma portal_end_sim:
  assumes "appends K"
  shows "sim P (k_portal_end K X result) (t_portal_end X result)"
proof (rule simI)
  fix n k q n' k' assume run: "k_portal_end K X result (n, k) = (q, n', k')"
  obtain p n1 k1 where y: "k_sync_inner K X (n, k) = (p, n1, k1)" by (cases "k_sync_inner K X (n, k)")
  from simD [OF sync_inner_sim [OF assms] y always_simp]
  show "goes (t_portal_end X result) (k_view k) (\<lambda>i. (q, i, k_view k')) \<or> failed q \<and> k_dead k'"
  proof
    assume g: "goes (t_sync_inner X) (k_view k) (\<lambda>i. (p, i, k_view k1))"
    have "goes (t_portal_end X result) (k_view k) (\<lambda>i. (q, i, k_view k'))"
      by (rule goes_after [OF g])
        (use run y in \<open>auto simp: k_portal_end_def t_portal_end_def split: outcome.splits res.splits\<close>)
    then show ?thesis ..
  next
    assume "failed p \<and> k_dead k1"
    with run y show ?thesis
      by (auto simp: k_portal_end_def failed_def dead_not_ready split: outcome.splits res.splits)
  qed
qed

lemma portal_rest_sim:
  assumes "appends K" and "sim always f f'"
  shows "sim P (\<lambda>s. case f s of (Dropped, s1) \<Rightarrow> (Dropped, s1) | (Returned Panic, s1) \<Rightarrow> (Returned Panic, s1)
      | (Returned result, s1) \<Rightarrow> k_portal_end K X result s1)
    (\<lambda>s. case f' s of (Dropped, s1) \<Rightarrow> (Dropped, s1) | (Returned Panic, s1) \<Rightarrow> (Returned Panic, s1)
      | (Returned result, s1) \<Rightarrow> t_portal_end X result s1)" (is "sim P ?k ?t")
proof (rule simI)
  fix n k q n' k' assume run: "?k (n, k) = (q, n', k')"
  obtain p n1 k1 where f: "f (n, k) = (p, n1, k1)" by (cases "f (n, k)")
  from simD [OF assms(2) f always_simp]
  show "goes ?t (k_view k) (\<lambda>i. (q, i, k_view k')) \<or> failed q \<and> k_dead k'"
  proof
    assume g: "goes f' (k_view k) (\<lambda>i. (p, i, k_view k1))"
    show ?thesis
    proof (cases "p = Dropped \<or> p = Returned Panic")
      case True
      have "goes ?t (k_view k) (\<lambda>i. (p, i, k_view k1))"
        by (rule goes_after [OF g]) (use True in auto)
      with True run f show ?thesis by auto
    next
      case False
      then obtain r where p: "p = Returned r" "r \<noteq> Panic" by (cases p) auto
      with run f have "k_portal_end K X r (n1, k1) = (q, n', k')" by (cases r) auto
      note e = simD [OF portal_end_sim [OF assms(1)] this always_simp]
      have "goes ?t (k_view k) r'" if "goes (t_portal_end X r) (k_view k1) r'" for r'
        by (rule goes_trans [OF g that]) (use p in \<open>cases r; simp\<close>)
      with e show ?thesis by auto
    qed
  next
    assume d: "failed p \<and> k_dead k1"
    show ?thesis
    proof (cases "\<exists>e. p = Returned (Err e)")
      case True
      then obtain e where e: "p = Returned (Err e)" by blast
      with run f have "k_portal_end K X (Err e) (n1, k1) = (q, n', k')" by simp
      from portal_end_dead [OF this] d show ?thesis by blast
    qed (use d run f in \<open>auto simp: failed_def split: outcome.splits res.splits\<close>)
  qed
qed

lemma exec_portal_sim:
  assumes "appends K" and "sim always f f'"
  shows "sim P (k_exec_portal K X statement params f) (t_exec_portal X statement params f')"
  unfolding k_exec_portal_def t_exec_portal_def
proof (rule sim_usable, rule sim_mark, rule simI)
  fix n q n' and k k' :: kconn
  assume run: "k_exec_portal_inner K X statement params f (n, k) = (q, n', k')"
  obtain r bs where b: "bind_start [] statement params (k_bufs k) = (r, bs)" by fastforce
  show "goes (t_exec_portal_inner X statement params f') (k_view k) (\<lambda>i. (q, i, k_view k')) \<or> failed q \<and> k_dead k'"
  proof (cases r)
    case (Ok sm)
    let ?k = "(k_set_bufs bs k)\<lparr>k_scope := True\<rparr>"
    have inner: "sim k_dead (fut_bind (k_bind_loop K X sm) (\<lambda>_ s. case f s of (Dropped, s1) \<Rightarrow> (Dropped, s1)
        | (Returned Panic, s1) \<Rightarrow> (Returned Panic, s1) | (Returned result, s1) \<Rightarrow> k_portal_end K X result s1))
      (fut_bind (a_bind_loop X sm) (\<lambda>_ s. case f' s of (Dropped, s1) \<Rightarrow> (Dropped, s1)
        | (Returned Panic, s1) \<Rightarrow> (Returned Panic, s1) | (Returned result, s1) \<Rightarrow> t_portal_end X result s1))"
      by (rule sim_bind [OF bind_loop_sim [OF assms(1)] portal_rest_sim [OF assms, of always]]) simp
    from run b Ok have "fut_bind (fut_lift k_begin_exchange) (\<lambda>_. fut_bind (k_bind_loop K X sm) (\<lambda>_ s.
        case f s of (Dropped, s1) \<Rightarrow> (Dropped, s1) | (Returned Panic, s1) \<Rightarrow> (Returned Panic, s1)
        | (Returned result, s1) \<Rightarrow> k_portal_end K X result s1)) (n, ?k) = (q, n', k')"
      by (simp add: k_exec_portal_inner_def)
    from simD [OF sim_bind [OF begin_sim [of always] inner begin_Ok] this always_simp] b Ok
    show ?thesis by (auto simp: goes_def t_exec_portal_inner_def)
  qed (use run b in \<open>auto simp: k_exec_portal_inner_def t_exec_portal_inner_def intro!: goes_now\<close>)
qed


lemma query_drop_dead:
  "k_dead k \<Longrightarrow> k_query_drop K X sql (n, k) = (Returned (Err ConnectionBroken), n, k)"
  by (auto simp: k_dead_def k_query_drop_def k_with_rows_def k_query_def k_ensure_usable_def k_is_broken_def)

text \<open>What \<open>transaction\<close> does after its closure.\<close>

lemma transaction_end_sim:
  assumes "appends K"
  shows "sim P (\<lambda>(n, k). if conn_in_transaction (k_base k) then
        (case result of
           Ok _ \<Rightarrow> fut_bind (k_query_drop K X (ascii ''COMMIT'')) (\<lambda>_ s3. (Returned result, s3)) (n, k)
         | _ \<Rightarrow> (case k_query_drop K X (ascii ''ROLLBACK'') (n, k) of
              (Dropped, s3) \<Rightarrow> (Dropped, s3)
            | (Returned Panic, s3) \<Rightarrow> (Returned Panic, s3)
            | (_, s3) \<Rightarrow> (Returned result, s3)))
      else (Returned result, n, k))
    (\<lambda>(n, t). if conn_in_transaction (t_base t) then
        (case result of
           Ok _ \<Rightarrow> fut_bind (t_query_drop X (ascii ''COMMIT'')) (\<lambda>_ s3. (Returned result, s3)) (n, t)
         | _ \<Rightarrow> (case t_query_drop X (ascii ''ROLLBACK'') (n, t) of
              (Dropped, s3) \<Rightarrow> (Dropped, s3)
            | (Returned Panic, s3) \<Rightarrow> (Returned Panic, s3)
            | (_, s3) \<Rightarrow> (Returned result, s3)))
      else (Returned result, n, t))" (is "sim P ?k ?t")
proof (rule simI)
  fix n k q n' k' assume run: "?k (n, k) = (q, n', k')"
  consider (out) "\<not> conn_in_transaction (k_base k)" | (commit) x where "conn_in_transaction (k_base k)" "result = Ok x"
    | (rollback) "conn_in_transaction (k_base k)" "failed (Returned result)"
    by (cases result) auto
  then show "goes ?t (k_view k) (\<lambda>i. (q, i, k_view k')) \<or> failed q \<and> k_dead k'"
  proof cases
    case out
    with run show ?thesis by (auto intro!: goes_now)
  next
    case commit
    have "sim always (fut_bind (k_query_drop K X (ascii ''COMMIT'')) (\<lambda>_ s3. (Returned result, s3)))
        (fut_bind (t_query_drop X (ascii ''COMMIT'')) (\<lambda>_ s3. (Returned result, s3)))"
      by (rule sim_bind [OF rows_sims(1) [OF assms], where Q = always]) (auto intro!: simI goes_now)
    from simD [OF this, of n k q n' k'] run commit show ?thesis by (auto simp: goes_def)
  next
    case rollback
    obtain p n1 k1 where y: "k_query_drop K X (ascii ''ROLLBACK'') (n, k) = (p, n1, k1)"
      by (cases "k_query_drop K X (ascii ''ROLLBACK'') (n, k)")
    from simD [OF rows_sims(1) [OF assms] y always_simp] show ?thesis
    proof
      assume g: "goes (t_query_drop X (ascii ''ROLLBACK'')) (k_view k) (\<lambda>i. (p, i, k_view k1))"
      have "goes ?t (k_view k) (\<lambda>i. (q, i, k_view k'))"
        by (rule goes_after [OF g])
          (use run y rollback in \<open>cases result; auto split: outcome.splits res.splits\<close>)
      then show ?thesis ..
    qed (use run y rollback in \<open>cases result; auto split: outcome.splits res.splits\<close>)
  qed
qed


lemma transaction_sim:
  assumes "appends K" and "\<And>i. sim always (f i) (f' i)"
  shows "sim P (k_transaction K X f) (t_transaction X f')"
proof (rule simI)
  let ?ke = "\<lambda>result s2. if conn_in_transaction (k_base (snd s2)) then
        (case result of
           Ok _ \<Rightarrow> fut_bind (k_query_drop K X (ascii ''COMMIT'')) (\<lambda>_ s3. (Returned result, s3)) s2
         | _ \<Rightarrow> (case k_query_drop K X (ascii ''ROLLBACK'') s2 of
              (Dropped, s3) \<Rightarrow> (Dropped, s3)
            | (Returned Panic, s3) \<Rightarrow> (Returned Panic, s3)
            | (_, s3) \<Rightarrow> (Returned result, s3)))
      else (Returned result, s2)"
  let ?te = "\<lambda>result s2. if conn_in_transaction (t_base (snd s2)) then
        (case result of
           Ok _ \<Rightarrow> fut_bind (t_query_drop X (ascii ''COMMIT'')) (\<lambda>_ s3. (Returned result, s3)) s2
         | _ \<Rightarrow> (case t_query_drop X (ascii ''ROLLBACK'') s2 of
              (Dropped, s3) \<Rightarrow> (Dropped, s3)
            | (Returned Panic, s3) \<Rightarrow> (Returned Panic, s3)
            | (_, s3) \<Rightarrow> (Returned result, s3)))
      else (Returned result, s2)"
  let ?kc = "\<lambda>(n1, k1). case f (conn_id (k_base k1)) (n1, k1) of (Dropped, s2) \<Rightarrow> (Dropped, s2)
       | (Returned Panic, s2) \<Rightarrow> (Returned Panic, s2) | (Returned result, s2) \<Rightarrow> ?ke result s2"
  let ?tc = "\<lambda>(n1, t1). case f' (conn_id (t_base t1)) (n1, t1) of (Dropped, s2) \<Rightarrow> (Dropped, s2)
       | (Returned Panic, s2) \<Rightarrow> (Returned Panic, s2) | (Returned result, s2) \<Rightarrow> ?te result s2"
  have rest: "sim always ?kc ?tc"
  proof (rule simI)
    fix n k q n' k' assume run: "?kc (n, k) = (q, n', k')"
    let ?i = "conn_id (k_base k)"
    obtain p n1 k1 where c: "f ?i (n, k) = (p, n1, k1)" by (cases "f ?i (n, k)")
    from simD [OF assms(2) c always_simp]
    show "goes ?tc (k_view k) (\<lambda>i. (q, i, k_view k')) \<or> failed q \<and> k_dead k'"
    proof
      assume g: "goes (f' ?i) (k_view k) (\<lambda>i. (p, i, k_view k1))"
      show ?thesis
      proof (cases "p = Dropped \<or> p = Returned Panic")
        case True
        have "goes ?tc (k_view k) (\<lambda>i. (p, i, k_view k1))" by (rule goes_after [OF g]) (use True in auto)
        with True run c show ?thesis by auto
      next
        case False
        then obtain r where p: "p = Returned r" "r \<noteq> Panic" by (cases p) auto
        with run c have "?ke r (n1, k1) = (q, n', k')" by (cases r) auto
        then have e: "goes (\<lambda>(n, t). ?te r (n, t)) (k_view k1) (\<lambda>i. (q, i, k_view k')) \<or> failed q \<and> k_dead k'"
          using simD [OF transaction_end_sim [OF assms(1), where P = always and X = X and result = r], of n1 k1 q n' k'] by simp
        have "goes ?tc (k_view k) z" if "goes (\<lambda>(n, t). ?te r (n, t)) (k_view k1) z" for z
          by (rule goes_trans [OF g that]) (use p in \<open>cases r; auto\<close>)
        with e show ?thesis by auto
      qed
    next
      assume d: "failed p \<and> k_dead k1"
      with run c show ?thesis
        by (auto simp: failed_def query_drop_dead split: outcome.splits res.splits if_splits)
    qed
  qed
  have all: "sim always (fut_bind (k_query_drop K X (ascii ''BEGIN'')) (\<lambda>_. ?kc))
      (fut_bind (t_query_drop X (ascii ''BEGIN'')) (\<lambda>_. ?tc))"
    by (rule sim_bind [OF rows_sims(1) [OF assms(1)] rest]) simp
  fix n k q n' k' assume run: "k_transaction K X f (n, k) = (q, n', k')"
  show "goes (t_transaction X f') (k_view k) (\<lambda>i. (q, i, k_view k')) \<or> failed q \<and> k_dead k'"
  proof (cases "conn_in_transaction (k_base k)")
    case True
    with run show ?thesis by (auto simp: k_transaction_def t_transaction_def intro!: goes_now)
  next
    case False
    with run have "fut_bind (k_query_drop K X (ascii ''BEGIN'')) (\<lambda>_. ?kc) (n, k) = (q, n', k')"
      by (simp add: k_transaction_def)
    from simD [OF all this always_simp] False show ?thesis by (simp add: goes_def t_transaction_def)
  qed
qed


section \<open>Batches\<close>

definition ending_sim :: "(action \<Rightarrow> 'm \<Rightarrow> kconn \<Rightarrow> unit res \<times> kconn) \<Rightarrow>
    (action \<Rightarrow> 'm \<Rightarrow> tconn \<Rightarrow> unit res \<times> tconn) \<Rightarrow> bool" where
  "ending_sim ke te \<longleftrightarrow> (\<forall>a m k. te a m (k_view k) = (case ke a m k of (r, k') \<Rightarrow> (r, k_view k')))"

lemma batch_iter_sim:
  assumes "appends K" and "k_dead k" and "ending_sim ending ending'"
  shows "iter_sim (a_batch_iter step ending' m) (k_view k) (k_batch_iter K step ending m (n, k))"
proof -
  obtain r m1 bs where s: "step m (k_bufs k) = (r, m1, bs)" by (metis prod_cases3)
  note defs = k_batch_iter_def a_batch_iter_def Let_def s
  have es: "ending' a m1 (set_bufs bs (k_view k)) = (case ending a m1 (k_set_bufs bs k) of (r, k') \<Rightarrow> (r, k_view k'))"
    for a using assms(3) [unfolded ending_sim_def, rule_format, of a m1 "k_set_bufs bs k"] by simp
  show ?thesis
  proof (cases r)
    case (Ok a)
    show ?thesis
    proof (cases a)
      case ReadMessage
      show ?thesis
        by (rule iter_sim_io [OF prim_read [OF assms(1)], of "k_set_bufs bs k" _ m1 m1 n])
          (simp_all add: defs Ok ReadMessage assms(2))
    next
      case WriteAndReadMessage
      show ?thesis
        by (rule iter_sim_io [OF prim_both [OF assms(1)], of "k_set_bufs bs k" _ m1 m1 n])
          (simp_all add: defs Ok WriteAndReadMessage assms(2))
    qed (auto simp: iter_sim_def defs Ok es intro!: disjI1 goes_now split: prod.split)
  qed (auto simp: iter_sim_def defs intro!: disjI1 goes_now)
qed

lemma drive_batch_sim:
  assumes "appends K" and "ending_sim ending ending'"
  shows "run_sim (a_drive_batch step ending' m) (k_view k) (k_drive_batch K step ending m (n, k))"
proof (cases "k_begin_exchange k = (Ok (), k\<lparr>k_exchange := True\<rparr>)")
  case True
  have "run_sim (a_batch_loop step ending' m) (k_view (k\<lparr>k_exchange := True\<rparr>))
      (k_batch_loop K step ending m (n, k\<lparr>k_exchange := True\<rparr>))"
    by (rule loop_sim [of _ "k_batch_iter K step ending" _ "a_batch_iter step ending'"])
      (simp_all add: k_batch_loop.simps a_batch_loop.simps batch_iter_sim [OF assms(1) _ assms(2)] k_batch_iter_less)
  moreover have "goes (a_drive_batch step ending' m) (k_view k) r"
    if "goes (a_batch_loop step ending' m) (k_view (k\<lparr>k_exchange := True\<rparr>)) r" for r
    using that unfolding goes_def by (simp add: a_drive_batch_def True)
  ultimately show ?thesis
    by (auto simp: run_sim_def k_drive_batch_def True split: prod.splits)
next
  case False
  then have "k_begin_exchange k = (Err ConnectionBroken, k)"
    by (auto simp: k_begin_exchange_def k_ensure_exchange_ready_def split: if_splits)
  then show ?thesis by (auto simp: run_sim_def k_drive_batch_def a_drive_batch_def intro!: disjI1 goes_now)
qed

lemma endings: "ending_sim k_prepare_ending prepare_ending" "ending_sim k_batch_ending batch_ending"
  unfolding ending_sim_def
  by (intro allI; rename_tac a m k; case_tac a;
      simp add: prepare_ending_def k_prepare_ending_def batch_ending_def k_batch_ending_def)+

lemma prepare_batch_inner_sim:
  assumes "appends K"
  shows "sim always (k_prepare_batch_inner K X queries i) (t_prepare_batch_inner X queries i)"
proof (rule simI)
  fix n q n' and k k' :: kconn assume run: "k_prepare_batch_inner K X queries i (n, k) = (q, n', k')"
  obtain sm bs where b: "bp_new (k_bufs k) queries i = (sm, bs)" by fastforce
  obtain p sm1 n1 k1 where d: "k_drive_batch K (bp_step X) k_prepare_ending sm (n, k_set_bufs bs k) = (p, sm1, n1, k1)"
    by (metis prod_cases4)
  with run b have q: "q = outcome_map (\<lambda>_. bp_statements sm1) p" "k' = k1"
    by (auto simp: k_prepare_batch_inner_def)
  from drive_batch_sim [OF assms endings(1), of "bp_step X" sm "k_set_bufs bs k" n, unfolded d]
  show "goes (t_prepare_batch_inner X queries i) (k_view k) (\<lambda>j. (q, j, k_view k')) \<or> failed q \<and> k_dead k'"
    unfolding q(2) by (rule run_sim_out) (simp_all add: t_prepare_batch_inner_def b q(1))
qed

lemma prepare_batch_sim:
  assumes "appends K"
  shows "sim P (k_prepare_batch K X queries) (t_prepare_batch X queries)"
proof -
  let ?kf = "\<lambda>(n, t). if queries = [] then (Returned (Ok []), n, t) else let c = k_base t; start_idx = c_counter c + 1 in
         k_fut_mark (k_prepare_batch_inner K X queries start_idx)
           (n, t\<lparr>k_base := c\<lparr>c_counter := c_counter c + word_of_nat (length queries)\<rparr>\<rparr>)"
  let ?tf = "\<lambda>(n, t). if queries = [] then (Returned (Ok []), n, t) else let c = t_base t; start_idx = c_counter c + 1 in
         fut_mark (t_prepare_batch_inner X queries start_idx)
           (n, t\<lparr>t_base := c\<lparr>c_counter := c_counter c + word_of_nat (length queries)\<rparr>\<rparr>)"
  have "sim always ?kf ?tf"
  proof (rule simI)
    fix n q n' and k k' :: kconn assume run: "?kf (n, k) = (q, n', k')"
    show "goes ?tf (k_view k) (\<lambda>i. (q, i, k_view k')) \<or> failed q \<and> k_dead k'"
    proof (cases "queries = []")
      case False
      let ?c = "k_base k"
      from run False have "k_fut_mark (k_prepare_batch_inner K X queries (c_counter ?c + 1))
          (n, k\<lparr>k_base := ?c\<lparr>c_counter := c_counter ?c + word_of_nat (length queries)\<rparr>\<rparr>) = (q, n', k')"
        by (simp add: Let_def)
      from simD [OF sim_mark [OF prepare_batch_inner_sim [OF assms]] this always_simp] False
      show ?thesis by (auto simp: goes_def Let_def)
    qed (use run in \<open>auto intro!: goes_now\<close>)
  qed
  then show ?thesis unfolding k_prepare_batch_def t_prepare_batch_def by (rule sim_usable)
qed

lemma exec_chunk_sim:
  assumes "appends K"
  shows "sim P (k_exec_chunk K X statement oids name chunk) (t_exec_chunk X statement oids name chunk)"
proof (rule simI)
  fix n q n' and k k' :: kconn assume run: "k_exec_chunk K X statement oids name chunk (n, k) = (q, n', k')"
  let ?w0 = "case statement of Sql sql \<Rightarrow> write_parse [] [] sql oids | Prepared _ \<Rightarrow> []"
  let ?nm = "case statement of Sql _ \<Rightarrow> [] | Prepared _ \<Rightarrow> name"
  let ?new = "batch_new (case statement of Sql _ \<Rightarrow> True | Prepared _ \<Rightarrow> False)"
  obtain r w where w: "write_executions ?w0 ?nm oids chunk = (r, w)" by fastforce
  show "goes (t_exec_chunk X statement oids name chunk) (k_view k) (\<lambda>i. (q, i, k_view k')) \<or> failed q \<and> k_dead k'"
  proof (cases r)
    case (Ok u)
    let ?k = "k_set_bufs ((k_bufs k)\<lparr>write_buffer := write_sync w\<rparr>) k"
    obtain p sm n1 k1 where d: "k_drive_batch K (batch_step X) k_batch_ending ?new (n, ?k) = (p, sm, n1, k1)"
      by (metis prod_cases4)
    with run w Ok have q: "q = p" "k' = (if p = Returned (Ok ()) then k_set_tx (bt_tx sm) k1 else k1)"
      by (auto simp: k_exec_chunk_def Let_def)
    from drive_batch_sim [OF assms endings(2), of "batch_step X" ?new ?k n, unfolded d]
    show ?thesis
    proof (rule run_sim_cases)
      assume g: "goes (a_drive_batch (batch_step X) batch_ending ?new) (k_view ?k) (\<lambda>i. (p, sm, i, k_view k1))"
      have "goes (t_exec_chunk X statement oids name chunk) (k_view k) (\<lambda>i. (q, i, k_view k'))"
        by (rule goes_after [OF g]) (use w Ok q in \<open>simp add: t_exec_chunk_def Let_def\<close>)
      then show ?thesis ..
    qed (use q in \<open>auto simp: failed_def\<close>)
  qed (use run w in \<open>auto simp: k_exec_chunk_def t_exec_chunk_def Let_def intro!: goes_now\<close>)
qed

lemma exec_chunks_sim:
  assumes "appends K"
  shows "sim always (k_exec_chunks K X statement oids name cs) (t_exec_chunks X statement oids name cs)"
proof (induction cs)
  case Nil
  show ?case by (auto intro!: simI goes_now)
next
  case (Cons c cs)
  have "sim always (fut_bind (k_exec_chunk K X statement oids name c) (\<lambda>_. k_exec_chunks K X statement oids name cs))
      (fut_bind (t_exec_chunk X statement oids name c) (\<lambda>_. t_exec_chunks X statement oids name cs))"
    by (rule sim_bind [OF exec_chunk_sim [OF assms] Cons.IH]) simp
  then show ?case by (simp add: gsim_def goes_def)
qed

lemma exec_batch_sim:
  assumes "appends K"
  shows "sim P (k_exec_batch_chunked K X statement params_list chunk_size) (t_exec_batch_chunked X statement params_list chunk_size)"
  unfolding k_exec_batch_chunked_def t_exec_batch_chunked_def
proof (rule sim_usable, rule sim_mark)
  show "sim always (k_exec_batch_inner K X statement params_list chunk_size) (t_exec_batch_inner X statement params_list chunk_size)"
  proof (cases "params_list = []")
    case True
    then show ?thesis by (auto intro!: simI goes_now simp: k_exec_batch_inner_def t_exec_batch_inner_def)
  next
    case False
    with exec_chunks_sim [OF assms] show ?thesis
      by (auto simp: gsim_def goes_def k_exec_batch_inner_def t_exec_batch_inner_def split: prod.splits)
  qed
qed


section \<open>Portal handles and transactions\<close>

lemma named_close_sim: "appends K \<Longrightarrow> sim P (k_named_close K X p) (t_named_close X p)"
  unfolding k_named_close_def t_named_close_def
  by (rule sim_bind [OF close_portal_sim sync_sim [where P = always]]) simp_all

lemma own_connection_sim:
  assumes "sim always m m'"
  shows "sim P (k_own_connection tx m) (own_connection tx m')"
proof (rule simI)
  fix n k q n' k' assume run: "k_own_connection tx m (n, k) = (q, n', k')"
  show "goes (own_connection tx m') (k_view k) (\<lambda>i. (q, i, k_view k')) \<or> failed q \<and> k_dead k'"
  proof (cases "tx = conn_id (k_base k)")
    case True
    with run have "m (n, k) = (q, n', k')" by (simp add: k_own_connection_def)
    from simD [OF assms this always_simp] True show ?thesis by (simp add: goes_def own_connection_def)
  qed (use run in \<open>auto simp: k_own_connection_def own_connection_def intro!: goes_now\<close>)
qed

lemma commit_sim:
  assumes "appends K"
  shows "sim P (k_own_connection tx (fut_bind (k_query_drop K X sql) (\<lambda>_ s. (Returned (Ok ()), s))))
    (own_connection tx (fut_bind (t_query_drop X sql) (\<lambda>_ s. (Returned (Ok ()), s))))"
  by (rule own_connection_sim, rule sim_bind [OF rows_sims(1) [OF assms], where Q = always])
    (auto intro!: simI goes_now)

lemma commit_sims:
  assumes "appends K"
  shows "sim P (k_commit K X tx) (t_commit X tx)" "sim P (k_rollback K X tx) (t_rollback X tx)"
  unfolding k_commit_def t_commit_def k_rollback_def t_rollback_def by (rule commit_sim [OF assms])+

lemma named_portal_sim:
  assumes "appends K"
  shows "sim P (k_exec_portal_named K X tx statement params) (t_exec_portal_named X tx statement params)"
  unfolding k_exec_portal_named_def t_exec_portal_named_def
proof (rule own_connection_sim)
  let ?kf = "\<lambda>(n, t). let (name, c1) = next_portal_name (k_base t) in
      fut_bind (k_fut_mark (k_create_portal K X name statement params))
        (\<lambda>_ s. (Returned (Ok \<lparr>np_name = name, np_complete = False\<rparr>), s)) (n, t\<lparr>k_base := c1\<rparr>)"
  let ?tf = "\<lambda>(n, t). let (name, c1) = next_portal_name (t_base t) in
      fut_bind (fut_mark (t_create_portal X name statement params))
        (\<lambda>_ s. (Returned (Ok \<lparr>np_name = name, np_complete = False\<rparr>), s)) (n, t\<lparr>t_base := c1\<rparr>)"
  show "sim always ?kf ?tf"
  proof (rule simI)
    fix n q n' and k k' :: kconn assume run: "?kf (n, k) = (q, n', k')"
    obtain name c1 where c: "next_portal_name (k_base k) = (name, c1)" by fastforce
    have v: "next_portal_name (t_base (k_view k)) = (name, t_base (k_view (k\<lparr>k_base := c1\<rparr>)))"
      "k_view (k\<lparr>k_base := c1\<rparr>) = (k_view k)\<lparr>t_base := t_base (k_view (k\<lparr>k_base := c1\<rparr>))\<rparr>"
      using c by (auto simp: next_portal_name_def k_view_def k_stream_def Let_def)
    let ?kb = "fut_bind (k_fut_mark (k_create_portal K X name statement params))
        (\<lambda>_ s. (Returned (Ok \<lparr>np_name = name, np_complete = False\<rparr>), s))"
    let ?tb = "fut_bind (fut_mark (t_create_portal X name statement params))
        (\<lambda>_ s. (Returned (Ok \<lparr>np_name = name, np_complete = False\<rparr>), s))"
    have "sim always ?kb ?tb"
      by (rule sim_bind [OF sim_mark [OF create_portal_sim [OF assms]], where Q = always])
        (auto intro!: simI goes_now)
    from simD [OF this, of n "k\<lparr>k_base := c1\<rparr>"] run c
    have "goes ?tb (k_view (k\<lparr>k_base := c1\<rparr>)) (\<lambda>i. (q, i, k_view k')) \<or> failed q \<and> k_dead k'" by simp
    moreover have "goes ?tf (k_view k) r" if "goes ?tb (k_view (k\<lparr>k_base := c1\<rparr>)) r" for r
      using that unfolding goes_def by (simp add: v(1)) (simp add: v(2) [symmetric])
    ultimately show "goes ?tf (k_view k) (\<lambda>i. (q, i, k_view k')) \<or> failed q \<and> k_dead k'" by blast
  qed
qed

end
