(* ===== verification/CompioReads.thy ===== *)
theory CompioReads
  imports CompioFacts
begin

text \<open>
  What the buffered stream does when nobody drops the future: it reads exactly the next message,
  however the bytes arrive, and a query returns what the synchronous query returns. And what
  happens when \<open>read\<close> does not append.
\<close>

section \<open>Reading with enough budget\<close>

abbreviation k_inp :: "kconn \<Rightarrow> bytes" where
  "k_inp k \<equiv> inp (k_stream k)"

text \<open>Every byte read costs one unit.\<close>

definition k_paid :: "nat \<times> kconn \<Rightarrow> nat \<times> kconn \<Rightarrow> bool" where
  "k_paid s s' \<longleftrightarrow> length (k_inp (snd s')) \<le> fst s' \<and>
     fst s' + length (k_inp (snd s)) = fst s + length (k_inp (snd s'))"

lemma k_read_raw_enough:
  assumes "appends K" and "length bf < READ_BUF_CAPACITY" and "length (k_inp k) \<le> n"
  obtains size where "k_read_raw K bf (n, k) = (Returned (Ok (size, bf @ take size (k_inp k))), n - size,
       k_set_stream ((k_stream k)\<lparr>inp := drop size (k_inp k)\<rparr>) (k\<lparr>k_sizes := tl (k_sizes k)\<rparr>))"
    "size \<le> length (k_inp k)" "size = 0 \<longleftrightarrow> k_inp k = []"
proof
  let ?size = "min (case k_sizes k of [] \<Rightarrow> length (k_inp k) | a # _ \<Rightarrow> max 1 a)
    (min (READ_BUF_CAPACITY - length bf) (length (k_inp k)))"
  have size: "?size \<le> length (k_inp k)" by simp
  then have "\<not> n < ?size" using assms(3) by linarith
  with assms(1) show "k_read_raw K bf (n, k) = (Returned (Ok (?size, bf @ take ?size (k_inp k))), n - ?size,
       k_set_stream ((k_stream k)\<lparr>inp := drop ?size (k_inp k)\<rparr>) (k\<lparr>k_sizes := tl (k_sizes k)\<rparr>))"
    unfolding k_read_raw_def Let_def appends_def by (simp only: split if_False put_at_end)
  show "?size \<le> length (k_inp k)" by (rule size)
  show "?size = 0 \<longleftrightarrow> k_inp k = []"
    using assms(2) by (auto simp: min_def split: list.splits)
qed

lemma k_fill_buf_enough:
  assumes "appends K" and "k_available (snd s) < READ_BUF_CAPACITY" and "length (k_inp (snd s)) \<le> fst s"
  shows "if k_inp (snd s) = [] then \<exists>s'. k_fill_buf K s = (Returned (Err (Io UnexpectedEof)), s')
    else \<exists>s'. k_fill_buf K s = (Returned (Ok ()), s') \<and> k_paid s s'"
proof -
  obtain n k where s: "s = (n, k)" by (cases s)
  let ?k = "(k_compact k)\<lparr>k_read_buf := []\<rparr>"
  have "length (k_read_buf (k_compact k)) = k_available k"
    using k_compact_available [of k] unfolding k_available_def [of "k_compact k"] by simp
  with assms obtain size where
    r: "k_read_raw K (k_read_buf (k_compact k)) (n, ?k) = (Returned (Ok (size, k_read_buf (k_compact k) @ take size (k_inp k))), n - size,
       k_set_stream ((k_stream k)\<lparr>inp := drop size (k_inp k)\<rparr>) (?k\<lparr>k_sizes := tl (k_sizes ?k)\<rparr>))"
      "size \<le> length (k_inp k)" "size = 0 \<longleftrightarrow> k_inp k = []"
    using k_read_raw_enough [of K "k_read_buf (k_compact k)" ?k n] s by auto
  then have "k_fill_buf K s = (Returned (if size = 0 then Err (Io UnexpectedEof) else Ok ()), n - size,
      (k_set_stream ((k_stream k)\<lparr>inp := drop size (k_inp k)\<rparr>) (?k\<lparr>k_sizes := tl (k_sizes ?k)\<rparr>))
        \<lparr>k_read_buf := k_read_buf (k_compact k) @ take size (k_inp k)\<rparr>)"
    by (simp add: k_fill_buf_def Let_def s fut_bind_def)
  with r assms(3) s show ?thesis by (simp add: k_paid_def diff_le_mono)
qed

lemma k_paid_trans: "k_paid s s' \<Longrightarrow> k_paid s' s'' \<Longrightarrow> k_paid s s''"
  by (auto simp: k_paid_def)

lemma length_unread: "length (k_unread k) = k_available k + length (k_inp k)"
  by (simp add: k_unread_def k_available_def)

lemma unread_view: "k_view k' = k_view k \<Longrightarrow> k_unread k' = k_unread k"
  by (drule arg_cong [where f = "\<lambda>t. inp (c_stream (t_base t))"]) (simp add: k_unread_def)

lemma k_ensure_enough:
  "appends K \<Longrightarrow> l \<le> READ_BUF_CAPACITY \<Longrightarrow> length (k_inp (snd s)) \<le> fst s \<Longrightarrow>
     if l \<le> length (k_unread (snd s)) then \<exists>s'. k_ensure K l s = (Returned (Ok ()), s') \<and> k_paid s s'
     else \<exists>s'. k_ensure K l s = (Returned (Err (Io UnexpectedEof)), s')"
proof (induction K l s rule: k_ensure.induct)
  case (1 K l s)
  show ?case
  proof (cases "k_available (snd s) < l")
    case False
    with 1(4) show ?thesis by (auto simp: k_ensure.simps [of K l s] length_unread k_paid_def)
  next
    case True
    note f = k_fill_buf_enough [of K s, OF 1(2) _ 1(4)]
    show ?thesis
    proof (cases "k_inp (snd s) = []")
      case e: True
      with f True 1(3) obtain s' where "k_fill_buf K s = (Returned (Err (Io UnexpectedEof)), s')"
        by auto
      with True e show ?thesis by (simp add: k_ensure.simps [of K l s] length_unread)
    next
      case False
      with f True 1(3) obtain s' where s': "k_fill_buf K s = (Returned (Ok ()), s')" "k_paid s s'"
        by auto
      have u: "k_unread (snd s') = k_unread (snd s)"
        by (rule unread_view [OF k_fill_buf_Ok [OF 1(2) s'(1)]])
      have "if l \<le> length (k_unread (snd s')) then \<exists>s2. k_ensure K l s' = (Returned (Ok ()), s2) \<and> k_paid s' s2
         else \<exists>s2. k_ensure K l s' = (Returned (Err (Io UnexpectedEof)), s2)"
        by (rule 1(1) [OF True s'(1) [symmetric] refl refl 1(2,3)]) (use s'(2) in \<open>simp add: k_paid_def\<close>)
      with True s' u show ?thesis
        by (auto simp: k_ensure.simps [of K l s] split: if_splits intro: k_paid_trans)
    qed
  qed
qed

lemma k_read_payload_enough:
  assumes "length (k_inp k) \<le> n"
  shows "if l \<le> length (k_unread k) then \<exists>s'. k_read_payload l (n, k) = (Returned (Ok ()), s') \<and> k_paid (n, k) s'
    else \<exists>s'. k_read_payload l (n, k) = (Returned (Err (Io UnexpectedEof)), s')"
proof -
  define h where "h = min (k_available k) l"
  define b where "b = take h (drop (k_read_pos k) (k_read_buf k))"
  define k1 where "k1 = k_set_payload [] ((k_set_payload b k)\<lparr>k_read_pos := k_read_pos k + h\<rparr>)"
  have run: "k_read_payload l (n, k) = (if l = 0 then (Returned (Ok ()), n, k_set_payload [] k)
      else if l = h then (Returned (Ok ()), n, (k_set_payload b k)\<lparr>k_read_pos := k_read_pos k + h\<rparr>)
      else fut_bind (k_read_exact (l - h)) (\<lambda>slice.
            fut_lift (\<lambda>k. (Ok (), k_set_payload (b @ slice) k))) (n, k1))"
    by (simp only: k_read_payload_def Let_def h_def b_def k1_def split)
  have k1: "k_stream k1 = k_stream k" by (simp add: k1_def)
  consider "l = 0 \<or> l = h" | "l \<noteq> 0" "l \<noteq> h" by blast
  then show ?thesis
  proof cases
    case 1
    then have "l \<le> length (k_unread k)" by (auto simp: h_def length_unread)
    with 1 assms show ?thesis by (auto simp: run k_paid_def)
  next
    case 2
    then have h: "h = k_available k" by (simp add: h_def min_def split: if_splits)
    have l: "l - h \<le> length (k_inp k) \<longleftrightarrow> l \<le> length (k_unread k)"
      using h by (simp add: length_unread) linarith
    have e: "k_read_exact (l - h) (n, k1) = (if l - h \<le> length (k_inp k)
        then (Returned (Ok (take (l - h) (k_inp k))), n - (l - h),
          k_set_stream ((k_stream k)\<lparr>inp := drop (l - h) (k_inp k)\<rparr>) k1)
        else (Returned (Err (Io UnexpectedEof)), n - length (k_inp k), k_set_stream ((k_stream k)\<lparr>inp := []\<rparr>) k1))"
      using assms by (auto simp: k_read_exact_def Let_def k1)
    show ?thesis
    proof (cases "l \<le> length (k_unread k)")
      case True
      with l e have "k_read_payload l (n, k) = (Returned (Ok ()), n - (l - h), k_set_payload (b @ take (l - h) (k_inp k))
          (k_set_stream ((k_stream k)\<lparr>inp := drop (l - h) (k_inp k)\<rparr>) k1))"
        by (simp add: run 2 fut_bind_def fut_lift_def)
      with True l assms show ?thesis by (auto simp: k_paid_def)
    next
      case False
      with l e show ?thesis by (simp add: run 2 fut_bind_def)
    qed
  qed
qed

lemma parse_msg_unread:
  assumes "drop (k_read_pos k) (k_read_buf k) = ty # a # b # c # d # r"
  shows "parse_msg (k_unread k) \<noteq> None \<longleftrightarrow>
    unat (from_be_bytes [a, b, c, d] :: u32) - 4 \<le> length (r @ k_inp k)"
  by (simp add: k_unread_def assms parse_msg_def Let_def)

lemma parse_msg_short: "length d < 5 \<Longrightarrow> parse_msg d = None"
  by (cases d rule: list5) (auto simp: parse_msg_def split: list.splits)

lemma k_read_message_enough:
  assumes K: "appends K" and n: "length (k_inp k) \<le> n"
  shows "if parse_msg (k_unread k) = None
    then \<exists>s'. k_read_message K (n, k) = (Returned (Err (Io UnexpectedEof)), s')
    else \<exists>s'. k_read_message K (n, k) = (Returned (Ok ()), s') \<and> k_paid (n, k) s'"
proof -
  have c: "(5::nat) \<le> READ_BUF_CAPACITY" by (simp add: READ_BUF_CAPACITY_def)
  from n have n': "length (k_inp (snd (n, k))) \<le> fst (n, k)" by simp
  note e = k_ensure_enough [OF K c n', unfolded snd_conv fst_conv]
  show ?thesis
  proof (cases "5 \<le> length (k_unread k)")
    case False
    with e obtain s' where "k_ensure K 5 (n, k) = (Returned (Err (Io UnexpectedEof)), s')" by auto
    with False show ?thesis by (simp add: k_read_message_def fut_bind_def parse_msg_short)
  next
    case True
    with e obtain n1 k1 where s1: "k_ensure K 5 (n, k) = (Returned (Ok ()), n1, k1)" "k_paid (n, k) (n1, k1)"
      by auto
    from k_ensure_Ok [OF s1(1) K] have v: "k_view k1 = k_view k" and "5 \<le> k_available k1" by auto
    then obtain ty a b c d r where r: "drop (k_read_pos k1) (k_read_buf k1) = ty # a # b # c # d # r"
      unfolding k_available_def length_drop [symmetric]
      by (cases "drop (k_read_pos k1) (k_read_buf k1)" rule: list5) auto
    let ?l = "unat (from_be_bytes [a, b, c, d] :: u32) - 4"
    let ?k = "(k_set_bufs ((k_bufs k1)\<lparr>type_byte := ty\<rparr>) k1)\<lparr>k_read_pos := k_read_pos k1 + 5\<rparr>"
    have run: "k_read_message K (n, k) = k_read_payload ?l (n1, ?k)"
      using s1 k_take_header_run [OF r] by (simp add: k_read_message_def fut_bind_def fut_lift_def)
    have "drop (k_read_pos k1 + 5) (k_read_buf k1) = drop 5 (drop (k_read_pos k1) (k_read_buf k1))"
      by (simp add: add.commute)
    then have u: "k_unread ?k = r @ k_inp k1" by (simp add: r k_unread_def k_set_bufs_def k_stream_def)
    have i: "k_inp ?k = k_inp k1" by (simp add: k_set_bufs_def k_stream_def)
    have "length (k_inp ?k) \<le> n1" using s1(2) unfolding i by (simp add: k_paid_def)
    from k_read_payload_enough [OF this, of ?l]
    have p: "if ?l \<le> length (r @ k_inp k1) then \<exists>s'. k_read_message K (n, k) = (Returned (Ok ()), s') \<and> k_paid (n1, ?k) s'
      else \<exists>s'. k_read_message K (n, k) = (Returned (Err (Io UnexpectedEof)), s')"
      unfolding run u .
    have t: "k_paid (n, k) s'" if "k_paid (n1, ?k) s'" for s'
      using that s1(2) unfolding k_paid_def snd_conv fst_conv i by simp
    have "parse_msg (k_unread k) \<noteq> None \<longleftrightarrow> ?l \<le> length (r @ k_inp k1)"
      using parse_msg_unread [OF r] unfolding unread_view [OF v] .
    with p t show ?thesis by (auto split: if_splits)
  qed
qed

section \<open>The synchronous connection refined\<close>

text \<open>
  With enough budget \<open>m\<close> returns what \<open>f\<close> returns on the view, at a bounded cost, unless both end
  with the same I/O error.
\<close>

definition k_same :: "'a res \<Rightarrow> conn \<Rightarrow> kconn \<Rightarrow> bool" where
  "k_same r c' k' \<longleftrightarrow> t_base (k_view k') = c' \<or> (\<exists>e. r = Err (Io e))"

definition k_runs_at :: "nat \<Rightarrow> 'a kfut \<Rightarrow> conn \<Rightarrow> 'a res \<Rightarrow> conn \<Rightarrow> bool" where
  "k_runs_at b m c r c' \<longleftrightarrow> (\<forall>n \<ge> b. \<forall>k. t_base (k_view k) = c \<longrightarrow>
     (\<exists>n' k'. m (n, k) = (Returned r, n', k') \<and>
       (case r of Ok _ \<Rightarrow> n - b \<le> n' \<and> t_base (k_view k') = c' | _ \<Rightarrow> \<exists>e. r = Err (Io e))))"

definition k_runs :: "'a kfut \<Rightarrow> (conn \<Rightarrow> 'a res \<times> conn) \<Rightarrow> bool" where
  "k_runs m f \<longleftrightarrow> (\<forall>c. \<exists>b. k_runs_at b m c (fst (f c)) (snd (f c)))"

lemma conn_read_none:
  "parse_msg (inp (c_stream c)) = None \<Longrightarrow> conn_read_message c = (r, c') \<Longrightarrow> r = Err (Io UnexpectedEof)"
  by (auto simp: conn_read_message_def stream_read_message_def stream_read_u8_def parse_msg_def
      stream_read_exact_def got_def Let_def split: rtry_splits if_splits list.splits prod.splits)

lemma k_runs_read:
  assumes "appends K"
  shows "k_runs (k_read_message K) conn_read_message"
  unfolding k_runs_def
proof
  fix c :: conn
  obtain r c' where rd: "conn_read_message c = (r, c')" by fastforce
  have "k_runs_at (length (inp (c_stream c))) (k_read_message K) c r c'"
    unfolding k_runs_at_def
  proof (intro allI impI)
    fix n k assume n: "length (inp (c_stream c)) \<le> n" and v: "t_base (k_view k) = c"
    have u: "inp (c_stream c) = k_unread k" by (simp add: k_unread_def v [symmetric])
    with n have n': "length (k_inp k) \<le> n" by (simp add: length_unread)
    note e = k_read_message_enough [OF assms n']
    show "\<exists>n' k'. k_read_message K (n, k) = (Returned r, n', k') \<and>
        (case r of Ok _ \<Rightarrow> n - length (inp (c_stream c)) \<le> n' \<and> t_base (k_view k') = c' | _ \<Rightarrow> \<exists>e. r = Err (Io e))"
    proof (cases "parse_msg (k_unread k)")
      case None
      with e conn_read_none [OF _ rd] u show ?thesis by auto
    next
      case (Some x)
      with e obtain n' k' where k': "k_read_message K (n, k) = (Returned (Ok ()), n', k')" "k_paid (n, k) (n', k')"
        by auto
      from k_read_message_Ok [OF assms k'(1)] obtain m rest where m:
        "parse_msg (k_unread k) = Some (m, rest)" "t_base (k_view k') = got m rest c"
        by (auto simp: v)
      then have "conn_read_message c = (Ok (), got m rest c)" by (cases m) (auto simp: conn_read_iff u)
      with k' m rd show ?thesis by (auto simp: k_paid_def u length_unread)
    qed
  qed
  then show "\<exists>b. k_runs_at b (k_read_message K) c (fst (conn_read_message c)) (snd (conn_read_message c))"
    by (auto simp: rd)
qed

lemma k_write_run:
  "k_write_flush (n, k) = (if \<not> writable (k_stream k)
     then (Returned (Err (Io WriteFailed)), n, k)
     else if n < length (write_buffer (k_bufs k))
     then (Dropped, 0, k_set_stream ((k_stream k)\<lparr>out := out (k_stream k) @ take n (write_buffer (k_bufs k))\<rparr>) (k_set_write [] k))
     else if n = length (write_buffer (k_bufs k))
     then (Dropped, 0, k_set_stream ((k_stream k)\<lparr>out := out (k_stream k) @ write_buffer (k_bufs k)\<rparr>) k)
     else (Returned (Ok ()), n - length (write_buffer (k_bufs k)) - 1,
       k_set_stream ((k_stream k)\<lparr>out := out (k_stream k) @ write_buffer (k_bufs k)\<rparr>) k))"
  by (simp add: k_write_flush_def k_write_all_owned_def k_flush_def fut_bind_def fut_lift_def Let_def
      k_set_write_def k_set_bufs_def k_bufs_def k_stream_def k_set_stream_def)

lemma k_runs_write: "k_runs k_write_flush conn_write_flush"
  unfolding k_runs_def
proof
  fix c :: conn
  let ?b = "length (write_buffer (c_bufs c)) + 1"
  have "k_runs_at ?b k_write_flush c (fst (conn_write_flush c)) (snd (conn_write_flush c))"
    unfolding k_runs_at_def
  proof (intro allI impI)
    fix n k assume n: "?b \<le> n" and k: "t_base (k_view k) = c"
    have c: "writable (c_stream c) = writable (k_stream k)" "c_bufs c = k_bufs k" by (simp_all add: k [symmetric])
    show "\<exists>n' k'. k_write_flush (n, k) = (Returned (fst (conn_write_flush c)), n', k') \<and>
      (case fst (conn_write_flush c) of
         Ok _ \<Rightarrow> n - ?b \<le> n' \<and> t_base (k_view k') = snd (conn_write_flush c) | _ \<Rightarrow> \<exists>e. fst (conn_write_flush c) = Err (Io e))"
    proof (cases "writable (k_stream k)")
      case False
      with c show ?thesis
        by (simp add: k_write_run conn_write_flush_def stream_write_all_def)
    next
      case True
      with n c have r: "k_write_flush (n, k) = (Returned (Ok ()), n - length (write_buffer (k_bufs k)) - 1,
          k_set_stream ((k_stream k)\<lparr>out := out (k_stream k) @ write_buffer (k_bufs k)\<rparr>) k)"
        unfolding k_write_run by simp
      with k_keeps_write primD(1) [OF prim_write r] have
        "goes a_write_flush (k_view k) (\<lambda>m. (Returned (Ok ()), m,
          k_view (k_set_stream ((k_stream k)\<lparr>out := out (k_stream k) @ write_buffer (k_bufs k)\<rparr>) k)))" by simp
      then have "conn_write_flush c = (Ok (), t_base
          (k_view (k_set_stream ((k_stream k)\<lparr>out := out (k_stream k) @ write_buffer (k_bufs k)\<rparr>) k)))"
        using c True
        by (auto simp: goes_def a_write_Ok_iff k conn_write_flush_def stream_write_all_def stream_flush_def)
      with r c show ?thesis by (simp add: n)
    qed
  qed
  then show "\<exists>b. k_runs_at b k_write_flush c (fst (conn_write_flush c)) (snd (conn_write_flush c))" ..
qed

lemma k_runs_bind:
  assumes m: "k_runs m f" and g: "k_runs g h"
  shows "k_runs (fut_bind m (\<lambda>_. g)) (\<lambda>c. let (w, c2) = f c in rtry w c2 (\<lambda>_. h c2))"
  unfolding k_runs_def
proof
  fix c :: conn
  obtain w c2 where fw: "f c = (w, c2)" by fastforce
  with m obtain b1 where b1: "k_runs_at b1 m c w c2" unfolding k_runs_def by (metis fst_conv snd_conv)
  let ?r = "let (w, c2) = f c in rtry w c2 (\<lambda>_. h c2)"
  show "\<exists>b. k_runs_at b (fut_bind m (\<lambda>_. g)) c (fst ?r) (snd ?r)"
  proof (cases w)
    case (Ok u)
    obtain r c' where h: "h c2 = (r, c')" by fastforce
    with g obtain b2 where b2: "k_runs_at b2 g c2 r c'" unfolding k_runs_def by (metis fst_conv snd_conv)
    have "k_runs_at (b1 + b2) (fut_bind m (\<lambda>_. g)) c r c'"
      unfolding k_runs_at_def
    proof (intro allI impI)
      fix n k assume n: "b1 + b2 \<le> n" and k: "t_base (k_view k) = c"
      from n have "b1 \<le> n" by simp
      from b1 [unfolded k_runs_at_def Ok res.case, rule_format, OF this k] obtain n1 k1 where
        1: "m (n, k) = (Returned (Ok u), n1, k1)" "n - b1 \<le> n1" "t_base (k_view k1) = c2" by auto
      then have "b2 \<le> n1" using n by simp
      from b2 [unfolded k_runs_at_def, rule_format, OF this 1(3)] obtain n2 k2 where
        2: "g (n1, k1) = (Returned r, n2, k2)"
          "case r of Ok _ \<Rightarrow> n1 - b2 \<le> n2 \<and> t_base (k_view k2) = c' | _ \<Rightarrow> \<exists>e. r = Err (Io e)" by auto
      with 1 show "\<exists>n' k'. fut_bind m (\<lambda>_. g) (n, k) = (Returned r, n', k') \<and>
          (case r of Ok _ \<Rightarrow> n - (b1 + b2) \<le> n' \<and> t_base (k_view k') = c' | _ \<Rightarrow> \<exists>e. r = Err (Io e))"
        by (auto simp: fut_bind_def split: res.splits)
    qed
    with fw Ok h show ?thesis by auto
  next
    case (Err e)
    have "k_runs_at b1 (fut_bind m (\<lambda>_. g)) c (Err e) c2"
      unfolding k_runs_at_def
    proof (intro allI impI)
      fix n k assume n: "b1 \<le> n" and k: "t_base (k_view k) = c"
      from b1 [unfolded k_runs_at_def Err res.case, rule_format, OF n k]
      obtain n1 k1 where "m (n, k) = (Returned (Err e), n1, k1)" "\<exists>x. e = Io x" by auto
      then show "\<exists>n' k'. fut_bind m (\<lambda>_. g) (n, k) = (Returned (Err e), n', k') \<and>
          (case Err e of Ok _ \<Rightarrow> n - b1 \<le> n' \<and> t_base (k_view k') = c2 | _ \<Rightarrow> \<exists>x. Err e = Err (Io x))"
        by (simp add: fut_bind_def)
    qed
    with fw Err show ?thesis by auto
  next
    case Panic
    have "\<not> (b1 \<le> n \<and> t_base (k_view k) = c)" for n k
      using b1 [unfolded k_runs_at_def Panic res.case, rule_format, of n k] by blast
    then have "k_runs_at b1 (fut_bind m (\<lambda>_. g)) c (fst ?r) (snd ?r)"
      unfolding k_runs_at_def by blast
    then show ?thesis ..
  qed
qed

definition k_round_runs ::
    "nat \<Rightarrow> (nat \<times> kconn \<Rightarrow> (unit outcome \<times> 'm \<times> nat \<times> kconn) + ('m \<times> nat \<times> kconn)) \<Rightarrow> conn \<Rightarrow>
       (unit res \<times> 'm \<times> conn) + ('m \<times> conn) \<Rightarrow> bool" where
  "k_round_runs b it c z \<longleftrightarrow> (\<forall>n \<ge> b. \<forall>k. t_base (k_view k) = c \<longrightarrow> (case z of
     Inl (r, m', c') \<Rightarrow> \<exists>n' k'. it (n, k) = Inl (Returned r, m', n', k') \<and> k_same r c' k'
   | Inr (m', c') \<Rightarrow> \<exists>n' k'. it (n, k) = Inr (m', n', k') \<and> n - b \<le> n' \<and> t_base (k_view k') = c'))"

lemma k_io_round:
  assumes m: "k_runs m f"
    and it: "\<And>n k. t_base (k_view k) = c \<Longrightarrow> \<exists>k1. t_base (k_view k1) = c1 \<and>
      it (n, k) = (\<lambda>(q, s). case q of Returned (Ok _) \<Rightarrow> Inr (mm, s) | _ \<Rightarrow> Inl (q, mm, s)) (m (n, k1))"
    and z: "z = (let (r, c) = f c1 in case r of
           Ok _ \<Rightarrow> Inr (mm, c) | Err e \<Rightarrow> Inl (Err e, mm, c) | Panic \<Rightarrow> Inl (Panic, mm, c))"
  shows "\<exists>b. k_round_runs b it c z"
proof -
  obtain r c' where f: "f c1 = (r, c')" by fastforce
  with m obtain b where b: "k_runs_at b m c1 r c'" unfolding k_runs_def by (metis fst_conv snd_conv)
  have "k_round_runs b it c z"
    unfolding k_round_runs_def
  proof (intro allI impI)
    fix n k assume n: "b \<le> n" and k: "t_base (k_view k) = c"
    from it [OF k] obtain k1 where k1: "t_base (k_view k1) = c1"
      "it (n, k) = (\<lambda>(q, s). case q of Returned (Ok _) \<Rightarrow> Inr (mm, s) | _ \<Rightarrow> Inl (q, mm, s)) (m (n, k1))" by blast
    from b [unfolded k_runs_at_def, rule_format, OF n k1(1)] obtain n' k' where
      "m (n, k1) = (Returned r, n', k')"
      "case r of Ok _ \<Rightarrow> n - b \<le> n' \<and> t_base (k_view k') = c' | _ \<Rightarrow> \<exists>e. r = Err (Io e)" by blast
    then show "case z of
        Inl (r, m', c') \<Rightarrow> \<exists>n' k'. it (n, k) = Inl (Returned r, m', n', k') \<and> k_same r c' k'
      | Inr (m', c') \<Rightarrow> \<exists>n' k'. it (n, k) = Inr (m', n', k') \<and> n - b \<le> n' \<and> t_base (k_view k') = c'"
      by (cases r) (simp_all add: z f k1(2) k_same_def)
  qed
  then show ?thesis ..
qed

lemma view_base_async:
  "t_base (k_view (k\<lparr>k_base := conn_handle_async am (k_base k)\<rparr>)) = conn_handle_async am (t_base (k_view k))"
  by (auto simp: k_view_def k_stream_def conn_handle_async_def split: option.split)

lemma k_iter_runs:
  assumes K: "appends K"
  shows "\<exists>b. k_round_runs b (k_drive_iter K step tx m) c (drive_iter step tx m c)"
proof -
  obtain r m1 bs where s: "step m (c_bufs c) = (r, m1, bs)" by (metis prod_cases3)
  have bufs: "k_bufs k = c_bufs c" if "t_base (k_view k) = c" for k by (simp add: that [symmetric])
  note defs = k_drive_iter_def drive_iter_def Let_def s bufs
  show ?thesis
  proof (cases r)
    case (Ok a)
    show ?thesis
    proof (cases a)
      case ReadMessage
      show ?thesis
        by (rule k_io_round [OF k_runs_read [OF K], where mm = m1 and ?c1.0 = "c\<lparr>c_bufs := bs\<rparr>"])
          (auto simp: defs Ok ReadMessage intro!: exI [of _ "k_set_bufs bs _"] simp: set_bufs_def)
    next
      case Write
      show ?thesis
        by (rule k_io_round [OF k_runs_write, where mm = m1 and ?c1.0 = "c\<lparr>c_bufs := bs\<rparr>"])
          (auto simp: defs Ok Write intro!: exI [of _ "k_set_bufs bs _"] simp: set_bufs_def)
    next
      case WriteAndReadMessage
      show ?thesis
        by (rule k_io_round [OF k_runs_bind [OF k_runs_write k_runs_read [OF K]], where mm = m1
            and ?c1.0 = "c\<lparr>c_bufs := bs\<rparr>"])
          (auto simp: defs Ok WriteAndReadMessage intro!: exI [of _ "k_set_bufs bs _"] simp: set_bufs_def)
    next
      case (HandleAsyncMessageAndReadMessage am)
      show ?thesis
        by (rule k_io_round [OF k_runs_read [OF K], where mm = m1 and ?c1.0 = "conn_handle_async am (c\<lparr>c_bufs := bs\<rparr>)"])
          (auto simp: defs Ok HandleAsyncMessageAndReadMessage set_bufs_def view_base_async
            intro!: exI [of _ "(k_set_bufs bs k)\<lparr>k_base := conn_handle_async am (k_base (k_set_bufs bs k))\<rparr>" for k])
    qed (auto simp: k_round_runs_def defs Ok k_same_def k_finish_exchange_def k_set_tx_def k_set_bufs_def
        k_view_def k_stream_def)
  qed (auto simp: k_round_runs_def defs k_same_def set_bufs_def)
qed

definition k_loop_runs ::
    "compio_lib \<Rightarrow> ('m \<Rightarrow> buffer_set \<Rightarrow> action res \<times> 'm \<times> buffer_set) \<Rightarrow> ('m \<Rightarrow> tx_status) \<Rightarrow> 'm \<Rightarrow> conn \<Rightarrow>
       unit res \<times> 'm \<times> conn \<Rightarrow> bool" where
  "k_loop_runs K step tx m c z \<longleftrightarrow> (\<exists>b. \<forall>n \<ge> b. \<forall>k. t_base (k_view k) = c \<longrightarrow> (\<exists>n' k'.
     k_drive_loop K step tx m (n, k) = (Returned (fst z), fst (snd z), n', k') \<and> k_same (fst z) (snd (snd z)) k'))"

lemma k_loop_runs_step:
  assumes K: "appends K"
    and IH: "\<And>m1 c1. drive_iter step tx m c = Inr (m1, c1) \<Longrightarrow> k_loop_runs K step tx m1 c1 z"
    and stop: "\<And>q. drive_iter step tx m c = Inl q \<Longrightarrow> q = z"
  shows "k_loop_runs K step tx m c z"
proof -
  obtain b where b: "k_round_runs b (k_drive_iter K step tx m) c (drive_iter step tx m c)"
    using k_iter_runs [OF K, of step tx m c] by blast
  note round = b [unfolded k_round_runs_def, rule_format]
  show ?thesis
  proof (cases "drive_iter step tx m c")
    case (Inl q)
    with stop have q: "drive_iter step tx m c = Inl (fst z, fst (snd z), snd (snd z))" by simp
    have "\<exists>n' k'. k_drive_loop K step tx m (n, k) = (Returned (fst z), fst (snd z), n', k') \<and>
        k_same (fst z) (snd (snd z)) k'" if n: "b \<le> n" and k: "t_base (k_view k) = c" for n k
      using round [OF n k] by (auto simp: q k_drive_loop.simps [of K step tx m])
    then show ?thesis unfolding k_loop_runs_def by blast
  next
    case (Inr mc)
    obtain m1 c1 where mc: "mc = (m1, c1)" by (cases mc)
    from IH [OF Inr [unfolded mc]] obtain b2 where
      b2: "\<And>n k. b2 \<le> n \<Longrightarrow> t_base (k_view k) = c1 \<Longrightarrow> \<exists>n' k'. k_drive_loop K step tx m1 (n, k) =
        (Returned (fst z), fst (snd z), n', k') \<and> k_same (fst z) (snd (snd z)) k'"
      unfolding k_loop_runs_def by blast
    have "\<exists>n' k'. k_drive_loop K step tx m (n, k) = (Returned (fst z), fst (snd z), n', k') \<and>
        k_same (fst z) (snd (snd z)) k'" if n: "b + b2 \<le> n" and k: "t_base (k_view k) = c" for n k
    proof -
      from n have "b \<le> n" by simp
      from round [OF this k] Inr mc obtain n1 k1 where
        1: "k_drive_iter K step tx m (n, k) = Inr (m1, n1, k1)" "n - b \<le> n1" "t_base (k_view k1) = c1" by auto
      with n have "b2 \<le> n1" by simp
      from b2 [OF this 1(3)] 1(1) show ?thesis by (simp add: k_drive_loop.simps [of K step tx m])
    qed
    then show ?thesis unfolding k_loop_runs_def by blast
  qed
qed

lemma k_loop_runs_drive:
  assumes "appends K"
  shows "drive step tx m c = Some z \<Longrightarrow> k_loop_runs K step tx m c z"
proof (rule drive.raw_induct [where P = "k_loop_runs K", rotated])
  fix drv :: "('m \<Rightarrow> buffer_set \<Rightarrow> action res \<times> 'm \<times> buffer_set) \<Rightarrow> ('m \<Rightarrow> tx_status) \<Rightarrow> 'm \<Rightarrow> conn \<Rightarrow>
      (unit res \<times> 'm \<times> conn) option"
    and step :: "'m \<Rightarrow> buffer_set \<Rightarrow> action res \<times> 'm \<times> buffer_set" and tx m c z
  assume IH: "\<And>step tx m c z. drv step tx m c = Some z \<Longrightarrow> k_loop_runs K step tx m c z"
    and d: "(case drive_iter step tx m c of Inl r \<Rightarrow> Some r | Inr (m', c') \<Rightarrow> drv step tx m' c') = Some z"
  show "k_loop_runs K step tx m c z"
  proof (rule k_loop_runs_step [OF assms])
    fix m1 c1 assume "drive_iter step tx m c = Inr (m1, c1)"
    with d have "drv step tx m1 c1 = Some z" by simp
    then show "k_loop_runs K step tx m1 c1 z" by (rule IH)
  next
    fix q assume "drive_iter step tx m c = Inl q"
    with d show "q = z" by simp
  qed
qed

end
