(* ===== verification/CompioSafety.thy ===== *)
theory CompioSafety
  imports CompioReads CancelFacts
begin

text \<open>
  The compio connection as a whole: it refines the tokio connection, and the synchronous one when
  nobody drops its futures, and what they guarantee carries over: cancellation, and a usable
  connection that is in step with the server. And what becomes of the buffered stream when \<open>read\<close>
  does not append.
\<close>

section \<open>Refinement\<close>




section \<open>Cancellation\<close>

definition k_guarded :: "'a kfut \<Rightarrow> bool" where
  "k_guarded m \<longleftrightarrow> (\<forall>n k q n' k'. m (n, k) = (q, n', k') \<longrightarrow>
     (if k_is_broken k then q = Returned (Err ConnectionBroken) \<and> n' = n \<and> k' = k
      else q = Dropped \<longrightarrow> k_is_broken k'))"

definition k_drop_handler_state :: "(nat \<times> kconn \<Rightarrow> 'a outcome \<times> 'h \<times> nat \<times> kconn) \<Rightarrow> 'a kfut" where
  "k_drop_handler_state f s = (case f s of (q, h, s') \<Rightarrow> (q, s'))"

lemma k_dead_broken: "k_dead k \<Longrightarrow> k_is_broken k"
  by (auto simp: k_dead_def k_is_broken_def)

lemma view_broken [simp]: "t_is_broken (k_view k) = k_is_broken k"
  by (simp add: t_is_broken_def k_is_broken_def)

text \<open>A future that refines a guarded one is guarded, once it refuses what is broken.\<close>

lemma k_guardedI:
  assumes s: "sim always m m'" and g: "guarded m'"
    and r: "\<And>n k. k_is_broken k \<Longrightarrow> m (n, k) = (Returned (Err ConnectionBroken), n, k)"
  shows "k_guarded m"
  unfolding k_guarded_def
proof (intro allI impI)
  fix n k q n' k' assume run: "m (n, k) = (q, n', k')"
  have "k_is_broken k'" if b: "\<not> k_is_broken k" and d: "q = Dropped"
    using simD [OF s run always_simp]
  proof
    assume "goes m' (k_view k) (\<lambda>i. (q, i, k_view k'))"
    then obtain c where "m' (c + 0, k_view k) = (Dropped, 0, k_view k')" unfolding goes_def d by blast
    with g b show ?thesis unfolding guarded_def by fastforce
  qed (simp add: k_dead_broken)
  with r run show "if k_is_broken k then q = Returned (Err ConnectionBroken) \<and> n' = n \<and> k' = k
      else q = Dropped \<longrightarrow> k_is_broken k'" by auto
qed

lemma k_guarded_usable:
  "sim always (k_usable m) m' \<Longrightarrow> guarded m' \<Longrightarrow> k_guarded (k_usable m)"
  by (erule k_guardedI) (simp_all add: k_usable_def k_ensure_usable_def)

lemma run_sim_drop:
  assumes "\<And>n k. run_sim f' (k_view k) (f (n, k))"
  shows "sim always (k_drop_handler_state f) (drop_handler_state f')"
proof (rule simI)
  fix n k q n' k' assume "k_drop_handler_state f (n, k) = (q, n', k')"
  then obtain h where f: "f (n, k) = (q, h, n', k')"
    by (auto simp: k_drop_handler_state_def split: prod.splits)
  have "goes (drop_handler_state f') (k_view k) (\<lambda>i. (q, i, k_view k'))"
    if "goes f' (k_view k) (\<lambda>i. (q, h, i, k_view k'))"
    using that by (rule goes_after) (simp add: drop_handler_state_def)
  with assms [of k n] show "goes (drop_handler_state f') (k_view k) (\<lambda>i. (q, i, k_view k')) \<or> failed q \<and> k_dead k'"
    by (auto simp: run_sim_def f)
qed


section \<open>In step with the server\<close>


section \<open>Concrete runs\<close>

text \<open>A connection with some bytes in the buffer, some on the socket, which come in given pieces.\<close>

definition kconn0 :: "bytes \<Rightarrow> bytes \<Rightarrow> nat list \<Rightarrow> kconn" where
  "kconn0 buffered socket sizes = \<lparr>k_base = conn0 socket, k_exchange = False, k_scope = False,
     k_read_buf = buffered, k_read_pos = 0, k_sizes = sizes\<rparr>"

lemma appends_length [simp]: "appends length"
  by (simp add: appends_def)

lemma kconn0_view: "k_view (kconn0 b s ls) = tconn0 (b @ s)"
  by (simp add: k_view_def kconn0_def tconn0_def conn0_def k_stream_def)

text \<open>ReadyForQuery, split within the header, and one more byte.\<close>

lemma compio_run0:
  "case k_query length ext0 drop_handler None [97] (100, kconn0 [90, 0] [0, 0, 5, 84, 78] [1, 1, 9]) of
     (q, h, n', k') \<Rightarrow> q = Returned (Ok ()) \<and> h = None \<and> \<not> k_is_broken k' \<and> k_unread k' = [78]"
  by code_simp

lemma compio_run0E:
  obtains n' k' where "k_query length ext0 drop_handler None [97]
      (100, kconn0 [90, 0] [0, 0, 5, 84, 78] [1, 1, 9]) = (Returned (Ok ()), None, n', k')"
    "\<not> k_is_broken k'" "k_unread k' = [78]"
  using compio_run0 by (auto split: prod.splits)




lemma compio_dropped0:
  "fst (k_query length ext0 drop_handler None [97] (9, kconn0 [90, 0] [0, 0, 5, 84, 78] [1, 1, 9])) = Dropped"
  by code_simp



section \<open>When \<open>read\<close> does not append\<close>

text \<open>
  compio's \<open>AsyncRead::read\<close> fills the buffer it is given from its beginning (\<open>append\<close> is the one
  that adds to what is there). Then a header that arrives in two pieces is lost: here the first
  three bytes of a whole ReadyForQuery are overwritten, and the connection waits for the rest of
  a message that has come.
\<close>

lemma split_header_lost:
  "parse_msg [90, 0, 0, 0, 5, 73] = Some ((READY_FOR_QUERY, [73]), []) \<and>
   fst (k_read_message (\<lambda>_. 0) (100, kconn0 [] [90, 0, 0, 0, 5, 73] [3])) = Returned (Err (Io UnexpectedEof)) \<and>
   fst (k_read_message length (100, kconn0 [] [90, 0, 0, 0, 5, 73] [3])) = Returned (Ok ())"
  by code_simp

end
