(* ===== verification/CompioConnectFacts.thy ===== *)
theory CompioConnectFacts
  imports CompioConnect CompioSafety StartupExchange
begin

text \<open>
  Connecting over the buffered stream against the synchronous startup: in whatever pieces the
  server's answers arrive, the session is the same. And what a TLS handshake does to bytes
  that were buffered before it.
\<close>

section \<open>The startup loop\<close>

text \<open>The connection that is being built.\<close>

definition startup_conn :: "buffer_set \<Rightarrow> stream \<Rightarrow> conn" where
  "startup_conn bs s = \<lparr>c_stream = s, c_bufs = bs, c_key = None, c_params = [], c_tx = Idle,
     c_broken = False, c_counter = 0, c_async = None\<rparr>"

lemma startup_conn_view:
  "t_base (k_view (blank_kconn s sizes)) = startup_conn buffer_set_new s"
  by (simp add: k_view_def blank_kconn_def k_stream_new_def k_stream_def startup_conn_def)

lemma startup_conn_bufs:
  "t_base (k_view k) = startup_conn bs s \<Longrightarrow> k_bufs k = bs"
  "t_base (k_view k) = startup_conn bs s \<Longrightarrow> t_base (k_view (k_set_bufs bs' k)) = startup_conn bs' s"
  "t_base (k_view k) = startup_conn bs s \<Longrightarrow> t_base (set_bufs bs' (k_view k)) = startup_conn bs' s"
  by (drule arg_cong [where f = c_bufs], simp add: startup_conn_def)
    (simp_all add: set_bufs_def startup_conn_def)

lemma startup_conn_io:
  "stream_read_message s bs = (r, bs', s') \<Longrightarrow>
     conn_read_message (startup_conn bs s) = (r, startup_conn bs' s')"
  "(let (w, s1) = stream_write_all (write_buffer bs) s in rtry w s1 (\<lambda>_. stream_flush s1)) = (w, s') \<Longrightarrow>
     conn_write_flush (startup_conn bs s) = (w, startup_conn bs s')"
  by (auto simp: startup_conn_def conn_read_message_def conn_write_flush_def stream_write_all_def
      stream_flush_def)

text \<open>Reading the answer to the SSLRequest.\<close>

definition conn_read_u8 :: "conn \<Rightarrow> byte res \<times> conn" where
  "conn_read_u8 c = (let (b, s) = stream_read_u8 (c_stream c) in (b, c\<lparr>c_stream := s\<rparr>))"

lemma k_runs_u8:
  assumes K: "appends K"
  shows "k_runs (k_read_u8 K) conn_read_u8"
  unfolding k_runs_def
proof
  fix c :: conn
  let ?r = "conn_read_u8 c"
  have "k_runs_at (length (inp (c_stream c))) (k_read_u8 K) c (fst ?r) (snd ?r)"
    unfolding k_runs_at_def
  proof (intro allI impI)
    fix n k assume n: "length (inp (c_stream c)) \<le> n" and v: "t_base (k_view k) = c"
    have u: "inp (c_stream c) = k_unread k" by (simp add: k_unread_def v [symmetric])
    with n have n': "length (k_inp (snd (n, k))) \<le> fst (n, k)" by (simp add: length_unread)
    have cap: "1 \<le> READ_BUF_CAPACITY" by (simp add: READ_BUF_CAPACITY_def)
    note e = k_ensure_enough [OF K cap n', unfolded snd_conv]
    show "\<exists>n' k'. k_read_u8 K (n, k) = (Returned (fst ?r), n', k') \<and>
        (case fst ?r of Ok _ \<Rightarrow> n - length (inp (c_stream c)) \<le> n' \<and> t_base (k_view k') = snd ?r
         | _ \<Rightarrow> \<exists>e. fst ?r = Err (Io e))"
    proof (cases "k_unread k")
      case Nil
      with e obtain s' where "k_ensure K 1 (n, k) = (Returned (Err (Io UnexpectedEof)), s')" by auto
      with Nil u show ?thesis
        by (cases s') (simp add: k_read_u8_def fut_bind_def conn_read_u8_def stream_read_u8_def)
    next
      case (Cons ty rest)
      with e obtain n1 k1 where s1: "k_ensure K 1 (n, k) = (Returned (Ok ()), n1, k1)" "k_paid (n, k) (n1, k1)"
        by auto
      from k_ensure_Ok [OF s1(1) K] have v1: "k_view k1 = k_view k" and a1: "1 \<le> k_available k1" by auto
      then obtain bs where bs: "drop (k_read_pos k1) (k_read_buf k1) = ty # bs" and rest: "rest = bs @ k_inp k1"
        using unread_view [OF v1] Cons
        by (cases "drop (k_read_pos k1) (k_read_buf k1)") (auto simp: k_unread_def k_available_def)
      have "drop (k_read_pos k1) (k_read_buf k1) ! 0 = k_read_buf k1 ! (k_read_pos k1 + 0)"
        by (rule nth_drop) (use a1 in \<open>simp add: k_available_def\<close>)
      then have nth: "k_read_buf k1 ! k_read_pos k1 = ty" using bs by simp
      have "drop (k_read_pos k1 + 1) (k_read_buf k1) = drop 1 (drop (k_read_pos k1) (k_read_buf k1))"
        by (simp add: add.commute)
      then have tl: "drop (k_read_pos k1 + 1) (k_read_buf k1) = bs" using bs by simp
      have "k_read_u8 K (n, k) = (Returned (Ok ty), n1, k1\<lparr>k_read_pos := k_read_pos k1 + 1\<rparr>)"
        using s1 nth by (simp add: k_read_u8_def fut_bind_def fut_lift_def)
      moreover have "t_base (k_view (k1\<lparr>k_read_pos := k_read_pos k1 + 1\<rparr>)) =
          (t_base (k_view k1))\<lparr>c_stream := (c_stream (t_base (k_view k1)))\<lparr>inp := rest\<rparr>\<rparr>"
        using tl rest by (simp add: k_view_def k_stream_def)
      then have "t_base (k_view (k1\<lparr>k_read_pos := k_read_pos k1 + 1\<rparr>)) = c\<lparr>c_stream := (c_stream c)\<lparr>inp := rest\<rparr>\<rparr>"
        unfolding v1 v .
      moreover have "?r = (Ok ty, c\<lparr>c_stream := (c_stream c)\<lparr>inp := rest\<rparr>\<rparr>)"
        using u Cons by (simp add: conn_read_u8_def stream_read_u8_def)
      moreover have "n - length (inp (c_stream c)) \<le> n1"
        using s1(2) by (simp add: k_paid_def u length_unread) linarith
      ultimately show ?thesis by simp
    qed
  qed
  then show "\<exists>b. k_runs_at b (k_read_u8 K) c (fst ?r) (snd ?r)" ..
qed

text \<open>A round of the compio loop against one of the synchronous loop.\<close>

definition k_st_runs ::
    "nat \<Rightarrow> (nat \<times> kconn \<Rightarrow> (unit outcome \<times> connection_machine \<times> nat \<times> kconn) + (connection_machine \<times> nat \<times> kconn)) \<Rightarrow>
       buffer_set \<Rightarrow> stream \<Rightarrow> (unit res \<times> startup_loop_state) + startup_loop_state \<Rightarrow> bool" where
  "k_st_runs b it bs s z \<longleftrightarrow> (\<forall>n \<ge> b. \<forall>k. t_base (k_view k) = startup_conn bs s \<longrightarrow> (case z of
     Inl (r, cm', bs', s') \<Rightarrow> r = Ok () \<longrightarrow>
       (\<exists>n' k'. it (n, k) = Inl (Returned r, cm', n', k') \<and> t_base (k_view k') = startup_conn bs' s')
   | Inr (cm', bs', s') \<Rightarrow>
       \<exists>n' k'. it (n, k) = Inr (cm', n', k') \<and> n - b \<le> n' \<and> t_base (k_view k') = startup_conn bs' s'))"

lemma k_st_io:
  assumes m: "k_runs m f" and f: "f (startup_conn bs1 s) = (r, startup_conn bs2 s2)"
    and it: "\<And>n k. t_base (k_view k) = startup_conn bs s \<Longrightarrow> it (n, k) =
      (case m (n, k_set_bufs bs1 k) of (Returned (Ok x), s) \<Rightarrow> Inr (g x, s) | (q, s) \<Rightarrow> Inl (outcome_map (\<lambda>_. ()) q, cm, s))"
    and z: "case r of Ok x \<Rightarrow> z = Inr (g x, bs2, s2) | Err e \<Rightarrow> (\<exists>st. z = Inl (Err e, st)) | Panic \<Rightarrow> (\<exists>st. z = Inl (Panic, st))"
  shows "\<exists>b. k_st_runs b it bs s z"
proof -
  from m f obtain b where b: "k_runs_at b m (startup_conn bs1 s) r (startup_conn bs2 s2)"
    unfolding k_runs_def by (metis fst_conv snd_conv)
  have "k_st_runs b it bs s z"
    unfolding k_st_runs_def
  proof (intro allI impI)
    fix n k assume n: "b \<le> n" and k: "t_base (k_view k) = startup_conn bs s"
    from b [unfolded k_runs_at_def, rule_format, OF n startup_conn_bufs(2) [OF k]] obtain n' k' where
      "m (n, k_set_bufs bs1 k) = (Returned r, n', k')"
      "case r of Ok _ \<Rightarrow> n - b \<le> n' \<and> t_base (k_view k') = startup_conn bs2 s2 | _ \<Rightarrow> \<exists>e. r = Err (Io e)" by blast
    with z it [OF k] show "case z of
        Inl (r, cm', bs', s') \<Rightarrow> r = Ok () \<longrightarrow>
          (\<exists>n' k'. it (n, k) = Inl (Returned r, cm', n', k') \<and> t_base (k_view k') = startup_conn bs' s')
      | Inr (cm', bs', s') \<Rightarrow>
          \<exists>n' k'. it (n, k) = Inr (cm', n', k') \<and> n - b \<le> n' \<and> t_base (k_view k') = startup_conn bs' s'"
      by (cases r) auto
  qed
  then show ?thesis ..
qed

lemma go_on_unit:
  fixes q :: "unit outcome \<times> nat \<times> kconn"
  shows "(\<lambda>(q, s). case q of Returned (Ok _) \<Rightarrow> Inr (cm, s) | _ \<Rightarrow> Inl (q, cm, s)) q =
    (case q of (Returned (Ok x), s) \<Rightarrow> Inr (cm, s) | (q, s) \<Rightarrow> Inl (outcome_map (\<lambda>_. ()) q, cm, s))"
  by (cases q; cases "fst q"; cases "case fst q of Returned r \<Rightarrow> r | Dropped \<Rightarrow> Panic") auto

lemma k_startup_round:
  assumes K: "appends K"
  shows "\<exists>b. k_st_runs b (k_startup_iter K X B cm) bs s
    (startup_iter X (b_tls B) False upgrade (b_nonce B) (cm, bs, s))"
proof -
  obtain r cm1 bs1 where st: "cm_step X (b_tls B) (b_nonce B) cm bs = (r, cm1, bs1)" by (metis prod_cases3)
  note d = k_startup_iter_def startup_iter_def Let_def st startup_conn_bufs
  obtain rr bs2 s2 where rd: "stream_read_message s bs1 = (rr, bs2, s2)" by (metis prod_cases3)
  note rd' = startup_conn_io(1) [OF rd]
  obtain w s3 where wr: "(let (w, s1) = stream_write_all (write_buffer bs1) s in rtry w s1 (\<lambda>_. stream_flush s1)) = (w, s3)"
    by fastforce
  note wr' = startup_conn_io(2) [OF wr]
  note wr2 = wr [unfolded Let_def]
  show ?thesis
  proof (cases r)
    case (Ok a)
    have read: ?thesis if "a = ReadMessage \<or> (\<exists>am. a = HandleAsyncMessageAndReadMessage am)"
      by (rule k_st_io [OF k_runs_read [OF K] rd', where g = "\<lambda>_. cm1" and cm = cm1])
        (use that in \<open>auto simp: d Ok go_on_unit rd split: res.split\<close>)
    show ?thesis
    proof (cases a)
      case Write
      show ?thesis
        by (rule k_st_io [OF k_runs_write wr', where g = "\<lambda>_. cm1" and cm = cm1])
          (use wr2 in \<open>auto simp: d Ok Write go_on_unit split: res.split\<close>)
    next
      case WriteAndReadMessage
      obtain r3 bs3 s4 where rd3: "stream_read_message s3 bs1 = (r3, bs3, s4)" by (metis prod_cases3)
      let ?r = "rtry w bs1 (\<lambda>_. (r3, bs3))" and ?s = "snd (rtry w s3 (\<lambda>_. (r3, s4)))"
      have f: "(\<lambda>c. let (w, c2) = conn_write_flush c in rtry w c2 (\<lambda>_. conn_read_message c2)) (startup_conn bs1 s) =
          (fst ?r, startup_conn (snd ?r) ?s)"
        by (cases w) (simp_all add: wr' startup_conn_io(1) [OF rd3])
      show ?thesis
        by (rule k_st_io [OF k_runs_bind [OF k_runs_write k_runs_read [OF K]] f, where g = "\<lambda>_. cm1" and cm = cm1])
          (use wr2 rd3 in \<open>cases w; auto simp: d Ok WriteAndReadMessage go_on_unit split: res.split\<close>)+
    next
      case WriteAndReadByte
      obtain b3 s4 where rd3: "stream_read_u8 s3 = (b3, s4)" by fastforce
      have u8: "conn_read_u8 (startup_conn bs1 s3) = (b3, startup_conn bs1 s4)"
        by (simp add: conn_read_u8_def startup_conn_def rd3)
      let ?r = "rtry w () (\<lambda>_. (b3, ()))" and ?s = "snd (rtry w s3 (\<lambda>_. (b3, s4)))"
      have f: "(\<lambda>c. let (w, c2) = conn_write_flush c in rtry w c2 (\<lambda>_. conn_read_u8 c2)) (startup_conn bs1 s) =
          (fst ?r, startup_conn bs1 ?s)"
        by (cases w) (simp_all add: wr' u8)
      show ?thesis
        by (rule k_st_io [OF k_runs_bind [OF k_runs_write k_runs_u8 [OF K]] f, where g = "\<lambda>b. set_ssl_response b cm1" and cm = cm1])
          (use wr2 rd3 in \<open>cases w; cases b3; auto simp: d Ok WriteAndReadByte\<close>)+
    qed (use read in \<open>auto simp: k_st_runs_def d Ok\<close>)
  qed (auto simp: k_st_runs_def d)
qed

definition k_startup_runs :: "compio_lib \<Rightarrow> ext \<Rightarrow> build \<Rightarrow> startup_loop_state \<Rightarrow> unit res \<times> startup_loop_state \<Rightarrow> bool" where
  "k_startup_runs K X B st z \<longleftrightarrow> (fst z = Ok () \<longrightarrow> (\<exists>b. \<forall>n \<ge> b. \<forall>k.
     t_base (k_view k) = startup_conn (fst (snd st)) (snd (snd st)) \<longrightarrow>
     (\<exists>n' k'. k_startup_loop K X B (fst st) (n, k) = (Returned (Ok ()), fst (snd z), n', k') \<and>
       t_base (k_view k') = startup_conn (fst (snd (snd z))) (snd (snd (snd z))))))"

lemma k_startup_runs_step:
  assumes K: "appends K"
    and next_round: "\<And>st1. startup_iter X (b_tls B) False upgrade (b_nonce B) st = Inr st1 \<Longrightarrow> k_startup_runs K X B st1 z"
    and stop: "\<And>q. startup_iter X (b_tls B) False upgrade (b_nonce B) st = Inl q \<Longrightarrow> q = z"
  shows "k_startup_runs K X B st z"
proof -
  obtain cm bs s where st: "st = (cm, bs, s)" by (cases st)
  obtain b where b: "k_st_runs b (k_startup_iter K X B cm) bs s
      (startup_iter X (b_tls B) False upgrade (b_nonce B) st)"
    using k_startup_round [OF K] st by blast
  note round = b [unfolded k_st_runs_def, rule_format]
  show ?thesis
  proof (cases "startup_iter X (b_tls B) False upgrade (b_nonce B) st")
    case (Inl q)
    with stop have q: "startup_iter X (b_tls B) False upgrade (b_nonce B) st = Inl z" by simp
    obtain r cm' bs' s' where z: "z = (r, cm', bs', s')" by (cases z)
    have "\<exists>n' k'. k_startup_loop K X B cm (n, k) = (Returned (Ok ()), cm', n', k') \<and>
        t_base (k_view k') = startup_conn bs' s'"
      if "r = Ok ()" "b \<le> n" "t_base (k_view k) = startup_conn bs s" for n k
      using round [OF that(2,3)] that(1) by (auto simp: q z k_startup_loop.simps [of K X B cm])
    then show ?thesis unfolding k_startup_runs_def z st fst_conv snd_conv by blast
  next
    case (Inr st1)
    obtain cm1 bs1 s1 where st1: "st1 = (cm1, bs1, s1)" by (cases st1)
    show ?thesis
    proof (cases "fst z = Ok ()")
      case True
      with next_round [OF Inr] st1 obtain b2 where
        b2: "\<And>n k. b2 \<le> n \<Longrightarrow> t_base (k_view k) = startup_conn bs1 s1 \<Longrightarrow>
          \<exists>n' k'. k_startup_loop K X B cm1 (n, k) = (Returned (Ok ()), fst (snd z), n', k') \<and>
            t_base (k_view k') = startup_conn (fst (snd (snd z))) (snd (snd (snd z)))"
        unfolding k_startup_runs_def st1 fst_conv snd_conv by blast
      have "\<exists>n' k'. k_startup_loop K X B cm (n, k) = (Returned (Ok ()), fst (snd z), n', k') \<and>
          t_base (k_view k') = startup_conn (fst (snd (snd z))) (snd (snd (snd z)))"
        if n: "b + b2 \<le> n" and k: "t_base (k_view k) = startup_conn bs s" for n k
      proof -
        from n have "b \<le> n" by simp
        from round [OF this k] Inr st1 obtain n1 k1 where
          1: "k_startup_iter K X B cm (n, k) = Inr (cm1, n1, k1)" "n - b \<le> n1" "t_base (k_view k1) = startup_conn bs1 s1"
          by auto
        with n have "b2 \<le> n1" by simp
        from b2 [OF this 1(3)] 1(1) show ?thesis by (simp add: k_startup_loop.simps [of K X B cm])
      qed
      then show ?thesis unfolding k_startup_runs_def st fst_conv snd_conv by blast
    qed (simp add: k_startup_runs_def)
  qed
qed

lemma k_startup_loop_runs:
  assumes K: "appends K"
  shows "startup_loop X tls sync_tls upgrade rnd st = Some z \<Longrightarrow>
    sync_tls = False \<longrightarrow> tls = b_tls B \<longrightarrow> rnd = b_nonce B \<longrightarrow> k_startup_runs K X B st z"
proof (rule startup_loop.raw_induct [where P = "\<lambda>X tls sync_tls upgrade rnd st z.
    sync_tls = False \<longrightarrow> tls = b_tls B \<longrightarrow> rnd = b_nonce B \<longrightarrow> k_startup_runs K X B st z", rotated])
  fix loop and X :: ext and tls sync_tls :: bool and upgrade rnd st z
  assume IH: "\<And>X tls sync_tls upgrade rnd st z. loop X tls sync_tls upgrade rnd st = Some z \<Longrightarrow>
      sync_tls = False \<longrightarrow> tls = b_tls B \<longrightarrow> rnd = b_nonce B \<longrightarrow> k_startup_runs K X B st z"
    and d: "(case startup_iter X tls sync_tls upgrade rnd st of Inl r \<Rightarrow> Some r
      | Inr st' \<Rightarrow> loop X tls sync_tls upgrade rnd st') = Some z"
  show "sync_tls = False \<longrightarrow> tls = b_tls B \<longrightarrow> rnd = b_nonce B \<longrightarrow> k_startup_runs K X B st z"
  proof (intro impI, rule k_startup_runs_step [OF K, where upgrade = upgrade])
    assume B: "sync_tls = False" "tls = b_tls B" "rnd = b_nonce B"
    fix st1 assume "startup_iter X (b_tls B) False upgrade (b_nonce B) st = Inr st1"
    with d B IH [of X tls sync_tls upgrade rnd st1 z] show "k_startup_runs K X B st1 z" by simp
  next
    assume B: "sync_tls = False" "tls = b_tls B" "rnd = b_nonce B"
    fix q assume "startup_iter X (b_tls B) False upgrade (b_nonce B) st = Inl q"
    with d B show "q = z" by simp
  qed
qed

text \<open>A session the synchronous connection opens without TLS, the compio connection opens as well.\<close>

lemma k_session_opens:
  assumes "appends K" and "new_with_stream X (b_tls B) False upgrade (b_nonce B) s options = Some (Ok c)"
  obtains b where "\<And>n sizes. b \<le> n \<Longrightarrow> \<exists>n' k. k_start_session K X B s sizes options n = (Returned (Ok k), n') \<and>
    t_base (k_view k) = c \<and> k_exchange k = False \<and> k_scope k = False"
proof -
  obtain r cm bs s' where l: "startup_loop X (b_tls B) False upgrade (b_nonce B)
      (connection_new options, buffer_set_new, s) = Some (r, cm, bs, s')"
    and c: "rmap (\<lambda>_. \<lparr>c_stream = s', c_bufs = bs, c_key = cm_backend_key cm, c_params = cm_server_params cm,
      c_tx = cm_tx cm, c_broken = False, c_counter = 0, c_async = None\<rparr>) r = Ok c"
    using assms(2) by (auto simp: new_with_stream_def)
  then have r: "r = Ok ()" by (cases r) auto
  with k_startup_loop_runs [OF assms(1) l, of B]
  have "k_startup_runs K X B (connection_new options, buffer_set_new, s) (Ok (), cm, bs, s')" by simp
  then obtain b where
    b: "\<And>n k. b \<le> n \<Longrightarrow> t_base (k_view k) = startup_conn buffer_set_new s \<Longrightarrow>
      \<exists>n' k'. k_startup_loop K X B (connection_new options) (n, k) = (Returned (Ok ()), cm, n', k') \<and>
        t_base (k_view k') = startup_conn bs s'"
    unfolding k_startup_runs_def fst_conv snd_conv by blast
  show ?thesis
  proof (rule that)
    fix n sizes assume "b \<le> n"
    from b [OF this startup_conn_view] obtain n' k' where
      k': "k_startup_loop K X B (connection_new options) (n, blank_kconn s sizes) = (Returned (Ok ()), cm, n', k')"
        "t_base (k_view k') = startup_conn bs s'" by blast
    from k'(2) have "(k_base k')\<lparr>c_stream := s', c_bufs := bs\<rparr> = startup_conn bs s' \<and>
        c_bufs (k_base k') = bs \<and> (k_stream k')\<lparr>inp := k_unread k'\<rparr> = s'"
      by (cases "k_base k'") (auto simp: k_view_def startup_conn_def k_unread_def k_stream_def)
    with k' c r show "\<exists>n' k. k_start_session K X B s sizes options n = (Returned (Ok k), n') \<and>
        t_base (k_view k) = c \<and> k_exchange k = False \<and> k_scope k = False"
      by (auto simp: k_start_session_def k_view_def k_unread_def k_stream_def startup_conn_def)
  qed
qed

lemma k_connects:
  assumes "appends K" and "o_ssl_mode options = SslDisable" and "writable s"
    and "list_all2 (asks X) auths (dialog_asks d)" and "dialog_answers X (b_nonce B) options d = Some reply"
    and "session X msgs (None, []) = Some (key, params)" and "\<forall>m \<in> set msgs. small m"
    and "inp s = concat (map wire (auths @ msgs @ [(READY_FOR_QUERY, [st])])) @ rest"
  shows "\<exists>b. \<forall>n \<ge> b. \<forall>sizes. \<exists>n' k. k_start_session K X B s sizes options n = (Returned (Ok k), n') \<and>
    c_params (k_base k) = params \<and> c_key (k_base k) = key \<and> c_tx (k_base k) = tx_or_default st \<and>
    \<not> k_is_broken k \<and> k_unread k = rest \<and>
    out (k_stream k) = out s @ write_startup [] (startup_params options) @ reply"
proof -
  obtain c where c: "new_with_stream X (b_tls B) False Ok (b_nonce B) s options = Some (Ok c)"
    "c_params c = params" "c_key c = key" "c_tx c = tx_or_default st" "\<not> c_broken c"
    "c_stream c = s\<lparr>inp := rest, out := out s @ write_startup [] (startup_params options) @ reply\<rparr>"
    using connects_ok [OF assms(2-8)] by blast
  from k_session_opens [OF assms(1) c(1)] obtain b where
    b: "\<And>n sizes. b \<le> n \<Longrightarrow> \<exists>n' k. k_start_session K X B s sizes options n = (Returned (Ok k), n') \<and>
      t_base (k_view k) = c \<and> k_exchange k = False \<and> k_scope k = False" by blast
  have "c_params (k_base k) = params \<and> c_key (k_base k) = key \<and> c_tx (k_base k) = tx_or_default st \<and>
      \<not> k_is_broken k \<and> k_unread k = rest \<and> out (k_stream k) = out s @ write_startup [] (startup_params options) @ reply"
    if "t_base (k_view k) = c" "k_exchange k = False" "k_scope k = False" for k
  proof -
    have "c_params c = c_params (k_base k)" by (simp add: that(1) [symmetric] k_view_def)
    moreover have "inp (c_stream c) = k_unread k" "out (c_stream c) = out (k_stream k)"
      "c_key c = c_key (k_base k)" "c_tx c = c_tx (k_base k)" "c_broken c = c_broken (k_base k)"
      by (simp_all add: that(1) [symmetric] k_unread_def)
    ultimately show ?thesis using c(2-6) that(2,3) by (simp add: k_is_broken_def)
  qed
  with b show ?thesis by blast
qed


definition build0 :: build where
  "build0 = \<lparr>b_tls = True, b_sync_tls = True, b_upgrade = Ok, b_nonce = [120]\<rparr>"


section \<open>TLS\<close>

text \<open>
  After the handshake nothing is left of the bytes the server sent in plain text, even if they were
  read together with its answer to the SSLRequest: what is unread comes from the new stream.
\<close>

lemma k_upgrade_fresh:
  assumes "k_upgrade_to_tls B (n, k) = (Returned (Ok u), n', k')"
  obtains s where "b_upgrade B (k_stream k) = Ok s" "k_unread k' = inp s"
  using assms that
  by (auto simp: k_upgrade_to_tls_def runtime_def k_unread_def k_stream_new_def k_set_stream_def k_stream_def
      split: if_splits res.splits)

end
