(* ===== verification/CompioPoolFacts.thy ===== *)
theory CompioPoolFacts
  imports CompioPool CompioConnectFacts TokioPoolFacts
begin

text \<open>
  The compio pool, however its tasks interleave and wherever they are cancelled: how many
  connections are idle and in what state, and that nothing but its own limit keeps it from
  connecting.
\<close>

section \<open>The invariant\<close>

definition kc_idle_ok :: "kc_env \<Rightarrow> kconn \<Rightarrow> bool" where
  "kc_idle_ok E c \<longleftrightarrow> \<not> k_is_broken c \<and>
     (\<exists>c0 n n' k. k_query_drop (kc_read E) (kc_ext E) (ascii ''DISCARD ALL'') (n, c0) = (Returned (Ok k), n', c) \<and>
        at_boundary (k_unread c0) (k_unread c) (c_tx (k_base c)))"

definition kc_inv :: "kc_env \<Rightarrow> opts \<Rightarrow> kc_pool \<times> kc_client list \<Rightarrow> bool" where
  "kc_inv E options w \<longleftrightarrow> (case w of (p, ks) \<Rightarrow>
     kc_max_idle p = o_pool_max_idle_conn options \<and> length (kc_conns p) \<le> kc_max_idle p \<and>
     (\<forall>c \<in> set (kc_conns p). kc_idle_ok E c) \<and> (\<forall>c. KPushing c \<in> set ks \<longrightarrow> kc_idle_ok E c))"

lemma k_query_ok_usable:
  assumes "appends K" and "k_query K X H h sql (n, k) = (Returned (Ok u), h', n', k')"
  shows "\<not> k_is_broken k' \<and> at_boundary (k_unread k) (k_unread k') (c_tx (k_base k'))"
proof -
  from query_sim [OF assms(1), of X H h sql k n] assms(2)
  have "goes (t_query X H h sql) (k_view k) (\<lambda>i. (Returned (Ok u), h', i, k_view k'))"
    by (simp add: run_sim_def)
  then obtain c where "t_query X H h sql (c + 0, k_view k) = (Returned (Ok u), h', 0, k_view k')"
    unfolding goes_def by blast
  from query_ok_usable [OF this] show ?thesis by (simp add: k_unread_def)
qed

lemma kc_check_in_pushes:
  assumes "appends (kc_read E)" and "kc_check_in E n c = KPushing c'"
  shows "kc_idle_ok E c'"
proof -
  obtain k n' where q: "k_query_drop (kc_read E) (kc_ext E) (ascii ''DISCARD ALL'') (n, c) = (Returned (Ok k), n', c')"
    using assms(2) by (auto simp: kc_check_in_def split: if_splits outcome.splits res.splits prod.splits)
  obtain r h m t where t: "k_query (kc_read E) (kc_ext E) drop_handler None (ascii ''DISCARD ALL'') (n, c) = (r, h, m, t)"
    by (metis prod_cases4)
  with q obtain u where "r = Returned (Ok u)" "m = n'" "t = c'"
    by (cases r rule: outcome.exhaust; cases "case r of Returned z \<Rightarrow> z | Dropped \<Rightarrow> Panic")
      (auto simp: k_query_drop_def k_with_rows_def)
  with t k_query_ok_usable [OF assms(1)] q show ?thesis by (force simp: kc_idle_ok_def)
qed

lemma kc_inv_local:
  assumes "kc_inv E options (p, ks)" and "i < length ks" and "\<And>c. k = KPushing c \<Longrightarrow> kc_idle_ok E c"
  shows "kc_inv E options (p, ks[i := k])"
  using assms by (auto simp: kc_inv_def dest: set_update)

lemma kc_outcomes:
  "kc_ping_client E n c \<noteq> KPushing c'" "kc_connect_client E N sizes n p \<noteq> KPushing c'"
  by (auto simp: kc_ping_client_def kc_connect_client_def split: outcome.splits res.splits prod.splits)

lemma kc_step_inv:
  assumes K: "appends (kc_read E)" and "kc_pool_step E w w'" and "kc_inv E options w"
  shows "kc_inv E options w'"
  using assms(2)
proof cases
  case (come p ks)
  with assms(3) show ?thesis by (auto simp: kc_inv_def)
next
  case (drop i ks c p)
  with assms(3) show ?thesis by (auto simp: kc_inv_def dest: set_update)
next
  case (go i ks p p' k)
  note inv = assms(3) [unfolded go(1)]
  from go(4) show ?thesis
  proof cases
    case take
    show ?thesis
    proof (cases "rev (kc_conns p)")
      case Nil
      with inv go take show ?thesis by (auto simp: kc_take_idle_def intro!: kc_inv_local)
    next
      case (Cons c cs)
      then have cs: "kc_conns p = rev cs @ [c]" by (metis rev.simps(2) rev_rev_ident)
      with Cons take have "p' = p\<lparr>kc_conns := rev cs\<rparr>" "k = KPinging c" by (auto simp: kc_take_idle_def)
      moreover have "kc_inv E options (p\<lparr>kc_conns := rev cs\<rparr>, ks)" using inv cs by (auto simp: kc_inv_def)
      ultimately show ?thesis using go by (auto intro!: kc_inv_local)
    qed
  next
    case (push c)
    then have "KPushing c \<in> set ks" using go(3) nth_mem by metis
    with inv have "kc_inv E options (p', ks)"
      by (auto simp: kc_inv_def push kc_push_idle_def)
    with go push show ?thesis by (auto intro!: kc_inv_local)
  qed (use go inv kc_check_in_pushes [OF K] in \<open>auto simp: kc_outcomes intro!: kc_inv_local\<close>)
qed


text \<open>
  A pool of one over a Unix socket: a task connects, its client uses the connection and drops it,
  and the reset puts it back.
\<close>

definition kc_env0 :: kc_env where
  "kc_env0 = \<lparr>kc_read = length, kc_ext = ext0, kc_build = build0\<rparr>"

definition kc_opts0 :: opts where
  "kc_opts0 = opts0\<lparr>o_ssl_mode := SslDisable, o_socket := Some [47], o_pool_max_idle_conn := 1\<rparr>"

definition kc_stream0 :: stream where
  "kc_stream0 = \<lparr>inp = concat (map wire (auths0 @ session0 @ [(READY_FOR_QUERY, [73])])), out = [], writable = True\<rparr>"

definition kc_net0 :: net where
  "kc_net0 = \<lparr>net_tcp = (\<lambda>_ _. Err (Io OtherIo)), net_unix = (\<lambda>_. Ok kc_stream0), net_loopback = False\<rparr>"

lemma kc_connect0: "\<exists>n c. kc_connect_client kc_env0 kc_net0 ([3], []) n (kc_pool_new kc_opts0) = KUsing c"
proof -
  obtain msg s' where scram: "process_server_first ext0 (scram_new ext0 [120] [112]) server_first0 = (Ok msg, s')"
     "verify_server_final ext0 s' server_final0 = Ok ()" using server_first0_ok by blast
  obtain reply where r: "dialog_answers ext0 (b_nonce build0) kc_opts0
      (Scram [ascii ''SCRAM-SHA-256''] server_first0 server_final0) = Some reply"
    by (simp add: scram build0_def kc_opts0_def opts0_def)
  from k_connects [OF appends_length _ _ auths0_asks r session0_reports, of kc_stream0 73 "[]"]
  obtain b where "\<forall>n \<ge> b. \<forall>sizes. \<exists>n' k. k_start_session length ext0 build0 kc_stream0 sizes kc_opts0 n = (Returned (Ok k), n')"
    by (force simp: session0_def small_def notice0_def kc_stream0_def kc_opts0_def)
  then obtain n' k where "k_start_session length ext0 build0 kc_stream0 [3] kc_opts0 b = (Returned (Ok k), n')" by blast
  then have "kc_connect_client kc_env0 kc_net0 ([3], []) (Suc b) (kc_pool_new kc_opts0) = KUsing k"
    by (simp add: kc_connect_client_def kc_env0_def kc_net0_def kc_pool_new_def k_conn_new_def runtime_def
        k_connect_stream_def kc_opts0_def)
  then show ?thesis by blast
qed

lemma discard_all: "ascii ''DISCARD ALL'' = [68, 73, 83, 67, 65, 82, 68, 32, 65, 76, 76]"
  by code_simp

lemma kc_reset_run0:
  "(case k_query_drop length ext0 [68, 73, 83, 67, 65, 82, 68, 32, 65, 76, 76]
      (24, kconn0 [90, 0] [0, 0, 5, 73] []) of (Returned (Ok x), n, c) \<Rightarrow> True | _ \<Rightarrow> False)"
  by code_simp

lemma kc_reset0: "\<exists>c'. kc_check_in kc_env0 24 (kconn0 [90, 0] [0, 0, 5, 73] []) = KPushing c'"
proof -
  obtain q n' c' where r: "k_query_drop length ext0 [68, 73, 83, 67, 65, 82, 68, 32, 65, 76, 76]
      (24, kconn0 [90, 0] [0, 0, 5, 73] []) = (q, n', c')" by (metis prod_cases3)
  with kc_reset_run0 obtain x where "q = Returned (Ok x)"
    by (auto split: outcome.splits res.splits)
  moreover have "\<not> k_is_broken (kconn0 [90, 0] [0, 0, 5, 73] [])" by (simp add: kconn0_def k_is_broken_def)
  ultimately show ?thesis using r by (simp add: kc_check_in_def kc_env0_def discard_all)
qed

lemma kc_cycle0: "\<exists>c ks. kc_reachable kc_env0 kc_opts0 ((kc_pool_new kc_opts0)\<lparr>kc_conns := [c]\<rparr>, ks)"
proof -
  let ?p = "kc_pool_new kc_opts0" and ?c = "kconn0 [90, 0] [0, 0, 5, 73] []"
  obtain n c where con: "kc_connect_client kc_env0 kc_net0 ([3], []) n ?p = KUsing c" using kc_connect0 by blast
  obtain c' where chk: "kc_check_in kc_env0 24 ?c = KPushing c'" using kc_reset0 by blast
  have take: "kc_take_idle ?p = (?p, KConnecting)" by (simp add: kc_take_idle_def kc_pool_new_def)
  have push: "kc_push_idle c' ?p = ?p\<lparr>kc_conns := [c']\<rparr>"
    by (simp add: kc_push_idle_def kc_pool_new_def kc_opts0_def)
  have 1: "kc_pool_step kc_env0 (?p, []) (?p, [KTaking])" using kc_pool_step.come [of kc_env0 ?p "[]"] by simp
  have 2: "kc_pool_step kc_env0 (?p, [KTaking]) (?p, [KConnecting])"
    using kc_pool_step.go [of 0 "[KTaking]" kc_env0 ?p ?p KConnecting] kc_client_step.take [of kc_env0 ?p]
    by (simp add: take)
  have 3: "kc_pool_step kc_env0 (?p, [KConnecting]) (?p, [KUsing c])"
    using kc_pool_step.go [of 0 "[KConnecting]" kc_env0 ?p ?p "KUsing c"]
      kc_client_step.connect [of kc_env0 ?p kc_net0 "([3], [])" n]
    by (simp add: con)
  have 4: "kc_pool_step kc_env0 (?p, [KUsing c]) (?p, [KUsing ?c])"
    using kc_pool_step.go [of 0 "[KUsing c]" kc_env0 ?p ?p "KUsing ?c"] kc_client_step.use by simp
  have 5: "kc_pool_step kc_env0 (?p, [KUsing ?c]) (?p, [KEnded None, KCheckingIn ?c])"
    using kc_pool_step.drop [of 0 "[KUsing ?c]" ?c kc_env0 ?p] by simp
  have 6: "kc_pool_step kc_env0 (?p, [KEnded None, KCheckingIn ?c]) (?p, [KEnded None, KPushing c'])"
    using kc_pool_step.go [of 1 "[KEnded None, KCheckingIn ?c]" kc_env0 ?p ?p "KPushing c'"]
      kc_client_step.check [of kc_env0 ?p ?c 24, unfolded chk] by simp
  have 7: "kc_pool_step kc_env0 (?p, [KEnded None, KPushing c']) (?p\<lparr>kc_conns := [c']\<rparr>, [KEnded None, KEnded None])"
    using kc_pool_step.go [of 1 "[KEnded None, KPushing c']" kc_env0 ?p "?p\<lparr>kc_conns := [c']\<rparr>" "KEnded None"]
      kc_client_step.push [of kc_env0 ?p c'] by (simp add: push)
  have "(kc_pool_step kc_env0)\<^sup>*\<^sup>* (?p, []) (?p\<lparr>kc_conns := [c']\<rparr>, [KEnded None, KEnded None])"
    by (rule converse_rtranclp_into_rtranclp [OF 1 converse_rtranclp_into_rtranclp [OF 2
        converse_rtranclp_into_rtranclp [OF 3 converse_rtranclp_into_rtranclp [OF 4
        converse_rtranclp_into_rtranclp [OF 5 converse_rtranclp_into_rtranclp [OF 6 r_into_rtranclp [of "kc_pool_step kc_env0", OF 7]]]]]]])
  then show ?thesis by (auto simp: kc_reachable_def)
qed


text \<open>\<open>pool_max_concurrency\<close> is not read: any number of connections can be out at once.\<close>

lemma kc_unlimited:
  assumes "kc_reachable E options (p, ks)"
  shows "\<exists>ks'. kc_reachable E options (p, ks') \<and> length ks' = length ks + m"
proof (induction m)
  case 0
  with assms show ?case by auto
next
  case (Suc m)
  then obtain ks' where "kc_reachable E options (p, ks')" "length ks' = length ks + m" by blast
  with kc_pool_step.come [of E p ks'] show ?case
    by (intro exI [of _ "ks' @ [KTaking]"]) (auto simp: kc_reachable_def)
qed

end
