(* ===== verification/RowStructs.thy ===== *)
theory RowStructs
  imports TypedExchange
begin

text \<open>
  Rows as structs. \<open>FromRow\<close> as \<open>zero-postgres-derive/src/lib.rs\<close> generates it for a struct: the
  columns of a row are matched to the fields by name. \<open>RefFromRow\<close>, generated by the same file over
  the types of \<open>conversion/ref_row.rs\<close>: the bytes of a row are read in place as a packed struct.

  A struct is its list of fields, a name and how the type decodes; the values are in a common type,
  as for tuples. The macro writes one variable per field, so the variables are a map from the
  field's name to the value written to it, if any; \<open>map_of\<close> is the match on the column's name.
\<close>

section \<open>Derived \<open>FromRow\<close>\<close>

type_synonym 'v struct_fields = "(str \<times> (field_description \<Rightarrow> bytes option \<Rightarrow> 'v res)) list"

text \<open>The loop over the columns. A value that the row does not have is NULL.\<close>

fun match_columns ::
    "bool \<Rightarrow> 'v struct_fields \<Rightarrow> field_description list \<Rightarrow> bytes \<Rightarrow> (str \<rightharpoonup> 'v) \<Rightarrow> (str \<rightharpoonup> 'v) res"
where
  "match_columns strict fs [] remaining vars = Ok vars"
| "match_columns strict fs (field # cols) remaining vars =
     (let (next, remaining') = row_next remaining;
          v = (case next of Some v \<Rightarrow> v | None \<Rightarrow> None)
      in case map_of fs (field_name field) of
           Some d \<Rightarrow> rbind (d field v) (\<lambda>x.
             match_columns strict fs cols remaining' (vars(field_name field \<mapsto> x)))
         | None \<Rightarrow> if strict then Err (Decode ''unknown column: {}'')
             else match_columns strict fs cols remaining' vars)"

text \<open>The checks for fields without a column, then the struct, as the list of its fields' values.\<close>

fun take_fields :: "'v struct_fields \<Rightarrow> (str \<rightharpoonup> 'v) \<Rightarrow> 'v list res" where
  "take_fields [] vars = Ok []"
| "take_fields ((n, d) # fs) vars = (case vars n of
     None \<Rightarrow> Err (Decode ''missing column: {}'')
   | Some x \<Rightarrow> rmap (Cons x) (take_fields fs vars))"

definition derived_from_row ::
    "bool \<Rightarrow> 'v struct_fields \<Rightarrow> field_description list \<Rightarrow> data_row \<Rightarrow> 'v list res" where
  "derived_from_row strict fs cols row =
     rbind (match_columns strict fs cols (columns_data row) Map.empty) (take_fields fs)"

definition derived_from_row_text ::
    "bool \<Rightarrow> (str \<times> 'v from_wire) list \<Rightarrow> field_description list \<Rightarrow> data_row \<Rightarrow> 'v list res" where
  "derived_from_row_text strict fs =
     derived_from_row strict (map (\<lambda>(n, T). (n, decode_column_text T)) fs)"

definition derived_from_row_binary ::
    "bool \<Rightarrow> (str \<times> 'v from_wire) list \<Rightarrow> field_description list \<Rightarrow> data_row \<Rightarrow> 'v list res" where
  "derived_from_row_binary strict fs =
     derived_from_row strict (map (\<lambda>(n, T). (n, decode_column_binary T)) fs)"

section \<open>Fixed-size types (ref_row.rs)\<close>

text \<open>The types that implement \<open>FixedWireSize\<close>, and a value of one with \<open>len\<close> and \<open>get\<close> of
  \<open>LengthPrefixed\<close>. The zerocopy crate reads a value from exactly its bytes, as big-endian.\<close>

datatype wire_type = I8 | U8 | I16BE | U16BE | I32BE | U32BE | I64BE | U64BE | LengthPrefixed wire_type

datatype wire_view = Number int | Prefixed (lp_len: i32) (lp_get: wire_view)

fun WIRE_SIZE :: "wire_type \<Rightarrow> nat" where
  "WIRE_SIZE I8 = 1" | "WIRE_SIZE U8 = 1"
| "WIRE_SIZE I16BE = 2" | "WIRE_SIZE U16BE = 2"
| "WIRE_SIZE I32BE = 4" | "WIRE_SIZE U32BE = 4"
| "WIRE_SIZE I64BE = 8" | "WIRE_SIZE U64BE = 8"
| "WIRE_SIZE (LengthPrefixed T) = 4 + WIRE_SIZE T"

fun view_bytes :: "wire_type \<Rightarrow> bytes \<Rightarrow> wire_view" where
  "view_bytes I8 b = Number (sint (from_be_bytes b :: 8 word))"
| "view_bytes U8 b = Number (uint (from_be_bytes b :: 8 word))"
| "view_bytes I16BE b = Number (sint (from_be_bytes b :: 16 word))"
| "view_bytes U16BE b = Number (uint (from_be_bytes b :: 16 word))"
| "view_bytes I32BE b = Number (sint (from_be_bytes b :: 32 word))"
| "view_bytes U32BE b = Number (uint (from_be_bytes b :: 32 word))"
| "view_bytes I64BE b = Number (sint (from_be_bytes b :: 64 word))"
| "view_bytes U64BE b = Number (uint (from_be_bytes b :: 64 word))"
| "view_bytes (LengthPrefixed T) b = Prefixed (from_be_bytes (take 4 b)) (view_bytes T (drop 4 b))"

definition lp_is_empty :: "wire_view \<Rightarrow> bool" where "lp_is_empty v \<longleftrightarrow> lp_len v = 0"
definition lp_is_null :: "wire_view \<Rightarrow> bool" where "lp_is_null v \<longleftrightarrow> lp_len v = -1"

section \<open>Derived \<open>RefFromRow\<close>\<close>

text \<open>A packed struct lays its fields out one after the other.\<close>

definition expected_size :: "wire_type list \<Rightarrow> nat" where
  "expected_size Ts = sum_list (map WIRE_SIZE Ts)"

fun view_struct :: "wire_type list \<Rightarrow> bytes \<Rightarrow> wire_view list" where
  "view_struct [] b = []"
| "view_struct (T # Ts) b = view_bytes T (take (WIRE_SIZE T) b) # view_struct Ts (drop (WIRE_SIZE T) b)"

definition ref_from_row_binary ::
    "wire_type list \<Rightarrow> field_description list \<Rightarrow> data_row \<Rightarrow> wire_view list res" where
  "ref_from_row_binary Ts cols row =
     (let data = columns_data row in
      if length data < expected_size Ts
      then Err (Decode ''Row data too small: expected {} bytes, got {}'')
      else Ok (view_struct Ts (take (expected_size Ts) data)))"

text \<open>\<open>ForEachRefHandler\<close> and \<open>exec_foreach_ref\<close>.\<close>

definition for_each_ref_handler ::
    "wire_type list \<Rightarrow> ('s \<Rightarrow> wire_view list \<Rightarrow> unit res \<times> 's) \<Rightarrow> 's handler" where
  "for_each_ref_handler Ts f =
     \<lparr>h_result_start = (\<lambda>h cols. (Ok (), h)),
      h_row = (\<lambda>h cols row. rtry (ref_from_row_binary Ts cols row) h (\<lambda>t. f h t)),
      h_result_end = (\<lambda>h tag. (Ok (), h))\<rparr>"

definition exec_foreach_ref ::
    "ext \<Rightarrow> wire_type list \<Rightarrow> ('s \<Rightarrow> wire_view list \<Rightarrow> unit res \<times> 's) \<Rightarrow> 's \<Rightarrow>
       statement_ref \<Rightarrow> to_params \<Rightarrow> conn \<Rightarrow> (unit res \<times> 's \<times> conn) option" where
  "exec_foreach_ref X Ts f st statement params c =
     conn_exec X (for_each_ref_handler Ts f) st statement params c"

section \<open>A struct takes its fields by name\<close>

text \<open>The columns with their values, the last one of a name, and when the loop passes them all.\<close>

definition column_of ::
    "(field_description \<times> bytes option) list \<Rightarrow> str \<rightharpoonup> field_description \<times> bytes option" where
  "column_of cvs = map_of (rev (map (\<lambda>(c, v). (field_name c, c, v)) cvs))"

definition columns_decode ::
    "bool \<Rightarrow> 'v struct_fields \<Rightarrow> (field_description \<times> bytes option) list \<Rightarrow> bool" where
  "columns_decode strict fs cvs \<longleftrightarrow> (\<forall>(c, v) \<in> set cvs.
     case map_of fs (field_name c) of Some d \<Rightarrow> \<exists>x. d c v = Ok x | None \<Rightarrow> \<not> strict)"

lemma column_of_Cons:
  "column_of ((c, v) # cvs) n =
     (case column_of cvs n of Some y \<Rightarrow> Some y | None \<Rightarrow> if field_name c = n then Some (c, v) else None)"
  by (auto simp: column_of_def map_add_def split: option.splits)

lemma column_of_Nil [simp]: "column_of [] n = None"
  by (simp add: column_of_def)

lemma column_of_None: "column_of cvs n = None \<longleftrightarrow> (\<forall>(c, v) \<in> set cvs. field_name c \<noteq> n)"
  by (induction cvs) (auto simp: column_of_Cons split: option.splits)

lemma column_of_set: "column_of cvs n = Some (c, v) \<Longrightarrow> (c, v) \<in> set cvs \<and> field_name c = n"
  by (induction cvs) (auto simp: column_of_Cons split: option.splits if_splits)

lemma match_columns_Ok:
  assumes "list_all good_value vs" and "length cols \<le> length vs"
  shows "match_columns strict fs cols (concat (map enc_value vs)) vars = Ok vars' \<longleftrightarrow>
    columns_decode strict fs (zip cols vs) \<and>
    (\<forall>n. case (map_of fs n, column_of (zip cols vs) n) of
        (Some d, Some (c, v)) \<Rightarrow> \<exists>x. d c v = Ok x \<and> vars' n = Some x
      | _ \<Rightarrow> vars' n = vars n)"
  using assms
proof (induction cols arbitrary: vs vars)
  case Nil
  have e: "(case (map_of fs n, None :: (field_description \<times> bytes option) option) of
      (Some d, Some (c, v)) \<Rightarrow> \<exists>x. d c v = Ok x \<and> vars' n = Some x | _ \<Rightarrow> vars' n = vars n) \<longleftrightarrow>
      vars' n = vars n" for n
    by (cases "map_of fs n") simp_all
  show ?case unfolding match_columns.simps zip_Nil column_of_Nil e
    by (auto simp: columns_decode_def fun_eq_iff)
next
  case (Cons c cols)
  then obtain v vs' where vs: "vs = v # vs'" "good_value v" "list_all good_value vs'" "length cols \<le> length vs'"
    by (cases vs) auto
  note IH = Cons.IH [OF vs(3,4)]
  show ?case
  proof (cases "map_of fs (field_name c)")
    case None
    then have "match_columns strict fs (c # cols) (concat (map enc_value vs)) vars =
        (if strict then Err (Decode ''unknown column: {}'')
         else match_columns strict fs cols (concat (map enc_value vs')) vars)"
      by (simp add: vs(1) row_next_enc [OF vs(2)])
    moreover have "columns_decode strict fs (zip (c # cols) vs) \<longleftrightarrow>
        \<not> strict \<and> columns_decode strict fs (zip cols vs')"
      using None by (auto simp: vs(1) columns_decode_def)
    moreover have "(case (map_of fs n, column_of (zip cols vs') n) of
          (Some d, Some (c, v)) \<Rightarrow> \<exists>x. d c v = Ok x \<and> vars' n = Some x
        | _ \<Rightarrow> vars' n = vars n) \<longleftrightarrow>
        (case (map_of fs n, column_of (zip (c # cols) vs) n) of
          (Some d, Some (c, v)) \<Rightarrow> \<exists>x. d c v = Ok x \<and> vars' n = Some x
        | _ \<Rightarrow> vars' n = vars n)" for n
      using None by (auto simp: vs(1) column_of_Cons split: option.splits)
    ultimately show ?thesis using IH [of vars] by (cases strict) (simp_all only: if_True if_False res.distinct not_True_eq_False
          not_False_eq_True simp_thms)
  next
    case (Some d)
    show ?thesis
    proof (cases "\<exists>x. d c v = Ok x")
      case False
      then show ?thesis using Some
        by (auto simp: vs(1) row_next_enc [OF vs(2)] columns_decode_def rbind_eq_Ok)
    next
      case True
      then obtain x where x: "d c v = Ok x" by blast
      then have "match_columns strict fs (c # cols) (concat (map enc_value vs)) vars =
          match_columns strict fs cols (concat (map enc_value vs')) (vars(field_name c \<mapsto> x))"
        using Some by (simp add: vs(1) row_next_enc [OF vs(2)])
      moreover have "columns_decode strict fs (zip (c # cols) vs) \<longleftrightarrow> columns_decode strict fs (zip cols vs')"
        using Some x by (simp add: vs(1) columns_decode_def)
      moreover have "(case (map_of fs n, column_of (zip cols vs') n) of
            (Some d, Some (c, v)) \<Rightarrow> \<exists>x. d c v = Ok x \<and> vars' n = Some x
          | _ \<Rightarrow> vars' n = (vars(field_name c \<mapsto> x)) n) \<longleftrightarrow>
          (case (map_of fs n, column_of (zip (c # cols) vs) n) of
            (Some d, Some (c, v)) \<Rightarrow> \<exists>x. d c v = Ok x \<and> vars' n = Some x
          | _ \<Rightarrow> vars' n = vars n)" for n
        using Some x by (auto simp: vs(1) column_of_Cons split: option.splits)
      ultimately show ?thesis by (simp only: IH)
    qed
  qed
qed

lemma take_fields_Ok: "take_fields fs vars = Ok ts \<longleftrightarrow> list_all2 (\<lambda>(n, d) t. vars n = Some t) fs ts"
proof (induction fs vars arbitrary: ts rule: take_fields.induct)
  case (2 n d fs vars)
  then show ?case by (cases ts) (auto simp: rmap_eq_Ok split: option.splits)
qed auto

lemma take_fields_missing:
  "n \<in> set (map fst fs) \<Longrightarrow> vars n = None \<Longrightarrow> take_fields fs vars = Err (Decode ''missing column: {}'')"
  by (induction fs) (force split: option.splits)+

text \<open>
  C36: A struct that derives \<open>FromRow\<close>: for a row with a value for each described column, decoding
  succeeds exactly when every column with a field of its name decodes as that field's type, in
  strict mode every column has such a field, and every field has a column; each field then has the
  value of the last column of its name, wherever that column stands. When all columns decode but
  some field has none, the error is that of a missing column.
\<close>

theorem derived_row_exact:
  assumes good: "list_all good_value vs" "length cols \<le> length vs" "length vs < 2 ^ 16"
    and fields: "distinct (map fst fs)"
  shows "\<exists>row. data_row_parse (enc_data_row vs) = Ok row \<and>
    (\<forall>ts. derived_from_row strict fs cols row = Ok ts \<longleftrightarrow>
       columns_decode strict fs (zip cols vs) \<and>
       list_all2 (\<lambda>(n, d) t. \<exists>c v. column_of (zip cols vs) n = Some (c, v) \<and> d c v = Ok t) fs ts) \<and>
    (columns_decode strict fs (zip cols vs) \<and> \<not> set (map fst fs) \<subseteq> field_name ` set cols \<longrightarrow>
       derived_from_row strict fs cols row = Err (Decode ''missing column: {}''))"
proof -
  define row where "row = \<lparr>num_columns = word_of_nat (length vs), columns_data = concat (map enc_value vs)\<rparr>"
  have row: "data_row_parse (enc_data_row vs) = Ok row"
    by (simp add: row_def data_row_parse_def enc_data_row_def slice_to_def slice_from_def)
  note m = match_columns_Ok [OF good(1,2), of strict fs Map.empty]
  define vars where "vars n = (case (map_of fs n, column_of (zip cols vs) n) of
      (Some d, Some (c, v)) \<Rightarrow> (case d c v of Ok x \<Rightarrow> Some x | _ \<Rightarrow> None) | _ \<Rightarrow> None)" for n
  have vars: "match_columns strict fs cols (concat (map enc_value vs)) Map.empty = Ok vars"
    if "columns_decode strict fs (zip cols vs)"
    using that by (fastforce simp: m vars_def columns_decode_def split: option.splits dest!: column_of_set)
  have var: "vars (fst f) = Some t \<longleftrightarrow> (\<exists>c v. column_of (zip cols vs) (fst f) = Some (c, v) \<and> snd f c v = Ok t)"
    if "f \<in> set fs" for f t
  proof -
    have "map_of fs (fst f) = Some (snd f)" using that fields by simp
    then show ?thesis by (auto simp: vars_def split: option.splits res.splits)
  qed
  have "derived_from_row strict fs cols row = Ok ts \<longleftrightarrow> columns_decode strict fs (zip cols vs) \<and>
      list_all2 (\<lambda>(n, d) t. \<exists>c v. column_of (zip cols vs) n = Some (c, v) \<and> d c v = Ok t) fs ts" for ts
  proof (cases "columns_decode strict fs (zip cols vs)")
    case True
    have "derived_from_row strict fs cols row = Ok ts \<longleftrightarrow> list_all2 (\<lambda>(n, d) t. vars n = Some t) fs ts"
      by (simp add: derived_from_row_def row_def vars [OF True] take_fields_Ok)
    also have "\<dots> \<longleftrightarrow> list_all2 (\<lambda>(n, d) t. \<exists>c v. column_of (zip cols vs) n = Some (c, v) \<and> d c v = Ok t) fs ts"
      using var by (auto simp: list_all2_conv_all_nth case_prod_unfold)
    finally show ?thesis using True by simp
  qed (simp add: derived_from_row_def row_def rbind_eq_Ok m)
  moreover have "derived_from_row strict fs cols row = Err (Decode ''missing column: {}'')"
    if "columns_decode strict fs (zip cols vs)" "\<not> set (map fst fs) \<subseteq> field_name ` set cols"
  proof -
    from that(2) obtain n where n: "n \<in> set (map fst fs)" "n \<notin> field_name ` set cols" by blast
    then have "column_of (zip cols vs) n = None" by (auto simp: column_of_None dest: set_zip_leftD)
    then have "vars n = None" by (simp add: vars_def split: option.splits)
    then show ?thesis using n(1)
      by (simp add: derived_from_row_def row_def vars [OF that(1)] take_fields_missing)
  qed
  ultimately show ?thesis using row by blast
qed

text \<open>A struct of two \<open>i32\<close> fields, \<open>a\<close> and \<open>b\<close>; the row has the columns \<open>b\<close>, \<open>c\<close> and \<open>a\<close>.\<close>

definition struct0 :: "i32 struct_fields" where
  "struct0 = [([97], decode_column_binary (i32_from_wire ext0)), ([98], decode_column_binary (i32_from_wire ext0))]"

definition row_cols0 :: "field_description list" where
  "row_cols0 = [int_column\<lparr>field_name := [98]\<rparr>, int_column\<lparr>field_name := [99]\<rparr>, int_column]"

theorem derived_row_exact_witness:
  "\<exists>row. data_row_parse (enc_data_row [Some [0, 0, 0, 5], None, Some [0, 0, 0, 7]]) = Ok row \<and>
     derived_from_row False struct0 row_cols0 row = Ok [7, 5]"
proof -
  let ?vs = "[Some [0, 0, 0, 5], None, Some [0, 0, 0, 7]] :: bytes option list"
  have int: "i32_from_binary oid_INT4 [0, 0, 0, 5] = Ok 5" "i32_from_binary oid_INT4 [0, 0, 0, 7] = Ok 7"
    by (simp_all add: i32_from_binary_def be_exact_def from_be_bytes_def be_nat_def)
  have good: "list_all good_value ?vs" "length row_cols0 \<le> length ?vs" "length ?vs < 2 ^ 16"
    by (simp_all add: good_value_def row_cols0_def)
  have fields: "distinct (map fst struct0)" by (simp add: struct0_def)
  have dec: "columns_decode False struct0 (zip row_cols0 ?vs)"
    using int by (simp add: columns_decode_def struct0_def row_cols0_def int_column_def
        decode_column_binary_def i32_from_wire_def)
  have "list_all2 (\<lambda>(n, d) t. \<exists>c v. column_of (zip row_cols0 ?vs) n = Some (c, v) \<and> d c v = Ok t) struct0 [7, 5]"
    using int by (simp add: struct0_def row_cols0_def int_column_def column_of_def
        decode_column_binary_def i32_from_wire_def)
  with derived_row_exact [OF good fields, of False] dec show ?thesis by blast
qed

section \<open>A packed struct holds the row's values\<close>

text \<open>The numbers of a type that is not itself prefixed, and their bytes on the wire.\<close>

fun wire_fits :: "wire_type \<Rightarrow> int \<Rightarrow> bool" where
  "wire_fits I8 z \<longleftrightarrow> - (2 ^ 7) \<le> z \<and> z < 2 ^ 7"
| "wire_fits U8 z \<longleftrightarrow> 0 \<le> z \<and> z < 2 ^ 8"
| "wire_fits I16BE z \<longleftrightarrow> - (2 ^ 15) \<le> z \<and> z < 2 ^ 15"
| "wire_fits U16BE z \<longleftrightarrow> 0 \<le> z \<and> z < 2 ^ 16"
| "wire_fits I32BE z \<longleftrightarrow> - (2 ^ 31) \<le> z \<and> z < 2 ^ 31"
| "wire_fits U32BE z \<longleftrightarrow> 0 \<le> z \<and> z < 2 ^ 32"
| "wire_fits I64BE z \<longleftrightarrow> - (2 ^ 63) \<le> z \<and> z < 2 ^ 63"
| "wire_fits U64BE z \<longleftrightarrow> 0 \<le> z \<and> z < 2 ^ 64"
| "wire_fits (LengthPrefixed T) z \<longleftrightarrow> False"

lemma from_int_bytes:
  "LENGTH('a) = 8 * n \<Longrightarrow> (from_be_bytes (int_bytes n z) :: 'a::len word) = word_of_int z"
  using from_to_be_bytes [of "word_of_int z :: 'a word"] by (simp add: to_be_bytes_int int_bytes_def)

lemma view_int_bytes: "wire_fits T z \<Longrightarrow> view_bytes T (int_bytes (WIRE_SIZE T) z) = Number z"
  by (cases T) (simp_all add: from_int_bytes signed_of_int unsigned_of_int take_bit_int_eq_self
      signed_take_bit_int_eq_self)

lemma wire_size_fits: "wire_fits T z \<Longrightarrow> WIRE_SIZE T < 2 ^ 31"
  by (cases T) simp_all

lemma view_struct_take: "view_struct Ts (take (expected_size Ts) b) = view_struct Ts b"
proof (induction Ts arbitrary: b)
  case (Cons T Ts)
  have "drop (WIRE_SIZE T) (take (expected_size (T # Ts)) b) = take (expected_size Ts) (drop (WIRE_SIZE T) b)"
    by (simp add: expected_size_def drop_take)
  then show ?case using Cons by (simp add: expected_size_def min_def)
qed (simp add: expected_size_def)

lemma expected_size_Cons: "expected_size (T # Ts) = WIRE_SIZE T + expected_size Ts"
  by (simp add: expected_size_def)

lemma ref_from_row_binary_eq:
  "ref_from_row_binary Ts cols row =
     (if length (columns_data row) < expected_size Ts
      then Err (Decode ''Row data too small: expected {} bytes, got {}'')
      else Ok (view_struct Ts (columns_data row)))"
  by (simp add: ref_from_row_binary_def Let_def view_struct_take)

text \<open>The columns of a struct of prefixed numbers, some of them NULL.\<close>

definition number_columns :: "wire_type list \<Rightarrow> int option list \<Rightarrow> bytes option list" where
  "number_columns Ts zs = map2 (\<lambda>T. map_option (int_bytes (WIRE_SIZE T))) Ts zs"

definition numbers_fit :: "wire_type list \<Rightarrow> int option list \<Rightarrow> bool" where
  "numbers_fit Ts zs \<longleftrightarrow> list_all2 (\<lambda>T. pred_option (wire_fits T)) Ts zs"

lemma number_columns_simps [simp]:
  "number_columns [] zs = []" "length (number_columns Ts zs) = min (length Ts) (length zs)"
  "number_columns (T # Ts) (z # zs) = map_option (int_bytes (WIRE_SIZE T)) z # number_columns Ts zs"
  by (simp_all add: number_columns_def)

lemma wire_size_pos: "0 < WIRE_SIZE T"
  by (induction T) simp_all

lemma enc_value_simps:
  "enc_value None = to_be_bytes (-1 :: i32)" "enc_value (Some d) = to_be_bytes (word_of_nat (length d) :: i32) @ d"
  by (simp_all add: enc_value_def)

lemma length_number_columns:
  assumes "length Ts = length zs"
  shows "length (concat (map enc_value (number_columns Ts zs))) \<le> expected_size (map LengthPrefixed Ts)"
    and "None \<in> set zs \<Longrightarrow>
      length (concat (map enc_value (number_columns Ts zs))) < expected_size (map LengthPrefixed Ts)"
  using assms
proof (induction Ts zs rule: list_induct2)
  case (Cons T Ts z zs)
  {
    case 1
    show ?case using Cons by (cases z) (auto simp: expected_size_Cons enc_value_simps)
  next
    case 2
    show ?case using Cons(2) Cons(3) 2 wire_size_pos [of T]
      by (cases z) (auto simp: expected_size_Cons enc_value_simps)
  }
qed (simp_all add: expected_size_def)

lemma view_number_columns:
  assumes "list_all2 (\<lambda>T z. wire_fits T z) Ts zs"
  shows "view_struct (map LengthPrefixed Ts) (concat (map enc_value (number_columns Ts (map Some zs))) @ rest) =
      map2 (\<lambda>T z. Prefixed (word_of_nat (WIRE_SIZE T)) (Number z)) Ts zs"
    and "expected_size (map LengthPrefixed Ts) = length (concat (map enc_value (number_columns Ts (map Some zs))))"
  using assms
  by (induction rule: list_all2_induct)
    (simp_all add: expected_size_def enc_value_def view_int_bytes)

lemma data_row_parse_enc:
  "length vs < 2 ^ 16 \<Longrightarrow> \<exists>row. data_row_parse (enc_data_row vs) = Ok row \<and> columns_data row = concat (map enc_value vs)"
  by (simp add: data_row_parse_def enc_data_row_def slice_to_def slice_from_def)

text \<open>
  A struct that derives \<open>RefFromRow\<close>, over a row that has exactly its columns, each NULL or a
  number of the declared type: if no column is NULL the struct's fields are the numbers, each
  behind its width, and if some column is NULL the row is refused as too small.
\<close>

theorem ref_row_exact:
  assumes columns: "numbers_fit Ts zs" and few: "length Ts < 2 ^ 16"
  shows "\<exists>row. data_row_parse (enc_data_row (number_columns Ts zs)) = Ok row \<and>
    ref_from_row_binary (map LengthPrefixed Ts) cols row =
      (if None \<in> set zs then Err (Decode ''Row data too small: expected {} bytes, got {}'')
       else Ok (map2 (\<lambda>T z. Prefixed (word_of_nat (WIRE_SIZE T)) (Number (the z))) Ts zs))"
proof -
  have "length (number_columns Ts zs) < 2 ^ 16" using few by simp
  from data_row_parse_enc [OF this] obtain row where
    row: "data_row_parse (enc_data_row (number_columns Ts zs)) = Ok row"
      "columns_data row = concat (map enc_value (number_columns Ts zs))" by blast
  show ?thesis
  proof (cases "None \<in> set zs")
    case True
    then show ?thesis using row length_number_columns(2) columns by (simp add: ref_from_row_binary_eq numbers_fit_def list_all2_lengthD)
  next
    case False
    then obtain xs where xs: "zs = map Some xs" by (metis ex_map_conv not_None_eq)
    have "list_all2 (\<lambda>T z. wire_fits T z) Ts xs"
      using columns by (simp add: numbers_fit_def xs list.rel_map)
    from view_number_columns(1) [OF this, of "[]"] view_number_columns(2) [OF this] show ?thesis
      using row False by (simp add: ref_from_row_binary_eq xs zip_map2 case_prod_unfold comp_def)
  qed
qed

lemma word_of_nat_size:
  assumes "m < 2 ^ 31" "n < 2 ^ 31"
  shows "(word_of_nat m :: i32) = word_of_nat n \<longleftrightarrow> m = n"
    "(word_of_nat m :: i32) \<noteq> -1" "-1 \<noteq> (word_of_nat m :: i32)"
proof -
  show "(word_of_nat m :: i32) = word_of_nat n \<longleftrightarrow> m = n"
    using usize_of_length [OF assms(1)] usize_of_length [OF assms(2)] by metis
  have "usize_of_i32 (-1) \<noteq> m" using assms(1)
    by (simp add: usize_of_i32_def unsigned_minus_1_eq_mask mask_eq_exp_minus_1)
  then show "(word_of_nat m :: i32) \<noteq> -1" using usize_of_length [OF assms(1)] by metis
  then show "-1 \<noteq> (word_of_nat m :: i32)" by metis
qed

lemma ref_view_checked:
  assumes "list_all good_value vs" and "\<forall>T \<in> set Ts. WIRE_SIZE T < 2 ^ 31"
    and "expected_size (map LengthPrefixed Ts) \<le> length (concat (map enc_value vs))"
  shows "list_all2 (\<lambda>T w. lp_len w = word_of_nat (WIRE_SIZE T)) Ts
      (view_struct (map LengthPrefixed Ts) (concat (map enc_value vs))) \<longleftrightarrow>
    (\<exists>ds more. vs = map Some ds @ more \<and> list_all2 (\<lambda>T d. length d = WIRE_SIZE T) Ts ds \<and>
       view_struct (map LengthPrefixed Ts) (concat (map enc_value vs)) =
         map2 (\<lambda>T d. Prefixed (word_of_nat (WIRE_SIZE T)) (view_bytes T d)) Ts ds)"
  using assms
proof (induction Ts arbitrary: vs)
  case Nil
  then show ?case by auto
next
  case (Cons T Ts)
  then obtain v vs' where vs: "vs = v # vs'"
    using wire_size_pos [of T] by (cases vs) (auto simp: expected_size_Cons)
  show ?case
  proof (cases "\<exists>d. v = Some d \<and> length d = WIRE_SIZE T")
    case True
    then obtain d where d: "v = Some d" "length d = WIRE_SIZE T" by blast
    have "expected_size (map LengthPrefixed Ts) \<le> length (concat (map enc_value vs'))"
      using Cons.prems(3) d by (simp add: vs expected_size_Cons enc_value_simps)
    note IH = Cons.IH [OF _ _ this]
    have "view_struct (map LengthPrefixed (T # Ts)) (concat (map enc_value vs)) =
        Prefixed (word_of_nat (WIRE_SIZE T)) (view_bytes T d) #
        view_struct (map LengthPrefixed Ts) (concat (map enc_value vs'))"
      using d by (simp add: vs enc_value_simps)
    moreover have "(\<exists>ds more. vs = map Some ds @ more \<and> list_all2 (\<lambda>T d. length d = WIRE_SIZE T) (T # Ts) ds \<and> P ds) \<longleftrightarrow>
        (\<exists>ds more. vs' = map Some ds @ more \<and> list_all2 (\<lambda>T d. length d = WIRE_SIZE T) Ts ds \<and> P (d # ds))" for P
    proof
      assume "\<exists>ds more. vs = map Some ds @ more \<and> list_all2 (\<lambda>T d. length d = WIRE_SIZE T) (T # Ts) ds \<and> P ds"
      then show "\<exists>ds more. vs' = map Some ds @ more \<and> list_all2 (\<lambda>T d. length d = WIRE_SIZE T) Ts ds \<and> P (d # ds)"
        using d by (auto simp: vs list_all2_Cons1) blast
    next
      assume "\<exists>ds more. vs' = map Some ds @ more \<and> list_all2 (\<lambda>T d. length d = WIRE_SIZE T) Ts ds \<and> P (d # ds)"
      then obtain ds more where "vs' = map Some ds @ more" "list_all2 (\<lambda>T d. length d = WIRE_SIZE T) Ts ds" "P (d # ds)"
        by blast
      then show "\<exists>ds more. vs = map Some ds @ more \<and> list_all2 (\<lambda>T d. length d = WIRE_SIZE T) (T # Ts) ds \<and> P ds"
        using d by (intro exI [of _ "d # ds"] exI [of _ more]) (simp add: vs)
    qed
    ultimately show ?thesis using IH Cons.prems(1,2) by (simp add: vs)
  next
    case False
    have "lp_len (hd (view_struct (map LengthPrefixed (T # Ts)) (concat (map enc_value vs)))) =
        (case v of None \<Rightarrow> -1 | Some d \<Rightarrow> word_of_nat (length d))"
      by (cases v) (simp_all add: vs enc_value_simps)
    also have "\<dots> \<noteq> word_of_nat (WIRE_SIZE T)"
      using False Cons.prems(1,2) word_of_nat_size [of "WIRE_SIZE T"] word_of_nat_size [of "length d" "WIRE_SIZE T" for d]
      by (auto simp: vs good_value_def split: option.splits)
    finally have "lp_len (hd (view_struct (map LengthPrefixed (T # Ts)) (concat (map enc_value vs)))) \<noteq>
        word_of_nat (WIRE_SIZE T)" .
    then show ?thesis using False by (auto simp: vs list_all2_Cons1 Cons_eq_append_conv)
  qed
qed

text \<open>
  C37: The generated \<open>ref_from_row_binary\<close> looks neither at the number of columns nor at their
  lengths, but its fields show what was read: over any row it accepts, every field's \<open>len\<close> is its
  declared width exactly when the row starts with a column of that width, not NULL, for each field,
  and then each field is the view of its own column.
\<close>

theorem ref_row_checked:
  assumes good: "list_all good_value vs" "length vs < 2 ^ 16"
    and types: "\<forall>T \<in> set Ts. WIRE_SIZE T < 2 ^ 31"
    and row: "data_row_parse (enc_data_row vs) = Ok row"
    and accepted: "ref_from_row_binary (map LengthPrefixed Ts) cols row = Ok ws"
  shows "list_all2 (\<lambda>T w. lp_len w = word_of_nat (WIRE_SIZE T)) Ts ws \<longleftrightarrow>
    (\<exists>ds more. vs = map Some ds @ more \<and> list_all2 (\<lambda>T d. length d = WIRE_SIZE T) Ts ds \<and>
       ws = map2 (\<lambda>T d. Prefixed (word_of_nat (WIRE_SIZE T)) (view_bytes T d)) Ts ds)"
proof -
  from data_row_parse_enc [OF good(2)] row have "columns_data row = concat (map enc_value vs)" by simp
  with accepted have ws: "expected_size (map LengthPrefixed Ts) \<le> length (concat (map enc_value vs))"
      "ws = view_struct (map LengthPrefixed Ts) (concat (map enc_value vs))"
    by (auto simp: ref_from_row_binary_eq split: if_splits)
  show ?thesis unfolding ws(2) by (rule ref_view_checked [OF good(1) types ws(1)])
qed

text \<open>
  A row of three columns, the first of them NULL, read as a struct of two \<open>i32\<close>: accepted, the
  first field with the length of the second column as its value, the second with the second
  column's value as its length and the third column's length as its value.
\<close>

definition null_row0 :: "bytes option list" where
  "null_row0 = [None, Some [0, 0, 0, 7], Some [0, 0, 0, 9]]"

lemma null_row_misread:
  "\<exists>row. data_row_parse (enc_data_row null_row0) = Ok row \<and>
     ref_from_row_binary [LengthPrefixed I32BE, LengthPrefixed I32BE] cols row =
       Ok [Prefixed (-1) (Number 4), Prefixed 7 (Number 4)]"
proof -
  obtain row where row: "data_row_parse (enc_data_row null_row0) = Ok row"
      "columns_data row = concat (map enc_value null_row0)"
    using data_row_parse_enc [of null_row0] by (auto simp: null_row0_def)
  then show ?thesis
    by (simp add: ref_from_row_binary_eq expected_size_def null_row0_def enc_value_simps
        to_be_bytes_def nat_be_numeral from_be_bytes_def be_nat_def unsigned_minus_1_eq_mask
        mask_eq_exp_minus_1)
qed

theorem ref_row_checked_witness:
  "\<exists>row ws. data_row_parse (enc_data_row null_row0) = Ok row \<and>
     ref_from_row_binary [LengthPrefixed I32BE, LengthPrefixed I32BE] [] row = Ok ws \<and>
     \<not> list_all2 (\<lambda>T w. lp_len w = word_of_nat (WIRE_SIZE T)) [I32BE, I32BE] ws"
proof -
  obtain row where row: "data_row_parse (enc_data_row null_row0) = Ok row"
      "ref_from_row_binary (map LengthPrefixed [I32BE, I32BE]) [] row =
        Ok [Prefixed (-1) (Number 4), Prefixed 7 (Number 4)]"
    using null_row_misread [of "[]"] by auto
  have good: "list_all good_value null_row0" "length null_row0 < 2 ^ 16"
      "\<forall>T \<in> set [I32BE, I32BE]. WIRE_SIZE T < 2 ^ 31"
    by (simp_all add: null_row0_def good_value_def)
  from ref_row_checked [OF good row] have
    "\<not> list_all2 (\<lambda>T w. lp_len w = word_of_nat (WIRE_SIZE T)) [I32BE, I32BE]
       [Prefixed (-1) (Number 4), Prefixed 7 (Number 4)]"
    by (simp add: null_row0_def list_all2_Cons1 Cons_eq_append_conv Cons_eq_map_conv)
  then show ?thesis using row by auto
qed

theorem ref_row_exact_witness:
  "\<exists>row. data_row_parse (enc_data_row (number_columns [I32BE, I64BE] [Some 42, Some (-1)])) = Ok row \<and>
     ref_from_row_binary [LengthPrefixed I32BE, LengthPrefixed I64BE] [] row =
       Ok [Prefixed 4 (Number 42), Prefixed 8 (Number (-1))]"
  using ref_row_exact [of "[I32BE, I64BE]" "[Some 42, Some (-1)]" "[]"] by (simp add: numbers_fit_def)

end
