(* ===== verification/Spec2Isabelle.thy ===== *)
theory Spec2Isabelle
  imports Opts MessageFacts StartupExchange ExtendedExchange TransactionFacts PipelineFacts Numeric
    TypedExchange CalendarFacts PoolFacts TokioPoolFacts AsyncRefines TokioPipelineFacts CompioPoolFacts RowStructs
begin

text \<open>
  A model of zero-postgres, a PostgreSQL client library, and what makes it correct.

  The library has a layer of messages (\<open>src/protocol\<close>), a layer of state machines that decide
  what to do with a message without doing any I/O (\<open>src/state\<close>), and connections that perform
  the I/O the machines ask for (\<open>src/sync\<close>, and its asynchronous twins). The theories follow
  these layers.

  Messages. \<open>Codec\<close> is \<open>protocol/codec.rs\<close>, \<open>ProtoTypes\<close> is \<open>protocol/types.rs\<close>, \<open>Frontend\<close>
  and \<open>Scram\<close> are \<open>protocol/frontend\<close>, \<open>Backend\<close> is \<open>protocol/backend\<close>. A parser takes the
  bytes and returns a value with the rest, an error, or a panic. \<open>WireFacts\<close> and
  \<open>MessageFacts\<close> relate them to the wire format: Bind reads back as what was bound, and each
  parser accepts exactly the encodings of what it returns.

  Machines. \<open>StateMachine\<close> has the buffers, actions and handlers they share; \<open>SimpleQuery\<close>,
  \<open>ExtendedQuery\<close>, \<open>BatchPrepare\<close> and \<open>Startup\<close> are the machines, one definition per method. A
  step returns the action with the new machine and buffers on every path. \<open>Startup\<close> states the
  startup protocol as an inductive transition relation and shows that the machine's steps are its
  transitions; \<open>StartupFacts\<close> draws the security properties from runs of it.

  Connections. \<open>SyncStream\<close> has the stream and the connection record; \<open>Driver\<close> the loops that
  perform actions, as \<open>partial_function\<close>s, with the locale \<open>query_machine\<close>: what a machine must
  promise so that the loop returns and stops at the boundary of its exchange. \<open>Feed\<close> runs a
  machine on a list of messages and lets an exchange be stated without its asynchronous
  messages (locale \<open>async_machine\<close>). \<open>SyncConn\<close> and \<open>SyncPortal\<close> are the methods of
  \<open>sync/conn.rs\<close>, with transactions and portals; \<open>Pipeline\<close> is \<open>sync/pipeline/mod.rs\<close>.
  \<open>StartupExchange\<close>, \<open>SimpleExchange\<close>, \<open>ExtendedExchange\<close>, \<open>PortalFacts\<close>, \<open>TransactionFacts\<close> and \<open>PipelineFacts\<close>
  say what each does against a server: functional results for the answers a server may give,
  and for arbitrary bytes that the connection ends at a message boundary or is marked broken.

  \<open>Connecting\<close> has \<open>Conn::new\<close>, the upgrade to a Unix socket and the destructor. \<open>Pool\<close> is
  \<open>sync/pool.rs\<close> and \<open>buffer_pool.rs\<close>: what the threads share changes in atomic steps, and a
  world is a pool with any number of clients, interleaved in any order. \<open>PoolFacts\<close> has its
  invariant and what a waiting client can rely on.

  The asynchronous connection. \<open>TokioConn\<close> and \<open>TokioPortal\<close> are \<open>src/tokio\<close>: a method is a
  function of a budget, how much it may transfer before its future is dropped, so every budget
  is a point of cancellation. \<open>TokioFacts\<close> relates the asynchronous stream and loops to the
  synchronous ones, \<open>CancelFacts\<close> shows that an exchange that was cut off is never lost
  sight of, \<open>AsyncRefines\<close> that with enough budget a query does what the synchronous one does.
  \<open>TokioPipeline\<close> is the asynchronous pipeline; \<open>TokioPipelineFacts\<close> keeps the books of Sync
  written and ReadyForQuery read through every method and every point of cancellation. \<open>TokioConnect\<close> has \<open>Conn::new\<close>,
  \<open>TokioPool\<close> is \<open>tokio/pool.rs\<close> with its cancelled tasks and the ones its destructor spawns;
  \<open>TokioPoolFacts\<close> shows that it loses no permit and starves nobody.

  The second asynchronous connection. \<open>CompioStream\<close> is \<open>compio/stream.rs\<close>: a read buffer that is
  compacted and filled with whatever has arrived, and I/O that owns its buffers while it runs, so
  that a dropped future loses them. \<open>CompioConn\<close> and \<open>CompioPipeline\<close> repeat the methods over it, as
  the code does. \<open>CompioStreamFacts\<close> reads the buffered connection as a tokio connection whose stream is
  the unread bytes; \<open>CompioFacts\<close> proves, by a simulation of futures, that every method then does
  what the tokio method does, or fails and leaves a connection that refuses further calls.
  \<open>CompioReads\<close> has the converse for futures that are not dropped: a read takes exactly the next
  message however it arrives, and a query does what the synchronous query does. \<open>CompioSafety\<close> carries
  cancellation and the message boundary over, and shows what happens if \<open>read\<close> does not append.
  \<open>CompioConnect\<close> has \<open>Conn::new\<close> and \<open>CompioConnectFacts\<close> shows that it opens what the server
  accepts; \<open>CompioPool\<close> is \<open>compio/pool.rs\<close>, which has no limit, and \<open>CompioPoolFacts\<close> says what is
  bounded and what is not.

  Values. \<open>WireValue\<close> is \<open>src/conversion\<close>: the traits as records of functions, options, slices
  and tuples, and the implementations for booleans, integers, strings, byte strings and UUIDs;
  \<open>Numeric\<close> is \<open>numeric_to_string\<close>. \<open>ConversionFacts\<close> has the round trips and bounds,
  \<open>TypedExchange\<close> a statement's rows decoded into tuples end to end. \<open>RowStructs\<close> has the
  code that \<open>zero-postgres-derive\<close> generates for structs, by column name and in place. \<open>Calendar\<close> is \<open>chrono.rs\<close>
  and \<open>time.rs\<close> over the two crates as parameters; \<open>CalendarFacts\<close> says, for the crates'
  documented laws, which instant every wire value becomes.

  \<open>Opts\<close> is \<open>opts.rs\<close>; \<open>Prelude\<close> and \<open>StdStr\<close> hold results, errors, big-endian numbers and the
  string functions of the standard library. \<open>Samples\<close> has the values of the witnesses.

  Strings are UTF-8 byte lists. Cryptography, base64 and UTF-8 validation are parameters (the
  record \<open>ext\<close>). Messages of errors are their format templates. No fuel is used (the budget of
  a future is cancellation, and covers every value): loops are structural, terminate by the input they consume, or are \<open>partial_function\<close>s proved to return.

  Not modelled: sockets, TLS sessions, the asynchronous runtimes, floating point numbers, and the
  decimal type of a third-party crate.
\<close>

end
